(* ===== verification/Prelude.thy ===== *)
theory Prelude
  imports Main "HOL-Library.State_Monad" "HOL-Library.Char_ord"
begin

text \<open>
  Shared vocabulary of the development.

  The services are written in Go. Their functions are modelled as HOL functions over the Go
  values they use: a \<open>string\<close> is a byte list, an \<open>int\<close> is an integer (the widths matter nowhere
  in the modelled code before 2 to the 63 and the conversions that truncate are written out), a
  \<open>time.Duration\<close> is an integer number of nanoseconds and a \<open>time.Time\<close> the number of
  nanoseconds since the zero time of Go (1 January of year 1, UTC), so that \<open>IsZero\<close> is
  comparison with 0.

  A function that talks to something outside the repository (PostgreSQL through gorm, Redis,
  the clock, a random source) is an action of the state monad over a type \<open>'w\<close> of worlds about
  which nothing is known but what the laws of the theory Services say.

  The second part holds the functions of the packages \<open>strings\<close>, \<open>strconv\<close> and \<open>fmt\<close> that the
  sources use, and their lemmas.
\<close>

section \<open>Actions and results\<close>

abbreviation ret :: "'a \<Rightarrow> ('w, 'a) state" where
  "ret \<equiv> State_Monad.return"

named_theorems go_defs \<open>definitions that a proof about one call unfolds\<close>
named_theorems laws \<open>consequences of the laws of the services, as destruction rules\<close>

text \<open>The world after an action, and its result.\<close>

definition after :: "('w, 'a) state \<Rightarrow> 'w \<Rightarrow> 'w" where
  "after m w = snd (run_state m w)"

definition result :: "('w, 'a) state \<Rightarrow> 'w \<Rightarrow> 'a" where
  "result m w = fst (run_state m w)"

lemma run_state_result_after: "run_state m w = (result m w, after m w)"
  by (simp add: result_def after_def)

lemma after_bind [simp]: "after (m \<bind> k) w = after (k (result m w)) (after m w)"
  by (simp add: after_def result_def split: prod.split)

lemma result_bind [simp]: "result (m \<bind> k) w = result (k (result m w)) (after m w)"
  by (simp add: after_def result_def split: prod.split)

lemma after_ret [simp]: "after (ret a) w = w"
  by (simp add: after_def)

lemma result_ret [simp]: "result (ret a) w = a"
  by (simp add: result_def)

text \<open>\<open>x, err := m; if err != nil { return err }\<close>.\<close>

definition and_then :: "('w, 'e + 'a) state \<Rightarrow> ('a \<Rightarrow> ('w, 'e + 'b) state) \<Rightarrow> ('w, 'e + 'b) state" where
  "and_then m k = do { r \<leftarrow> m; case r of Inl e \<Rightarrow> ret (Inl e) | Inr x \<Rightarrow> k x }"

lemma after_and_then [simp]:
  "after (and_then m k) w = (case result m w of Inl e \<Rightarrow> after m w | Inr x \<Rightarrow> after (k x) (after m w))"
  by (simp add: and_then_def split: sum.split)

lemma result_and_then [simp]:
  "result (and_then m k) w = (case result m w of Inl e \<Rightarrow> Inl e | Inr x \<Rightarrow> result (k x) (after m w))"
  by (simp add: and_then_def split: sum.split)

text \<open>\<open>for _, x := range xs { f(x) }\<close>: the body is run on every element in order.\<close>

primrec for_each :: "'a list \<Rightarrow> ('a \<Rightarrow> ('w, unit) state) \<Rightarrow> ('w, unit) state" where
  "for_each [] f = ret ()"
| "for_each (x # xs) f = do { f x; for_each xs f }"

lemma for_each_append: "for_each (xs @ ys) f = do { for_each xs f; for_each ys f }"
  by (induction xs) simp_all

text \<open>
  The rule for loops: a property of the world that the body keeps, for the elements of the
  list, is kept by the loop.
\<close>

lemma for_each_inv:
  assumes "\<And>x u. x \<in> set xs \<Longrightarrow> P u \<Longrightarrow> P (after (f x) u)" and "P w"
  shows "P (after (for_each xs f) w)"
  using assms by (induction xs arbitrary: w) simp_all

lemma for_each_fold:
  assumes "\<And>x u. x \<in> set xs \<Longrightarrow> view (after (f x) u) = g x (view u)"
  shows "view (after (for_each xs f) w) = fold g xs (view w)"
  using assms by (induction xs arbitrary: w) simp_all

section \<open>Durations and times\<close>

type_synonym duration = int
type_synonym time = int

definition Nanosecond :: duration where "Nanosecond = 1"
definition Millisecond :: duration where "Millisecond = 1000000"
definition Second :: duration where "Second = 1000000000"
definition Minute :: duration where "Minute = 60 * Second"
definition Hour :: duration where "Hour = 60 * Minute"

lemmas duration_defs = Nanosecond_def Millisecond_def Second_def Minute_def Hour_def

text \<open>\<open>Time.Unix\<close>: whole seconds since 1 January 1970.\<close>

definition Unix :: "time \<Rightarrow> int" where
  "Unix t = t div Second - 62135596800"

text \<open>\<open>Duration.Round\<close>: to the nearest multiple, halfway values away from zero.\<close>

definition dur_Round :: "duration \<Rightarrow> duration \<Rightarrow> duration" where
  "dur_Round d m =
     (if m \<le> 0 then d
      else if d < 0 then (let r = (- d) mod m in if 2 * r < m then d + r else d - m + r)
      else (let r = d mod m in if 2 * r < m then d - r else d + m - r))"

lemma dur_Round_pos_iff:
  assumes "0 < m"
  shows "0 < dur_Round d m \<longleftrightarrow> m \<le> 2 * d"
proof (cases "d < 0")
  case True
  have "0 \<le> (- d) mod m" and "(- d) mod m < m" and "(- d) mod m \<le> - d"
    using True assms by (auto intro: zmod_le_nonneg_dividend)
  with True assms show ?thesis by (auto simp: dur_Round_def Let_def)
next
  case False
  have b: "0 \<le> d mod m" "d mod m < m" using assms by simp_all
  show ?thesis
  proof (cases "d < m")
    case True
    with False have "d mod m = d" by simp
    with True False assms show ?thesis by (auto simp: dur_Round_def Let_def)
  next
    case ge: False
    have "d mod m \<le> d - m"
      using ge assms by (metis b(1) diff_ge_0_iff_ge linorder_not_less minus_mod_self2
          zmod_le_nonneg_dividend)
    with b obtain r where r: "d mod m = r" "0 \<le> r" "r < m" "r \<le> d - m" by blast
    with ge assms False show ?thesis by (auto simp: dur_Round_def Let_def)
  qed
qed

lemma dur_Round_close:
  assumes "0 < m"
  shows "\<bar>2 * (dur_Round d m - d)\<bar> \<le> m"
proof -
  obtain r s where "d mod m = r" "0 \<le> r" "r < m" "(- d) mod m = s" "0 \<le> s" "s < m"
    using assms pos_mod_bound pos_mod_sign by blast
  with assms show ?thesis by (auto simp: dur_Round_def Let_def abs_le_iff)
qed

end
