(* ===== verification/Go_Strings.thy ===== *)
theory Go_Strings
  imports Prelude
begin

text \<open>
  The functions of the Go packages \<open>strings\<close>, \<open>strconv\<close> and \<open>fmt\<close> that the services call, on
  strings as byte lists, with the lemmas the components use. White space is what
  \<open>unicode.IsSpace\<close> accepts, in its UTF-8 encoding. The case conversions change the ASCII
  letters and the four other code points whose image is an ASCII letter; every other byte
  sequence is left as it is, which no comparison with an ASCII constant can tell from the image
  that Go computes.
\<close>

section \<open>Prefixes, substrings, splitting\<close>

definition HasPrefix :: "string \<Rightarrow> string \<Rightarrow> bool" where
  "HasPrefix s p \<longleftrightarrow> take (length p) s = p"

definition TrimPrefix :: "string \<Rightarrow> string \<Rightarrow> string" where
  "TrimPrefix s p = (if HasPrefix s p then drop (length p) s else s)"

fun Contains :: "string \<Rightarrow> string \<Rightarrow> bool" where
  "Contains [] p \<longleftrightarrow> p = []"
| "Contains (c # s) p \<longleftrightarrow> HasPrefix (c # s) p \<or> Contains s p"

text \<open>\<open>strings.Split(s, sep)\<close> for a separator of one byte.\<close>

fun Split :: "string \<Rightarrow> char \<Rightarrow> string list" where
  "Split [] c = [[]]"
| "Split (x # xs) c =
     (if x = c then [] # Split xs c
      else (case Split xs c of [] \<Rightarrow> [[x]] | p # ps \<Rightarrow> (x # p) # ps))"

text \<open>\<open>strings.SplitN(s, sep, 2)\<close> for a separator of one byte.\<close>

fun Split2 :: "string \<Rightarrow> char \<Rightarrow> string list" where
  "Split2 [] c = [[]]"
| "Split2 (x # xs) c =
     (if x = c then [[], xs]
      else (case Split2 xs c of [] \<Rightarrow> [[x]] | p # ps \<Rightarrow> (x # p) # ps))"

lemma HasPrefix_append [simp]: "HasPrefix (p @ s) p"
  by (simp add: HasPrefix_def)

lemma HasPrefix_iff: "HasPrefix s p \<longleftrightarrow> (\<exists>t. s = p @ t)"
  by (metis HasPrefix_append HasPrefix_def append_take_drop_id)

lemma HasPrefix_Nil [simp]: "HasPrefix s []"
  by (simp add: HasPrefix_def)

lemma HasPrefix_Cons [simp]:
  "HasPrefix [] (p # ps) \<longleftrightarrow> False"
  "HasPrefix (c # s) (p # ps) \<longleftrightarrow> c = p \<and> HasPrefix s ps"
  by (auto simp: HasPrefix_def)

lemma TrimPrefix_append [simp]: "TrimPrefix (p @ s) p = s"
  by (simp add: TrimPrefix_def)

lemma Contains_iff: "Contains s p \<longleftrightarrow> (\<exists>a b. s = a @ p @ b)"
proof (induction s)
  case (Cons c s)
  show ?case
  proof
    assume "Contains (c # s) p"
    then consider "HasPrefix (c # s) p" | "Contains s p" by auto
    then show "\<exists>a b. c # s = a @ p @ b"
    proof cases
      case 1
      then obtain t where "c # s = p @ t" by (auto simp: HasPrefix_iff)
      then have "c # s = [] @ p @ t" by simp
      then show ?thesis by blast
    next
      case 2
      with Cons.IH obtain a b where "s = a @ p @ b" by auto
      then have "c # s = (c # a) @ p @ b" by simp
      then show ?thesis by blast
    qed
  next
    assume "\<exists>a b. c # s = a @ p @ b"
    then obtain a b where ab: "c # s = a @ p @ b" by auto
    show "Contains (c # s) p"
    proof (cases a)
      case Nil
      with ab have "HasPrefix (c # s) p" by simp
      then show ?thesis by simp
    next
      case (Cons d a')
      with ab have "s = a' @ p @ b" by simp
      with Cons.IH show ?thesis by auto
    qed
  qed
qed simp

lemma Split_nonempty [simp]: "Split s c \<noteq> []"
  by (induction s) (auto split: list.split)

lemma Split_no_sep: "c \<notin> set s \<Longrightarrow> Split s c = [s]"
  by (induction s) auto

lemma Split_app: "c \<notin> set s \<Longrightarrow> Split (s @ c # t) c = s # Split t c"
  by (induction s) auto

lemma Split2_app: "c \<notin> set s \<Longrightarrow> Split2 (s @ c # t) c = [s, t]"
  by (induction s) auto

lemma Split2_no_sep: "c \<notin> set s \<Longrightarrow> Split2 s c = [s]"
  by (induction s) auto

section \<open>Case\<close>

definition lower_byte :: "char \<Rightarrow> char" where
  "lower_byte c = (let n = of_char c :: nat in if 65 \<le> n \<and> n \<le> 90 then char_of (n + 32) else c)"

definition upper_byte :: "char \<Rightarrow> char" where
  "upper_byte c = (let n = of_char c :: nat in if 97 \<le> n \<and> n \<le> 122 then char_of (n - 32) else c)"

fun ToLower :: "string \<Rightarrow> string" where
  "ToLower [] = []"
| "ToLower (c # s) =
     (if HasPrefix (c # s) [CHR 0xC4, CHR 0xB0] then CHR ''i'' # ToLower (drop 1 s)
      else if HasPrefix (c # s) [CHR 0xE2, CHR 0x84, CHR 0xAA] then CHR ''k'' # ToLower (drop 2 s)
      else lower_byte c # ToLower s)"

fun ToUpper :: "string \<Rightarrow> string" where
  "ToUpper [] = []"
| "ToUpper (c # s) =
     (if HasPrefix (c # s) [CHR 0xC4, CHR 0xB1] then CHR ''I'' # ToUpper (drop 1 s)
      else if HasPrefix (c # s) [CHR 0xC5, CHR 0xBF] then CHR ''S'' # ToUpper (drop 1 s)
      else upper_byte c # ToUpper s)"

section \<open>Trimming\<close>

definition ascii_spaces :: "char list" where
  "ascii_spaces = [CHR 0x09, CHR 0x0A, CHR 0x0B, CHR 0x0C, CHR 0x0D, CHR '' '']"

definition wide_spaces :: "string list" where
  "wide_spaces =
     [[CHR 0xC2, CHR 0x85], [CHR 0xC2, CHR 0xA0], [CHR 0xE1, CHR 0x9A, CHR 0x80],
      [CHR 0xE2, CHR 0x80, CHR 0x80], [CHR 0xE2, CHR 0x80, CHR 0x81],
      [CHR 0xE2, CHR 0x80, CHR 0x82], [CHR 0xE2, CHR 0x80, CHR 0x83],
      [CHR 0xE2, CHR 0x80, CHR 0x84], [CHR 0xE2, CHR 0x80, CHR 0x85],
      [CHR 0xE2, CHR 0x80, CHR 0x86], [CHR 0xE2, CHR 0x80, CHR 0x87],
      [CHR 0xE2, CHR 0x80, CHR 0x88], [CHR 0xE2, CHR 0x80, CHR 0x89],
      [CHR 0xE2, CHR 0x80, CHR 0x8A], [CHR 0xE2, CHR 0x80, CHR 0xA8],
      [CHR 0xE2, CHR 0x80, CHR 0xA9], [CHR 0xE2, CHR 0x80, CHR 0xAF],
      [CHR 0xE2, CHR 0x81, CHR 0x9F], [CHR 0xE3, CHR 0x80, CHR 0x80]]"

text \<open>
  The number of bytes of the white space rune at the front of a string, 0 if there is none;
  \<open>seqs\<close> are the encodings of more than one byte, reversed for the back of a string.
\<close>

definition space_len :: "string list \<Rightarrow> string \<Rightarrow> nat" where
  "space_len seqs s =
     (case s of [] \<Rightarrow> 0
      | c # _ \<Rightarrow> if c \<in> set ascii_spaces then 1
                 else if take 2 s \<in> set seqs then 2
                 else if take 3 s \<in> set seqs then 3 else 0)"

function strip :: "string list \<Rightarrow> string \<Rightarrow> string" where
  "strip seqs s = (if space_len seqs s = 0 then s else strip seqs (drop (space_len seqs s) s))"
  by pat_completeness auto
termination
  by (relation "measure (length \<circ> snd)") (auto simp: space_len_def split: list.splits if_splits)

declare strip.simps [simp del]

definition TrimSpace :: "string \<Rightarrow> string" where
  "TrimSpace s = rev (strip (map rev wide_spaces) (rev (strip wide_spaces s)))"

lemma strip_stop: "space_len seqs (strip seqs s) = 0"
  by (induction seqs s rule: strip.induct) (subst strip.simps, auto)

lemma strip_idem [simp]: "space_len seqs s = 0 \<Longrightarrow> strip seqs s = s"
  by (simp add: strip.simps)

lemma strip_Nil [simp]: "strip seqs [] = []"
  by (simp add: space_len_def)

lemma TrimSpace_Nil [simp]: "TrimSpace [] = []"
  by (simp add: TrimSpace_def)

lemma strip_suffix: "\<exists>u. s = u @ strip seqs s"
proof (induction seqs s rule: strip.induct)
  case (1 seqs s)
  show ?case
  proof (cases "space_len seqs s = 0")
    case False
    with 1 obtain u where "drop (space_len seqs s) s = u @ strip seqs (drop (space_len seqs s) s)"
      by blast
    with False have "s = (take (space_len seqs s) s @ u) @ strip seqs s"
      by (metis append.assoc append_take_drop_id strip.simps)
    then show ?thesis by blast
  qed (simp add: strip.simps)
qed

text \<open>Cutting a string that starts with no space leaves one that starts with no space.\<close>

lemma space_len_prefix:
  assumes z: "space_len seqs (s @ t) = 0" and q: "\<forall>q \<in> set seqs. 2 \<le> length q"
  shows "space_len seqs s = 0"
proof (cases s)
  case (Cons c s')
  have c: "c \<notin> set ascii_spaces" and t2: "take 2 (s @ t) \<notin> set seqs"
    and t3: "take 3 (s @ t) \<notin> set seqs"
    using z Cons by (auto simp: space_len_def split: if_splits)
  have "take 2 s \<notin> set seqs"
  proof (cases "2 \<le> length s")
    case True
    with t2 show ?thesis by simp
  next
    case False
    with q show ?thesis by (metis length_take min.cobounded1 min.absorb_iff1 min_def)
  qed
  moreover have "take 3 s \<notin> set seqs"
  proof (cases "3 \<le> length s")
    case True
    with t3 show ?thesis by simp
  next
    case False
    then have "take 3 s = take 2 s" by simp
    with \<open>take 2 s \<notin> set seqs\<close> show ?thesis by simp
  qed
  ultimately show ?thesis using c Cons by (simp add: space_len_def)
qed (simp add: space_len_def)

lemma wide_spaces_length: "\<forall>q \<in> set wide_spaces. 2 \<le> length q"
  by (simp add: wide_spaces_def)

lemma TrimSpace_idem [simp]: "TrimSpace (TrimSpace s) = TrimSpace s"
proof -
  define t where "t = strip wide_spaces s"
  define u where "u = strip (map rev wide_spaces) (rev t)"
  obtain x where "rev t = x @ u" using strip_suffix u_def by blast
  then have t: "t = rev u @ rev x" by (metis rev_append rev_rev_ident)
  have "space_len wide_spaces t = 0" by (simp add: t_def strip_stop)
  with t have "space_len wide_spaces (rev u) = 0"
    using space_len_prefix wide_spaces_length by metis
  moreover have "space_len (map rev wide_spaces) u = 0" by (simp add: u_def strip_stop)
  ultimately have "TrimSpace (rev u) = rev u" by (simp add: TrimSpace_def)
  then show ?thesis by (simp add: TrimSpace_def t_def u_def)
qed

section \<open>Numbers\<close>

fun nat_digits :: "nat \<Rightarrow> string" where
  "nat_digits n =
     (if n < 10 then [char_of (48 + n)] else nat_digits (n div 10) @ [char_of (48 + n mod 10)])"

declare nat_digits.simps [simp del]

definition Itoa :: "int \<Rightarrow> string" where
  "Itoa n = (if n < 0 then CHR ''-'' # nat_digits (nat (- n)) else nat_digits (nat n))"

definition is_digit :: "char \<Rightarrow> bool" where
  "is_digit c \<longleftrightarrow> 48 \<le> (of_char c :: nat) \<and> (of_char c :: nat) \<le> 57"

definition digits_value :: "string \<Rightarrow> nat" where
  "digits_value s = foldl (\<lambda>a c. 10 * a + (of_char c - 48)) 0 s"

datatype num_error = ErrSyntax | ErrRange

text \<open>
  \<open>strconv.Atoi\<close> on a 64-bit platform: the value that is returned together with the error is
  part of the result, because some callers drop the error.
\<close>

definition Atoi :: "string \<Rightarrow> int \<times> num_error option" where
  "Atoi s =
     (let neg = HasPrefix s ''-'';
          ds = (if HasPrefix s ''-'' \<or> HasPrefix s ''+'' then drop 1 s else s)
      in if ds = [] \<or> \<not> list_all is_digit ds then (0, Some ErrSyntax)
         else let v = int (digits_value ds) in
           if neg then (if 2 ^ 63 < v then (- (2 ^ 63), Some ErrRange) else (- v, None))
           else (if 2 ^ 63 \<le> v then (2 ^ 63 - 1, Some ErrRange) else (v, None)))"

text \<open>
  \<open>fmt.Sscanf(s, "%d", &u)\<close> for an unsigned target: white space without a newline, then the
  longest run of digits.
\<close>

definition Sscanf_uint :: "string \<Rightarrow> nat option" where
  "Sscanf_uint s =
     (let t = strip wide_spaces s; ds = takeWhile is_digit t
      in if CHR 0x0A \<in> set (take (length s - length t) s) \<or> ds = [] \<or> 2 ^ 64 \<le> digits_value ds
         then None else Some (digits_value ds))"

definition ParseBool :: "string \<Rightarrow> bool option" where
  "ParseBool s =
     (if s \<in> {''1'', ''t'', ''T'', ''true'', ''TRUE'', ''True''} then Some True
      else if s \<in> {''0'', ''f'', ''F'', ''false'', ''FALSE'', ''False''} then Some False
      else None)"

lemma of_char_digit [simp]: "n < 10 \<Longrightarrow> of_char (char_of (48 + n) :: char) = (48 + n :: nat)"
  by simp

lemma nat_digits_nonempty [simp]: "nat_digits n \<noteq> []"
  by (subst nat_digits.simps) simp

lemma nat_digits_all_digit: "list_all is_digit (nat_digits n)"
proof (induction n rule: nat_digits.induct)
  case (1 n)
  show ?case
  proof (cases "n < 10")
    case True
    then show ?thesis by (subst nat_digits.simps) (simp add: is_digit_def)
  next
    case False
    with 1 have "list_all is_digit (nat_digits (n div 10))" by simp
    moreover have "is_digit (char_of (48 + n mod 10))" by (simp add: is_digit_def)
    ultimately show ?thesis using False by (subst nat_digits.simps) simp
  qed
qed

lemma digits_value_nat_digits [simp]: "digits_value (nat_digits n) = n"
proof (induction n rule: nat_digits.induct)
  case (1 n)
  show ?case
  proof (cases "n < 10")
    case True
    then show ?thesis by (subst nat_digits.simps) (simp add: digits_value_def)
  next
    case False
    with 1 have "digits_value (nat_digits (n div 10)) = n div 10" by simp
    with False show ?thesis by (subst nat_digits.simps) (simp add: digits_value_def)
  qed
qed

lemma nat_digits_no_sign:
  "\<not> HasPrefix (nat_digits n) ''-''" "\<not> HasPrefix (nat_digits n) ''+''"
proof -
  obtain c s where cs: "nat_digits n = c # s" by (meson nat_digits_nonempty list.exhaust)
  with nat_digits_all_digit [of n] have "is_digit c" by simp
  then have "c \<noteq> CHR ''-''" and "c \<noteq> CHR ''+''" by (auto simp: is_digit_def)
  with cs show "\<not> HasPrefix (nat_digits n) ''-''" "\<not> HasPrefix (nat_digits n) ''+''" by simp_all
qed

lemma Atoi_Itoa: "- (2 ^ 63) \<le> n \<Longrightarrow> n < 2 ^ 63 \<Longrightarrow> Atoi (Itoa n) = (n, None)"
  by (auto simp: Atoi_def Itoa_def Let_def nat_digits_all_digit nat_digits_no_sign)

lemma Itoa_inject: "Itoa m = Itoa n \<longleftrightarrow> m = n"
proof
  assume e: "Itoa m = Itoa n"
  show "m = n"
  proof (cases "m < 0"; cases "n < 0")
    assume "m < 0" "n < 0"
    with e have "digits_value (nat_digits (nat (- m))) = digits_value (nat_digits (nat (- n)))"
      by (simp add: Itoa_def)
    with \<open>m < 0\<close> \<open>n < 0\<close> show ?thesis by simp
  next
    assume "m < 0" "\<not> n < 0"
    with e show ?thesis
      by (metis HasPrefix_Cons(2) HasPrefix_Nil Itoa_def nat_digits_no_sign(1))
  next
    assume "\<not> m < 0" "n < 0"
    with e show ?thesis
      by (metis HasPrefix_Cons(2) HasPrefix_Nil Itoa_def nat_digits_no_sign(1))
  next
    assume "\<not> m < 0" "\<not> n < 0"
    with e have "digits_value (nat_digits (nat m)) = digits_value (nat_digits (nat n))"
      by (simp add: Itoa_def)
    with \<open>\<not> m < 0\<close> \<open>\<not> n < 0\<close> show ?thesis by simp
  qed
qed simp

lemma digit_not_space: "is_digit c \<Longrightarrow> c \<notin> set ascii_spaces"
  by (auto simp: is_digit_def ascii_spaces_def)

lemma digit_not_wide: "is_digit c \<Longrightarrow> c # s \<notin> set wide_spaces"
  by (auto simp: is_digit_def wide_spaces_def)

lemma strip_nat_digits [simp]: "strip wide_spaces (nat_digits n) = nat_digits n"
proof -
  obtain c s where cs: "nat_digits n = c # s" by (meson nat_digits_nonempty list.exhaust)
  with nat_digits_all_digit [of n] have "is_digit c" by simp
  then have "space_len wide_spaces (nat_digits n) = 0"
    using digit_not_space [of c] digit_not_wide [of c] cs by (simp add: space_len_def take_Cons')
  then show ?thesis by simp
qed

lemma Sscanf_uint_nat_digits: "n < 2 ^ 64 \<Longrightarrow> Sscanf_uint (nat_digits n) = Some n"
proof -
  assume n: "n < 2 ^ 64"
  have tw: "takeWhile is_digit (nat_digits n) = nat_digits n"
    using nat_digits_all_digit by (simp add: list_all_iff takeWhile_eq_all_conv)
  show ?thesis using n by (simp add: Sscanf_uint_def Let_def tw)
qed

definition ascii :: "string \<Rightarrow> bool" where
  "ascii s \<longleftrightarrow> list_all (\<lambda>c. of_char c < (128 :: nat)) s"

lemma ascii_digits: "list_all is_digit s \<Longrightarrow> ascii s"
  by (auto simp: ascii_def is_digit_def elim!: list.pred_mono_strong)

lemma ascii_Itoa: "ascii (Itoa n)"
  using ascii_digits [OF nat_digits_all_digit] by (auto simp: Itoa_def ascii_def)

lemma ascii_append [simp]: "ascii (s @ t) \<longleftrightarrow> ascii s \<and> ascii t"
  by (auto simp: ascii_def)

lemma ascii_simps [simp]: "ascii []" "ascii (c # s) \<longleftrightarrow> of_char c < (128 :: nat) \<and> ascii s"
  by (auto simp: ascii_def)

section \<open>Hexadecimal\<close>

text \<open>\<open>hex.EncodeToString\<close>: two lower case digits for each byte.\<close>

definition hex_digit :: "nat \<Rightarrow> char" where
  "hex_digit n = char_of (if n < 10 then 48 + n else 87 + n)"

definition hex_EncodeToString :: "string \<Rightarrow> string" where
  "hex_EncodeToString s =
     concat (map (\<lambda>c. [hex_digit (of_char c div 16), hex_digit (of_char c mod 16)]) s)"

lemma hex_digit_inject: "m < 16 \<Longrightarrow> n < 16 \<Longrightarrow> hex_digit m = hex_digit n \<longleftrightarrow> m = n"
proof
  assume "m < 16" "n < 16" "hex_digit m = hex_digit n"
  then have "of_char (hex_digit m) = (of_char (hex_digit n) :: nat)" by simp
  with \<open>m < 16\<close> \<open>n < 16\<close> show "m = n" by (simp add: hex_digit_def split: if_splits)
qed simp

lemma length_hex_EncodeToString [simp]: "length (hex_EncodeToString s) = 2 * length s"
  by (induction s) (simp_all add: hex_EncodeToString_def)

lemma hex_EncodeToString_inject [simp]: "hex_EncodeToString s = hex_EncodeToString t \<longleftrightarrow> s = t"
proof (induction s arbitrary: t)
  case Nil
  then show ?case by (cases t) (simp_all add: hex_EncodeToString_def)
next
  case (Cons c s)
  show ?case
  proof (cases t)
    case (Cons d t')
    have lt: "of_char c div 16 < (16 :: nat)" "of_char d div 16 < (16 :: nat)"
      by (simp_all add: less_mult_imp_div_less)
    have "hex_EncodeToString (c # s) = hex_EncodeToString t \<longleftrightarrow>
        of_char c div 16 = (of_char d div 16 :: nat) \<and> of_char c mod 16 = (of_char d mod 16 :: nat) \<and>
        hex_EncodeToString s = hex_EncodeToString t'"
      using lt Cons by (simp add: hex_EncodeToString_def hex_digit_inject)
    moreover have "of_char c div 16 = (of_char d div 16 :: nat) \<and> of_char c mod 16 = (of_char d mod 16 :: nat)
        \<longleftrightarrow> c = d"
      by (metis div_mult_mod_eq of_char_eq_iff)
    ultimately show ?thesis using Cons.IH Cons by auto
  qed (simp add: hex_EncodeToString_def)
qed

end
