(* ===== verification/Config.thy ===== *)
theory Config
  imports Go_Strings
begin

text \<open>
  The packages \<open>config\<close> of the services: settings read from the environment, from files that the
  environment names, or taken from defaults. Five services share the functions of \<open>env.go\<close>; the
  configuration of each is a record with the fields of the source.
\<close>

section \<open>The environment\<close>

text \<open>
  What \<open>godotenv.Load\<close> does is over when the functions below read the environment: \<open>os_env\<close> is
  the environment with the entries of the \<open>.env\<close> file. \<open>time.ParseDuration\<close> and
  \<open>strconv.ParseFloat\<close>, whose results go through floating point numbers, are parameters.
\<close>

record os_state =
  os_LookupEnv :: "string \<Rightarrow> string option"
  os_ReadFile :: "string \<Rightarrow> string option"
  os_ParseDuration :: "string \<Rightarrow> duration \<times> num_error option"

definition Getenv :: "os_state \<Rightarrow> string \<Rightarrow> string" where
  "Getenv env key = (case os_LookupEnv env key of None \<Rightarrow> [] | Some x \<Rightarrow> x)"

definition getEnv :: "os_state \<Rightarrow> string \<Rightarrow> string" where
  "getEnv env key =
     (let filePath = Getenv env (key @ ''_FILE'') in
      if filePath \<noteq> [] then
        (case os_ReadFile env filePath of Some content \<Rightarrow> TrimSpace content | None \<Rightarrow> Getenv env key)
      else Getenv env key)"

definition GetEnvDefault :: "os_state \<Rightarrow> string \<Rightarrow> string \<Rightarrow> string" where
  "GetEnvDefault env key fallback = (let val = getEnv env key in if val = [] then fallback else val)"

definition GetEnvBool :: "os_state \<Rightarrow> string \<Rightarrow> bool \<Rightarrow> bool \<times> num_error option" where
  "GetEnvBool env key fallback =
     (let val = getEnv env key in
      if val = [] then (fallback, None)
      else (case ParseBool val of None \<Rightarrow> (False, Some ErrSyntax) | Some b \<Rightarrow> (b, None)))"

definition GetEnvInt :: "os_state \<Rightarrow> string \<Rightarrow> int \<Rightarrow> int \<times> num_error option" where
  "GetEnvInt env key fallback = (let val = getEnv env key in if val = [] then (fallback, None) else Atoi val)"

definition GetEnvDuration :: "os_state \<Rightarrow> string \<Rightarrow> duration \<Rightarrow> duration \<times> num_error option" where
  "GetEnvDuration env key fallback =
     (let val = getEnv env key in if val = [] then (fallback, None) else os_ParseDuration env val)"

definition GetEnvFloat ::
  "os_state \<Rightarrow> (string \<Rightarrow> 'f \<times> num_error option) \<Rightarrow> string \<Rightarrow> 'f \<Rightarrow> 'f \<times> num_error option" where
  "GetEnvFloat env ParseFloat key fallback =
     (let val = Getenv env key in if val = [] then (fallback, None) else ParseFloat val)"

text \<open>\<open>if err != nil { x = d }\<close>.\<close>

definition on_err :: "'a \<times> num_error option \<Rightarrow> 'a \<Rightarrow> 'a" where
  "on_err p d = (case snd p of None \<Rightarrow> fst p | Some _ \<Rightarrow> d)"

text \<open>A setting that does not parse is an error, with the name of the setting.\<close>

datatype config_error = InvalidSetting string | MissingSetting string | NotPositive string

definition checked :: "string \<Rightarrow> 'a \<times> num_error option \<Rightarrow> config_error + 'a" where
  "checked key p = (case snd p of None \<Rightarrow> Inr (fst p) | Some _ \<Rightarrow> Inl (InvalidSetting key))"

definition bind_err :: "'e + 'a \<Rightarrow> ('a \<Rightarrow> 'e + 'b) \<Rightarrow> 'e + 'b" where
  "bind_err r k = (case r of Inl e \<Rightarrow> Inl e | Inr a \<Rightarrow> k a)"

section \<open>The connection to Redis\<close>

record RedisConfig =
  rcfg_Enabled :: bool
  rcfg_Addr :: string
  rcfg_Password :: string
  rcfg_DB :: int
  rcfg_DialTimeout :: duration
  rcfg_ReadTimeout :: duration
  rcfg_WriteTimeout :: duration
  rcfg_PoolSize :: int
  rcfg_MinIdleConns :: int
  rcfg_MaxRetries :: int

text \<open>The function is the same in \<open>sms-identity\<close>, \<open>sms-management\<close>, \<open>sms-monitoring\<close> and \<open>sms-reporting\<close>.\<close>

definition identity_LoadRedisConfig :: "os_state \<Rightarrow> config_error + RedisConfig" where
  "identity_LoadRedisConfig env =
     bind_err (checked ''REDIS_ENABLED'' (GetEnvBool env ''REDIS_ENABLED'' False)) (\<lambda>enabled.
     bind_err (checked ''REDIS_DB'' (GetEnvInt env ''REDIS_DB'' 0)) (\<lambda>db.
     bind_err (checked ''REDIS_DIAL_TIMEOUT'' (GetEnvDuration env ''REDIS_DIAL_TIMEOUT'' (5 * Second))) (\<lambda>dialTimeout.
     bind_err (checked ''REDIS_READ_TIMEOUT'' (GetEnvDuration env ''REDIS_READ_TIMEOUT'' (3 * Second))) (\<lambda>readTimeout.
     bind_err (checked ''REDIS_WRITE_TIMEOUT'' (GetEnvDuration env ''REDIS_WRITE_TIMEOUT'' (3 * Second))) (\<lambda>writeTimeout.
     bind_err (checked ''REDIS_POOL_SIZE'' (GetEnvInt env ''REDIS_POOL_SIZE'' 10)) (\<lambda>poolSize.
     bind_err (checked ''REDIS_MIN_IDLE_CONNS'' (GetEnvInt env ''REDIS_MIN_IDLE_CONNS'' 2)) (\<lambda>minIdleConns.
     bind_err (checked ''REDIS_MAX_RETRIES'' (GetEnvInt env ''REDIS_MAX_RETRIES'' 3)) (\<lambda>maxRetries.
     Inr \<lparr>rcfg_Enabled = enabled, rcfg_Addr = GetEnvDefault env ''REDIS_ADDR'' [],
       rcfg_Password = GetEnvDefault env ''REDIS_PASSWORD'' [], rcfg_DB = db, rcfg_DialTimeout = dialTimeout,
       rcfg_ReadTimeout = readTimeout, rcfg_WriteTimeout = writeTimeout, rcfg_PoolSize = poolSize,
       rcfg_MinIdleConns = minIdleConns, rcfg_MaxRetries = maxRetries\<rparr>))))))))"

definition management_LoadRedisConfig :: "os_state \<Rightarrow> config_error + RedisConfig" where
  "management_LoadRedisConfig = identity_LoadRedisConfig"

definition monitoring_LoadRedisConfig :: "os_state \<Rightarrow> config_error + RedisConfig" where
  "monitoring_LoadRedisConfig = identity_LoadRedisConfig"

definition reporting_LoadRedisConfig :: "os_state \<Rightarrow> config_error + RedisConfig" where
  "reporting_LoadRedisConfig = identity_LoadRedisConfig"

section \<open>Rate limits\<close>

record RateLimitConfig =
  rl_Enabled :: bool
  rl_Prefix :: string
  rl_DefaultLimit :: int
  rl_DefaultBurst :: int
  rl_DefaultPeriod :: duration
  rl_FailOpen :: bool

definition Validate :: "RateLimitConfig \<Rightarrow> config_error + unit" where
  "Validate c =
     (if \<not> rl_Enabled c then Inr ()
      else if rl_Prefix c = [] then Inl (MissingSetting ''RATE_LIMIT_PREFIX'')
      else if rl_DefaultLimit c \<le> 0 then Inl (NotPositive ''RATE_LIMIT_DEFAULT_LIMIT'')
      else if rl_DefaultBurst c \<le> 0 then Inl (NotPositive ''RATE_LIMIT_DEFAULT_BURST'')
      else if rl_DefaultPeriod c \<le> 0 then Inl (NotPositive ''RATE_LIMIT_DEFAULT_PERIOD'')
      else Inr ())"

definition LoadRateLimitConfig :: "os_state \<Rightarrow> config_error + RateLimitConfig" where
  "LoadRateLimitConfig env =
     bind_err (checked ''RATE_LIMIT_ENABLED'' (GetEnvBool env ''RATE_LIMIT_ENABLED'' False)) (\<lambda>enabled.
     bind_err (checked ''RATE_LIMIT_DEFAULT_LIMIT'' (GetEnvInt env ''RATE_LIMIT_DEFAULT_LIMIT'' 300)) (\<lambda>defaultLimit.
     bind_err (checked ''RATE_LIMIT_DEFAULT_BURST'' (GetEnvInt env ''RATE_LIMIT_DEFAULT_BURST'' defaultLimit)) (\<lambda>defaultBurst.
     bind_err (checked ''RATE_LIMIT_DEFAULT_PERIOD'' (GetEnvDuration env ''RATE_LIMIT_DEFAULT_PERIOD'' Minute)) (\<lambda>defaultPeriod.
     bind_err (checked ''RATE_LIMIT_FAIL_OPEN'' (GetEnvBool env ''RATE_LIMIT_FAIL_OPEN'' True)) (\<lambda>failOpen.
     let cfg = \<lparr>rl_Enabled = enabled, rl_Prefix = TrimSpace (GetEnvDefault env ''RATE_LIMIT_PREFIX'' ''portal:rl''),
       rl_DefaultLimit = defaultLimit, rl_DefaultBurst = defaultBurst, rl_DefaultPeriod = defaultPeriod,
       rl_FailOpen = failOpen\<rparr>
     in bind_err (Validate cfg) (\<lambda>_. Inr cfg))))))"

definition management_LoadRateLimitConfig :: "os_state \<Rightarrow> config_error + RateLimitConfig" where
  "management_LoadRateLimitConfig = LoadRateLimitConfig"

section \<open>The services\<close>

record LoggerConfig =
  lcfg_Level :: string
  lcfg_Format :: string
  lcfg_LogMaxSize :: int
  lcfg_LogMaxBackups :: int
  lcfg_LogMaxAge :: int
  lcfg_LogCompress :: bool

text \<open>The part of every \<open>Load\<close> that concerns the logger.\<close>

definition load_LoggerConfig :: "os_state \<Rightarrow> LoggerConfig" where
  "load_LoggerConfig env =
     \<lparr>lcfg_Level = GetEnvDefault env ''LOG_LEVEL'' ''info'',
      lcfg_Format = GetEnvDefault env ''LOG_FORMAT'' ''text'',
      lcfg_LogMaxSize = on_err (GetEnvInt env ''LOG_MAX_SIZE'' 10) 10,
      lcfg_LogMaxBackups = on_err (GetEnvInt env ''LOG_MAX_BACKUPS'' 3) 3,
      lcfg_LogMaxAge = on_err (GetEnvInt env ''LOG_MAX_AGE'' 28) 28,
      lcfg_LogCompress = on_err (GetEnvBool env ''LOG_COMPRESS'' True) True\<rparr>"

record SMTPConfig =
  smtp_Host :: string
  smtp_Port :: string
  smtp_UseAuth :: bool
  smtp_UseTLS :: bool
  smtp_Username :: string
  smtp_Password :: string
  smtp_From :: string
  smtp_FromName :: string

definition load_SMTPConfig :: "os_state \<Rightarrow> SMTPConfig" where
  "load_SMTPConfig env =
     \<lparr>smtp_Host = GetEnvDefault env ''SMTP_HOST'' ''localhost'',
      smtp_Port = GetEnvDefault env ''SMTP_PORT'' ''1025'',
      smtp_UseAuth = (GetEnvDefault env ''SMTP_USE_AUTH'' ''false'' = ''true''),
      smtp_UseTLS = (GetEnvDefault env ''SMTP_USE_TLS'' ''false'' = ''true''),
      smtp_Username = GetEnvDefault env ''SMTP_USERNAME'' [],
      smtp_Password = GetEnvDefault env ''SMTP_PASSWORD'' [],
      smtp_From = GetEnvDefault env ''SMTP_FROM'' ''no-reply@sms.com'',
      smtp_FromName = GetEnvDefault env ''SMTP_FROM_NAME'' ''SMS Server Management''\<rparr>"

record OutboxConfig =
  ocfg_StreamName :: string
  ocfg_BatchSize :: int
  ocfg_IntervalMs :: int
  ocfg_MaxLen :: int

record identity_Config =
  cfg_GRPCPort :: string
  cfg_HTTPPort :: string
  cfg_DBUrl :: string
  cfg_JWTSecret :: string
  cfg_Env :: string
  cfg_AdminEmail :: string
  cfg_AdminPassword :: string
  cfg_UserEmail :: string
  cfg_UserPassword :: string
  cfg_ApiBaseUrl :: string
  cfg_FrontEndUrl :: string
  cfg_Logger :: LoggerConfig
  cfg_SMTP :: SMTPConfig
  cfg_WorkerCount :: int
  cfg_JobQueueSize :: int

record management_Config = identity_Config +
  cfg_Outbox :: OutboxConfig

text \<open>\<open>HTTP_PORT\<close>, or else \<open>PORT\<close>, or else the default of the service; an older name of the secret.\<close>

definition load_HTTPPort :: "os_state \<Rightarrow> string \<Rightarrow> string" where
  "load_HTTPPort env port =
     (let p = TrimSpace (GetEnvDefault env ''HTTP_PORT'' []) in if p = [] then GetEnvDefault env ''PORT'' port else p)"

definition load_JWTSecret :: "os_state \<Rightarrow> string" where
  "load_JWTSecret env =
     (let s = GetEnvDefault env ''JWT_SECRET'' [] in if s = [] then GetEnvDefault env ''JWT_SECRET_KEY'' [] else s)"

definition identity_Load :: "os_state \<Rightarrow> identity_Config" where
  "identity_Load env =
     \<lparr>cfg_GRPCPort = GetEnvDefault env ''GRPC_PORT'' ''50051'',
      cfg_HTTPPort = load_HTTPPort env ''8000'',
      cfg_DBUrl = GetEnvDefault env ''DB_URL'' [],
      cfg_JWTSecret = load_JWTSecret env,
      cfg_Env = GetEnvDefault env ''ENV'' ''development'',
      cfg_AdminEmail = GetEnvDefault env ''ADMIN_EMAIL'' [],
      cfg_AdminPassword = GetEnvDefault env ''ADMIN_PASSWORD'' [],
      cfg_UserEmail = GetEnvDefault env ''USER_EMAIL'' [],
      cfg_UserPassword = GetEnvDefault env ''USER_PASSWORD'' [],
      cfg_ApiBaseUrl = GetEnvDefault env ''API_BASE_URL'' [],
      cfg_FrontEndUrl = GetEnvDefault env ''FRONTEND_BASE_URL'' [],
      cfg_Logger = load_LoggerConfig env,
      cfg_SMTP = load_SMTPConfig env,
      cfg_WorkerCount = on_err (GetEnvInt env ''REPORTING_WORKER_COUNT'' 5) 5,
      cfg_JobQueueSize = on_err (GetEnvInt env ''REPORTING_JOB_QUEUE_SIZE'' 100) 100\<rparr>"

text \<open>\<open>sms-management\<close> reads the same settings and those of its outbox.\<close>

definition management_Load :: "os_state \<Rightarrow> management_Config" where
  "management_Load env = identity_Config.extend (identity_Load env)
     (management_Config.fields
       \<lparr>ocfg_StreamName = GetEnvDefault env ''OUTBOX_STREAM_NAME'' ''sms.events.server'',
        ocfg_BatchSize = on_err (GetEnvInt env ''OUTBOX_BATCH_SIZE'' 500) 500,
        ocfg_IntervalMs = on_err (GetEnvInt env ''OUTBOX_INTERVAL_MS'' 2000) 2000,
        ocfg_MaxLen = on_err (GetEnvInt env ''OUTBOX_STREAM_MAXLEN'' 1000000) 1000000\<rparr>)"

record monitoring_Config =
  mcfg_Env :: string
  mcfg_Logger :: LoggerConfig
  mcfg_MaxLen :: int
  mcfg_WorkerTickInterval :: duration
  mcfg_WorkerConcurrency :: int
  mcfg_WorkerPingTimeout :: duration
  mcfg_FailureThreshold :: int
  mcfg_ProducerLockKey :: string
  mcfg_ICMPTimeout :: duration
  mcfg_SSHTimeout :: duration
  mcfg_AgentPullTimeout :: duration
  mcfg_ICMPPrivileged :: bool
  mcfg_AgentPushTTL :: duration
  mcfg_SweeperInterval :: duration

text \<open>
  A product of \<open>int64\<close> values wraps around. \<open>sms-monitoring\<close> drops the errors of most settings
  and uses the value that comes with the error.
\<close>

definition wrap64 :: "int \<Rightarrow> int" where
  "wrap64 n = (n + 2 ^ 63) mod 2 ^ 64 - 2 ^ 63"

definition monitoring_Load :: "os_state \<Rightarrow> monitoring_Config" where
  "monitoring_Load env =
     \<lparr>mcfg_Env = GetEnvDefault env ''ENV'' ''development'',
      mcfg_Logger = load_LoggerConfig env,
      mcfg_MaxLen = on_err (GetEnvInt env ''STREAM_MAXLEN'' 1000000) 1000000,
      mcfg_WorkerTickInterval = fst (GetEnvDuration env ''MONITORING_WORKER_TICK_INTERVAL'' (60 * Second)),
      mcfg_WorkerConcurrency = fst (GetEnvInt env ''MONITORING_WORKER_CONCURRENCY'' 100),
      mcfg_WorkerPingTimeout = fst (GetEnvDuration env ''MONITORING_WORKER_PING_TIMEOUT'' (3 * Second)),
      mcfg_FailureThreshold = fst (GetEnvInt env ''MONITORING_FAILURE_THRESHOLD'' 1),
      mcfg_ProducerLockKey = GetEnvDefault env ''MONITORING_PRODUCER_LOCK_KEY'' ''lock:monitoring_producer'',
      mcfg_ICMPTimeout = fst (GetEnvDuration env ''MONITORING_ICMP_TIMEOUT'' (3 * Second)),
      mcfg_SSHTimeout = fst (GetEnvDuration env ''MONITORING_SSH_TIMEOUT'' (10 * Second)),
      mcfg_AgentPullTimeout = fst (GetEnvDuration env ''MONITORING_AGENT_PULL_TIMEOUT'' (10 * Second)),
      mcfg_ICMPPrivileged = fst (GetEnvBool env ''ICMP_PRIVILEGED'' False),
      mcfg_AgentPushTTL = wrap64 (fst (GetEnvInt env ''MONITORING_AGENT_PUSH_TTL'' 60) * Second),
      mcfg_SweeperInterval = fst (GetEnvDuration env ''MONITORING_SWEEPER_INTERVAL'' (10 * Second))\<rparr>"

record ObservationLoggerConfig =
  obs_ChannelSize :: int
  obs_BatchSize :: int
  obs_FlushMs :: int
  obs_RetryMax :: int
  obs_RetryDelayMs :: int

definition LoadObservationLoggerConfig :: "os_state \<Rightarrow> ObservationLoggerConfig" where
  "LoadObservationLoggerConfig env =
     \<lparr>obs_ChannelSize = fst (GetEnvInt env ''ES_OBSERVATION_CHANNEL_SIZE'' 10000),
      obs_BatchSize = fst (GetEnvInt env ''ES_OBSERVATION_BATCH_SIZE'' 500),
      obs_FlushMs = fst (GetEnvInt env ''ES_OBSERVATION_FLUSH_MS'' 2000),
      obs_RetryMax = fst (GetEnvInt env ''ES_OBSERVATION_RETRY_MAX'' 3),
      obs_RetryDelayMs = fst (GetEnvInt env ''ES_OBSERVATION_RETRY_DELAY_MS'' 500)\<rparr>"

record ElasticsearchConfig =
  ecfg_URL :: string
  ecfg_ServerIndex :: string

definition monitoring_LoadElasticsearchConfig :: "os_state \<Rightarrow> ElasticsearchConfig" where
  "monitoring_LoadElasticsearchConfig env =
     \<lparr>ecfg_URL = (let url = Getenv env ''ELASTICSEARCH_URL'' in if url = [] then ''http://elasticsearch:9200'' else url),
      ecfg_ServerIndex = (let i = Getenv env ''ELASTICSEARCH_SERVER_INDEX'' in if i = [] then ''sms_observation_logs'' else i)\<rparr>"

definition reporting_LoadElasticsearchConfig :: "os_state \<Rightarrow> ElasticsearchConfig" where
  "reporting_LoadElasticsearchConfig = monitoring_LoadElasticsearchConfig"

record ReportingConfig =
  pcfg_WorkerCount :: int
  pcfg_JobQueueSize :: int
  pcfg_AdminEmail :: string
  pcfg_CronSpec :: string
  pcfg_NotificationStream :: string
  pcfg_NotificationStreamMaxLen :: int

record ConsumerConfig =
  ccfg_Name :: string
  ccfg_ServerStream :: string
  ccfg_ServerGroup :: string
  ccfg_ServerStatusStream :: string
  ccfg_ServerStatusGroup :: string

record reporting_Config =
  scfg_GRPCPort :: string
  scfg_HTTPPort :: string
  scfg_DBUrl :: string
  scfg_Env :: string
  scfg_Logger :: LoggerConfig
  scfg_Reporting :: ReportingConfig
  scfg_Consumer :: ConsumerConfig

definition reporting_Load :: "os_state \<Rightarrow> reporting_Config" where
  "reporting_Load env =
     \<lparr>scfg_GRPCPort = GetEnvDefault env ''GRPC_PORT'' ''50053'',
      scfg_HTTPPort = load_HTTPPort env ''8002'',
      scfg_DBUrl = GetEnvDefault env ''DB_URL'' [],
      scfg_Env = GetEnvDefault env ''ENV'' ''development'',
      scfg_Logger = load_LoggerConfig env,
      scfg_Reporting =
        \<lparr>pcfg_WorkerCount = on_err (GetEnvInt env ''REPORTING_WORKER_COUNT'' 5) 5,
         pcfg_JobQueueSize = on_err (GetEnvInt env ''REPORTING_JOB_QUEUE_SIZE'' 100) 100,
         pcfg_AdminEmail = GetEnvDefault env ''ADMIN_EMAIL'' ''admin@sms.com'',
         pcfg_CronSpec = GetEnvDefault env ''SCHEDULER_CRON_SPEC'' ''0 0 * * *'',
         pcfg_NotificationStream = GetEnvDefault env ''NOTIFICATION_STREAM'' ''notification_events'',
         pcfg_NotificationStreamMaxLen = on_err (GetEnvInt env ''NOTIFICATION_STREAM_MAXLEN'' 100000) 100000\<rparr>,
      scfg_Consumer =
        \<lparr>ccfg_Name = GetEnvDefault env ''CONSUMER_NAME'' ''reporting_worker'',
         ccfg_ServerStream = GetEnvDefault env ''CONSUMER_SERVER_STREAM'' ''sms.events.server'',
         ccfg_ServerGroup = GetEnvDefault env ''CONSUMER_SERVER_GROUP'' ''reporting_server_group'',
         ccfg_ServerStatusStream = GetEnvDefault env ''CONSUMER_STATUS_STREAM'' ''sms.events.server_status'',
         ccfg_ServerStatusGroup = GetEnvDefault env ''CONSUMER_STATUS_GROUP'' ''reporting_status_group''\<rparr>\<rparr>"

record agent_Config =
  acfg_Env :: string
  acfg_Port :: string
  acfg_RedisURI :: string
  acfg_MasterKey :: string

definition agent_Load :: "os_state \<Rightarrow> agent_Config" where
  "agent_Load env =
     \<lparr>acfg_Env = GetEnvDefault env ''ENV'' ''development'',
      acfg_Port = GetEnvDefault env ''PORT'' ''8084'',
      acfg_RedisURI = GetEnvDefault env ''REDIS_URI'' ''redis://localhost:6379/0'',
      acfg_MasterKey = GetEnvDefault env ''MASTER_KEY'' ''0123456789abcdef0123456789abcdef''\<rparr>"

text \<open>
  \<open>sms-notification\<close> reads the environment only; there a setting may be the empty string.
  \<open>fmt.Sscanf(s, "%d", &n)\<close> skips white space without a newline and reads a sign and digits.
\<close>

definition notification_getEnv :: "os_state \<Rightarrow> string \<Rightarrow> string \<Rightarrow> string" where
  "notification_getEnv env key fallback = (case os_LookupEnv env key of Some x \<Rightarrow> x | None \<Rightarrow> fallback)"

definition Sscanf_int :: "string \<Rightarrow> int option" where
  "Sscanf_int s =
     (let t = strip wide_spaces s;
          signed = HasPrefix t ''-'' \<or> HasPrefix t ''+'';
          ds = takeWhile is_digit (if signed then drop 1 t else t)
      in if CHR 0x0A \<in> set (take (length s - length t) s) then None
         else (case Atoi ((if HasPrefix t ''-'' then ''-'' else []) @ ds) of (n, None) \<Rightarrow> Some n | _ \<Rightarrow> None))"

definition getEnvAsInt :: "os_state \<Rightarrow> string \<Rightarrow> int \<Rightarrow> int" where
  "getEnvAsInt env name fallback =
     (let valStr = notification_getEnv env name [] in
      if valStr = [] then fallback else (case Sscanf_int valStr of None \<Rightarrow> fallback | Some n \<Rightarrow> n))"

record notification_Config =
  ncfg_Env :: string
  ncfg_RedisEnabled :: bool
  ncfg_RedisAddr :: string
  ncfg_RedisPassword :: string
  ncfg_RedisDB :: int
  ncfg_NotificationStream :: string
  ncfg_NotificationGroup :: string
  ncfg_ConsumerName :: string
  ncfg_SMTPHost :: string
  ncfg_SMTPPort :: string
  ncfg_SMTPUseAuth :: bool
  ncfg_SMTPUseTLS :: bool
  ncfg_SMTPUsername :: string
  ncfg_SMTPPassword :: string
  ncfg_SMTPFrom :: string
  ncfg_SMTPFromName :: string
  ncfg_LogLevel :: string
  ncfg_LogFormat :: string

definition LoadConfig :: "os_state \<Rightarrow> notification_Config" where
  "LoadConfig env =
     \<lparr>ncfg_Env = notification_getEnv env ''ENV'' ''development'',
      ncfg_RedisEnabled = (notification_getEnv env ''REDIS_ENABLED'' ''false'' = ''true''),
      ncfg_RedisAddr = notification_getEnv env ''REDIS_ADDR'' ''localhost:6379'',
      ncfg_RedisPassword = notification_getEnv env ''REDIS_PASSWORD'' [],
      ncfg_RedisDB = getEnvAsInt env ''REDIS_DB'' 0,
      ncfg_NotificationStream = notification_getEnv env ''NOTIFICATION_STREAM'' ''notification_events'',
      ncfg_NotificationGroup = notification_getEnv env ''NOTIFICATION_GROUP'' ''notification_workers'',
      ncfg_ConsumerName = notification_getEnv env ''CONSUMER_NAME'' ''notification_worker_1'',
      ncfg_SMTPHost = notification_getEnv env ''SMTP_HOST'' ''localhost'',
      ncfg_SMTPPort = notification_getEnv env ''SMTP_PORT'' ''1025'',
      ncfg_SMTPUseAuth = (notification_getEnv env ''SMTP_USE_AUTH'' ''false'' = ''true''),
      ncfg_SMTPUseTLS = (notification_getEnv env ''SMTP_USE_TLS'' ''false'' = ''true''),
      ncfg_SMTPUsername = notification_getEnv env ''SMTP_USERNAME'' [],
      ncfg_SMTPPassword = notification_getEnv env ''SMTP_PASSWORD'' [],
      ncfg_SMTPFrom = notification_getEnv env ''SMTP_FROM'' ''noreply@sms.local'',
      ncfg_SMTPFromName = notification_getEnv env ''SMTP_FROM_NAME'' ''SMS Notification'',
      ncfg_LogLevel = notification_getEnv env ''LOG_LEVEL'' ''info'',
      ncfg_LogFormat = notification_getEnv env ''LOG_FORMAT'' ''text''\<rparr>"

section \<open>Properties\<close>

lemma bind_err_Inr: "bind_err r k = Inr b \<longleftrightarrow> (\<exists>a. r = Inr a \<and> k a = Inr b)"
  by (cases r) (simp_all add: bind_err_def)

lemma checked_Inr: "checked key p = Inr a \<longleftrightarrow> p = (a, None)"
  by (cases p) (auto simp: checked_def split: option.splits)

text \<open>
  An environment given by a list of settings; \<open>time.ParseDuration\<close> knows one duration.
\<close>

definition env_of :: "(string \<times> string) list \<Rightarrow> os_state" where
  "env_of kvs = \<lparr>os_LookupEnv = map_of kvs, os_ReadFile = (\<lambda>_. None),
     os_ParseDuration = (\<lambda>s. if s = ''1m'' then (Minute, None) else (0, Some ErrSyntax))\<rparr>"

text \<open>
  A rate limit that is switched on can be enforced: a configuration that loads has a prefix,
  and a positive limit, burst and period, whatever the environment holds.
\<close>

lemma loaded_rate_limit_is_valid:
  assumes "LoadRateLimitConfig env = Inr cfg" and "rl_Enabled cfg"
  shows "rl_Prefix cfg \<noteq> [] \<and> 0 < rl_DefaultLimit cfg \<and> 0 < rl_DefaultBurst cfg \<and> 0 < rl_DefaultPeriod cfg"
  using assms by (auto simp: LoadRateLimitConfig_def bind_err_Inr Let_def Validate_def split: if_splits)

lemma loaded_rate_limit_is_valid_witness:
  "case LoadRateLimitConfig (env_of [(''RATE_LIMIT_ENABLED'', ''true'')]) of Inl _ \<Rightarrow> False
   | Inr cfg \<Rightarrow> rl_Enabled cfg \<and> 0 < rl_DefaultBurst cfg"
proof -
  let ?cfg = "\<lparr>rl_Enabled = True, rl_Prefix = ''portal:rl'', rl_DefaultLimit = 300, rl_DefaultBurst = 300,
    rl_DefaultPeriod = Minute, rl_FailOpen = True\<rparr>"
  have "LoadRateLimitConfig (env_of [(''RATE_LIMIT_ENABLED'', ''true'')]) = Inr ?cfg" by code_simp
  with loaded_rate_limit_is_valid [OF this] show ?thesis by simp
qed

text \<open>
  A setting of \<open>sms-monitoring\<close> that does not parse is not replaced by its default: the tick
  interval, the number of workers, the failure threshold and the interval of the sweeper become 0,
  where the other services fall back to their defaults.
\<close>

lemma monitoring_bad_setting_becomes_zero:
  assumes "\<And>s. os_ParseDuration env s = (0, Some ErrSyntax) \<or> snd (os_ParseDuration env s) = None"
    and "getEnv env ''MONITORING_WORKER_TICK_INTERVAL'' = d" and "d \<noteq> []" and "snd (os_ParseDuration env d) \<noteq> None"
    and "getEnv env ''MONITORING_FAILURE_THRESHOLD'' = k" and "k \<noteq> []" and "snd (Atoi k) = Some ErrSyntax"
    and "getEnv env ''OUTBOX_BATCH_SIZE'' = k"
  shows "mcfg_WorkerTickInterval (monitoring_Load env) = 0 \<and> mcfg_FailureThreshold (monitoring_Load env) = 0 \<and>
    ocfg_BatchSize (cfg_Outbox (management_Load env)) = 500"
proof -
  have "fst (os_ParseDuration env d) = 0" using assms(1) [of d] assms(4) by auto
  moreover have "fst (Atoi k) = 0" using assms(7) by (auto simp: Atoi_def Let_def split: if_splits)
  ultimately show ?thesis
    using assms by (simp add: monitoring_Load_def management_Load_def GetEnvDuration_def GetEnvInt_def on_err_def
        identity_Config.defs management_Config.defs)
qed

lemma monitoring_bad_setting_becomes_zero_witness:
  "mcfg_FailureThreshold (monitoring_Load (env_of
     [(''MONITORING_WORKER_TICK_INTERVAL'', ''60''), (''MONITORING_FAILURE_THRESHOLD'', ''three''), (''OUTBOX_BATCH_SIZE'', ''three'')])) = 0"
  using monitoring_bad_setting_becomes_zero [of "env_of
     [(''MONITORING_WORKER_TICK_INTERVAL'', ''60''), (''MONITORING_FAILURE_THRESHOLD'', ''three''), (''OUTBOX_BATCH_SIZE'', ''three'')]"]
  by (simp add: env_of_def getEnv_def Getenv_def Let_def Atoi_def is_digit_def)

end
