(* ===== verification/Services.thy ===== *)
theory Services
  imports Go_Strings "HOL-Library.AList" "HOL-Library.Multiset"
begin

text \<open>
  What the services use and the repository does not hold: PostgreSQL behind gorm, Redis behind
  go-redis, and the clock. Each is a parameter: a record of actions over an unknown world. What
  the code relies on is stated as laws, in locales, about a view of the world: the rows of the
  tables, the keys of Redis. An action may always fail (a result \<open>Inl e\<close>); a law says what a
  successful call means and what a failed one leaves behind. The locales with the suffix \<open>_up\<close>
  add that the service answers.

  The theory Reference_World builds a world of plain data for which every law is proved, so that
  the hypotheses of the theorems can be met by computation.
\<close>

section \<open>Reading and writing a view of the world\<close>

text \<open>
  \<open>reads clock view m g\<close>: the action \<open>m\<close> changes nothing that can be seen, time does not run
  backwards, and a successful answer is \<open>g\<close> of what was there.
\<close>

definition reads :: "('w \<Rightarrow> time) \<Rightarrow> ('w \<Rightarrow> 'v) \<Rightarrow> ('w, 'e + 'a) state \<Rightarrow> ('v \<Rightarrow> 'a \<Rightarrow> bool) \<Rightarrow> bool" where
  "reads clock view m g \<longleftrightarrow>
     (\<forall>w. clock w \<le> clock (after m w) \<and> view (after m w) = view w \<and>
          (\<forall>a. result m w = Inr a \<longrightarrow> g (view w) a))"

text \<open>
  \<open>writes clock view m f\<close>: a successful call replaces the view by \<open>f\<close> of it; after a failed
  call the client cannot know whether the change was made, and nothing else has happened.
\<close>

definition writes :: "('w \<Rightarrow> time) \<Rightarrow> ('w \<Rightarrow> 'v) \<Rightarrow> ('w, 'e + 'a) state \<Rightarrow> ('v \<Rightarrow> 'v) \<Rightarrow> bool" where
  "writes clock view m f \<longleftrightarrow>
     (\<forall>w. clock w \<le> clock (after m w) \<and>
          (view (after m w) = f (view w) \<or> (\<exists>e. result m w = Inl e) \<and> view (after m w) = view w))"

definition answers :: "('w, 'e + 'a) state \<Rightarrow> bool" where
  "answers m \<longleftrightarrow> (\<forall>w. \<exists>a. result m w = Inr a)"

lemma reads_view: "reads clock view m g \<Longrightarrow> view (after m w) = view w"
  by (simp add: reads_def)

lemma reads_result: "reads clock view m g \<Longrightarrow> result m w = Inr a \<Longrightarrow> g (view w) a"
  by (simp add: reads_def)

lemma reads_clock: "reads clock view m g \<Longrightarrow> clock w \<le> clock (after m w)"
  by (simp add: reads_def)

lemma reads_answer: "reads clock view m g \<Longrightarrow> answers m \<Longrightarrow> \<exists>a. result m w = Inr a \<and> g (view w) a"
  unfolding reads_def answers_def by blast

lemma writes_ok: "writes clock view m f \<Longrightarrow> result m w = Inr a \<Longrightarrow> view (after m w) = f (view w)"
  by (auto simp: writes_def dest: spec [where x = w])

lemma writes_up: "writes clock view m f \<Longrightarrow> answers m \<Longrightarrow> view (after m w) = f (view w)"
  unfolding writes_def answers_def by (metis Inl_Inr_False)

lemma writes_cases:
  "writes clock view m f \<Longrightarrow> view (after m w) = f (view w) \<or> view (after m w) = view w"
  by (auto simp: writes_def)

lemma writes_clock: "writes clock view m f \<Longrightarrow> clock w \<le> clock (after m w)"
  by (simp add: writes_def)

section \<open>The clock\<close>

text \<open>Time does not run backwards during an action.\<close>

definition ticks :: "('w \<Rightarrow> time) \<Rightarrow> ('w, 'a) state \<Rightarrow> bool" where
  "ticks clock m \<longleftrightarrow> (\<forall>w. clock w \<le> clock (after m w))"

lemma ticksI: "(\<And>w. clock w \<le> clock (after m w)) \<Longrightarrow> ticks clock m"
  by (simp add: ticks_def)

lemma ticksD: "ticks clock m \<Longrightarrow> clock w \<le> clock (after m w)"
  by (simp add: ticks_def)

lemma ticks_ret [simp]: "ticks clock (ret a)"
  by (simp add: ticks_def)

lemma ticks_bind [intro!]: "ticks clock m \<Longrightarrow> (\<And>x. ticks clock (k x)) \<Longrightarrow> ticks clock (m \<bind> k)"
  unfolding ticks_def by (metis after_bind order_trans)

lemma ticks_for_each [intro!]: "(\<And>x. ticks clock (f x)) \<Longrightarrow> ticks clock (for_each xs f)"
  by (induction xs) auto

text \<open>\<open>time.Now()\<close> reads the clock of the world, and changes nothing.\<close>

locale clock_source =
  fixes Now :: "('w, time) state" and clock :: "'w \<Rightarrow> time" and view :: "'w \<Rightarrow> 'v"
  assumes now_reads: "result Now w = clock w"
    and now_view: "view (after Now w) = view w"
    and now_mono: "clock w \<le> clock (after Now w)"

section \<open>A table of PostgreSQL\<close>

datatype db_error = ErrRecordNotFound | ErrDuplicatedKey | ErrDatabase string

text \<open>The texts of the errors of gorm.\<close>

definition db_error_text :: "db_error \<Rightarrow> string" where
  "db_error_text e =
     (case e of
        ErrRecordNotFound \<Rightarrow> ''record not found''
      | ErrDuplicatedKey \<Rightarrow> ''duplicated key not allowed''
      | ErrDatabase s \<Rightarrow> s)"

text \<open>
  The statements that gorm issues. A condition of the source, for instance
  \<open>Where("id = ? AND revoked_at IS NULL", id)\<close>, is the predicate it denotes on rows.
  \<open>tbl_Page P le offset limit\<close> is a \<open>Find\<close> with an order, an offset and a limit.
  \<open>tbl_Create\<close> returns the rows as stored, with the columns that the database fills in;
  \<open>tbl_Updates\<close> and \<open>tbl_Delete\<close> return \<open>RowsAffected\<close>.
\<close>

record ('w, 'r) table =
  tbl_First :: "('r \<Rightarrow> bool) \<Rightarrow> ('w, db_error + 'r) state"
  tbl_Find :: "('r \<Rightarrow> bool) \<Rightarrow> ('w, db_error + 'r list) state"
  tbl_Page :: "('r \<Rightarrow> bool) \<Rightarrow> ('r \<Rightarrow> 'r \<Rightarrow> bool) \<Rightarrow> int \<Rightarrow> int \<Rightarrow> ('w, db_error + 'r list) state"
  tbl_Count :: "('r \<Rightarrow> bool) \<Rightarrow> ('w, db_error + int) state"
  tbl_Create :: "'r list \<Rightarrow> ('w, db_error + 'r list) state"
  tbl_Updates :: "('r \<Rightarrow> bool) \<Rightarrow> ('r \<Rightarrow> 'r) \<Rightarrow> ('w, db_error + int) state"
  tbl_Delete :: "('r \<Rightarrow> bool) \<Rightarrow> ('w, db_error + int) state"

definition page :: "int \<Rightarrow> int \<Rightarrow> 'r list \<Rightarrow> 'r list" where
  "page off lim xs = (if lim < 0 then drop (nat off) xs else take (nat lim) (drop (nat off) xs))"

definition upd_rows :: "('r \<Rightarrow> bool) \<Rightarrow> ('r \<Rightarrow> 'r) \<Rightarrow> 'r list \<Rightarrow> 'r list" where
  "upd_rows P g rs = map (\<lambda>r. if P r then g r else r) rs"

text \<open>
  The laws. \<open>get\<close> and \<open>put\<close> give the rows of this table within the view of the whole database.
  \<open>uniq\<close> is the primary key and the unique indexes of the table, \<open>filled\<close> relates a row as it is
  given to \<open>Create\<close> to the row as it is stored (generated keys, default values, creation time),
  \<open>stamp u\<close> sets the column that gorm writes on every update to the time of the statement. A
  failed statement has no effect: each runs in a transaction. The columns of times hold
  microseconds; the clock of the model ticks in them, so that a time is stored as it is given.
\<close>

locale sql_table =
  fixes T :: "('w, 'r) table" and clock :: "'w \<Rightarrow> time" and view :: "'w \<Rightarrow> 'v"
    and get :: "'v \<Rightarrow> 'r list" and put :: "('r list \<Rightarrow> 'r list) \<Rightarrow> 'v \<Rightarrow> 'v"
    and uniq :: "'r list \<Rightarrow> bool" and filled :: "'r \<Rightarrow> 'r \<Rightarrow> bool" and stamp :: "time \<Rightarrow> 'r \<Rightarrow> 'r"
  assumes First_reads: "reads clock view (tbl_First T P) (\<lambda>v r. r \<in> set (get v) \<and> P r)"
    and First_missing:
      "result (tbl_First T P) w = Inl ErrRecordNotFound \<Longrightarrow> r \<in> set (get (view w)) \<Longrightarrow> \<not> P r"
    and Find_reads: "reads clock view (tbl_Find T P) (\<lambda>v rs. mset rs = mset (filter P (get v)))"
    and Page_reads: "(\<And>x y. le x y \<or> le y x) \<Longrightarrow> transp le \<Longrightarrow>
      reads clock view (tbl_Page T P le off lim)
        (\<lambda>v rs. \<exists>xs. mset xs = mset (filter P (get v)) \<and> sorted_wrt le xs \<and> rs = page off lim xs)"
    and Count_reads: "reads clock view (tbl_Count T P) (\<lambda>v n. n = int (length (filter P (get v))))"
    and Create_clock: "clock w \<le> clock (after (tbl_Create T rs) w)"
    and Create_ok: "result (tbl_Create T rs) w = Inr rs' \<Longrightarrow>
      list_all2 filled rs rs' \<and> uniq (get (view w) @ rs') \<and>
      view (after (tbl_Create T rs) w) = put (\<lambda>old. old @ rs') (view w)"
    and Create_err: "result (tbl_Create T rs) w = Inl e \<Longrightarrow>
      view (after (tbl_Create T rs) w) = view w"
    and Updates_clock: "clock w \<le> clock (after (tbl_Updates T P f) w)"
    and Updates_ok: "result (tbl_Updates T P f) w = Inr n \<Longrightarrow>
      \<exists>u. n = int (length (filter P (get (view w)))) \<and>
        uniq (upd_rows P (\<lambda>r. stamp u (f r)) (get (view w))) \<and>
        view (after (tbl_Updates T P f) w) = put (upd_rows P (\<lambda>r. stamp u (f r))) (view w)"
    and Updates_err: "result (tbl_Updates T P f) w = Inl e \<Longrightarrow>
      view (after (tbl_Updates T P f) w) = view w"
    and Delete_clock: "clock w \<le> clock (after (tbl_Delete T P) w)"
    and Delete_ok: "result (tbl_Delete T P) w = Inr n \<Longrightarrow>
      n = int (length (filter P (get (view w)))) \<and>
      view (after (tbl_Delete T P) w) = put (filter (\<lambda>r. \<not> P r)) (view w)"
    and Delete_err: "result (tbl_Delete T P) w = Inl e \<Longrightarrow>
      view (after (tbl_Delete T P) w) = view w"

locale sql_table_up = sql_table +
  assumes First_up: "result (tbl_First T P) w = Inl e \<Longrightarrow> e = ErrRecordNotFound"
    and Find_up: "answers (tbl_Find T P)"
    and Page_up: "answers (tbl_Page T P le off lim)"
    and Count_up: "answers (tbl_Count T P)"
    and Create_up: "list_all2 filled rs rs' \<Longrightarrow> uniq (get (view w) @ rs') \<Longrightarrow>
      \<exists>rs''. result (tbl_Create T rs) w = Inr rs''"
    and Updates_up: "(\<And>u. uniq (upd_rows P (\<lambda>r. stamp u (f r)) (get (view w)))) \<Longrightarrow>
      \<exists>n. result (tbl_Updates T P f) w = Inr n"
    and Delete_up: "answers (tbl_Delete T P)"

text \<open>What the clients of a table use: the row found, the view and the clock afterwards.\<close>

context sql_table
begin

lemma First_found: "result (tbl_First T P) w = Inr r \<Longrightarrow> r \<in> set (get (view w)) \<and> P r"
  using First_reads by (rule reads_result)

lemma First_view [simp]: "view (after (tbl_First T P) w) = view w"
  using First_reads by (rule reads_view)

lemma Find_found: "result (tbl_Find T P) w = Inr rs \<Longrightarrow> mset rs = mset (filter P (get (view w)))"
  using Find_reads by (rule reads_result)

lemma Find_set: "result (tbl_Find T P) w = Inr rs \<Longrightarrow> set rs = {r \<in> set (get (view w)). P r}"
  by (metis Find_found mset_eq_setD set_filter)

lemma Find_view [simp]: "view (after (tbl_Find T P) w) = view w"
  using Find_reads by (rule reads_view)

lemma Count_view [simp]: "view (after (tbl_Count T P) w) = view w"
  using Count_reads by (rule reads_view)

lemma Count_found: "result (tbl_Count T P) w = Inr n \<Longrightarrow> n = int (length (filter P (get (view w))))"
  using Count_reads by (rule reads_result)

lemmas table_clock = reads_clock [OF First_reads] reads_clock [OF Find_reads]
  reads_clock [OF Count_reads] Create_clock Updates_clock Delete_clock

lemma Updates_cases:
  obtains (ok) u where "result (tbl_Updates T P f) w = Inr (int (length (filter P (get (view w)))))"
      and "view (after (tbl_Updates T P f) w) = put (upd_rows P (\<lambda>r. stamp u (f r))) (view w)"
  | (err) e where "result (tbl_Updates T P f) w = Inl e"
      and "view (after (tbl_Updates T P f) w) = view w"
  by (cases "result (tbl_Updates T P f) w") (use Updates_ok Updates_err in \<open>blast+\<close>)

end

context sql_table_up
begin

text \<open>A search for a row by a condition returns a row that meets it, or there is none.\<close>

lemma First_cases:
  obtains (found) r where "result (tbl_First T P) w = Inr r" and "r \<in> set (get (view w))" and "P r"
  | (missing) "result (tbl_First T P) w = Inl ErrRecordNotFound" and "\<forall>r \<in> set (get (view w)). \<not> P r"
proof (cases "result (tbl_First T P) w")
  case (Inl e)
  then have "e = ErrRecordNotFound" by (rule First_up)
  with Inl show thesis using missing First_missing by blast
next
  case (Inr r)
  with First_found show thesis using found by blast
qed

lemma First_unique:
  assumes "r \<in> set (get (view w))" and "P r" and "\<And>s. s \<in> set (get (view w)) \<Longrightarrow> P s \<Longrightarrow> s = r"
  shows "result (tbl_First T P) w = Inr r"
proof (cases rule: First_cases [of P w])
  case (found s)
  with assms(3) show ?thesis by metis
next
  case missing
  with assms(1,2) show ?thesis by blast
qed

lemma Updates_put:
  assumes "\<And>u. uniq (upd_rows P (\<lambda>r. stamp u (f r)) (get (view w)))"
  obtains u where "result (tbl_Updates T P f) w = Inr (int (length (filter P (get (view w)))))"
    and "view (after (tbl_Updates T P f) w) = put (upd_rows P (\<lambda>r. stamp u (f r))) (view w)"
proof -
  from assms have "\<exists>n. result (tbl_Updates T P f) w = Inr n" by (rule Updates_up)
  then obtain n where n: "result (tbl_Updates T P f) w = Inr n" ..
  from Updates_ok [OF n] n show thesis by (auto intro: that)
qed

end

lemma set_upd_rows: "set (upd_rows P g rs) = g ` {r \<in> set rs. P r} \<union> {r \<in> set rs. \<not> P r}"
  by (auto simp: upd_rows_def image_iff)

lemma length_upd_rows [simp]: "length (upd_rows P g rs) = length rs"
  by (simp add: upd_rows_def)

lemma map_upd_rows:
  assumes "\<And>r. r \<in> set rs \<Longrightarrow> P r \<Longrightarrow> h (g r) = h r"
  shows "map h (upd_rows P g rs) = map h rs"
  using assms by (simp add: upd_rows_def)

section \<open>A server of Redis\<close>

datatype redis_error = RedisNil | ErrRedis string

definition redis_error_text :: "redis_error \<Rightarrow> string" where
  "redis_error_text e = (case e of RedisNil \<Rightarrow> ''redis: nil'' | ErrRedis s \<Rightarrow> s)"

type_synonym fields = "(string \<times> string) list"

text \<open>
  The keys of a database, by the type of their values: strings with the time at which they
  expire, hashes, sets, sorted sets (the scores are whole numbers of seconds), lists, streams.
\<close>

record redis_db =
  rd_strings :: "string \<Rightarrow> (string \<times> time option) option"
  rd_hashes :: "string \<Rightarrow> fields"
  rd_sets :: "string \<Rightarrow> string list"
  rd_zsets :: "string \<Rightarrow> (string \<times> int) list"
  rd_lists :: "string \<Rightarrow> string list"
  rd_streams :: "string \<Rightarrow> fields list"

definition empty_redis :: redis_db where
  "empty_redis = \<lparr>rd_strings = (\<lambda>_. None), rd_hashes = (\<lambda>_. []), rd_sets = (\<lambda>_. []),
     rd_zsets = (\<lambda>_. []), rd_lists = (\<lambda>_. []), rd_streams = (\<lambda>_. [])\<rparr>"

text \<open>The commands that the sources use.\<close>

record 'w redis =
  cmd_Set :: "string \<Rightarrow> string \<Rightarrow> duration \<Rightarrow> ('w, redis_error + unit) state"
  cmd_SetNX :: "string \<Rightarrow> string \<Rightarrow> duration \<Rightarrow> ('w, redis_error + bool) state"
  cmd_Exists :: "string \<Rightarrow> ('w, redis_error + int) state"
  cmd_Del :: "string \<Rightarrow> ('w, redis_error + unit) state"
  cmd_HGetAll :: "string \<Rightarrow> ('w, redis_error + fields) state"
  cmd_HGet :: "string \<Rightarrow> string \<Rightarrow> ('w, redis_error + string) state"
  cmd_HSet :: "string \<Rightarrow> fields \<Rightarrow> ('w, redis_error + unit) state"
  cmd_SAdd :: "string \<Rightarrow> string \<Rightarrow> ('w, redis_error + unit) state"
  cmd_SRem :: "string \<Rightarrow> string \<Rightarrow> ('w, redis_error + unit) state"
  cmd_SMembers :: "string \<Rightarrow> ('w, redis_error + string list) state"
  cmd_ZAdd :: "string \<Rightarrow> string \<Rightarrow> int \<Rightarrow> ('w, redis_error + unit) state"
  cmd_ZRem :: "string \<Rightarrow> string \<Rightarrow> ('w, redis_error + unit) state"
  cmd_ZRangeByScore :: "string \<Rightarrow> int \<Rightarrow> ('w, redis_error + string list) state"
  cmd_LLen :: "string \<Rightarrow> ('w, redis_error + int) state"
  cmd_RPush :: "string \<Rightarrow> string list \<Rightarrow> ('w, redis_error + unit) state"
  cmd_BLPop :: "string \<Rightarrow> ('w, redis_error + string) state"
  cmd_XAdd :: "string \<Rightarrow> int \<Rightarrow> fields \<Rightarrow> ('w, redis_error + unit) state"

text \<open>What the commands that change a key make of the database.\<close>

definition do_Set :: "string \<Rightarrow> string \<Rightarrow> time \<Rightarrow> redis_db \<Rightarrow> redis_db" where
  "do_Set k x deadline d = d\<lparr>rd_strings := (rd_strings d)(k \<mapsto> (x, Some deadline))\<rparr>"

definition do_Del :: "string \<Rightarrow> redis_db \<Rightarrow> redis_db" where
  "do_Del k d = d\<lparr>rd_strings := (rd_strings d)(k := None), rd_hashes := (rd_hashes d)(k := []),
     rd_sets := (rd_sets d)(k := []), rd_zsets := (rd_zsets d)(k := []),
     rd_lists := (rd_lists d)(k := []), rd_streams := (rd_streams d)(k := [])\<rparr>"

definition do_HSet :: "string \<Rightarrow> fields \<Rightarrow> redis_db \<Rightarrow> redis_db" where
  "do_HSet k fvs d = d\<lparr>rd_hashes :=
     (rd_hashes d)(k := fold (\<lambda>(f, x). AList.update f x) fvs (rd_hashes d k))\<rparr>"

definition do_SAdd :: "string \<Rightarrow> string \<Rightarrow> redis_db \<Rightarrow> redis_db" where
  "do_SAdd k m d = d\<lparr>rd_sets := (rd_sets d)(k := List.insert m (rd_sets d k))\<rparr>"

definition do_SRem :: "string \<Rightarrow> string \<Rightarrow> redis_db \<Rightarrow> redis_db" where
  "do_SRem k m d = d\<lparr>rd_sets := (rd_sets d)(k := removeAll m (rd_sets d k))\<rparr>"

definition do_ZAdd :: "string \<Rightarrow> string \<Rightarrow> int \<Rightarrow> redis_db \<Rightarrow> redis_db" where
  "do_ZAdd k m s d = d\<lparr>rd_zsets := (rd_zsets d)(k := AList.update m s (rd_zsets d k))\<rparr>"

definition do_ZRem :: "string \<Rightarrow> string \<Rightarrow> redis_db \<Rightarrow> redis_db" where
  "do_ZRem k m d = d\<lparr>rd_zsets := (rd_zsets d)(k := AList.delete m (rd_zsets d k))\<rparr>"

definition do_RPush :: "string \<Rightarrow> string list \<Rightarrow> redis_db \<Rightarrow> redis_db" where
  "do_RPush k xs d = d\<lparr>rd_lists := (rd_lists d)(k := rd_lists d k @ xs)\<rparr>"

definition do_LPop :: "string \<Rightarrow> redis_db \<Rightarrow> redis_db" where
  "do_LPop k d = d\<lparr>rd_lists := (rd_lists d)(k := tl (rd_lists d k))\<rparr>"

text \<open>
  \<open>XADD\<close> with \<open>MAXLEN ~ n\<close> appends the entry and may then drop old entries, down to \<open>n\<close>;
  \<open>n = 0\<close> stands for no limit.
\<close>

definition do_XAdd :: "nat \<Rightarrow> string \<Rightarrow> fields \<Rightarrow> redis_db \<Rightarrow> redis_db" where
  "do_XAdd dropped k e d =
     d\<lparr>rd_streams := (rd_streams d)(k := drop dropped (rd_streams d k @ [e]))\<rparr>"

lemmas redis_ops = do_Set_def do_Del_def do_HSet_def do_SAdd_def do_SRem_def do_ZAdd_def
  do_ZRem_def do_RPush_def do_LPop_def do_XAdd_def

text \<open>A string that has expired is not there.\<close>

definition live :: "time \<Rightarrow> (string \<times> time option) option \<Rightarrow> bool" where
  "live now x = (case x of None \<Rightarrow> False | Some (_, None) \<Rightarrow> True | Some (_, Some t) \<Rightarrow> now < t)"

definition trims :: "int \<Rightarrow> nat \<Rightarrow> nat \<Rightarrow> bool" where
  "trims maxlen len dropped \<longleftrightarrow>
     dropped = 0 \<or> 0 < maxlen \<and> dropped \<le> len \<and> maxlen \<le> int (len + 1 - dropped)"

locale redis_server =
  fixes R :: "'w redis" and clock :: "'w \<Rightarrow> time" and view :: "'w \<Rightarrow> 'v"
    and rget :: "'v \<Rightarrow> redis_db" and rput :: "(redis_db \<Rightarrow> redis_db) \<Rightarrow> 'v \<Rightarrow> 'v"
  assumes Set_clock: "clock w \<le> clock (after (cmd_Set R k x ttl) w)"
    and Set_ok: "result (cmd_Set R k x ttl) w = Inr u \<Longrightarrow>
      view (after (cmd_Set R k x ttl) w) = rput (do_Set k x (clock w + ttl)) (view w)"
    and Set_err: "result (cmd_Set R k x ttl) w = Inl e \<Longrightarrow>
      view (after (cmd_Set R k x ttl) w) = rput (do_Set k x (clock w + ttl)) (view w) \<or>
      view (after (cmd_Set R k x ttl) w) = view w"
    and SetNX_clock: "clock w \<le> clock (after (cmd_SetNX R k x ttl) w)"
    and SetNX_ok: "result (cmd_SetNX R k x ttl) w = Inr b \<Longrightarrow>
      b = (\<not> live (clock w) (rd_strings (rget (view w)) k)) \<and>
      view (after (cmd_SetNX R k x ttl) w) =
        (if b then rput (do_Set k x (clock w + ttl)) (view w) else view w)"
    and SetNX_err: "result (cmd_SetNX R k x ttl) w = Inl e \<Longrightarrow>
      view (after (cmd_SetNX R k x ttl) w) = view w \<or>
      \<not> live (clock w) (rd_strings (rget (view w)) k) \<and>
      view (after (cmd_SetNX R k x ttl) w) = rput (do_Set k x (clock w + ttl)) (view w)"
    and Exists_reads: "reads clock view (cmd_Exists R k) (\<lambda>_ _. True)"
    and Exists_ok: "result (cmd_Exists R k) w = Inr n \<Longrightarrow>
      n = (if live (clock w) (rd_strings (rget (view w)) k) then 1 else 0)"
    and Del_writes: "writes clock view (cmd_Del R k) (rput (do_Del k))"
    and HGetAll_reads: "reads clock view (cmd_HGetAll R k) (\<lambda>v fvs. fvs = rd_hashes (rget v) k)"
    and HGet_reads:
      "reads clock view (cmd_HGet R k f) (\<lambda>v x. map_of (rd_hashes (rget v) k) f = Some x)"
    and HGet_nil: "result (cmd_HGet R k f) w = Inl RedisNil \<Longrightarrow>
      map_of (rd_hashes (rget (view w)) k) f = None"
    and HSet_writes: "writes clock view (cmd_HSet R k fvs) (rput (do_HSet k fvs))"
    and SAdd_writes: "writes clock view (cmd_SAdd R k m) (rput (do_SAdd k m))"
    and SRem_writes: "writes clock view (cmd_SRem R k m) (rput (do_SRem k m))"
    and SMembers_reads: "reads clock view (cmd_SMembers R k) (\<lambda>v ms. mset ms = mset (rd_sets (rget v) k))"
    and ZAdd_writes: "writes clock view (cmd_ZAdd R k m s) (rput (do_ZAdd k m s))"
    and ZRem_writes: "writes clock view (cmd_ZRem R k m) (rput (do_ZRem k m))"
    and ZRange_reads: "reads clock view (cmd_ZRangeByScore R k hi)
      (\<lambda>v ms. mset ms = mset (map fst (filter (\<lambda>(m, s). s \<le> hi) (rd_zsets (rget v) k))))"
    and LLen_reads: "reads clock view (cmd_LLen R k) (\<lambda>v n. n = int (length (rd_lists (rget v) k)))"
    and RPush_writes: "writes clock view (cmd_RPush R k xs) (rput (do_RPush k xs))"
    and BLPop_clock: "clock w \<le> clock (after (cmd_BLPop R k) w)"
    and BLPop_ok: "result (cmd_BLPop R k) w = Inr x \<Longrightarrow>
      (\<exists>xs. rd_lists (rget (view w)) k = x # xs) \<and> view (after (cmd_BLPop R k) w) = rput (do_LPop k) (view w)"
    and BLPop_nil: "result (cmd_BLPop R k) w = Inl RedisNil \<Longrightarrow> view (after (cmd_BLPop R k) w) = view w"
    and BLPop_err: "result (cmd_BLPop R k) w = Inl err \<Longrightarrow>
      view (after (cmd_BLPop R k) w) = view w \<or> view (after (cmd_BLPop R k) w) = rput (do_LPop k) (view w)"
    and XAdd_clock: "clock w \<le> clock (after (cmd_XAdd R k maxlen ent) w)"
    and XAdd_ok: "result (cmd_XAdd R k maxlen ent) w = Inr u \<Longrightarrow>
      \<exists>n. trims maxlen (length (rd_streams (rget (view w)) k)) n \<and>
        view (after (cmd_XAdd R k maxlen ent) w) = rput (do_XAdd n k ent) (view w)"
    and XAdd_err: "result (cmd_XAdd R k maxlen ent) w = Inl err \<Longrightarrow>
      view (after (cmd_XAdd R k maxlen ent) w) = view w \<or>
      (\<exists>n. trims maxlen (length (rd_streams (rget (view w)) k)) n \<and>
        view (after (cmd_XAdd R k maxlen ent) w) = rput (do_XAdd n k ent) (view w))"

locale redis_server_up = redis_server +
  assumes redis_up: "answers (cmd_Set R k x ttl)" "answers (cmd_SetNX R k x ttl)"
      "answers (cmd_Exists R k)" "answers (cmd_Del R k)" "answers (cmd_HGetAll R k)"
      "answers (cmd_HSet R k fvs)" "answers (cmd_SAdd R k m)" "answers (cmd_SRem R k m)"
      "answers (cmd_SMembers R k)" "answers (cmd_ZAdd R k m s)" "answers (cmd_ZRem R k m)"
      "answers (cmd_ZRangeByScore R k hi)" "answers (cmd_LLen R k)" "answers (cmd_RPush R k xs)"
      "answers (cmd_XAdd R k maxlen ent)"
    and HGet_up: "result (cmd_HGet R k f) w = Inl e \<Longrightarrow> e = RedisNil"
    and BLPop_up: "rd_lists (rget (view w)) k = x # xs \<Longrightarrow> result (cmd_BLPop R k) w = Inr x"

context redis_server
begin

lemmas redis_reads_view [simp] =
  reads_view [OF Exists_reads] reads_view [OF HGetAll_reads] reads_view [OF HGet_reads]
  reads_view [OF SMembers_reads] reads_view [OF ZRange_reads] reads_view [OF LLen_reads]

lemmas redis_reads_result =
  reads_result [OF HGetAll_reads] reads_result [OF HGet_reads] reads_result [OF SMembers_reads]
  reads_result [OF ZRange_reads] reads_result [OF LLen_reads]

lemmas redis_writes_ok =
  writes_ok [OF Del_writes] writes_ok [OF HSet_writes] writes_ok [OF SAdd_writes]
  writes_ok [OF SRem_writes] writes_ok [OF ZAdd_writes] writes_ok [OF ZRem_writes]
  writes_ok [OF RPush_writes]

lemmas redis_clock = Set_clock SetNX_clock XAdd_clock BLPop_clock
  reads_clock [OF Exists_reads] reads_clock [OF HGetAll_reads] reads_clock [OF HGet_reads]
  reads_clock [OF SMembers_reads] reads_clock [OF ZRange_reads] reads_clock [OF LLen_reads]
  writes_clock [OF Del_writes] writes_clock [OF HSet_writes] writes_clock [OF SAdd_writes]
  writes_clock [OF SRem_writes] writes_clock [OF ZAdd_writes] writes_clock [OF ZRem_writes]
  writes_clock [OF RPush_writes]

end

context redis_server_up
begin

lemmas redis_writes_up =
  writes_up [OF Del_writes redis_up(4)] writes_up [OF HSet_writes redis_up(6)]
  writes_up [OF SAdd_writes redis_up(7)] writes_up [OF SRem_writes redis_up(8)]
  writes_up [OF ZAdd_writes redis_up(10)] writes_up [OF ZRem_writes redis_up(11)]
  writes_up [OF RPush_writes redis_up(14)]

lemma Set_up: "view (after (cmd_Set R k x ttl) w) = rput (do_Set k x (clock w + ttl)) (view w)"
  using Set_ok redis_up(1) unfolding answers_def by metis

lemma Exists_up:
  "result (cmd_Exists R k) w = Inr (if live (clock w) (rd_strings (rget (view w)) k) then 1 else 0)"
  using Exists_ok redis_up(3) unfolding answers_def by metis

lemma HGetAll_up: "result (cmd_HGetAll R k) w = Inr (rd_hashes (rget (view w)) k)"
  using reads_answer [OF HGetAll_reads redis_up(5)] by metis

lemma HGet_up_iff:
  "result (cmd_HGet R k f) w =
     (case map_of (rd_hashes (rget (view w)) k) f of None \<Rightarrow> Inl RedisNil | Some x \<Rightarrow> Inr x)"
proof (cases "result (cmd_HGet R k f) w")
  case (Inl e)
  then have "e = RedisNil" by (rule HGet_up)
  with Inl HGet_nil [of k f w] show ?thesis by simp
next
  case (Inr x)
  with reads_result [OF HGet_reads Inr] show ?thesis by simp
qed

lemma LLen_up: "result (cmd_LLen R k) w = Inr (int (length (rd_lists (rget (view w)) k)))"
  using reads_answer [OF LLen_reads redis_up(13)] by metis

lemma SetNX_up:
  "result (cmd_SetNX R k x ttl) w = Inr (\<not> live (clock w) (rd_strings (rget (view w)) k))"
proof -
  obtain b where b: "result (cmd_SetNX R k x ttl) w = Inr b"
    using redis_up(2) unfolding answers_def by blast
  with SetNX_ok [OF b] show ?thesis by simp
qed

lemma XAdd_up:
  obtains n where "trims maxlen (length (rd_streams (rget (view w)) k)) n"
    and "result (cmd_XAdd R k maxlen ent) w = Inr ()"
    and "view (after (cmd_XAdd R k maxlen ent) w) = rput (do_XAdd n k ent) (view w)"
proof -
  obtain u where "result (cmd_XAdd R k maxlen ent) w = Inr u"
    using redis_up(15) unfolding answers_def by blast
  with XAdd_ok [OF this] show thesis by (auto intro: that)
qed

end

end
