(* ===== verification/Json.thy ===== *)
theory Json
  imports Go_Strings
begin

text \<open>
  The package \<open>encoding/json\<close>, as far as the services use it: \<open>Marshal\<close> of maps and structs of
  strings, integers and booleans, and \<open>Unmarshal\<close> into such structs. The events between the
  services are written by one of them and read by another, so the property that matters is the
  round trip, at the end of the theory.
\<close>

section \<open>Values\<close>

text \<open>A number is its literal.\<close>

datatype json =
    JNull
  | JBool bool
  | JNum string
  | JStr string
  | JArr "json list"
  | JObj "(string \<times> json) list"

abbreviation quote :: char where "quote \<equiv> CHR 0x22"
abbreviation backslash :: char where "backslash \<equiv> CHR 0x5C"

section \<open>Marshal\<close>

text \<open>
  The length of the UTF-8 sequence of a code point beyond ASCII at the front, 0 if it is not
  valid.
\<close>

definition is_cont :: "nat \<Rightarrow> bool" where
  "is_cont n \<longleftrightarrow> 128 \<le> n \<and> n < 192"

definition utf8_len :: "string \<Rightarrow> nat" where
  "utf8_len s =
     (case map of_char (take 4 s) of
        a # b # r \<Rightarrow>
          if 194 \<le> a \<and> a < 224 \<and> is_cont b then 2
          else (case r of
             c # r \<Rightarrow>
               if 224 \<le> a \<and> a < 240 \<and> is_cont b \<and> is_cont c \<and> (a = 224 \<longrightarrow> 160 \<le> b) \<and> (a = 237 \<longrightarrow> b < 160) then 3
               else (case r of
                  d # _ \<Rightarrow>
                    if 240 \<le> a \<and> a < 245 \<and> is_cont b \<and> is_cont c \<and> is_cont d \<and>
                       (a = 240 \<longrightarrow> 144 \<le> b) \<and> (a = 244 \<longrightarrow> b < 144)
                    then 4 else 0
                | [] \<Rightarrow> 0)
           | [] \<Rightarrow> 0)
      | _ \<Rightarrow> 0)"

definition hex4 :: "nat \<Rightarrow> string" where
  "hex4 n = [hex_digit (n div 4096 mod 16), hex_digit (n div 256 mod 16), hex_digit (n div 16 mod 16), hex_digit (n mod 16)]"

definition u_escape :: "nat \<Rightarrow> string" where
  "u_escape n = backslash # CHR ''u'' # hex4 n"

text \<open>A byte of ASCII in a string; the characters that HTML treats specially are escaped too.\<close>

definition escape_ascii :: "char \<Rightarrow> string" where
  "escape_ascii c =
     (if c = quote then [backslash, quote]
      else if c = backslash then [backslash, backslash]
      else if c = CHR 0x08 then [backslash, CHR ''b'']
      else if c = CHR 0x0C then [backslash, CHR ''f'']
      else if c = CHR 0x0A then [backslash, CHR ''n'']
      else if c = CHR 0x0D then [backslash, CHR ''r'']
      else if c = CHR 0x09 then [backslash, CHR ''t'']
      else if of_char c < (32 :: nat) \<or> c = CHR ''<'' \<or> c = CHR ''>'' \<or> c = CHR ''&'' then u_escape (of_char c)
      else [c])"

function escape :: "string \<Rightarrow> string" where
  "escape [] = []"
| "escape (c # s) =
     (if of_char c < (128 :: nat) then escape_ascii c @ escape s
      else if utf8_len (c # s) = 0 then u_escape 65533 @ escape s
      else let n = utf8_len (c # s); q = take n (c # s) in
        (if q = [CHR 0xE2, CHR 0x80, CHR 0xA8] then u_escape 8232
         else if q = [CHR 0xE2, CHR 0x80, CHR 0xA9] then u_escape 8233 else q) @ escape (drop n (c # s)))"
  by pat_completeness auto
termination by (relation "measure length") auto

definition quoted :: "string \<Rightarrow> string" where
  "quoted s = quote # escape s @ [quote]"

fun Marshal :: "json \<Rightarrow> string"
  and Marshal_list :: "json list \<Rightarrow> string"
  and Marshal_members :: "(string \<times> json) list \<Rightarrow> string" where
  "Marshal JNull = ''null''"
| "Marshal (JBool b) = (if b then ''true'' else ''false'')"
| "Marshal (JNum l) = l"
| "Marshal (JStr s) = quoted s"
| "Marshal (JArr vs) = CHR ''['' # Marshal_list vs @ '']''"
| "Marshal (JObj ms) = CHR ''{'' # Marshal_members ms @ ''}''"
| "Marshal_list [] = []"
| "Marshal_list (v # vs) = Marshal v @ (if vs = [] then [] else '','' @ Marshal_list vs)"
| "Marshal_members [] = []"
| "Marshal_members ((k, v) # ms) = quoted k @ '':'' @ Marshal v @ (if ms = [] then [] else '','' @ Marshal_members ms)"

definition JInt :: "int \<Rightarrow> json" where
  "JInt n = JNum (Itoa n)"

section \<open>Unmarshal\<close>

definition json_space :: "char \<Rightarrow> bool" where
  "json_space c \<longleftrightarrow> c = CHR '' '' \<or> c = CHR 0x09 \<or> c = CHR 0x0A \<or> c = CHR 0x0D"

definition skip :: "string \<Rightarrow> string" where
  "skip s = dropWhile json_space s"

definition unhex_digit :: "char \<Rightarrow> nat option" where
  "unhex_digit c =
     (let n = of_char c :: nat in
      if 48 \<le> n \<and> n \<le> 57 then Some (n - 48)
      else if 97 \<le> n \<and> n \<le> 102 then Some (n - 87)
      else if 65 \<le> n \<and> n \<le> 70 then Some (n - 55) else None)"

definition unhex4 :: "string \<Rightarrow> nat option" where
  "unhex4 s =
     (case map unhex_digit (take 4 s) of
        [Some a, Some b, Some c, Some d] \<Rightarrow> Some (4096 * a + 256 * b + 16 * c + d)
      | _ \<Rightarrow> None)"

definition utf8 :: "nat \<Rightarrow> string" where
  "utf8 n =
     (if n < 128 then [char_of n]
      else if n < 2048 then [char_of (192 + n div 64), char_of (128 + n mod 64)]
      else if n < 65536 then [char_of (224 + n div 4096), char_of (128 + n div 64 mod 64), char_of (128 + n mod 64)]
      else [char_of (240 + n div 262144), char_of (128 + n div 4096 mod 64), char_of (128 + n div 64 mod 64), char_of (128 + n mod 64)])"

definition unescape_char :: "char \<Rightarrow> char option" where
  "unescape_char c =
     map_of [(quote, quote), (backslash, backslash), (CHR ''/'', CHR ''/''), (CHR ''b'', CHR 0x08),
             (CHR ''f'', CHR 0x0C), (CHR ''n'', CHR 0x0A), (CHR ''r'', CHR 0x0D), (CHR ''t'', CHR 0x09)] c"

text \<open>
  The code point of an escape \<open>\u....\<close>, of which the four digits are at the front, and the number
  of bytes it takes behind the \<open>u\<close>: two surrogates make one code point, half a pair is replaced.
\<close>

definition unescape_u :: "string \<Rightarrow> (nat \<times> nat) option" where
  "unescape_u s =
     (case unhex4 s of
        None \<Rightarrow> None
      | Some n \<Rightarrow>
          if n < 55296 \<or> 57344 \<le> n then Some (n, 4)
          else (case (if n < 56320 \<and> take 2 (drop 4 s) = [backslash, CHR ''u''] then unhex4 (drop 6 s) else None) of
             Some m \<Rightarrow> if 56320 \<le> m \<and> m < 57344 then Some (65536 + (n - 55296) * 1024 + (m - 56320), 10) else Some (65533, 4)
           | None \<Rightarrow> Some (65533, 4)))"

text \<open>The rest of a string behind its opening quote: its value, and what follows the closing one.\<close>

function unquote :: "string \<Rightarrow> (string \<times> string) option" where
  "unquote [] = None"
| "unquote (c # s) =
     (if c = quote then Some ([], s)
      else if of_char c < (32 :: nat) then None
      else if c = backslash then
        (case s of
           [] \<Rightarrow> None
         | d # r \<Rightarrow>
             if d = CHR ''u'' then
               (case unescape_u r of
                  None \<Rightarrow> None
                | Some (n, k) \<Rightarrow> map_option (\<lambda>(v, t). (utf8 n @ v, t)) (unquote (drop k r)))
             else (case unescape_char d of
                  None \<Rightarrow> None
                | Some e \<Rightarrow> map_option (\<lambda>(v, t). (e # v, t)) (unquote r)))
      else if of_char c < (128 :: nat) then map_option (\<lambda>(v, t). (c # v, t)) (unquote s)
      else if utf8_len (c # s) = 0 then map_option (\<lambda>(v, t). (utf8 65533 @ v, t)) (unquote s)
      else map_option (\<lambda>(v, t). (take (utf8_len (c # s)) (c # s) @ v, t)) (unquote (drop (utf8_len (c # s)) (c # s))))"
  by pat_completeness auto
termination by (relation "measure length") auto

text \<open>The literal of a number at the front, and what follows it.\<close>

definition unsigned :: "string \<Rightarrow> (string \<times> string) option" where
  "unsigned s1 =
     (let ip = (if HasPrefix s1 ''0'' then ''0'' else takeWhile is_digit s1);
          s2 = drop (length ip) s1;
          fp = (if HasPrefix s2 ''.'' then ''.'' @ takeWhile is_digit (drop 1 s2) else []);
          s3 = drop (length fp) s2;
          es = (if HasPrefix s3 ''e'' \<or> HasPrefix s3 ''E''
                then take (if HasPrefix (drop 1 s3) ''+'' \<or> HasPrefix (drop 1 s3) ''-'' then 2 else 1) s3 else []);
          ed = (if es = [] then [] else takeWhile is_digit (drop (length es) s3))
      in if ip = [] \<or> fp = ''.'' \<or> (es \<noteq> [] \<and> ed = []) then None
         else Some (ip @ fp @ es @ ed, drop (length es + length ed) s3))"

definition number :: "string \<Rightarrow> (string \<times> string) option" where
  "number s =
     (if HasPrefix s ''-'' then map_option (\<lambda>(l, t). (CHR ''-'' # l, t)) (unsigned (drop 1 s)) else unsigned s)"

definition literal :: "string \<Rightarrow> json \<Rightarrow> string \<Rightarrow> (json \<times> string) option" where
  "literal l v s = (if HasPrefix s l then Some (v, drop (length l) s) else None)"

text \<open>The first argument bounds the depth and the length; the length of the text is enough, as \<open>parse_json_iff\<close> states.\<close>

fun p_value :: "nat \<Rightarrow> string \<Rightarrow> (json \<times> string) option"
  and p_elems :: "nat \<Rightarrow> string \<Rightarrow> (json list \<times> string) option"
  and p_members :: "nat \<Rightarrow> string \<Rightarrow> ((string \<times> json) list \<times> string) option" where
  "p_value 0 s = None"
| "p_value (Suc n) s0 =
     (case skip s0 of
        [] \<Rightarrow> None
      | c # s \<Rightarrow>
          if c = CHR ''{'' then
            (if HasPrefix (skip s) ''}'' then Some (JObj [], drop 1 (skip s))
             else map_option (\<lambda>(ms, t). (JObj ms, t)) (p_members n s))
          else if c = CHR ''['' then
            (if HasPrefix (skip s) '']'' then Some (JArr [], drop 1 (skip s))
             else map_option (\<lambda>(vs, t). (JArr vs, t)) (p_elems n s))
          else if c = quote then map_option (\<lambda>(v, t). (JStr v, t)) (unquote s)
          else if c = CHR ''t'' then literal ''true'' (JBool True) (c # s)
          else if c = CHR ''f'' then literal ''false'' (JBool False) (c # s)
          else if c = CHR ''n'' then literal ''null'' JNull (c # s)
          else map_option (\<lambda>(l, t). (JNum l, t)) (number (c # s)))"
| "p_elems 0 s = None"
| "p_elems (Suc n) s =
     (case p_value n s of
        None \<Rightarrow> None
      | Some (v, t) \<Rightarrow>
          if HasPrefix (skip t) '']'' then Some ([v], drop 1 (skip t))
          else if HasPrefix (skip t) '','' then map_option (\<lambda>(vs, u). (v # vs, u)) (p_elems n (drop 1 (skip t)))
          else None)"
| "p_members 0 s = None"
| "p_members (Suc n) s =
     (if \<not> HasPrefix (skip s) [quote] then None
      else case unquote (drop 1 (skip s)) of
        None \<Rightarrow> None
      | Some (k, t) \<Rightarrow>
          if \<not> HasPrefix (skip t) '':'' then None
          else case p_value n (drop 1 (skip t)) of
            None \<Rightarrow> None
          | Some (v, u) \<Rightarrow>
              if HasPrefix (skip u) ''}'' then Some ([(k, v)], drop 1 (skip u))
              else if HasPrefix (skip u) '','' then map_option (\<lambda>(ms, x). ((k, v) # ms, x)) (p_members n (drop 1 (skip u)))
              else None)"

definition parse_json :: "string \<Rightarrow> json option" where
  "parse_json s =
     (case p_value (Suc (length s)) s of
        Some (v, t) \<Rightarrow> if skip t = [] then Some v else None
      | None \<Rightarrow> None)"

text \<open>
  The fields of a struct. A member belongs to a field if their names agree up to case folding;
  the last member wins, \<open>null\<close> changes nothing, and a value of the wrong type is an error.
\<close>

fun fold_name :: "string \<Rightarrow> string" where
  "fold_name [] = []"
| "fold_name (c # s) =
     (if HasPrefix (c # s) [CHR 0xE2, CHR 0x84, CHR 0xAA] then CHR ''K'' # fold_name (drop 2 s)
      else if HasPrefix (c # s) [CHR 0xC5, CHR 0xBF] then CHR ''S'' # fold_name (drop 1 s)
      else upper_byte c # fold_name s)"

definition int_literal :: "string \<Rightarrow> int option" where
  "int_literal l = (case Atoi l of (n, None) \<Rightarrow> if HasPrefix l ''+'' then None else Some n | _ \<Rightarrow> None)"

definition get_string :: "(string \<times> json) list \<Rightarrow> string \<Rightarrow> string option" where
  "get_string ms name =
     fold (\<lambda>(k, v) acc. if fold_name k \<noteq> fold_name name then acc
        else case acc of None \<Rightarrow> None
        | Some _ \<Rightarrow> (case v of JStr s \<Rightarrow> Some s | JNull \<Rightarrow> acc | _ \<Rightarrow> None)) ms (Some [])"

definition get_int :: "(string \<times> json) list \<Rightarrow> string \<Rightarrow> int option" where
  "get_int ms name =
     fold (\<lambda>(k, v) acc. if fold_name k \<noteq> fold_name name then acc
        else case acc of None \<Rightarrow> None
        | Some _ \<Rightarrow> (case v of JNum l \<Rightarrow> int_literal l | JNull \<Rightarrow> acc | _ \<Rightarrow> None)) ms (Some 0)"

text \<open>The members of the object that a text holds; \<open>null\<close> leaves a struct as it is.\<close>

definition json_members :: "string \<Rightarrow> (string \<times> json) list option" where
  "json_members s = (case parse_json s of Some (JObj ms) \<Rightarrow> Some ms | Some JNull \<Rightarrow> Some [] | _ \<Rightarrow> None)"

section \<open>The round trip\<close>

declare escape.simps [simp del] unquote.simps [simp del]

lemma unhex_hex_digit: "n < 16 \<Longrightarrow> unhex_digit (hex_digit n) = Some n"
  by (simp add: unhex_digit_def hex_digit_def Let_def)

lemma unhex4_hex4: "n < 65536 \<Longrightarrow> unhex4 (hex4 n @ t) = Some n"
proof -
  assume n: "n < 65536"
  define a where "a = n div 16"
  define b where "b = a div 16"
  define c where "c = b div 16"
  have d: "n div 256 = b" "n div 4096 = c" by (simp_all add: a_def b_def c_def div_mult2_eq [symmetric])
  have "n = 16 * a + n mod 16" by (simp add: a_def)
  moreover have "a = 16 * b + a mod 16" by (simp add: b_def)
  moreover have "b = 16 * c + b mod 16" by (simp add: c_def)
  moreover have "c < 16" using n by (simp add: d(2) [symmetric] less_mult_imp_div_less)
  ultimately have "4096 * c + 256 * (b mod 16) + 16 * (a mod 16) + n mod 16 = n" and "c mod 16 = c" by simp_all
  then show ?thesis by (simp add: unhex4_def hex4_def unhex_hex_digit d flip: a_def)
qed

lemma unquote_u_escape:
  "n < 128 \<Longrightarrow> unquote (u_escape n @ t) = map_option (\<lambda>(v, u). (char_of n # v, u)) (unquote t)"
  by (simp add: u_escape_def unquote.simps(2) [of backslash] unescape_u_def unhex4_hex4 utf8_def)
    (simp add: hex4_def)

lemma unquote_escape_ascii:
  assumes "of_char c < (128 :: nat)"
  shows "unquote (escape_ascii c @ t) = map_option (\<lambda>(v, u). (c # v, u)) (unquote t)"
proof -
  have u: "unquote (u_escape (of_char c) @ t) = map_option (\<lambda>(v, u). (c # v, u)) (unquote t)"
    using assms by (simp add: unquote_u_escape)
  have p: "unquote (c # t) = map_option (\<lambda>(v, u). (c # v, u)) (unquote t)"
    if "c \<noteq> quote" "c \<noteq> backslash" "32 \<le> (of_char c :: nat)"
    using that assms by (simp add: unquote.simps(2) [of c])
  show ?thesis
    using u p by (simp add: escape_ascii_def unquote.simps(2) [of backslash] unescape_char_def)
qed

lemma unquote_escape: "ascii s \<Longrightarrow> unquote (escape s @ quote # t) = Some (s, t)"
proof (induction s)
  case Nil
  then show ?case by (simp add: escape.simps unquote.simps)
next
  case (Cons c s)
  then show ?case by (simp add: ascii_def escape.simps unquote_escape_ascii)
qed

lemma nat_digits_zero: "HasPrefix (nat_digits n) ''0'' \<Longrightarrow> n = 0"
proof (induction n rule: nat_digits.induct)
  case (1 n)
  show ?case
  proof (cases "n < 10")
    case True
    with 1(2) have "char_of (48 + n) = CHR ''0''" by (subst (asm) nat_digits.simps) simp
    then have "of_char (char_of (48 + n) :: char) = (48 :: nat)" by simp
    with True show ?thesis by simp
  next
    case False
    with 1(2) have "HasPrefix (nat_digits (n div 10)) ''0''"
      by (subst (asm) nat_digits.simps) (cases "nat_digits (n div 10)"; simp)
    with 1(1) False have "n div 10 = 0" by blast
    with False show ?thesis by simp
  qed
qed

lemma takeWhile_digits:
  "list_all is_digit s \<Longrightarrow> t = [] \<or> \<not> is_digit (hd t) \<Longrightarrow> takeWhile is_digit (s @ t) = s"
  by (induction s) (cases t; auto)+

definition ends_number :: "string \<Rightarrow> bool" where
  "ends_number t \<longleftrightarrow> HasPrefix t '','' \<or> HasPrefix t ''}'' \<or> HasPrefix t '']''"

lemma nat_digits_0: "nat_digits 0 = ''0''"
  by (subst nat_digits.simps) code_simp

lemma unsigned_nat:
  assumes "ends_number t"
  shows "unsigned (nat_digits n @ t) = Some (nat_digits n, t)"
proof -
  have t: "t \<noteq> []" "\<not> is_digit (hd t)" "\<not> HasPrefix t ''.''" "\<not> HasPrefix t ''e''" "\<not> HasPrefix t ''E''"
    using assms by (cases t; auto simp: ends_number_def is_digit_def)+
  have d: "takeWhile is_digit (nat_digits n @ t) = nat_digits n"
    using nat_digits_all_digit t by (intro takeWhile_digits) auto
  obtain c s where cs: "nat_digits n = c # s" by (meson nat_digits_nonempty list.exhaust)
  have ip: "(if HasPrefix (nat_digits n @ t) ''0'' then ''0'' else takeWhile is_digit (nat_digits n @ t)) = nat_digits n"
  proof (cases "HasPrefix (nat_digits n @ t) ''0''")
    case True
    then have "HasPrefix (nat_digits n) ''0''" by (simp add: cs)
    then have "n = 0" by (rule nat_digits_zero)
    then have "nat_digits n = ''0''" by (simp add: nat_digits_0)
    with True show ?thesis by simp
  next
    case False
    with d show ?thesis by simp
  qed
  show ?thesis by (simp add: unsigned_def Let_def ip t)
qed

lemma number_Itoa: "ends_number t \<Longrightarrow> number (Itoa n @ t) = Some (Itoa n, t)"
proof -
  assume t: "ends_number t"
  obtain c s where cs: "nat_digits (nat n) = c # s" by (meson nat_digits_nonempty list.exhaust)
  have "\<not> HasPrefix (nat_digits (nat n) @ t) ''-''"
    using nat_digits_no_sign(1) [of "nat n"] by (simp add: cs)
  with t show ?thesis by (simp add: Itoa_def number_def unsigned_nat)
qed

text \<open>The values that the events hold: text, whole numbers and booleans.\<close>

definition plain :: "json \<Rightarrow> bool" where
  "plain v \<longleftrightarrow> (\<exists>s. v = JStr s \<and> ascii s) \<or> (\<exists>n. v = JInt n) \<or> (\<exists>b. v = JBool b)"

lemma skip_no_space: "s = [] \<or> \<not> json_space (hd s) \<Longrightarrow> skip s = s"
  by (cases s) (simp_all add: skip_def)

lemma skip_Cons: "\<not> json_space c \<Longrightarrow> skip (c # s) = c # s"
  by (simp add: skip_def)

lemma Itoa_head: obtains c s where "Itoa n = c # s" and "is_digit c \<or> c = CHR ''-''"
proof (cases "n < 0")
  case True
  then show thesis by (intro that [of "CHR ''-''" "nat_digits (nat (- n))"]) (simp_all add: Itoa_def)
next
  case False
  obtain c s where "nat_digits (nat n) = c # s" by (meson nat_digits_nonempty list.exhaust)
  moreover from this nat_digits_all_digit [of "nat n"] have "is_digit c" by simp
  ultimately show thesis using False by (intro that [of c s]) (simp_all add: Itoa_def)
qed

lemma number_head:
  assumes "is_digit c \<or> c = CHR ''-''"
  shows "\<not> json_space c" "c \<noteq> CHR ''{''" "c \<noteq> CHR ''[''" "c \<noteq> quote" "c \<noteq> CHR ''t''" "c \<noteq> CHR ''f''" "c \<noteq> CHR ''n''"
  using assms by (auto simp: is_digit_def json_space_def)

lemma p_value_plain:
  assumes "plain v" and "ends_number t"
  shows "p_value (Suc n) (Marshal v @ t) = Some (v, t)"
proof -
  from assms(1) consider s where "v = JStr s" "ascii s" | m where "v = JInt m" | b where "v = JBool b"
    unfolding plain_def by blast
  then show ?thesis
  proof cases
    case 1
    have "\<not> json_space quote" by (simp add: json_space_def)
    with 1 show ?thesis by (simp add: quoted_def skip_Cons unquote_escape)
  next
    case 2
    obtain c s where cs: "Itoa m = c # s" "is_digit c \<or> c = CHR ''-''" by (rule Itoa_head)
    note h = number_head [OF cs(2)]
    have "number (c # s @ t) = Some (c # s, t)" using number_Itoa [OF assms(2), of m] cs(1) by simp
    with 2 cs h show ?thesis by (simp add: JInt_def skip_Cons)
  next
    case 3
    then show ?thesis by (simp add: skip_Cons json_space_def literal_def)
  qed
qed

lemma p_members_plain:
  assumes "ms \<noteq> []" and "\<forall>(k, v) \<in> set ms. ascii k \<and> plain v" and "Suc (length ms) \<le> n"
  shows "p_members n (Marshal_members ms @ CHR ''}'' # t) = Some (ms, t)"
  using assms
proof (induction ms arbitrary: n)
  case (Cons m ms)
  obtain k v where m: "m = (k, v)" by (cases m)
  from Cons.prems obtain n' where n: "n = Suc (Suc n')" by (cases n; cases "n - 1") auto
  have q: "\<not> json_space quote" "\<not> json_space CHR '':''" "\<not> json_space CHR '',''" "\<not> json_space CHR ''}''"
    by (simp_all add: json_space_def)
  let ?rest = "(if ms = [] then [] else '','' @ Marshal_members ms) @ CHR ''}'' # t"
  have "ends_number ?rest" by (simp add: ends_number_def)
  then have v: "p_value (Suc n') (Marshal v @ ?rest) = Some (v, ?rest)"
    using Cons.prems(2) m by (intro p_value_plain) auto
  have k: "unquote (escape k @ quote # CHR '':'' # Marshal v @ ?rest) = Some (k, CHR '':'' # Marshal v @ ?rest)"
    using Cons.prems(2) m by (intro unquote_escape) auto
  have eq: "Marshal_members (m # ms) @ CHR ''}'' # t = quote # escape k @ quote # CHR '':'' # Marshal v @ ?rest"
    by (simp add: m quoted_def)
  show ?case
  proof (cases "ms = []")
    case True
    then show ?thesis
      unfolding eq n using k v q by (simp add: skip_Cons m)
  next
    case False
    with Cons have "p_members (Suc n') (Marshal_members ms @ CHR ''}'' # t) = Some (ms, t)"
      by (intro Cons.IH) (auto simp: n)
    with False show ?thesis
      unfolding eq n using k v q by (simp add: skip_Cons m)
  qed
qed simp

lemma length_Marshal_members: "length ms \<le> length (Marshal_members ms)"
proof (induction ms)
  case (Cons m ms)
  then show ?case by (cases m) (auto simp: quoted_def)
qed simp

text \<open>An object of plain members is read as it was written.\<close>

lemma parse_Marshal:
  assumes "ms \<noteq> []" and "\<forall>(k, v) \<in> set ms. ascii k \<and> plain v"
  shows "parse_json (Marshal (JObj ms)) = Some (JObj ms)"
proof -
  let ?n = "length (Marshal (JObj ms))"
  have q: "\<not> json_space CHR ''{''" by (simp add: json_space_def)
  obtain k v r where ms: "ms = (k, v) # r" using assms(1) by (cases ms) auto
  have "skip (Marshal_members ms @ ''}'') = Marshal_members ms @ ''}''"
    by (simp add: ms quoted_def skip_Cons json_space_def)
  then have "\<not> HasPrefix (skip (Marshal_members ms @ ''}'')) ''}''"
    by (simp add: ms quoted_def)
  moreover have "p_members ?n (Marshal_members ms @ ''}'') = Some (ms, [])"
    using length_Marshal_members [of ms] assms by (intro p_members_plain) simp_all
  ultimately have "p_value (Suc ?n) (Marshal (JObj ms)) = Some (JObj ms, [])"
    using q by (simp add: skip_Cons)
  then show ?thesis by (simp add: parse_json_def skip_def)
qed

lemma plain_simps [simp]: "plain (JStr s) \<longleftrightarrow> ascii s" "plain (JInt n)"
  by (auto simp: plain_def JInt_def)

lemma json_members_Marshal:
  "ms \<noteq> [] \<Longrightarrow> \<forall>(k, v) \<in> set ms. ascii k \<and> plain v \<Longrightarrow> json_members (Marshal (JObj ms)) = Some ms"
  by (simp add: json_members_def parse_Marshal del: Marshal.simps)

lemma int_literal_Itoa [simp]: "- (2 ^ 63) \<le> n \<Longrightarrow> n < 2 ^ 63 \<Longrightarrow> int_literal (Itoa n) = Some n"
proof -
  assume n: "- (2 ^ 63) \<le> n" "n < 2 ^ 63"
  obtain c s where cs: "Itoa n = c # s" "is_digit c \<or> c = CHR ''-''" by (rule Itoa_head)
  then have "\<not> HasPrefix (Itoa n) ''+''" by (auto simp: is_digit_def)
  with n show ?thesis by (simp add: int_literal_def Atoi_Itoa del: HasPrefix_Cons)
qed

section \<open>No newlines\<close>

text \<open>A control character never appears in the text of a string: it is escaped.\<close>

lemma utf8_len_bytes: "c \<in> set (take (utf8_len s) s) \<Longrightarrow> 128 \<le> (of_char c :: nat)"
proof -
  assume c: "c \<in> set (take (utf8_len s) s)"
  consider "s = []" | a where "s = [a]" | a b where "s = [a, b]" | a b d where "s = [a, b, d]"
    | a b d e r where "s = a # b # d # e # r"
    by (metis neq_Nil_conv)
  then show "128 \<le> (of_char c :: nat)"
    by cases (use c in \<open>auto simp: utf8_len_def is_cont_def split: if_splits\<close>)
qed

lemma hex_digit_graphic: "m < 16 \<Longrightarrow> 32 \<le> (of_char (hex_digit m) :: nat)"
  by (simp add: hex_digit_def)

lemma u_escape_graphic: "c \<in> set (u_escape n) \<Longrightarrow> 32 \<le> (of_char c :: nat)"
proof -
  assume "c \<in> set (u_escape n)"
  then consider "c = backslash" | "c = CHR ''u''" | m where "m < 16" "c = hex_digit m"
    unfolding u_escape_def hex4_def by (simp only: list.set insert_iff empty_iff) (metis mod_less_divisor zero_less_numeral)
  then show ?thesis by cases (simp_all add: hex_digit_graphic)
qed

lemma escape_ascii_graphic: "of_char x < (128 :: nat) \<Longrightarrow> c \<in> set (escape_ascii x) \<Longrightarrow> 32 \<le> (of_char c :: nat)"
  by (auto simp: escape_ascii_def u_escape_graphic split: if_splits)

lemma escape_graphic: "c \<in> set (escape s) \<Longrightarrow> 32 \<le> (of_char c :: nat)"
proof (induction s rule: escape.induct)
  case (2 x s)
  show ?case
  proof (cases "of_char x < (128 :: nat)")
    case True
    with 2 show ?thesis by (auto simp: escape.simps dest: escape_ascii_graphic)
  next
    case wide: False
    show ?thesis
    proof (cases "utf8_len (x # s) = 0")
      case True
      with wide 2 show ?thesis by (auto simp: escape.simps dest: u_escape_graphic)
    next
      case False
      let ?n = "utf8_len (x # s)"
      have "c \<in> set (u_escape 8232) \<or> c \<in> set (u_escape 8233) \<or> c \<in> set (take ?n (x # s)) \<or> c \<in> set (escape (drop ?n (x # s)))"
        using wide False 2(4) by (auto simp: escape.simps Let_def simp del: take_Cons drop_Cons split: if_splits)
      then show ?thesis
        using 2(3) [OF wide False refl refl] u_escape_graphic [of c] utf8_len_bytes [of c "x # s"]
        by (elim disjE) simp_all
    qed
  qed
qed (simp add: escape.simps)

lemma quoted_no_newline: "CHR 0x0A \<notin> set (quoted s)"
  using escape_graphic [of "CHR 0x0A" s] by (auto simp: quoted_def)

section \<open>Enough fuel\<close>

lemma skip_length: "length (skip s) \<le> length s"
  by (simp add: skip_def length_dropWhile_le)

lemma guarded_Some: "(if c then None else Some (a, b)) = Some (l, t) \<longleftrightarrow> \<not> c \<and> a = l \<and> b = t"
  by simp

lemma unsigned_length:
  assumes "unsigned s = Some (l, t)"
  shows "length t < length s"
proof -
  define ip where "ip = (if HasPrefix s ''0'' then ''0'' else takeWhile is_digit s)"
  have "ip \<noteq> [] \<and> (\<exists>a b. t = drop a (drop b (drop (length ip) s)))"
    using assms unfolding unsigned_def Let_def ip_def [symmetric] guarded_Some by blast
  then obtain a b where ip: "ip \<noteq> []" and t: "t = drop a (drop b (drop (length ip) s))" by blast
  have "s \<noteq> []" using ip by (auto simp: ip_def HasPrefix_def)
  with t ip show ?thesis by (cases ip) auto
qed

lemma number_length: "number s = Some (l, t) \<Longrightarrow> length t < length s"
  by (auto simp: number_def HasPrefix_def dest!: unsigned_length split: if_splits)

lemma unquote_length: "unquote s = Some (v, t) \<Longrightarrow> length t < length s"
proof (induction "length s" arbitrary: s v rule: less_induct)
  case less
  show ?case
  proof (cases s)
    case (Cons c r)
    have k: "length t < length s" if "map_option (\<lambda>(v, t). (f v, t)) (unquote (drop k r)) = Some (v, t)" for k f
      using that less(1) [of "drop k r"] by (fastforce simp: Cons)
    show ?thesis
    proof (cases "c = quote \<or> of_char c < (32 :: nat)")
      case True
      with less(2) show ?thesis unfolding Cons unquote.simps(2) by (auto split: if_splits)
    next
      case no: False
      show ?thesis
      proof (cases "c = backslash")
        case True
        then obtain d q where r: "r = d # q" using less(2) no unfolding Cons unquote.simps(2) by (auto split: list.splits)
        have q: "length t < length s" if "map_option (\<lambda>(v, t). (f v, t)) (unquote (drop k q)) = Some (v, t)" for k f
          using that k [where k = "Suc k"] r by simp
        show ?thesis
          using less(2) no True q [where k = 0] q unfolding Cons r unquote.simps(2)
          by (simp split: if_splits option.splits prod.splits)
      next
        case False
        obtain n where n: "utf8_len (c # r) = 0 \<or> utf8_len (c # r) = Suc n" by (cases "utf8_len (c # r)") auto
        show ?thesis
          using less(2) no False n k [where k = 0] k [where k = n] unfolding Cons unquote.simps(2)
          by (simp split: if_splits) (elim disjE; simp)?
      qed
    qed
  qed (use less(2) in \<open>simp add: unquote.simps(1)\<close>)
qed


text \<open>A result of a parser with some fuel is its result with as much fuel as it consumes characters.\<close>

definition settled :: "(nat \<Rightarrow> string \<Rightarrow> ('a \<times> string) option) \<Rightarrow> nat \<Rightarrow> string \<Rightarrow> bool" where
  "settled p n s \<longleftrightarrow> (\<forall>v t. p n s = Some (v, t) \<longrightarrow> length t < length s \<and> (\<forall>m. length s \<le> m + length t \<longrightarrow> p m s = Some (v, t)))"

lemma settledI:
  assumes "\<And>v t. p n s = Some (v, t) \<Longrightarrow> length t < length s \<and> (\<forall>m. length s \<le> Suc m + length t \<longrightarrow> p (Suc m) s = Some (v, t))"
  shows "settled p n s"
  unfolding settled_def
proof (intro allI impI conjI)
  fix v t assume e: "p n s = Some (v, t)"
  then show "length t < length s" using assms by blast
  fix m assume "length s \<le> m + length t"
  with assms [OF e] obtain k where "m = Suc k" by (cases m) auto
  with assms [OF e] \<open>length s \<le> m + length t\<close> show "p m s = Some (v, t)" by blast
qed

lemma settledD:
  assumes "settled p n s" and "p n s = Some (v, t)"
  shows "length t < length s" "length s \<le> m + length t \<Longrightarrow> p m s = Some (v, t)"
  using assms unfolding settled_def by blast+

lemma parser_settled: "settled p_value n s" "settled p_elems n s" "settled p_members n s"
proof (induction n s and n s and n s rule: p_value_p_elems_p_members.induct)
  case (2 n s0)
  show ?case
  proof (rule settledI)
    fix v t assume e: "p_value (Suc n) s0 = Some (v, t)"
    then obtain c s where c: "skip s0 = c # s" by (auto split: list.splits)
    have len: "Suc (length s) \<le> length s0" using skip_length [of s0] c by simp
    have lit: "literal l x (c # s) = Some (v, t) \<Longrightarrow> l \<noteq> [] \<Longrightarrow> length t < length s0" for l x
      using len by (cases l) (auto simp: literal_def split: if_splits)
    show "length t < length s0 \<and> (\<forall>m. length s0 \<le> Suc m + length t \<longrightarrow> p_value (Suc m) s0 = Some (v, t))"
    proof (cases "c = CHR ''{'' \<or> c = CHR ''[''")
      case True
      then consider (obj) "c = CHR ''{''" | (arr) "c = CHR ''[''" "c \<noteq> CHR ''{''" by auto
      then show ?thesis
      proof cases
        case obj
        show ?thesis
        proof (cases "HasPrefix (skip s) ''}''")
          case True
          with e obj c len skip_length [of s] show ?thesis by auto
        next
          case False
          with e c obj obtain ms where ms: "p_members n s = Some (ms, t)" "v = JObj ms" by auto
          note settledD [OF 2(1) [OF c obj False] ms(1)]
          with ms False obj c len show ?thesis by auto
        qed
      next
        case arr
        show ?thesis
        proof (cases "HasPrefix (skip s) '']''")
          case True
          with e arr c len skip_length [of s] show ?thesis by auto
        next
          case False
          with e c arr obtain vs where vs: "p_elems n s = Some (vs, t)" "v = JArr vs" by auto
          note settledD [OF 2(2) [OF c arr(2,1) False] vs(1)]
          with vs False arr c len show ?thesis by auto
        qed
      qed
    next
      case False
      then have "p_value (Suc m) s0 = p_value (Suc n) s0" for m using c by simp
      moreover have "length t < length s0"
        using e c False lit [of "''true''"] lit [of "''false''"] lit [of "''null''"] number_length [of "c # s" _ t] unquote_length [of s _ t] len
        by (auto split: if_splits)
      ultimately show ?thesis using e by simp
    qed
  qed
next
  case (4 n s)
  show ?case
  proof (rule settledI)
    fix vs t assume e: "p_elems (Suc n) s = Some (vs, t)"
    then obtain v u where u: "p_value n s = Some (v, u)" by (auto split: option.splits)
    note v = settledD [OF 4(1) u]
    have sk: "length (skip u) \<le> length u" by (rule skip_length)
    show "length t < length s \<and> (\<forall>m. length s \<le> Suc m + length t \<longrightarrow> p_elems (Suc m) s = Some (vs, t))"
    proof (cases "HasPrefix (skip u) '']''")
      case True
      then have "length t < length s \<and> (\<forall>m. length s \<le> Suc m + length t \<longrightarrow> length s \<le> m + length u)"
        using e u v sk by (cases "skip u") (auto simp: HasPrefix_def)
      with v e u True show ?thesis by (auto simp: HasPrefix_def)
    next
      case False
      then obtain ws where w: "HasPrefix (skip u) '',''" "p_elems n (drop 1 (skip u)) = Some (ws, t)" "vs = v # ws"
        using e u by (auto split: if_splits)
      note settledD [OF 4(2) [OF u refl False w(1)] w(2)]
      with w v sk False u show ?thesis by (cases "skip u") (auto simp: HasPrefix_def)
    qed
  qed
next
  case (6 n s)
  show ?case
  proof (rule settledI)
    fix ms t assume e: "p_members (Suc n) s = Some (ms, t)"
    then have k: "HasPrefix (skip s) [quote]" by (auto split: if_splits)
    obtain key u where u: "unquote (drop 1 (skip s)) = Some (key, u)" using e k by (auto split: option.splits)
    have colon: "HasPrefix (skip u) '':''" using e k u by (auto split: if_splits)
    obtain v x where x: "p_value n (drop 1 (skip u)) = Some (v, x)" using e k u colon by (auto split: option.splits)
    have ih: "settled p_value n (drop 1 (skip u))" using 6(1) k u colon by blast
    note v = settledD [OF ih x]
    have lens: "length u < length s" "length (skip u) \<le> length u" "length (skip x) \<le> length x"
      using unquote_length [OF u] skip_length [of s] skip_length [of u] skip_length [of x] by auto
    show "length t < length s \<and> (\<forall>m. length s \<le> Suc m + length t \<longrightarrow> p_members (Suc m) s = Some (ms, t))"
    proof (cases "HasPrefix (skip x) ''}''")
      case True
      then have "length t < length s \<and> (\<forall>m. length s \<le> Suc m + length t \<longrightarrow> length (drop 1 (skip u)) \<le> m + length x)"
        using e k u colon x v lens by (cases "skip x") (auto simp: HasPrefix_def)
      with v e k u colon x True show ?thesis by auto
    next
      case False
      then obtain ws where w: "HasPrefix (skip x) '',''" "p_members n (drop 1 (skip x)) = Some (ws, t)" "ms = (key, v) # ws"
        using e k u colon x by (auto split: if_splits)
      have "settled p_members n (drop 1 (skip x))" using 6(2) k u colon x False w(1) by blast
      note rest = settledD [OF this w(2)]
      have "length (skip x) \<noteq> 0" using w(1) by (auto simp: HasPrefix_def)
      then have "length t < length s \<and> (\<forall>m. length s \<le> Suc m + length t \<longrightarrow>
          length (drop 1 (skip u)) \<le> m + length x \<and> length (drop 1 (skip x)) \<le> m + length t)"
        using rest v lens by auto
      with rest v k u colon False w(1,3) show ?thesis by auto
    qed
  qed
qed (simp_all add: settled_def)

text \<open>The fuel of \<open>parse_json\<close> is enough for every text that any amount of fuel parses.\<close>

lemma parse_json_iff: "parse_json s = Some v \<longleftrightarrow> (\<exists>n t. p_value n s = Some (v, t) \<and> skip t = [])"
proof
  assume "\<exists>n t. p_value n s = Some (v, t) \<and> skip t = []"
  then obtain n t where t: "p_value n s = Some (v, t)" "skip t = []" by blast
  have "p_value (Suc (length s)) s = Some (v, t)" by (rule settledD(2) [OF parser_settled(1) t(1)]) linarith
  then show "parse_json s = Some v" unfolding parse_json_def using t(2) by (simp only: option.case prod.case simp_thms if_True)
next
  assume "parse_json s = Some v"
  then obtain t where "p_value (Suc (length s)) s = Some (v, t)" "skip t = []"
    unfolding parse_json_def by (cases "p_value (Suc (length s)) s") (auto simp del: p_value.simps split: if_splits)
  then show "\<exists>n t. p_value n s = Some (v, t) \<and> skip t = []" by blast
qed

end
