(* ===== verification/Crypto.thy ===== *)
theory Crypto
  imports Services Config Json
begin

text \<open>
  The secrets that \<open>sms-management\<close> encrypts before it stores them and \<open>sms-monitoring\<close> decrypts
  before it uses them: \<open>security/crypto.go\<close> of both, with the packages \<open>encoding/hex\<close> and
  \<open>encoding/base64\<close>. AES in Galois/Counter Mode and the random source are parameters.
\<close>

section \<open>Decoding\<close>

text \<open>\<open>hex.DecodeString\<close>: an odd length and bytes that are no digits are errors.\<close>

fun hex_DecodeString :: "string \<Rightarrow> string option" where
  "hex_DecodeString [] = Some []"
| "hex_DecodeString [c] = None"
| "hex_DecodeString (c # d # s) =
     (case (unhex_digit c, unhex_digit d) of
        (Some a, Some b) \<Rightarrow> map_option (\<lambda>t. char_of (16 * a + b) # t) (hex_DecodeString s)
      | _ \<Rightarrow> None)"

lemma hex_Decode_Encode [simp]: "hex_DecodeString (hex_EncodeToString s) = Some s"
proof (induction s)
  case (Cons c s)
  have "of_char c div 16 < (16 :: nat)" by (simp add: less_mult_imp_div_less)
  then have "unhex_digit (hex_digit (of_char c div 16)) = Some (of_char c div 16)"
    "unhex_digit (hex_digit (of_char c mod 16)) = Some (of_char c mod 16)"
    by (simp_all add: unhex_hex_digit)
  with Cons show ?case by (simp add: hex_EncodeToString_def)
qed (simp add: hex_EncodeToString_def)

text \<open>
  \<open>base64.StdEncoding.DecodeString\<close>: line breaks are ignored, the last group is padded, and the
  bits that it does not use are not looked at.
\<close>

definition b64_value :: "char \<Rightarrow> nat option" where
  "b64_value c =
     (let n = of_char c :: nat in
      if 65 \<le> n \<and> n \<le> 90 then Some (n - 65)
      else if 97 \<le> n \<and> n \<le> 122 then Some (n - 71)
      else if 48 \<le> n \<and> n \<le> 57 then Some (n + 4)
      else if c = CHR ''+'' then Some 62 else if c = CHR ''/'' then Some 63 else None)"

fun b64_groups :: "string \<Rightarrow> string option" where
  "b64_groups [] = Some []"
| "b64_groups (p # q # r # s # rest) =
     (case (b64_value p, b64_value q) of
        (Some a, Some b) \<Rightarrow>
          let x = char_of (4 * a + b div 16) in
          if r = CHR ''='' then (if s = CHR ''='' \<and> rest = [] then Some [x] else None)
          else (case b64_value r of
             None \<Rightarrow> None
           | Some c \<Rightarrow>
               let y = char_of (16 * (b mod 16) + c div 4) in
               if s = CHR ''='' then (if rest = [] then Some [x, y] else None)
               else (case b64_value s of
                  None \<Rightarrow> None
                | Some d \<Rightarrow> map_option (\<lambda>t. x # y # char_of (64 * (c mod 4) + d) # t) (b64_groups rest)))
      | _ \<Rightarrow> None)"
| "b64_groups _ = None"

definition b64_DecodeString :: "string \<Rightarrow> string option" where
  "b64_DecodeString s = b64_groups (filter (\<lambda>c. c \<noteq> CHR 0x0A \<and> c \<noteq> CHR 0x0D) s)"

section \<open>Encryption\<close>

text \<open>
  \<open>gcm_Seal key nonce plaintext\<close> is the ciphertext with its tag, without the nonce; \<open>rand_Read n\<close>
  fills a buffer of \<open>n\<close> bytes.
\<close>

record 'w crypto_env =
  gcm_Seal :: "string \<Rightarrow> string \<Rightarrow> string \<Rightarrow> string"
  gcm_Open :: "string \<Rightarrow> string \<Rightarrow> string \<Rightarrow> string option"
  rand_Read :: "nat \<Rightarrow> ('w, string + string) state"

definition NonceSize :: nat where
  "NonceSize = 12"

datatype crypto_error = ErrMasterKeyNotSet | ErrInvalidKey | ErrCipher | ErrHex | ErrOpen | ErrRand string

definition master_key :: "string \<Rightarrow> crypto_error + string" where
  "master_key keyStr =
     (if keyStr = [] then Inl ErrMasterKeyNotSet
      else (case b64_DecodeString keyStr of
         None \<Rightarrow> Inl ErrInvalidKey
       | Some key \<Rightarrow> if length key \<noteq> 32 then Inl ErrInvalidKey else Inr key))"

text \<open>The two services read the variable in different ways.\<close>

definition management_getMasterKey :: "os_state \<Rightarrow> crypto_error + string" where
  "management_getMasterKey env = master_key (GetEnvDefault env ''MASTER_KEY'' [])"

definition monitoring_getMasterKey :: "os_state \<Rightarrow> crypto_error + string" where
  "monitoring_getMasterKey env = master_key (Getenv env ''MASTER_KEY'')"

definition encrypt_with ::
  "'w crypto_env \<Rightarrow> crypto_error + string \<Rightarrow> string \<Rightarrow> ('w, crypto_error + string) state" where
  "encrypt_with C masterKey plaintext =
     (if plaintext = [] then ret (Inr [])
      else case masterKey of
        Inl e \<Rightarrow> ret (Inl e)
      | Inr key \<Rightarrow> do {
          r \<leftarrow> rand_Read C NonceSize;
          case r of
            Inl e \<Rightarrow> ret (Inl (ErrRand e))
          | Inr nonce \<Rightarrow> ret (Inr (hex_EncodeToString (nonce @ gcm_Seal C key nonce plaintext)))
        })"

definition decrypt_with :: "'w crypto_env \<Rightarrow> crypto_error + string \<Rightarrow> string \<Rightarrow> crypto_error + string" where
  "decrypt_with C masterKey ciphertextHex =
     (if ciphertextHex = [] then Inr []
      else case masterKey of
        Inl e \<Rightarrow> Inl e
      | Inr key \<Rightarrow>
          (case hex_DecodeString ciphertextHex of
             None \<Rightarrow> Inl ErrHex
           | Some ciphertext \<Rightarrow>
               if length ciphertext < NonceSize then Inl ErrCipher
               else (case gcm_Open C key (take NonceSize ciphertext) (drop NonceSize ciphertext) of
                  None \<Rightarrow> Inl ErrOpen
                | Some plaintext \<Rightarrow> Inr plaintext)))"

definition management_Encrypt :: "os_state \<Rightarrow> 'w crypto_env \<Rightarrow> string \<Rightarrow> ('w, crypto_error + string) state" where
  "management_Encrypt env C = encrypt_with C (management_getMasterKey env)"

definition management_Decrypt :: "os_state \<Rightarrow> 'w crypto_env \<Rightarrow> string \<Rightarrow> crypto_error + string" where
  "management_Decrypt env C = decrypt_with C (management_getMasterKey env)"

definition monitoring_Encrypt :: "os_state \<Rightarrow> 'w crypto_env \<Rightarrow> string \<Rightarrow> ('w, crypto_error + string) state" where
  "monitoring_Encrypt env C = encrypt_with C (monitoring_getMasterKey env)"

definition monitoring_Decrypt :: "os_state \<Rightarrow> 'w crypto_env \<Rightarrow> string \<Rightarrow> crypto_error + string" where
  "monitoring_Decrypt env C = decrypt_with C (monitoring_getMasterKey env)"

section \<open>The contract of the cipher\<close>

text \<open>
  What is sealed can be opened with the same key and nonce, and nothing else can: the tag is a
  function of key, nonce and plaintext. The random source returns as many bytes as it is asked for.
\<close>

locale gcm_cipher =
  fixes C :: "'w crypto_env"
  assumes open_iff: "gcm_Open C key nonce c = Some p \<longleftrightarrow> c = gcm_Seal C key nonce p"
    and rand_length: "result (rand_Read C n) w = Inr nonce \<Longrightarrow> length nonce = n"
begin

lemma decrypt_encrypt:
  assumes "result (encrypt_with C k p) w = Inr c"
  shows "decrypt_with C k c = Inr p"
proof (cases "p = []")
  case True
  with assms show ?thesis by (simp add: encrypt_with_def decrypt_with_def)
next
  case False
  then obtain key nonce where k: "k = Inr key" and r: "result (rand_Read C NonceSize) w = Inr nonce"
    and c: "c = hex_EncodeToString (nonce @ gcm_Seal C key nonce p)"
    using assms by (auto simp: encrypt_with_def split: sum.splits)
  have n: "length nonce = NonceSize" using r by (rule rand_length)
  then have "hex_EncodeToString (nonce @ gcm_Seal C key nonce p) \<noteq> []"
    by (auto simp: NonceSize_def dest: arg_cong [where f = length])
  moreover have "gcm_Open C key nonce (gcm_Seal C key nonce p) = Some p" by (simp add: open_iff)
  ultimately show ?thesis using n by (simp add: decrypt_with_def k c)
qed

text \<open>What decrypts was encrypted with the key: a changed ciphertext is refused.\<close>

lemma decrypt_authentic:
  assumes "decrypt_with C (Inr key) c = Inr p" and "c \<noteq> []"
  shows "\<exists>nonce. length nonce = NonceSize \<and> hex_DecodeString c = Some (nonce @ gcm_Seal C key nonce p)"
proof -
  obtain t where t: "hex_DecodeString c = Some t" "\<not> length t < NonceSize"
    and o: "gcm_Open C key (take NonceSize t) (drop NonceSize t) = Some p"
    using assms by (auto simp: decrypt_with_def split: option.splits if_splits)
  from o have "drop NonceSize t = gcm_Seal C key (take NonceSize t) p" by (simp add: open_iff)
  with t show ?thesis by (intro exI [of _ "take NonceSize t"]) (metis append_take_drop_id length_take min.absorb2 not_less)
qed

end

text \<open>
  A cipher for evaluation, that hides nothing: key and nonce are put before the text. Its random
  source returns zeros.
\<close>

definition clear_cipher :: "'w crypto_env" where
  "clear_cipher =
     \<lparr>gcm_Seal = (\<lambda>key nonce p. key @ nonce @ p),
      gcm_Open = (\<lambda>key nonce c. if HasPrefix c (key @ nonce) then Some (drop (length (key @ nonce)) c) else None),
      rand_Read = (\<lambda>n. ret (Inr (replicate n (CHR 0x00))))\<rparr>"

interpretation clear: gcm_cipher clear_cipher
proof unfold_locales
  fix key nonce c p :: string
  show "gcm_Open clear_cipher key nonce c = Some p \<longleftrightarrow> c = gcm_Seal clear_cipher key nonce p"
    by (auto simp: clear_cipher_def HasPrefix_iff)
qed (auto simp: clear_cipher_def)

definition key_text :: string where
  "key_text = ''AAAAAAAAAAAAAAAAAAAAAAAAAAAAAAAAAAAAAAAAAAA=''"

section \<open>Properties\<close>

text \<open>
  C37: a secret that \<open>sms-management\<close> encrypted is decrypted by \<open>sms-monitoring\<close> to the same
  text, when both have the key in the variable \<open>MASTER_KEY\<close>; and whatever decrypts to a text was
  sealed under that key, so that a ciphertext changed in the database is refused.
\<close>

theorem secret_roundtrip:
  assumes "gcm_cipher C" and "Getenv env ''MASTER_KEY_FILE'' = []" and "Getenv env ''MASTER_KEY'' = Getenv env' ''MASTER_KEY''"
  shows "(result (management_Encrypt env C p) w = Inr c \<longrightarrow> monitoring_Decrypt env' C c = Inr p) \<and>
    (monitoring_Decrypt env' C c = Inr p \<and> c \<noteq> [] \<longrightarrow>
      (\<exists>key nonce. management_getMasterKey env = Inr key \<and> length nonce = NonceSize \<and>
        hex_DecodeString c = Some (nonce @ gcm_Seal C key nonce p)))"
proof -
  have k: "management_getMasterKey env = monitoring_getMasterKey env'"
    using assms(2,3) by (auto simp: management_getMasterKey_def monitoring_getMasterKey_def GetEnvDefault_def getEnv_def Let_def)
  have "\<exists>key. monitoring_getMasterKey env' = Inr key" if "monitoring_Decrypt env' C c = Inr p" "c \<noteq> []"
    using that by (auto simp: monitoring_Decrypt_def decrypt_with_def split: sum.splits)
  with gcm_cipher.decrypt_encrypt [OF assms(1)] gcm_cipher.decrypt_authentic [OF assms(1)] k show ?thesis
    by (fastforce simp: management_Encrypt_def monitoring_Decrypt_def)
qed

theorem secret_roundtrip_witness:
  "case result (management_Encrypt (env_of [(''MASTER_KEY'', key_text)]) clear_cipher ''secret'') ()
   of Inl e \<Rightarrow> False | Inr c \<Rightarrow> monitoring_Decrypt (env_of [(''MASTER_KEY'', key_text)]) (clear_cipher :: unit crypto_env) c = Inr ''secret''"
proof -
  let ?env = "env_of [(''MASTER_KEY'', key_text)]"
  let ?enc = "management_Encrypt ?env clear_cipher ''secret'' :: (unit, crypto_error + string) state"
  have e: "Getenv ?env ''MASTER_KEY_FILE'' = []" by (simp add: Getenv_def env_of_def)
  have "master_key key_text = Inr (replicate 32 (CHR 0x00))" by code_simp
  then obtain c where "result ?enc () = Inr c"
    by (simp add: management_Encrypt_def management_getMasterKey_def GetEnvDefault_def getEnv_def Getenv_def env_of_def
        encrypt_with_def clear_cipher_def Let_def key_text_def)
  with secret_roundtrip [OF clear.gcm_cipher_axioms e refl, of "''secret''" "()" c] show ?thesis by simp
qed

text \<open>
  When the key is given as a file in \<open>MASTER_KEY_FILE\<close>, as \<open>sms-management\<close> allows, then
  \<open>sms-monitoring\<close> does not find it and decrypts no secret.
\<close>

lemma key_file_unknown_to_monitoring:
  assumes "Getenv env ''MASTER_KEY_FILE'' \<noteq> []" and "os_ReadFile env (Getenv env ''MASTER_KEY_FILE'') = Some key"
    and "TrimSpace key = k" and "k \<noteq> []" and "Getenv env ''MASTER_KEY'' = []"
  shows "management_getMasterKey env = master_key k \<and>
    (\<forall>c. c \<noteq> [] \<longrightarrow> monitoring_Decrypt env C c = Inl ErrMasterKeyNotSet)"
  using assms by (simp add: management_getMasterKey_def monitoring_Decrypt_def monitoring_getMasterKey_def master_key_def
      GetEnvDefault_def getEnv_def decrypt_with_def Let_def)

lemma key_file_unknown_to_monitoring_witness:
  "let env = (env_of [(''MASTER_KEY_FILE'', ''/run/secrets/key'')])\<lparr>os_ReadFile := \<lambda>_. Some key_text\<rparr>
   in monitoring_Decrypt env (clear_cipher :: unit crypto_env) ''00'' = Inl ErrMasterKeyNotSet"
proof -
  have "TrimSpace key_text = key_text" by code_simp
  with key_file_unknown_to_monitoring [of "(env_of [(''MASTER_KEY_FILE'', ''/run/secrets/key'')])\<lparr>os_ReadFile := \<lambda>_. Some key_text\<rparr>"
      key_text key_text "clear_cipher :: unit crypto_env"]
  show ?thesis by (simp add: Getenv_def env_of_def key_text_def Let_def)
qed

text \<open>
  The key of the deployment files \<open>docker-compose.yml\<close> and of the defaults has 32 characters, which
  decode to 24 bytes: it is refused.
\<close>

lemma compose_key_refused: "master_key ''0123456789abcdef0123456789abcdef'' = Inl ErrInvalidKey"
  by code_simp

end
