(* ===== verification/Go_Time.thy ===== *)
theory Go_Time
  imports Go_Strings
begin

text \<open>
  The parts of the packages \<open>time\<close> and \<open>net\<close> that \<open>sms-management\<close> and \<open>sms-reporting\<close> use: dates,
  their formats, and the syntax of IP addresses. The local time zone is UTC, as in the containers
  the services run in.
\<close>

section \<open>Dates\<close>

definition is_leap :: "int \<Rightarrow> bool" where
  "is_leap y \<longleftrightarrow> y mod 4 = 0 \<and> (y mod 100 \<noteq> 0 \<or> y mod 400 = 0)"

definition days_in :: "int \<Rightarrow> int \<Rightarrow> int" where
  "days_in m y = (if m = 2 then (if is_leap y then 29 else 28) else if m \<in> {4, 6, 9, 11} then 30 else 31)"

text \<open>The days from 1 January of year 1 to a date.\<close>

definition days_before :: "int \<Rightarrow> int \<Rightarrow> int" where
  "days_before m y = sum_list (map (\<lambda>k. days_in k y) [1..m - 1])"

definition days_of_date :: "int \<Rightarrow> int \<Rightarrow> int \<Rightarrow> int" where
  "days_of_date y m d = (y - 1) * 365 + (y - 1) div 4 - (y - 1) div 100 + (y - 1) div 400 + days_before m y + d - 1"

definition Day :: duration where
  "Day = 24 * Hour"

text \<open>\<open>time.Parse("2006-01-02", s)\<close>: four, two and two digits, of a day that exists.\<close>

definition Parse_date :: "string \<Rightarrow> time option" where
  "Parse_date s =
     (if length s \<noteq> 10 \<or> s ! 4 \<noteq> CHR ''-'' \<or> s ! 7 \<noteq> CHR ''-'' then None
      else let y = take 4 s; m = take 2 (drop 5 s); d = drop 8 s in
        if \<not> list_all is_digit (y @ m @ d) then None
        else let yn = int (digits_value y); mn = int (digits_value m); dn = int (digits_value d) in
          if mn < 1 \<or> 12 < mn \<or> dn < 1 \<or> days_in mn yn < dn then None
          else Some (days_of_date yn mn dn * Day))"

text \<open>The date of a day: cycles of 400, 100, 4 years and single years, then the months.\<close>

fun month_of :: "nat \<Rightarrow> int \<Rightarrow> int \<Rightarrow> int \<Rightarrow> int \<times> int" where
  "month_of 0 m y d = (m, d + 1)"
| "month_of (Suc n) m y d = (if d < days_in m y then (m, d + 1) else month_of n (m + 1) y (d - days_in m y))"

definition date_of :: "time \<Rightarrow> int \<times> int \<times> int" where
  "date_of t =
     (let n = t div Day;
          c400 = n div 146097; r400 = n mod 146097;
          c100 = min (r400 div 36524) 3; r100 = r400 - c100 * 36524;
          c4 = r100 div 1461; r4 = r100 mod 1461;
          c1 = min (r4 div 365) 3;
          y = 400 * c400 + 100 * c100 + 4 * c4 + c1 + 1;
          (m, d) = month_of 11 1 y (r4 - c1 * 365)
      in (y, m, d))"

definition pad :: "nat \<Rightarrow> int \<Rightarrow> string" where
  "pad n x = replicate (n - length (Itoa x)) (CHR ''0'') @ Itoa x"

definition clock_of :: "time \<Rightarrow> int \<times> int \<times> int" where
  "clock_of t = (let s = t mod Day div Second in (s div 3600, s div 60 mod 60, s mod 60))"

text \<open>The format \<open>2006-01-02\<close>.\<close>

definition Format_Date :: "time \<Rightarrow> string" where
  "Format_Date t = (case date_of t of (y, m, d) \<Rightarrow> pad 4 y @ ''-'' @ pad 2 m @ ''-'' @ pad 2 d)"

text \<open>The formats \<open>2006-01-02 15:04:05\<close>, \<open>20060102_150405\<close>, \<open>RFC3339\<close> and \<open>RFC3339Nano\<close>.\<close>

definition format_with :: "string \<Rightarrow> string \<Rightarrow> string \<Rightarrow> time \<Rightarrow> string" where
  "format_with dash mid colon t =
     (case (date_of t, clock_of t) of
        ((y, m, d), (h, mi, s)) \<Rightarrow> pad 4 y @ dash @ pad 2 m @ dash @ pad 2 d @ mid @ pad 2 h @ colon @ pad 2 mi @ colon @ pad 2 s)"

definition Format_DateTime :: "time \<Rightarrow> string" where
  "Format_DateTime = format_with ''-'' '' '' '':''"

definition Format_Stamp :: "time \<Rightarrow> string" where
  "Format_Stamp = format_with [] ''_'' []"

definition Format_RFC3339 :: "time \<Rightarrow> string" where
  "Format_RFC3339 t = format_with ''-'' ''T'' '':'' t @ ''Z''"

definition Format_RFC3339Nano :: "time \<Rightarrow> string" where
  "Format_RFC3339Nano t =
     (let ns = t mod Second; ds = rev (dropWhile (\<lambda>c. c = CHR ''0'') (rev (pad 9 ns)))
      in format_with ''-'' ''T'' '':'' t @ (if ns = 0 then [] else CHR ''.'' # ds) @ ''Z'')"

lemma ascii_replicate [simp]: "ascii (replicate n c) \<longleftrightarrow> n = 0 \<or> of_char c < (128 :: nat)"
  by (auto simp: ascii_def list_all_iff)

lemma ascii_pad [simp]: "ascii (pad n x)"
  by (simp add: pad_def ascii_Itoa)

lemma ascii_subset: "ascii s \<Longrightarrow> set t \<subseteq> set s \<Longrightarrow> ascii t"
  by (auto simp: ascii_def list_all_iff)

lemma ascii_format_with: "ascii dash \<Longrightarrow> ascii mid \<Longrightarrow> ascii colon \<Longrightarrow> ascii (format_with dash mid colon t)"
  by (simp add: format_with_def split: prod.split)

lemma ascii_Format_Date [simp]: "ascii (Format_Date t)"
  by (simp add: Format_Date_def split: prod.split)

lemma ascii_RFC3339Nano [simp]: "ascii (Format_RFC3339Nano t)"
proof -
  have "set (rev (dropWhile P (rev s))) \<subseteq> set s" for P and s :: string
    by (metis set_dropWhileD set_rev subsetI)
  then have "ascii (rev (dropWhile P (rev (pad n x))))" for P n x
    by (rule ascii_subset [OF ascii_pad])
  then show ?thesis by (simp add: Format_RFC3339Nano_def Let_def ascii_format_with)
qed

section \<open>IP addresses\<close>

text \<open>\<open>net.ParseIP\<close>: four decimal numbers without leading zeros, or eight groups in hexadecimal.\<close>

definition v4_field :: "string \<Rightarrow> nat option" where
  "v4_field s =
     (if s = [] \<or> 3 < length s \<or> \<not> list_all is_digit s \<or> (1 < length s \<and> hd s = CHR ''0'') \<or> 255 < digits_value s
      then None else Some (digits_value s))"

fun all_some :: "'a option list \<Rightarrow> 'a list option" where
  "all_some [] = Some []"
| "all_some (x # xs) = (case (x, all_some xs) of (Some a, Some as) \<Rightarrow> Some (a # as) | _ \<Rightarrow> None)"

definition parseIPv4 :: "string \<Rightarrow> nat list option" where
  "parseIPv4 s =
     (case all_some (map v4_field (Split s (CHR ''.''))) of Some ns \<Rightarrow> if length ns = 4 then Some ns else None | None \<Rightarrow> None)"

definition hex_value :: "char \<Rightarrow> nat option" where
  "hex_value c =
     (let n = of_char c :: nat in
      if 48 \<le> n \<and> n \<le> 57 then Some (n - 48)
      else if 97 \<le> n \<and> n \<le> 102 then Some (n - 87)
      else if 65 \<le> n \<and> n \<le> 70 then Some (n - 55) else None)"

definition v6_group :: "string \<Rightarrow> nat list option" where
  "v6_group s =
     (if s = [] \<or> 4 < length s then None
      else case all_some (map hex_value s) of
        None \<Rightarrow> None
      | Some ds \<Rightarrow> let v = fold (\<lambda>d acc. 16 * acc + d) ds 0 in Some [v div 256, v mod 256])"

text \<open>The bytes of groups; the last of all groups may be an IPv4 address.\<close>

definition v6_groups :: "bool \<Rightarrow> string \<Rightarrow> nat list option" where
  "v6_groups final s =
     (if s = [] then Some []
      else let gs = Split s (CHR '':'');
               bs = map v6_group (butlast gs) @
                 [if final \<and> CHR ''.'' \<in> set (last gs) then parseIPv4 (last gs) else v6_group (last gs)]
           in map_option concat (all_some bs))"

fun cut_ellipsis :: "string \<Rightarrow> (string \<times> string) option" where
  "cut_ellipsis (c # d # s) =
     (if c = CHR '':'' \<and> d = CHR '':'' then Some ([], s)
      else map_option (\<lambda>(l, r). (c # l, r)) (cut_ellipsis (d # s)))"
| "cut_ellipsis _ = None"

definition parseIPv6 :: "string \<Rightarrow> nat list option" where
  "parseIPv6 s =
     (case cut_ellipsis s of
        None \<Rightarrow> (case v6_groups True s of Some bs \<Rightarrow> if length bs = 16 then Some bs else None | None \<Rightarrow> None)
      | Some (l, r) \<Rightarrow>
          (case (v6_groups False l, v6_groups True r) of
             (Some bs, Some cs) \<Rightarrow>
               if length bs + length cs \<le> 14 then Some (bs @ replicate (16 - length bs - length cs) 0 @ cs) else None
           | _ \<Rightarrow> None))"

text \<open>The sixteen bytes of an address; \<open>To4\<close> succeeds for IPv4 addresses and those mapped into IPv6.\<close>

definition ParseIP :: "string \<Rightarrow> nat list option" where
  "ParseIP s =
     (case find (\<lambda>c. c \<in> {CHR ''.'', CHR '':''}) s of
        None \<Rightarrow> None
      | Some c \<Rightarrow>
          if c = CHR ''.'' then map_option (\<lambda>ns. replicate 10 0 @ [255, 255] @ ns) (parseIPv4 s) else parseIPv6 s)"

definition To4 :: "nat list \<Rightarrow> nat list option" where
  "To4 bs = (if take 12 bs = replicate 10 0 @ [255, 255] then Some (drop 12 bs) else None)"

end
