(* ===== verification/Management.thy ===== *)
theory Management
  imports Services Crypto Go_Time
begin

text \<open>
  The service \<open>sms-management\<close>: servers and outbox events in PostgreSQL, the operations of the
  server service and their repositories. Every change of a server is written in one transaction
  with the event that tells the other services of it.
\<close>

section \<open>Domain\<close>

definition management_StatusOnline :: string where "management_StatusOnline = ''ONLINE''"
definition management_StatusOffline :: string where "management_StatusOffline = ''OFFLINE''"
definition management_StatusUnknown :: string where "management_StatusUnknown = ''UNKNOWN''"

definition IsValid :: "string \<Rightarrow> bool" where
  "IsValid s \<longleftrightarrow> s = management_StatusOnline \<or> s = management_StatusOffline \<or> s = management_StatusUnknown"

definition MethodICMP :: string where "MethodICMP = ''ICMP''"
definition MethodSSH :: string where "MethodSSH = ''SSH''"
definition MethodAgentPull :: string where "MethodAgentPull = ''AGENT_PULL''"

lemmas method_defs = MethodICMP_def MethodSSH_def MethodAgentPull_def

record Server =
  srv_ServerID :: string
  srv_ServerName :: string
  srv_IPv4 :: string
  srv_CurrentStatus :: string
  srv_HealthCheckMethod :: string
  srv_SSHPort :: int
  srv_SSHUser :: string
  srv_SSHKey :: string
  srv_AgentEndpoint :: string
  srv_ConsecutiveFailures :: int
  srv_CreatedAt :: time
  srv_UpdatedAt :: time

text \<open>\<open>json.Marshal\<close> of a server: the fields in the order of the struct.\<close>

definition server_members :: "Server \<Rightarrow> (string \<times> json) list" where
  "server_members s =
     [(''server_id'', JStr (srv_ServerID s)), (''server_name'', JStr (srv_ServerName s)), (''ipv4'', JStr (srv_IPv4 s)),
      (''current_status'', JStr (srv_CurrentStatus s)), (''health_check_method'', JStr (srv_HealthCheckMethod s)),
      (''ssh_port'', JInt (srv_SSHPort s)), (''ssh_user'', JStr (srv_SSHUser s)), (''ssh_key'', JStr (srv_SSHKey s)),
      (''agent_endpoint'', JStr (srv_AgentEndpoint s)), (''consecutive_failures'', JInt (srv_ConsecutiveFailures s)),
      (''created_at'', JStr (Format_RFC3339Nano (srv_CreatedAt s))), (''updated_at'', JStr (Format_RFC3339Nano (srv_UpdatedAt s)))]"

definition server_json :: "Server \<Rightarrow> string" where
  "server_json s = Marshal (JObj (server_members s))"

datatype EventType = EventServerCreated | EventServerUpdated | EventServerDeleted

definition event_type_name :: "EventType \<Rightarrow> string" where
  "event_type_name t =
     (case t of EventServerCreated \<Rightarrow> ''ServerCreated'' | EventServerUpdated \<Rightarrow> ''ServerUpdated'' | EventServerDeleted \<Rightarrow> ''ServerDeleted'')"

record OutboxEvent =
  ev_ID :: string
  ev_AggregateType :: string
  ev_AggregateID :: string
  ev_EventType :: EventType
  ev_Payload :: string
  ev_IsProcessed :: bool
  ev_CreatedAt :: time

section \<open>Environment and errors\<close>

datatype repo_error = ErrNotFound | ErrDB db_error

datatype service_error =
    ErrServerNotFound | ErrIPv4Exists | ErrNameExists
  | ErrInvalidSSHPort | ErrInvalidSSHUser | ErrInvalidSSHKey | ErrInvalidSSHKeyFormat
  | ErrInvalidAgentEndpoint | ErrInvalidAgentEndpointFormat | ErrInvalidStatusFilter
  | ErrFileTooLarge | ErrInvalidFormat | ErrNoSheets | ErrEmptyFile | ErrMissingCols
  | ErrEncrypt crypto_error | ErrRepo repo_error | ErrWrapped string repo_error | ErrExcel string

text \<open>
  The dependencies of the service, its repositories and its workers.
  \<open>mg_tx\<close> runs its argument in a transaction of the database; the closures of the source change
  variables of the function around them, here they return the servers they have written.
  \<open>url.ParseRequestURI\<close>, the operator \<open>ILIKE\<close> and the order that an \<open>ORDER BY\<close> clause denotes
  are parameters.
\<close>

record 'w management_env =
  mg_servers :: "('w, Server) table"
  mg_outbox :: "('w, OutboxEvent) table"
  mg_tx :: "('w, service_error + Server list) state \<Rightarrow> ('w, service_error + Server list) state"
  mg_Now :: "('w, time) state"
  mg_uuid_New :: "('w, string) state"
  mg_ParseRequestURI :: "string \<Rightarrow> bool"
  mg_Encrypt :: "string \<Rightarrow> ('w, crypto_error + string) state"
  mg_ILIKE :: "string \<Rightarrow> string \<Rightarrow> bool"
  mg_Order :: "string \<Rightarrow> Server \<Rightarrow> Server \<Rightarrow> bool"
  mg_redis :: "'w redis"
  mg_streamName :: string
  mg_batchSize :: int
  mg_maxLen :: int

section \<open>The repository of servers\<close>

definition trim_server :: "Server \<Rightarrow> Server" where
  "trim_server s = s\<lparr>srv_ServerName := TrimSpace (srv_ServerName s), srv_IPv4 := TrimSpace (srv_IPv4 s)\<rparr>"

definition repo_Create :: "'w management_env \<Rightarrow> Server \<Rightarrow> ('w, repo_error + Server) state" where
  "repo_Create E server = do {
     r \<leftarrow> tbl_Create (mg_servers E) [trim_server server];
     ret (case r of Inl e \<Rightarrow> Inl (ErrDB e) | Inr rows \<Rightarrow> Inr (hd rows))
   }"

definition repo_First :: "'w management_env \<Rightarrow> (Server \<Rightarrow> bool) \<Rightarrow> ('w, repo_error + Server) state" where
  "repo_First E P = do {
     r \<leftarrow> tbl_First (mg_servers E) P;
     ret (case r of
       Inl e \<Rightarrow> if e = ErrRecordNotFound then Inl ErrNotFound else Inl (ErrDB e)
     | Inr server \<Rightarrow> Inr server)
   }"

definition GetByID :: "'w management_env \<Rightarrow> string \<Rightarrow> ('w, repo_error + Server) state" where
  "GetByID E i = repo_First E (\<lambda>s. srv_ServerID s = i)"

definition GetByIPv4 :: "'w management_env \<Rightarrow> string \<Rightarrow> ('w, repo_error + Server) state" where
  "GetByIPv4 E ipv4 = repo_First E (\<lambda>s. srv_IPv4 s = TrimSpace ipv4)"

definition GetByName :: "'w management_env \<Rightarrow> string \<Rightarrow> ('w, repo_error + Server) state" where
  "GetByName E name = repo_First E (\<lambda>s. srv_ServerName s = TrimSpace name)"

definition FindByNamesOrIPv4s ::
  "'w management_env \<Rightarrow> string list \<Rightarrow> string list \<Rightarrow> ('w, repo_error + Server list) state" where
  "FindByNamesOrIPv4s E names ipv4s =
     (if names = [] \<and> ipv4s = [] then ret (Inr [])
      else do {
        r \<leftarrow> tbl_Find (mg_servers E) (\<lambda>s. srv_ServerName s \<in> set names \<or> srv_IPv4 s \<in> set ipv4s);
        ret (case r of Inl e \<Rightarrow> Inl (ErrDB e) | Inr servers \<Rightarrow> Inr servers)
      })"

text \<open>
  The columns that \<open>Update\<close> selects. The struct gets the new update time as well, which gorm reads
  before the statement.
\<close>

definition write_columns :: "Server \<Rightarrow> Server \<Rightarrow> Server" where
  "write_columns new old = old\<lparr>srv_ServerName := srv_ServerName new, srv_IPv4 := srv_IPv4 new,
     srv_CurrentStatus := srv_CurrentStatus new, srv_ConsecutiveFailures := srv_ConsecutiveFailures new,
     srv_HealthCheckMethod := srv_HealthCheckMethod new, srv_SSHPort := srv_SSHPort new, srv_SSHUser := srv_SSHUser new,
     srv_SSHKey := srv_SSHKey new, srv_AgentEndpoint := srv_AgentEndpoint new\<rparr>"

definition repo_Update :: "'w management_env \<Rightarrow> Server \<Rightarrow> ('w, repo_error + Server) state" where
  "repo_Update E server = do {
     t \<leftarrow> mg_Now E;
     r \<leftarrow> tbl_Updates (mg_servers E) (\<lambda>s. srv_ServerID s = srv_ServerID server) (write_columns (trim_server server));
     ret (case r of
       Inl e \<Rightarrow> Inl (ErrDB e)
     | Inr rowsAffected \<Rightarrow> if rowsAffected = 0 then Inl ErrNotFound else Inr ((trim_server server)\<lparr>srv_UpdatedAt := t\<rparr>))
   }"

definition repo_Delete :: "'w management_env \<Rightarrow> string \<Rightarrow> ('w, repo_error + unit) state" where
  "repo_Delete E i = do {
     r \<leftarrow> tbl_Delete (mg_servers E) (\<lambda>s. srv_ServerID s = i);
     ret (case r of Inl e \<Rightarrow> Inl (ErrDB e) | Inr rowsAffected \<Rightarrow> if rowsAffected = 0 then Inl ErrNotFound else Inr ())
   }"

definition repo_BatchCreate :: "'w management_env \<Rightarrow> Server list \<Rightarrow> ('w, repo_error + Server list) state" where
  "repo_BatchCreate E servers =
     (if servers = [] then ret (Inr [])
      else do {
        r \<leftarrow> tbl_Create (mg_servers E) servers;
        ret (case r of Inl e \<Rightarrow> Inl (ErrDB e) | Inr rows \<Rightarrow> Inr rows)
      })"

record ServerListFilter =
  lf_Page :: int
  lf_PageSize :: int
  lf_Status :: string
  lf_Name :: string
  lf_CreatedFrom :: time
  lf_CreatedTo :: time
  lf_SortBy :: string
  lf_SortDirection :: string

definition search_matches :: "'w management_env \<Rightarrow> ServerListFilter \<Rightarrow> Server \<Rightarrow> bool" where
  "search_matches E f s \<longleftrightarrow>
     (lf_Status f \<noteq> [] \<longrightarrow> srv_CurrentStatus s = lf_Status f) \<and>
     (lf_Name f \<noteq> [] \<longrightarrow>
        (let pattern = ''%'' @ TrimSpace (lf_Name f) @ ''%''
         in mg_ILIKE E (srv_ServerName s) pattern \<or> mg_ILIKE E (srv_IPv4 s) pattern)) \<and>
     (lf_CreatedFrom f \<noteq> 0 \<longrightarrow> lf_CreatedFrom f \<le> srv_CreatedAt s) \<and>
     (lf_CreatedTo f \<noteq> 0 \<longrightarrow> srv_CreatedAt s < lf_CreatedTo f)"

definition search_order :: "ServerListFilter \<Rightarrow> string" where
  "search_order f =
     (if lf_SortBy f \<noteq> []
      then lf_SortBy f @ '' '' @ (if ToLower (lf_SortDirection f) = ''desc'' then ''desc'' else ''asc'')
      else ''created_at desc'')"

text \<open>The conversion \<open>int32(total)\<close>.\<close>

definition wrap32 :: "int \<Rightarrow> int" where
  "wrap32 n = (n + 2 ^ 31) mod 2 ^ 32 - 2 ^ 31"

definition repo_Search :: "'w management_env \<Rightarrow> ServerListFilter \<Rightarrow> ('w, repo_error + Server list \<times> int) state" where
  "repo_Search E f = do {
     c \<leftarrow> tbl_Count (mg_servers E) (search_matches E f);
     case c of
       Inl e \<Rightarrow> ret (Inl (ErrDB e))
     | Inr n \<Rightarrow> do {
         r \<leftarrow> tbl_Page (mg_servers E) (search_matches E f) (mg_Order E (search_order f))
                ((lf_Page f - 1) * lf_PageSize f) (lf_PageSize f);
         ret (case r of Inl e \<Rightarrow> Inl (ErrDB e) | Inr servers \<Rightarrow> Inr (servers, wrap32 n))
       }
   }"

section \<open>The repository of outbox events\<close>

definition NewOutboxEvent ::
  "'w management_env \<Rightarrow> string \<Rightarrow> string \<Rightarrow> EventType \<Rightarrow> string \<Rightarrow> ('w, OutboxEvent) state" where
  "NewOutboxEvent E aggregateType aggregateID eventType payload = do {
     i \<leftarrow> mg_uuid_New E;
     t \<leftarrow> mg_Now E;
     ret \<lparr>ev_ID = i, ev_AggregateType = aggregateType, ev_AggregateID = aggregateID, ev_EventType = eventType,
       ev_Payload = payload, ev_IsProcessed = False, ev_CreatedAt = t\<rparr>
   }"

definition outbox_Create :: "'w management_env \<Rightarrow> OutboxEvent \<Rightarrow> ('w, repo_error + unit) state" where
  "outbox_Create E event = do {
     r \<leftarrow> tbl_Create (mg_outbox E) [event];
     ret (case r of Inl e \<Rightarrow> Inl (ErrDB e) | Inr _ \<Rightarrow> Inr ())
   }"

definition outbox_BatchCreate :: "'w management_env \<Rightarrow> OutboxEvent list \<Rightarrow> ('w, repo_error + unit) state" where
  "outbox_BatchCreate E events =
     (if events = [] then ret (Inr ())
      else do {
        r \<leftarrow> tbl_Create (mg_outbox E) events;
        ret (case r of Inl e \<Rightarrow> Inl (ErrDB e) | Inr _ \<Rightarrow> Inr ())
      })"

definition GetUnprocessed :: "'w management_env \<Rightarrow> int \<Rightarrow> ('w, repo_error + OutboxEvent list) state" where
  "GetUnprocessed E limit = do {
     r \<leftarrow> tbl_Page (mg_outbox E) (\<lambda>e. \<not> ev_IsProcessed e) (\<lambda>a b. ev_CreatedAt a \<le> ev_CreatedAt b) 0 limit;
     ret (case r of Inl e \<Rightarrow> Inl (ErrDB e) | Inr events \<Rightarrow> Inr events)
   }"

definition MarkProcessed :: "'w management_env \<Rightarrow> string list \<Rightarrow> ('w, repo_error + unit) state" where
  "MarkProcessed E ids =
     (if ids = [] then ret (Inr ())
      else do {
        r \<leftarrow> tbl_Updates (mg_outbox E) (\<lambda>e. ev_ID e \<in> set ids) (\<lambda>e. e\<lparr>ev_IsProcessed := True\<rparr>);
        ret (case r of Inl e \<Rightarrow> Inl (ErrDB e) | Inr _ \<Rightarrow> Inr ())
      })"

section \<open>Checks of the input\<close>

record ServerInput =
  in_ServerName :: string
  in_IPv4 :: string
  in_HealthCheckMethod :: string
  in_SSHPort :: int
  in_SSHUser :: string
  in_SSHKey :: string
  in_AgentEndpoint :: string

definition agent_check :: "'w management_env \<Rightarrow> ServerInput \<Rightarrow> service_error option" where
  "agent_check E input =
     (if in_HealthCheckMethod input \<noteq> MethodAgentPull then None
      else if in_AgentEndpoint input = [] then Some ErrInvalidAgentEndpoint
      else if \<not> mg_ParseRequestURI E (in_AgentEndpoint input) then Some ErrInvalidAgentEndpointFormat
      else None)"

text \<open>The checks of \<open>CreateServer\<close>.\<close>

definition create_check :: "'w management_env \<Rightarrow> ServerInput \<Rightarrow> service_error option" where
  "create_check E input =
     (if in_HealthCheckMethod input = MethodSSH then
        if in_SSHPort input \<le> 0 \<or> 65535 < in_SSHPort input then Some ErrInvalidSSHPort
        else if in_SSHUser input = [] then Some ErrInvalidSSHUser
        else if in_SSHKey input = [] then Some ErrInvalidSSHKey
        else if \<not> Contains (in_SSHKey input) ''PRIVATE KEY'' then Some ErrInvalidSSHKeyFormat
        else None
      else agent_check E input)"

definition clean_input :: "ServerInput \<Rightarrow> ServerInput" where
  "clean_input input =
     (let a = (if in_HealthCheckMethod input \<noteq> MethodSSH then input\<lparr>in_SSHPort := 0, in_SSHUser := [], in_SSHKey := []\<rparr> else input)
      in if in_HealthCheckMethod input \<noteq> MethodAgentPull then a\<lparr>in_AgentEndpoint := []\<rparr> else a)"

text \<open>The checks of \<open>UpdateServer\<close>, after the missing values were taken from the server.\<close>

definition default_input :: "Server \<Rightarrow> ServerInput \<Rightarrow> ServerInput" where
  "default_input server input = input\<lparr>
     in_SSHPort := (if in_SSHPort input = 0 then srv_SSHPort server else in_SSHPort input),
     in_SSHUser := (if in_SSHUser input = [] then srv_SSHUser server else in_SSHUser input),
     in_AgentEndpoint := (if in_AgentEndpoint input = [] then srv_AgentEndpoint server else in_AgentEndpoint input)\<rparr>"

definition update_check :: "'w management_env \<Rightarrow> Server \<Rightarrow> ServerInput \<Rightarrow> service_error option" where
  "update_check E server input =
     (if in_HealthCheckMethod input = MethodSSH then
        if in_SSHPort input \<le> 0 \<or> 65535 < in_SSHPort input then Some ErrInvalidSSHPort
        else if in_SSHUser input = [] then Some ErrInvalidSSHUser
        else if in_SSHKey input = [] \<and> srv_SSHKey server = [] then Some ErrInvalidSSHKey
        else if in_SSHKey input \<noteq> [] \<and> \<not> Contains (in_SSHKey input) ''PRIVATE KEY'' then Some ErrInvalidSSHKeyFormat
        else None
      else agent_check E input)"

section \<open>The server service\<close>

text \<open>A lookup that must find nothing, or nothing but the server itself.\<close>

definition absent ::
  "('w, repo_error + Server) state \<Rightarrow> (Server \<Rightarrow> bool) \<Rightarrow> service_error \<Rightarrow> ('w, service_error + unit) state" where
  "absent m own duplicate = do {
     r \<leftarrow> m;
     ret (case r of
       Inl e \<Rightarrow> if e = ErrNotFound then Inr () else Inl (ErrRepo e)
     | Inr s \<Rightarrow> if own s then Inr () else Inl duplicate)
   }"

definition lift_check :: "service_error option \<Rightarrow> ('w, service_error + unit) state" where
  "lift_check c = ret (case c of None \<Rightarrow> Inr () | Some e \<Rightarrow> Inl e)"

definition in_repo :: "('w, repo_error + 'a) state \<Rightarrow> ('w, service_error + 'a) state" where
  "in_repo m = do { r \<leftarrow> m; ret (case r of Inl e \<Rightarrow> Inl (ErrRepo e) | Inr a \<Rightarrow> Inr a) }"

definition encrypt_key :: "'w management_env \<Rightarrow> string \<Rightarrow> ('w, service_error + string) state" where
  "encrypt_key E key = do { r \<leftarrow> mg_Encrypt E key; ret (case r of Inl e \<Rightarrow> Inl (ErrEncrypt e) | Inr c \<Rightarrow> Inr c) }"

text \<open>A server is written, then the event with the server as it was written.\<close>

definition write_with_event ::
  "'w management_env \<Rightarrow> ('w, repo_error + Server) state \<Rightarrow> EventType \<Rightarrow> ('w, service_error + Server list) state" where
  "write_with_event E write eventType =
     and_then (in_repo write) (\<lambda>server.
     do {
       event \<leftarrow> NewOutboxEvent E ''Server'' (srv_ServerID server) eventType (server_json server);
       and_then (in_repo (outbox_Create E event)) (\<lambda>_. ret (Inr [server]))
     })"

definition created_server :: "ServerInput \<Rightarrow> string \<Rightarrow> Server" where
  "created_server input encryptedKey =
     \<lparr>srv_ServerID = [], srv_ServerName = in_ServerName input, srv_IPv4 = in_IPv4 input,
      srv_CurrentStatus = management_StatusUnknown, srv_HealthCheckMethod = in_HealthCheckMethod input,
      srv_SSHPort = in_SSHPort input, srv_SSHUser = in_SSHUser input, srv_SSHKey = encryptedKey,
      srv_AgentEndpoint = in_AgentEndpoint input, srv_ConsecutiveFailures = 0, srv_CreatedAt = 0, srv_UpdatedAt = 0\<rparr>"

definition CreateServer :: "'w management_env \<Rightarrow> ServerInput \<Rightarrow> ('w, service_error + Server) state" where
  "CreateServer E input =
     and_then (absent (GetByName E (in_ServerName input)) (\<lambda>_. False) ErrNameExists) (\<lambda>_.
     and_then (absent (GetByIPv4 E (in_IPv4 input)) (\<lambda>_. False) ErrIPv4Exists) (\<lambda>_.
     and_then (lift_check (create_check E input)) (\<lambda>_.
     let input = clean_input input in
     and_then (encrypt_key E (in_SSHKey input)) (\<lambda>encryptedKey.
     let server = created_server input encryptedKey in
     and_then (mg_tx E (write_with_event E (repo_Create E server) EventServerCreated)) (\<lambda>written.
     ret (Inr (hd written)))))))"

definition find_server :: "'w management_env \<Rightarrow> string \<Rightarrow> ('w, service_error + Server) state" where
  "find_server E i = do {
     r \<leftarrow> GetByID E i;
     ret (case r of Inl e \<Rightarrow> if e = ErrNotFound then Inl ErrServerNotFound else Inl (ErrRepo e) | Inr server \<Rightarrow> Inr server)
   }"

text \<open>The server with the new values, but for its address.\<close>

definition updated_server :: "Server \<Rightarrow> ServerInput \<Rightarrow> string \<Rightarrow> Server" where
  "updated_server server input encryptedKey = server\<lparr>srv_ServerName := in_ServerName input,
     srv_HealthCheckMethod := in_HealthCheckMethod input, srv_SSHPort := in_SSHPort input,
     srv_SSHUser := in_SSHUser input, srv_SSHKey := encryptedKey, srv_AgentEndpoint := in_AgentEndpoint input\<rparr>"

definition UpdateServer :: "'w management_env \<Rightarrow> string \<Rightarrow> ServerInput \<Rightarrow> ('w, service_error + Server) state" where
  "UpdateServer E i input =
     and_then (find_server E i) (\<lambda>server.
     and_then (if in_ServerName input \<noteq> srv_ServerName server
               then absent (GetByName E (in_ServerName input)) (\<lambda>s. srv_ServerID s = i) ErrNameExists
               else ret (Inr ())) (\<lambda>_.
     let input = default_input server input in
     and_then (lift_check (update_check E server input)) (\<lambda>_.
     and_then (if in_SSHKey input \<noteq> [] then encrypt_key E (in_SSHKey input) else ret (Inr (srv_SSHKey server))) (\<lambda>encryptedKey.
     let methodChanged = srv_HealthCheckMethod server \<noteq> in_HealthCheckMethod input;
         addressChanged = srv_IPv4 server \<noteq> in_IPv4 input;
         server = updated_server server input encryptedKey in
     and_then (if addressChanged
               then absent (GetByIPv4 E (in_IPv4 input)) (\<lambda>s. srv_ServerID s = i) ErrIPv4Exists
               else ret (Inr ())) (\<lambda>_.
     let server = (if addressChanged then server\<lparr>srv_IPv4 := in_IPv4 input\<rparr> else server);
         server = (if methodChanged \<or> addressChanged then server\<lparr>srv_CurrentStatus := management_StatusUnknown\<rparr> else server) in
     and_then (mg_tx E (write_with_event E (repo_Update E server) EventServerUpdated)) (\<lambda>written.
     ret (Inr (hd written))))))))"

definition deleted_payload :: "string \<Rightarrow> string" where
  "deleted_payload i = ''{'' @ [quote] @ ''server_id'' @ [quote] @ '':'' @ [quote] @ i @ [quote] @ ''}''"

definition DeleteServer :: "'w management_env \<Rightarrow> string \<Rightarrow> ('w, service_error + unit) state" where
  "DeleteServer E i =
     and_then (find_server E i) (\<lambda>server. do {
       r \<leftarrow> mg_tx E (
         and_then (in_repo (repo_Delete E i)) (\<lambda>_. do {
           event \<leftarrow> NewOutboxEvent E ''Server'' i EventServerDeleted (deleted_payload i);
           and_then (in_repo (outbox_Create E event)) (\<lambda>_. ret (Inr []))
         }));
       ret (case r of
         Inl e \<Rightarrow> if e = ErrRepo ErrNotFound then Inl ErrServerNotFound else Inl e
       | Inr _ \<Rightarrow> Inr ())
     })"

definition SearchServers :: "'w management_env \<Rightarrow> ServerListFilter \<Rightarrow> ('w, service_error + Server list \<times> int) state" where
  "SearchServers E filt =
     (let f = (if lf_Page filt < 1 then filt\<lparr>lf_Page := 1\<rparr> else filt);
          f = (if lf_PageSize f < 1 \<or> 100 < lf_PageSize f then f\<lparr>lf_PageSize := 20\<rparr> else f)
      in if lf_Status f \<noteq> [] \<and> \<not> IsValid (lf_Status f) then ret (Inl ErrInvalidStatusFilter)
         else in_repo (repo_Search E f))"

end
