(* ===== verification/Broker.thy ===== *)
theory Broker
  imports Services
begin

text \<open>
  The package \<open>messagebroker\<close>: publishing to streams of Redis and the consumer of a stream, with
  its recovery of pending messages and its dead letter queue. The consumer exists in four
  services, with the same code but for the number of messages it reads at a time.
\<close>

section \<open>Publishing\<close>

text \<open>
  \<open>Publish\<close> of \<open>sms-monitoring\<close> and \<open>sms-reporting\<close>: one entry, the stream being trimmed to about
  \<open>maxLen\<close> entries.
\<close>

definition monitoring_Publish :: "'w redis \<Rightarrow> int \<Rightarrow> string \<Rightarrow> fields \<Rightarrow> ('w, redis_error + unit) state" where
  "monitoring_Publish R maxLen stream vals = cmd_XAdd R stream maxLen vals"

definition reporting_Publish :: "'w redis \<Rightarrow> int \<Rightarrow> string \<Rightarrow> fields \<Rightarrow> ('w, redis_error + unit) state" where
  "reporting_Publish R maxLen stream vals = cmd_XAdd R stream maxLen vals"

section \<open>Consumer groups\<close>

record message =
  msg_ID :: string
  msg_Values :: fields

text \<open>
  The commands of Redis on the streams and consumer groups. \<open>xs_ReadNew grp consumer stream n\<close>
  delivers new messages (the id \<open>>\<close>), \<open>xs_ReadPending\<close> returns messages that the consumer has not
  acknowledged (the id \<open>0\<close>), \<open>xs_AutoClaim\<close> moves messages that were idle for long to the consumer
  and returns them with the start of the next page.
\<close>

record 'w stream_redis =
  xs_GroupCreate :: "string \<Rightarrow> string \<Rightarrow> ('w, redis_error + unit) state"
  xs_ReadNew :: "string \<Rightarrow> string \<Rightarrow> string \<Rightarrow> nat \<Rightarrow> ('w, redis_error + message list) state"
  xs_ReadPending :: "string \<Rightarrow> string \<Rightarrow> string \<Rightarrow> nat \<Rightarrow> ('w, redis_error + message list) state"
  xs_Ack :: "string \<Rightarrow> string \<Rightarrow> string \<Rightarrow> ('w, redis_error + unit) state"
  xs_AutoClaim :: "string \<Rightarrow> string \<Rightarrow> duration \<Rightarrow> string \<Rightarrow> nat \<Rightarrow> string \<Rightarrow> ('w, redis_error + message list \<times> string) state"
  xs_Add :: "string \<Rightarrow> fields \<Rightarrow> ('w, redis_error + unit) state"
  xs_HIncrBy :: "string \<Rightarrow> string \<Rightarrow> int \<Rightarrow> ('w, redis_error + int) state"
  xs_HDel :: "string \<Rightarrow> string \<Rightarrow> ('w, redis_error + unit) state"

type_synonym 'w message_handler = "message \<Rightarrow> ('w, string + unit) state"

text \<open>A message is acknowledged if its handler reports no error; then \<open>done\<close> is run.\<close>

definition handle_message ::
  "'w stream_redis \<Rightarrow> string \<Rightarrow> string \<Rightarrow> 'w message_handler \<Rightarrow> ('w, unit) state \<Rightarrow> message \<Rightarrow> ('w, unit) state" where
  "handle_message X stream grp h cleanup msg = do {
     r \<leftarrow> h msg;
     case r of
       Inl e \<Rightarrow> ret ()
     | Inr _ \<Rightarrow> do { xs_Ack X stream grp (msg_ID msg); cleanup }
   }"

text \<open>
  \<open>recoverPendingMessages\<close>. The loop may not end, so it has fuel; the result says whether it
  came to its end.
\<close>

fun recoverPendingMessages ::
  "'w stream_redis \<Rightarrow> nat \<Rightarrow> string \<Rightarrow> string \<Rightarrow> string \<Rightarrow> 'w message_handler \<Rightarrow> ('w, bool) state" where
  "recoverPendingMessages X 0 stream grp consumer h = ret False"
| "recoverPendingMessages X (Suc fuel) stream grp consumer h = do {
     res \<leftarrow> xs_ReadPending X grp consumer stream 50;
     case res of
       Inl e \<Rightarrow> ret True
     | Inr msgs \<Rightarrow>
         if msgs = [] then ret True
         else do {
           for_each msgs (handle_message X stream grp h (ret ()));
           if length msgs < 50 then ret True else recoverPendingMessages X fuel stream grp consumer h
         }
   }"

text \<open>One turn of the loop in \<open>Subscribe\<close>; \<open>readCount\<close> is 50 in \<open>sms-management\<close> and 10 elsewhere.\<close>

definition subscribe_turn ::
  "'w stream_redis \<Rightarrow> nat \<Rightarrow> string \<Rightarrow> string \<Rightarrow> string \<Rightarrow> 'w message_handler \<Rightarrow> ('w, unit) state" where
  "subscribe_turn X readCount stream grp consumer h = do {
     res \<leftarrow> xs_ReadNew X grp consumer stream readCount;
     case res of
       Inl e \<Rightarrow> ret ()
     | Inr msgs \<Rightarrow> for_each msgs (handle_message X stream grp h (ret ()))
   }"

text \<open>
  \<open>Subscribe\<close>: the group is created if it is not there, the pending messages are handled, then
  the loop turns until its context is cancelled, here after \<open>turns\<close> turns.
\<close>

definition Subscribe ::
  "nat \<Rightarrow> 'w stream_redis \<Rightarrow> nat \<Rightarrow> nat \<Rightarrow> string \<Rightarrow> string \<Rightarrow> string \<Rightarrow> 'w message_handler \<Rightarrow> ('w, unit) state" where
  "Subscribe readCount X fuel turns stream grp consumer h = do {
     xs_GroupCreate X stream grp;
     ended \<leftarrow> recoverPendingMessages X fuel stream grp consumer h;
     if ended then for_each [0..<turns] (\<lambda>_. subscribe_turn X readCount stream grp consumer h) else ret ()
   }"

text \<open>The dead letter queue: a message that was claimed for the third time is not handled again.\<close>

definition dlq_key :: "string \<Rightarrow> string" where
  "dlq_key stream = stream @ '':dlq_counters''"

definition claim_message ::
  "'w stream_redis \<Rightarrow> string \<Rightarrow> string \<Rightarrow> 'w message_handler \<Rightarrow> message \<Rightarrow> ('w, unit) state" where
  "claim_message X stream grp h msg = do {
     r \<leftarrow> xs_HIncrBy X (dlq_key stream) (msg_ID msg) 1;
     if (case r of Inl e \<Rightarrow> 0 | Inr n \<Rightarrow> n) \<ge> 3 then do {
       xs_Add X (stream @ '':dlq'') (msg_Values msg);
       xs_Ack X stream grp (msg_ID msg);
       xs_HDel X (dlq_key stream) (msg_ID msg);
       ret ()
     } else
       handle_message X stream grp h (do { xs_HDel X (dlq_key stream) (msg_ID msg); ret () }) msg
   }"

fun claimAndProcessStaleMessages ::
  "'w stream_redis \<Rightarrow> nat \<Rightarrow> string \<Rightarrow> string \<Rightarrow> string \<Rightarrow> string \<Rightarrow> duration \<Rightarrow> 'w message_handler \<Rightarrow> ('w, bool) state" where
  "claimAndProcessStaleMessages X 0 start stream grp consumer minIdle h = ret False"
| "claimAndProcessStaleMessages X (Suc fuel) start stream grp consumer minIdle h = do {
     res \<leftarrow> xs_AutoClaim X stream grp minIdle start 50 consumer;
     case res of
       Inl e \<Rightarrow> ret True
     | Inr (messages, nextStart) \<Rightarrow> do {
         for_each messages (claim_message X stream grp h);
         if nextStart = ''0-0'' \<or> nextStart = [] then ret True
         else claimAndProcessStaleMessages X fuel nextStart stream grp consumer minIdle h
       }
   }"

text \<open>The tick of \<open>autoClaimLoop\<close>, once a minute.\<close>

definition autoClaim_tick ::
  "'w stream_redis \<Rightarrow> nat \<Rightarrow> string \<Rightarrow> string \<Rightarrow> string \<Rightarrow> 'w message_handler \<Rightarrow> ('w, bool) state" where
  "autoClaim_tick X fuel stream grp consumer h =
     claimAndProcessStaleMessages X fuel ''-'' stream grp consumer (5 * Minute) h"

text \<open>The consumers of the four services.\<close>

record 'w subscriber =
  sub_Subscribe :: "nat \<Rightarrow> nat \<Rightarrow> string \<Rightarrow> string \<Rightarrow> string \<Rightarrow> 'w message_handler \<Rightarrow> ('w, unit) state"
  sub_recover :: "nat \<Rightarrow> string \<Rightarrow> string \<Rightarrow> string \<Rightarrow> 'w message_handler \<Rightarrow> ('w, bool) state"
  sub_claim :: "nat \<Rightarrow> string \<Rightarrow> string \<Rightarrow> string \<Rightarrow> 'w message_handler \<Rightarrow> ('w, bool) state"

definition redis_subscriber :: "nat \<Rightarrow> 'w stream_redis \<Rightarrow> 'w subscriber" where
  "redis_subscriber readCount X =
     \<lparr>sub_Subscribe = Subscribe readCount X, sub_recover = recoverPendingMessages X, sub_claim = autoClaim_tick X\<rparr>"

definition management_subscriber :: "'w stream_redis \<Rightarrow> 'w subscriber" where
  "management_subscriber = redis_subscriber 50"

definition monitoring_subscriber :: "'w stream_redis \<Rightarrow> 'w subscriber" where
  "monitoring_subscriber = redis_subscriber 10"

definition reporting_subscriber :: "'w stream_redis \<Rightarrow> 'w subscriber" where
  "reporting_subscriber = redis_subscriber 10"

definition notification_subscriber :: "'w stream_redis \<Rightarrow> 'w subscriber" where
  "notification_subscriber = redis_subscriber 10"

section \<open>The laws of consumer groups\<close>

text \<open>
  What a group shows of a stream: the messages it has not delivered, those that are delivered
  and not acknowledged, with their consumer, the entries of the dead letter stream and the
  counters.
\<close>

record group_view =
  gv_new :: "message list"
  gv_pending :: "(message \<times> string) list"
  gv_dead :: "fields list"
  gv_count :: "string \<Rightarrow> int"

definition gv_deliver :: "nat \<Rightarrow> string \<Rightarrow> group_view \<Rightarrow> group_view" where
  "gv_deliver k c v = v\<lparr>gv_new := drop k (gv_new v), gv_pending := gv_pending v @ map (\<lambda>m. (m, c)) (take k (gv_new v))\<rparr>"

definition gv_ack :: "string \<Rightarrow> group_view \<Rightarrow> group_view" where
  "gv_ack i v = v\<lparr>gv_pending := filter (\<lambda>(m, c). msg_ID m \<noteq> i) (gv_pending v)\<rparr>"

definition gv_claim :: "string set \<Rightarrow> string \<Rightarrow> group_view \<Rightarrow> group_view" where
  "gv_claim is c v = v\<lparr>gv_pending := map (\<lambda>(m, d). (m, if msg_ID m \<in> is then c else d)) (gv_pending v)\<rparr>"

definition pending_of :: "string \<Rightarrow> group_view \<Rightarrow> message list" where
  "pending_of c v = map fst (filter (\<lambda>(m, d). d = c) (gv_pending v))"

text \<open>
  The laws, for one stream and group. A command that fails may have had its effect. The
  messages have different ids, and the handler does not itself touch the group.
\<close>

locale consumer_group =
  fixes X :: "'w stream_redis" and stream grp :: string and gview :: "'w \<Rightarrow> group_view" and h :: "'w message_handler"
  assumes create_view: "gview (after (xs_GroupCreate X stream grp) w) = gview w"
    and read_new: "\<exists>k \<le> n. gview (after (xs_ReadNew X grp c stream n) w) = gv_deliver k c (gview w) \<and>
      (\<forall>ms. result (xs_ReadNew X grp c stream n) w = Inr ms \<longrightarrow> ms = take k (gv_new (gview w)))"
    and read_pending_view: "gview (after (xs_ReadPending X grp c stream n) w) = gview w"
    and read_pending_ok: "result (xs_ReadPending X grp c stream n) w = Inr ms \<Longrightarrow> ms = take n (pending_of c (gview w))"
    and ack_view: "gview (after (xs_Ack X stream grp i) w) \<in> {gview w, gv_ack i (gview w)}"
    and ack_ok: "result (xs_Ack X stream grp i) w = Inr u \<Longrightarrow> gview (after (xs_Ack X stream grp i) w) = gv_ack i (gview w)"
    and claim: "\<exists>is. gview (after (xs_AutoClaim X stream grp idle start n c) w) = gv_claim is c (gview w) \<and>
      (\<forall>ms next. result (xs_AutoClaim X stream grp idle start n c) w = Inr (ms, next) \<longrightarrow>
        set ms \<subseteq> fst ` set (gv_pending (gview w)))"
    and dead_view: "gview (after (xs_Add X (stream @ '':dlq'') vals) w) \<in>
      {gview w, gv_dead_update (\<lambda>d. d @ [vals]) (gview w)}"
    and dead_ok: "result (xs_Add X (stream @ '':dlq'') vals) w = Inr u \<Longrightarrow>
      gview (after (xs_Add X (stream @ '':dlq'') vals) w) = gv_dead_update (\<lambda>d. d @ [vals]) (gview w)"
    and incr_view: "gview (after (xs_HIncrBy X (dlq_key stream) i d) w) \<in>
      {gview w, gv_count_update (\<lambda>f. f(i := f i + d)) (gview w)}"
    and incr_ok: "result (xs_HIncrBy X (dlq_key stream) i d) w = Inr z \<Longrightarrow>
      z = gv_count (gview w) i + d \<and>
      gview (after (xs_HIncrBy X (dlq_key stream) i d) w) = gv_count_update (\<lambda>f. f(i := z)) (gview w)"
    and hdel_view: "gview (after (xs_HDel X (dlq_key stream) i) w) \<in>
      {gview w, gv_count_update (\<lambda>f. f(i := 0)) (gview w)}"
    and handler_view: "gview (after (h m) w) = gview w"

locale consumer_group_up = consumer_group +
  assumes read_pending_up: "\<exists>ms. result (xs_ReadPending X grp c stream n) w = Inr ms"
    and ack_up: "\<exists>u. result (xs_Ack X stream grp i) w = Inr u"
    and dead_up: "\<exists>u. result (xs_Add X (stream @ '':dlq'') vals) w = Inr u"
    and incr_up: "\<exists>z. result (xs_HIncrBy X (dlq_key stream) i d) w = Inr z"
    and hdel_up: "gview (after (xs_HDel X (dlq_key stream) i) w) = gv_count_update (\<lambda>f. f(i := 0)) (gview w)"

section \<open>Nothing is lost\<close>

text \<open>\<open>holds m v\<close>: the group still has the message, to be delivered or to be acknowledged.\<close>

definition holds :: "message \<Rightarrow> group_view \<Rightarrow> bool" where
  "holds m v \<longleftrightarrow> m \<in> set (gv_new v) \<or> m \<in> fst ` set (gv_pending v)"

definition all_messages :: "group_view \<Rightarrow> message set" where
  "all_messages v = set (gv_new v) \<union> fst ` set (gv_pending v)"

text \<open>\<open>alone m ms\<close>: no other message of the set has its id.\<close>

definition alone :: "message \<Rightarrow> message set \<Rightarrow> bool" where
  "alone m ms \<longleftrightarrow> (\<forall>m' \<in> ms. msg_ID m' = msg_ID m \<longrightarrow> m' = m)"

lemma holds_iff: "holds m v \<longleftrightarrow> m \<in> all_messages v"
  by (simp add: holds_def all_messages_def)

lemma all_messages_ops:
  "all_messages (gv_deliver k c v) = all_messages v"
  "all_messages (gv_ack i v) \<subseteq> all_messages v"
  "all_messages (gv_claim is c v) = all_messages v"
  "all_messages (gv_dead_update f v) = all_messages v"
  "all_messages (gv_count_update g v) = all_messages v"
proof -
  have "set (gv_new v) = set (take k (gv_new v)) \<union> set (drop k (gv_new v))"
    by (metis append_take_drop_id set_append)
  then show "all_messages (gv_deliver k c v) = all_messages v"
    by (simp add: all_messages_def gv_deliver_def image_Un image_image) blast
  show "all_messages (gv_claim is c v) = all_messages v"
    by (force simp: all_messages_def gv_claim_def image_image case_prod_beta)
qed (auto simp: all_messages_def gv_ack_def)

lemma holds_ack: "holds m v \<Longrightarrow> msg_ID m \<noteq> i \<Longrightarrow> holds m (gv_ack i v)"
  by (force simp: holds_def gv_ack_def)

lemma alone_subset: "alone m A \<Longrightarrow> B \<subseteq> A \<Longrightarrow> alone m B"
  by (auto simp: alone_def)

text \<open>
  What is invariant while messages are handled: a message whose handler fails whenever it is
  run stays with the group or is in the dead letter stream.
\<close>

definition kept :: "message \<Rightarrow> group_view \<Rightarrow> bool" where
  "kept m v \<longleftrightarrow> holds m v \<and> alone m (all_messages v)"

definition kept_or_dead :: "message \<Rightarrow> group_view \<Rightarrow> bool" where
  "kept_or_dead m v \<longleftrightarrow> alone m (all_messages v) \<and> (holds m v \<or> msg_Values m \<in> set (gv_dead v))"

lemma kept_ops:
  "kept m v \<Longrightarrow> kept m (gv_deliver k c v)"
  "kept m v \<Longrightarrow> msg_ID m \<noteq> i \<Longrightarrow> kept m (gv_ack i v)"
  using alone_subset [OF _ all_messages_ops(2) [of i v], of m] holds_ack [of m v i]
  by (auto simp: kept_def holds_iff all_messages_ops)

lemma kept_or_dead_ops:
  "kept_or_dead m v \<Longrightarrow> msg_ID m \<noteq> i \<or> msg_Values m \<in> set (gv_dead v) \<Longrightarrow> kept_or_dead m (gv_ack i v)"
  "kept_or_dead m v \<Longrightarrow> kept_or_dead m (gv_claim is c v)"
  "kept_or_dead m v \<Longrightarrow> kept_or_dead m (gv_dead_update (\<lambda>d. d @ [x]) v)"
  "kept_or_dead m v \<Longrightarrow> kept_or_dead m (gv_count_update g v)"
proof -
  show "kept_or_dead m v \<Longrightarrow> msg_ID m \<noteq> i \<or> msg_Values m \<in> set (gv_dead v) \<Longrightarrow> kept_or_dead m (gv_ack i v)"
    using alone_subset [OF _ all_messages_ops(2) [of i v], of m] holds_ack [of m v i]
    by (auto simp: kept_or_dead_def gv_ack_def [of i v] holds_iff)
qed (auto simp: kept_or_dead_def holds_iff all_messages_ops gv_claim_def [of "is" c v, THEN arg_cong, of gv_dead])

context consumer_group
begin

lemma ack_cases: "gview (after (xs_Ack X stream grp i) w) = gview w \<or> gview (after (xs_Ack X stream grp i) w) = gv_ack i (gview w)"
  using ack_view [of i w] by blast

lemma handle_kept:
  assumes bad: "\<And>u. \<exists>e. result (h m) u = Inl e" and "msg_ID m' = msg_ID m \<Longrightarrow> m' = m"
    and "kept m (gview w)"
  shows "kept m (gview (after (handle_message X stream grp h (ret ()) m') w))"
proof (cases "result (h m') w")
  case (Inl e)
  with assms(3) show ?thesis by (simp add: handle_message_def handler_view)
next
  case (Inr u)
  with bad [of w] have "m' \<noteq> m" by auto
  with assms(2) have "msg_ID m \<noteq> msg_ID m'" by auto
  with assms(3) Inr ack_cases [of "msg_ID m'" "after (h m') w"] show ?thesis
    by (auto simp: handle_message_def handler_view kept_ops)
qed

lemma handle_all_kept:
  assumes bad: "\<And>u. \<exists>e. result (h m) u = Inl e" and "kept m (gview w)" and "alone m (set ms)"
  shows "kept m (gview (after (for_each ms (handle_message X stream grp h (ret ()))) w))"
  using assms(2)
  by (intro for_each_inv [where P = "\<lambda>u. kept m (gview u)"] handle_kept bad)
    (use assms(3) in \<open>auto simp: alone_def\<close>)

lemma recover_kept:
  assumes bad: "\<And>u. \<exists>e. result (h m) u = Inl e" and "kept m (gview w)"
  shows "kept m (gview (after (recoverPendingMessages X fuel stream grp c h) w))"
  using assms(2)
proof (induction fuel arbitrary: w)
  case (Suc fuel)
  let ?w = "after (xs_ReadPending X grp c stream 50) w"
  have v: "gview ?w = gview w" by (rule read_pending_view)
  show ?case
  proof (cases "result (xs_ReadPending X grp c stream 50) w")
    case (Inl e)
    with Suc.prems v show ?thesis by simp
  next
    case (Inr ms)
    have "set ms \<subseteq> all_messages (gview w)"
      using read_pending_ok [OF Inr] set_take_subset [of 50 "pending_of c (gview w)"]
      by (auto simp: pending_of_def all_messages_def)
    then have "alone m (set ms)" using Suc.prems by (auto simp: kept_def intro: alone_subset)
    then have "kept m (gview (after (for_each ms (handle_message X stream grp h (ret ()))) ?w))"
      using Suc.prems v by (intro handle_all_kept bad) simp_all
    with Suc.IH Suc.prems v Inr show ?thesis by simp
  qed
qed simp

lemma turn_kept:
  assumes bad: "\<And>u. \<exists>e. result (h m) u = Inl e" and kept: "kept m (gview w)"
  shows "kept m (gview (after (subscribe_turn X readCount stream grp c h) w))"
proof -
  let ?w = "after (xs_ReadNew X grp c stream readCount) w"
  obtain k where k: "gview ?w = gv_deliver k c (gview w)"
    "\<And>ms. result (xs_ReadNew X grp c stream readCount) w = Inr ms \<Longrightarrow> ms = take k (gv_new (gview w))"
    using read_new [of readCount c w] by blast
  then have "kept m (gview ?w)" using kept by (simp add: kept_ops)
  moreover have "kept m (gview (after (for_each ms (handle_message X stream grp h (ret ()))) ?w))"
    if "result (xs_ReadNew X grp c stream readCount) w = Inr ms" for ms
  proof -
    have "set ms \<subseteq> all_messages (gview w)"
      using k(2) [OF that] set_take_subset [of k "gv_new (gview w)"] by (auto simp: all_messages_def)
    then have "alone m (set ms)" using kept by (auto simp: kept_def intro: alone_subset)
    with \<open>kept m (gview ?w)\<close> show ?thesis by (intro handle_all_kept bad)
  qed
  ultimately show ?thesis by (simp add: subscribe_turn_def split: sum.split)
qed

lemma Subscribe_kept:
  assumes bad: "\<And>u. \<exists>e. result (h m) u = Inl e" and kept: "kept m (gview w)"
  shows "kept m (gview (after (Subscribe readCount X fuel turns stream grp c h) w))"
proof -
  have "kept m (gview (after (xs_GroupCreate X stream grp) w))" using kept by (simp add: create_view)
  then have r: "kept m (gview (after (recoverPendingMessages X fuel stream grp c h) (after (xs_GroupCreate X stream grp) w)))"
    by (rule recover_kept [OF bad])
  have "kept m (gview (after (for_each [0..<turns] (\<lambda>_. subscribe_turn X readCount stream grp c h)) u))"
    if "kept m (gview u)" for u
    using that by (intro for_each_inv [where P = "\<lambda>u. kept m (gview u)"] turn_kept [OF bad])
  with r show ?thesis by (simp add: Subscribe_def)
qed

text \<open>
  Claiming, when the dead letter stream can be written: the message stays, or its values are
  in the dead letter stream.
\<close>

lemma claim_message_kept:
  assumes bad: "\<And>u. \<exists>e. result (h m) u = Inl e" and same: "msg_ID m' = msg_ID m \<Longrightarrow> m' = m"
    and dead: "\<And>vals w. \<exists>u. result (xs_Add X (stream @ '':dlq'') vals) w = Inr u"
    and k: "kept_or_dead m (gview w)"
  shows "kept_or_dead m (gview (after (claim_message X stream grp h m') w))"
proof -
  define w1 where "w1 = after (xs_HIncrBy X (dlq_key stream) (msg_ID m') 1) w"
  have k1: "kept_or_dead m (gview w1)"
    using incr_view [of "msg_ID m'" 1 w] k by (auto simp: w1_def kept_or_dead_ops)
  have hdel: "kept_or_dead m (gview u) \<Longrightarrow> kept_or_dead m (gview (after (xs_HDel X (dlq_key stream) i) u))" for i u
    using hdel_view [of i u] by (auto simp: kept_or_dead_ops)
  define w2 where "w2 = after (xs_Add X (stream @ '':dlq'') (msg_Values m')) w1"
  define w3 where "w3 = after (xs_Ack X stream grp (msg_ID m')) w2"
  have v2: "gview w2 = gv_dead_update (\<lambda>d. d @ [msg_Values m']) (gview w1)"
    using dead [of "msg_Values m'" w1] dead_ok by (auto simp: w2_def)
  have "kept_or_dead m (gview w2)" using k1 by (simp add: v2 kept_or_dead_ops)
  moreover have "msg_ID m \<noteq> msg_ID m' \<or> msg_Values m \<in> set (gv_dead (gview w2))"
    using same by (auto simp: v2)
  ultimately have "kept_or_dead m (gview w3)"
    using ack_cases [of "msg_ID m'" w2] by (auto simp: w3_def kept_or_dead_ops)
  then have third: "kept_or_dead m (gview (after (xs_HDel X (dlq_key stream) (msg_ID m')) w3))" by (rule hdel)
  have first: "kept_or_dead m (gview (after (handle_message X stream grp h
      (do { xs_HDel X (dlq_key stream) (msg_ID m'); ret () }) m') w1))"
  proof (cases "result (h m') w1")
    case (Inl e)
    with k1 show ?thesis by (simp add: handle_message_def handler_view)
  next
    case (Inr u)
    with bad [of w1] have "m' \<noteq> m" by auto
    with same have "msg_ID m \<noteq> msg_ID m'" by auto
    then have "kept_or_dead m (gview (after (xs_Ack X stream grp (msg_ID m')) (after (h m') w1)))"
      using ack_cases [of "msg_ID m'" "after (h m') w1"] k1 by (auto simp: handler_view kept_or_dead_ops)
    with Inr show ?thesis by (simp add: handle_message_def hdel)
  qed
  show ?thesis
    using first third by (simp add: claim_message_def flip: w1_def w2_def w3_def)
qed

lemma claim_all_kept:
  assumes bad: "\<And>u. \<exists>e. result (h m) u = Inl e"
    and dead: "\<And>vals w. \<exists>u. result (xs_Add X (stream @ '':dlq'') vals) w = Inr u"
    and "kept_or_dead m (gview w)"
  shows "kept_or_dead m (gview (after (claimAndProcessStaleMessages X fuel start stream grp c idle h) w))"
  using assms(3)
proof (induction fuel arbitrary: w start)
  case (Suc fuel)
  let ?claim = "xs_AutoClaim X stream grp idle start 50 c"
  obtain "is" where c: "gview (after ?claim w) = gv_claim is c (gview w)"
    "\<And>ms next. result ?claim w = Inr (ms, next) \<Longrightarrow> set ms \<subseteq> fst ` set (gv_pending (gview w))"
    using claim [of idle start 50 c w] by blast
  have k: "kept_or_dead m (gview (after ?claim w))" using Suc.prems by (simp add: c(1) kept_or_dead_ops)
  show ?case
  proof (cases "result ?claim w")
    case (Inl e)
    with k show ?thesis by simp
  next
    case (Inr p)
    obtain ms nxt where p: "p = (ms, nxt)" by (cases p)
    have "alone m (set ms)"
      using c(2) Inr p Suc.prems by (auto simp: kept_or_dead_def all_messages_def alone_def)
    then have "kept_or_dead m (gview (after (for_each ms (claim_message X stream grp h)) (after ?claim w)))"
      using k by (intro for_each_inv [where P = "\<lambda>u. kept_or_dead m (gview u)"] claim_message_kept bad dead)
        (auto simp: alone_def)
    with Suc.IH Inr p show ?thesis by simp
  qed
qed simp

end

section \<open>Progress\<close>

lemma pending_ack:
  "pending_of c (gv_ack i v) = filter (\<lambda>m. msg_ID m \<noteq> i) (pending_of c v)"
  by (auto simp: pending_of_def gv_ack_def filter_map comp_def case_prod_beta intro!: arg_cong [where f = "map fst"] filter_cong)

lemma filter_fold_ids:
  "fold (\<lambda>m xs. filter (\<lambda>x. msg_ID x \<noteq> msg_ID m) xs) ms xs = filter (\<lambda>x. msg_ID x \<notin> msg_ID ` set ms) xs"
  by (induction ms arbitrary: xs) (auto intro!: filter_cong)

context consumer_group_up
begin

lemma ack_gview: "gview (after (xs_Ack X stream grp i) w) = gv_ack i (gview w)"
  using ack_up [of i w] ack_ok by blast

text \<open>Messages whose handler succeeds are acknowledged.\<close>

lemma handle_good:
  assumes "\<And>u. result (h m) u = Inr ()"
  shows "gview (after (handle_message X stream grp h (ret ()) m) w) = gv_ack (msg_ID m) (gview w)"
  by (simp add: handle_message_def assms ack_gview handler_view)

lemma handle_all_good:
  assumes "\<And>m u. m \<in> set ms \<Longrightarrow> result (h m) u = Inr ()"
  shows "pending_of c (gview (after (for_each ms (handle_message X stream grp h (ret ()))) w)) =
    filter (\<lambda>x. msg_ID x \<notin> msg_ID ` set ms) (pending_of c (gview w))"
proof -
  have "pending_of c (gview (after (for_each ms (handle_message X stream grp h (ret ()))) w)) =
      fold (\<lambda>m xs. filter (\<lambda>x. msg_ID x \<noteq> msg_ID m) xs) ms (pending_of c (gview w))"
    by (rule for_each_fold [where view = "\<lambda>u. pending_of c (gview u)"]) (simp add: handle_good assms pending_ack)
  then show ?thesis by (simp add: filter_fold_ids)
qed

lemma filter_take_ids:
  assumes "distinct (map msg_ID xs)"
  shows "filter (\<lambda>x. msg_ID x \<notin> msg_ID ` set (take n xs)) xs = drop n xs"
proof -
  have "filter (\<lambda>x. msg_ID x \<notin> msg_ID ` set (take n xs)) (take n xs @ drop n xs) = drop n xs"
  proof -
    have "distinct (map msg_ID (take n xs @ drop n xs))" using assms by simp
    then have "\<forall>x \<in> set (drop n xs). msg_ID x \<notin> msg_ID ` set (take n xs)"
      by (auto simp del: append_take_drop_id)
    then have "filter (\<lambda>x. msg_ID x \<notin> msg_ID ` set (take n xs)) (drop n xs) = drop n xs"
      by (simp add: filter_id_conv)
    then show ?thesis by (simp del: append_take_drop_id add: filter_empty_conv)
  qed
  then show ?thesis by simp
qed

text \<open>
  With a handler that succeeds, recovery ends, within one turn for every fifty messages, and
  leaves the consumer no pending message.
\<close>

lemma recover_good:
  assumes "\<And>m u. result (h m) u = Inr ()" and "distinct (map msg_ID (pending_of c (gview w)))"
    and "length (pending_of c (gview w)) < 50 * fuel"
  shows "result (recoverPendingMessages X fuel stream grp c h) w = True \<and>
    pending_of c (gview (after (recoverPendingMessages X fuel stream grp c h) w)) = []"
  using assms(2,3)
proof (induction fuel arbitrary: w)
  case (Suc fuel)
  let ?p = "pending_of c (gview w)" and ?w = "after (xs_ReadPending X grp c stream 50) w"
  obtain ms where ms: "result (xs_ReadPending X grp c stream 50) w = Inr ms" using read_pending_up by blast
  then have take: "ms = take 50 ?p" by (rule read_pending_ok)
  have v: "gview ?w = gview w" by (rule read_pending_view)
  let ?w2 = "after (for_each ms (handle_message X stream grp h (ret ()))) ?w"
  have p2: "pending_of c (gview ?w2) = drop 50 ?p"
    using handle_all_good [of ms c ?w] assms(1) Suc.prems(1) v take by (simp add: filter_take_ids)
  show ?case
  proof (cases "length ms < 50")
    case True
    then have "drop 50 ?p = []" by (simp add: take)
    with True ms v p2 take show ?thesis by auto
  next
    case False
    then have "50 \<le> length ?p" by (simp add: take)
    with Suc.prems have "distinct (map msg_ID (pending_of c (gview ?w2)))" "length (pending_of c (gview ?w2)) < 50 * fuel"
      by (simp_all add: p2 flip: drop_map)
    from Suc.IH [OF this] False ms show ?thesis by auto
  qed
qed simp

text \<open>
  With fifty pending messages whose handler fails, recovery reads the same fifty again and
  again, and never ends.
\<close>

lemma handle_all_bad:
  assumes "\<And>m u. m \<in> set ms \<Longrightarrow> \<exists>e. result (h m) u = Inl e"
  shows "gview (after (for_each ms (handle_message X stream grp h (ret ()))) w) = gview w"
proof (rule for_each_inv [where P = "\<lambda>u. gview u = gview w"])
  fix m u
  assume "m \<in> set ms" and "gview u = gview w"
  moreover obtain e where "result (h m) u = Inl e" using assms \<open>m \<in> set ms\<close> by blast
  ultimately show "gview (after (handle_message X stream grp h (ret ()) m) u) = gview w"
    by (simp add: handle_message_def handler_view)
qed simp

lemma recover_stuck:
  assumes "50 \<le> length (pending_of c (gview w))"
    and "\<And>m u. m \<in> set (take 50 (pending_of c (gview w))) \<Longrightarrow> \<exists>e. result (h m) u = Inl e"
  shows "result (recoverPendingMessages X fuel stream grp c h) w = False"
  using assms
proof (induction fuel arbitrary: w)
  case (Suc fuel)
  let ?w = "after (xs_ReadPending X grp c stream 50) w"
  obtain ms where ms: "result (xs_ReadPending X grp c stream 50) w = Inr ms" using read_pending_up by blast
  then have take: "ms = take 50 (pending_of c (gview w))" by (rule read_pending_ok)
  have "gview (after (for_each ms (handle_message X stream grp h (ret ()))) ?w) = gview w"
    using handle_all_bad [of ms ?w] Suc.prems(2) take read_pending_view by simp
  then have "result (recoverPendingMessages X fuel stream grp c h)
      (after (for_each ms (handle_message X stream grp h (ret ()))) ?w) = False"
    using Suc.prems by (intro Suc.IH) simp_all
  with Suc.prems(1) ms take show ?case by auto
qed simp

text \<open>A claimed message: handled the first two times, moved to the dead letter stream the third time.\<close>

lemma claim_message_up:
  assumes n_def: "n = (\<lambda>w. gv_count (gview w) (msg_ID m) + 1)"
  shows "n w \<ge> 3 \<Longrightarrow> gview (after (claim_message X stream grp h m) w) =
      gv_count_update (\<lambda>f. f(msg_ID m := 0)) (gv_ack (msg_ID m) (gv_dead_update (\<lambda>d. d @ [msg_Values m])
        (gv_count_update (\<lambda>f. f(msg_ID m := n w)) (gview w))))"
    and "n w < 3 \<Longrightarrow> (\<And>u. \<exists>e. result (h m) u = Inl e) \<Longrightarrow>
      gview (after (claim_message X stream grp h m) w) = gv_count_update (\<lambda>f. f(msg_ID m := n w)) (gview w)"
    and "n w < 3 \<Longrightarrow> (\<And>u. result (h m) u = Inr ()) \<Longrightarrow>
      gview (after (claim_message X stream grp h m) w) =
        gv_count_update (\<lambda>f. f(msg_ID m := 0)) (gv_ack (msg_ID m) (gv_count_update (\<lambda>f. f(msg_ID m := n w)) (gview w)))"
proof -
  let ?w1 = "after (xs_HIncrBy X (dlq_key stream) (msg_ID m) 1) w"
  obtain z where z: "result (xs_HIncrBy X (dlq_key stream) (msg_ID m) 1) w = Inr z" using incr_up by blast
  from incr_ok [OF z] have i: "result (xs_HIncrBy X (dlq_key stream) (msg_ID m) 1) w = Inr (n w)"
    and v1: "gview ?w1 = gv_count_update (\<lambda>f. f(msg_ID m := n w)) (gview w)"
    using z by (simp_all add: n_def)
  show "n w \<ge> 3 \<Longrightarrow> gview (after (claim_message X stream grp h m) w) =
      gv_count_update (\<lambda>f. f(msg_ID m := 0)) (gv_ack (msg_ID m) (gv_dead_update (\<lambda>d. d @ [msg_Values m])
        (gv_count_update (\<lambda>f. f(msg_ID m := n w)) (gview w))))"
  proof -
    assume "n w \<ge> 3"
    moreover obtain u where "result (xs_Add X (stream @ '':dlq'') (msg_Values m)) ?w1 = Inr u" using dead_up by blast
    then have "gview (after (xs_Add X (stream @ '':dlq'') (msg_Values m)) ?w1) =
        gv_dead_update (\<lambda>d. d @ [msg_Values m]) (gview ?w1)" by (rule dead_ok)
    ultimately show "gview (after (claim_message X stream grp h m) w) =
      gv_count_update (\<lambda>f. f(msg_ID m := 0)) (gv_ack (msg_ID m) (gv_dead_update (\<lambda>d. d @ [msg_Values m])
        (gv_count_update (\<lambda>f. f(msg_ID m := n w)) (gview w))))" using v1 by (simp add: claim_message_def i hdel_up ack_gview)
  qed
  show "gview (after (claim_message X stream grp h m) w) = gv_count_update (\<lambda>f. f(msg_ID m := n w)) (gview w)"
    if n3: "n w < 3" and bad: "\<And>u. \<exists>e. result (h m) u = Inl e"
  proof -
    obtain e where "result (h m) ?w1 = Inl e" using bad by blast
    with n3 v1 show ?thesis by (simp add: claim_message_def i handle_message_def handler_view)
  qed
  show "n w < 3 \<Longrightarrow> (\<And>u. result (h m) u = Inr ()) \<Longrightarrow> gview (after (claim_message X stream grp h m) w) =
      gv_count_update (\<lambda>f. f(msg_ID m := 0)) (gv_ack (msg_ID m) (gv_count_update (\<lambda>f. f(msg_ID m := n w)) (gview w)))"
    using v1 by (simp add: claim_message_def i handle_message_def handler_view hdel_up ack_gview)
qed

end

section \<open>A group of plain data\<close>

text \<open>One stream with one group. Claiming takes every pending message at once.\<close>

definition mem_group_write :: "(group_view \<Rightarrow> group_view) \<Rightarrow> 'a \<Rightarrow> (group_view, redis_error + 'a) state" where
  "mem_group_write f a = State (\<lambda>v. (Inr a, f v))"

definition mem_group :: "group_view stream_redis" where
  "mem_group =
     \<lparr>xs_GroupCreate = (\<lambda>stream grp. mem_group_write id ()),
      xs_ReadNew = (\<lambda>grp c stream n. State (\<lambda>v. (Inr (take n (gv_new v)), gv_deliver n c v))),
      xs_ReadPending = (\<lambda>grp c stream n. State (\<lambda>v. (Inr (take n (pending_of c v)), v))),
      xs_Ack = (\<lambda>stream grp i. mem_group_write (gv_ack i) ()),
      xs_AutoClaim = (\<lambda>stream grp idle start n c. State (\<lambda>v.
        (Inr (map fst (gv_pending v), ''0-0''), gv_claim (msg_ID ` fst ` set (gv_pending v)) c v))),
      xs_Add = (\<lambda>stream vals. mem_group_write (gv_dead_update (\<lambda>d. d @ [vals])) ()),
      xs_HIncrBy = (\<lambda>k i d. State (\<lambda>v. (Inr (gv_count v i + d), gv_count_update (\<lambda>f. f(i := f i + d)) v))),
      xs_HDel = (\<lambda>k i. mem_group_write (gv_count_update (\<lambda>f. f(i := 0))) ())\<rparr>"

text \<open>A handler that accepts the messages with a property.\<close>

definition accepts :: "(message \<Rightarrow> bool) \<Rightarrow> group_view message_handler" where
  "accepts P m = ret (if P m then Inr () else Inl ''refused'')"

lemmas mem_group_defs = mem_group_def mem_group_write_def accepts_def result_def after_def

interpretation mem_group: consumer_group_up mem_group stream grp id "accepts P"
proof unfold_locales
  fix n c and w :: group_view
  show "\<exists>k\<le>n. id (after (xs_ReadNew mem_group grp c stream n) w) = gv_deliver k c (id w) \<and>
      (\<forall>ms. result (xs_ReadNew mem_group grp c stream n) w = Inr ms \<longrightarrow> ms = take k (gv_new (id w)))"
    by (intro exI [of _ n]) (simp add: mem_group_defs)
next
  fix idle start n c and w :: group_view
  show "\<exists>is. id (after (xs_AutoClaim mem_group stream grp idle start n c) w) = gv_claim is c (id w) \<and>
      (\<forall>ms next. result (xs_AutoClaim mem_group stream grp idle start n c) w = Inr (ms, next) \<longrightarrow>
        set ms \<subseteq> fst ` set (gv_pending (id w)))"
    by (intro exI [of _ "msg_ID ` fst ` set (gv_pending w)"]) (simp add: mem_group_defs)
qed (auto simp: mem_group_defs)

text \<open>The same group when the dead letter stream cannot be written.\<close>

definition full_group :: "group_view stream_redis" where
  "full_group = mem_group\<lparr>xs_Add := \<lambda>stream vals. ret (Inl (ErrRedis ''OOM''))\<rparr>"

interpretation full_group: consumer_group full_group stream grp id "accepts P"
proof unfold_locales
  fix n c and w :: group_view
  show "\<exists>k\<le>n. id (after (xs_ReadNew full_group grp c stream n) w) = gv_deliver k c (id w) \<and>
      (\<forall>ms. result (xs_ReadNew full_group grp c stream n) w = Inr ms \<longrightarrow> ms = take k (gv_new (id w)))"
    by (intro exI [of _ n]) (simp add: full_group_def mem_group_defs)
next
  fix idle start n c and w :: group_view
  show "\<exists>is. id (after (xs_AutoClaim full_group stream grp idle start n c) w) = gv_claim is c (id w) \<and>
      (\<forall>ms next. result (xs_AutoClaim full_group stream grp idle start n c) w = Inr (ms, next) \<longrightarrow>
        set ms \<subseteq> fst ` set (gv_pending (id w)))"
    by (intro exI [of _ "msg_ID ` fst ` set (gv_pending w)"]) (simp add: full_group_def mem_group_defs)
qed (auto simp: full_group_def mem_group_defs)

section \<open>Properties\<close>

definition subscribers :: "'w stream_redis \<Rightarrow> 'w subscriber set" where
  "subscribers X = {management_subscriber X, monitoring_subscriber X, reporting_subscriber X, notification_subscriber X}"

lemma subscribers_cases:
  "S \<in> subscribers X \<Longrightarrow> \<exists>n. S = redis_subscriber n X"
  by (auto simp: subscribers_def management_subscriber_def monitoring_subscriber_def
      reporting_subscriber_def notification_subscriber_def)

lemma subscribersI [intro]:
  "management_subscriber X \<in> subscribers X" "monitoring_subscriber X \<in> subscribers X"
  "reporting_subscriber X \<in> subscribers X" "notification_subscriber X \<in> subscribers X"
  by (simp_all add: subscribers_def)

definition example_group :: group_view where
  "example_group =
     \<lparr>gv_new = [\<lparr>msg_ID = ''3-0'', msg_Values = [(''event'', ''c'')]\<rparr>],
      gv_pending = [(\<lparr>msg_ID = ''1-0'', msg_Values = [(''event'', ''a'')]\<rparr>, ''me''),
        (\<lparr>msg_ID = ''2-0'', msg_Values = [(''event'', ''b'')]\<rparr>, ''me'')],
      gv_dead = [], gv_count = (\<lambda>_. 0)(''1-0'' := 2)\<rparr>"

abbreviation poison :: message where
  "poison \<equiv> \<lparr>msg_ID = ''1-0'', msg_Values = [(''event'', ''a'')]\<rparr>"

abbreviation not_poison :: "message \<Rightarrow> bool" where
  "not_poison m \<equiv> msg_ID m \<noteq> ''1-0''"

lemma example_poison:
  "holds poison example_group" "alone poison (all_messages example_group)"
  "\<exists>e. result (accepts not_poison poison) u = Inl e"
  by (simp_all add: holds_def example_group_def all_messages_def alone_def accepts_def)





text \<open>
  A message that is claimed for the third time goes to the dead letter stream and leaves the
  group, and its handler is not called; before that a failing handler only raises its counter,
  and a successful one acknowledges the message and clears the counter.
\<close>

lemma third_claim_goes_to_dead_letters:
  assumes "consumer_group_up X stream grp gview h" and "n = gv_count (gview w) (msg_ID m) + 1"
    and "v = gv_count_update (\<lambda>f. f(msg_ID m := n)) (gview w)"
  shows "(n \<ge> 3 \<longrightarrow> gview (after (claim_message X stream grp h m) w) =
      gv_count_update (\<lambda>f. f(msg_ID m := 0)) (gv_ack (msg_ID m) (gv_dead_update (\<lambda>d. d @ [msg_Values m]) v))) \<and>
    (n < 3 \<and> (\<forall>u. \<exists>e. result (h m) u = Inl e) \<longrightarrow> gview (after (claim_message X stream grp h m) w) = v) \<and>
    (n < 3 \<and> (\<forall>u. result (h m) u = Inr ()) \<longrightarrow> gview (after (claim_message X stream grp h m) w) =
      gv_count_update (\<lambda>f. f(msg_ID m := 0)) (gv_ack (msg_ID m) v))"
  using consumer_group_up.claim_message_up [OF assms(1) refl, where m = m and w = w] assms(2,3) by simp

lemma third_claim_goes_to_dead_letters_witness:
  "gv_dead (after (claim_message mem_group ''events'' ''grp'' (accepts not_poison) poison) example_group) = [msg_Values poison] \<and>
   \<not> holds poison (after (claim_message mem_group ''events'' ''grp'' (accepts not_poison) poison) example_group)"
  using third_claim_goes_to_dead_letters [OF mem_group.consumer_group_up_axioms refl refl, where m = poison and w = example_group]
  by (simp add: example_group_def gv_ack_def holds_def)



text \<open>
  The recovery of pending messages does not end when the first fifty of them cannot be
  handled: it reads the same fifty again and again, and the subscriber never reaches its loop.
\<close>

lemma recovery_stuck_on_fifty_failures:
  assumes "consumer_group_up X stream grp gview h" and "S \<in> subscribers X"
    and "50 \<le> length (pending_of c (gview w))"
    and "\<And>m u. m \<in> set (take 50 (pending_of c (gview w))) \<Longrightarrow> \<exists>e. result (h m) u = Inl e"
  shows "\<not> result (sub_recover S fuel stream grp c h) w"
proof -
  obtain n where S: "S = redis_subscriber n X" using assms(2) subscribers_cases by blast
  with consumer_group_up.recover_stuck [OF assms(1,3,4)] show ?thesis by (simp add: redis_subscriber_def)
qed

definition stuck_group :: group_view where
  "stuck_group = example_group\<lparr>gv_pending := map (\<lambda>i. (\<lparr>msg_ID = Itoa (int i), msg_Values = []\<rparr>, ''me'')) [0..<50]\<rparr>"

lemma recovery_stuck_on_fifty_failures_witness:
  "\<forall>fuel. \<not> result (sub_recover (management_subscriber mem_group) fuel ''events'' ''grp'' ''me'' (accepts (\<lambda>_. False))) stuck_group"
proof -
  have "pending_of ''me'' stuck_group = map (\<lambda>i. \<lparr>msg_ID = Itoa (int i), msg_Values = []\<rparr>) [0..<50]"
    by (simp add: stuck_group_def pending_of_def filter_map comp_def)
  moreover have "\<exists>e. result (accepts (\<lambda>_. False) m) u = Inl e" for m u by (simp add: accepts_def)
  ultimately show ?thesis
    using recovery_stuck_on_fifty_failures [OF mem_group.consumer_group_up_axioms subscribersI(1), where c = "''me''" and w = stuck_group]
    by simp
qed

text \<open>
  On the third claim the message is acknowledged whether or not it could be written to the
  dead letter stream: if that command fails, the message is in no stream of the broker any more.
\<close>

lemma dead_letter_failure_loses_message:
  assumes "consumer_group X stream grp gview h" and "gv_count (gview w) (msg_ID m) \<ge> 2"
    and "\<And>u. \<exists>z. result (xs_HIncrBy X (dlq_key stream) (msg_ID m) 1) u = Inr z"
    and "\<And>vals u. \<exists>e. result (xs_Add X (stream @ '':dlq'') vals) u = Inl e \<and>
      gview (after (xs_Add X (stream @ '':dlq'') vals) u) = gview u"
    and "\<And>i u. \<exists>x. result (xs_Ack X stream grp i) u = Inr x"
    and "m \<notin> set (gv_new (gview w))"
  shows "\<not> holds m (gview (after (claim_message X stream grp h m) w)) \<and>
    gv_dead (gview (after (claim_message X stream grp h m) w)) = gv_dead (gview w)"
proof -
  note g = consumer_group.incr_ok [OF assms(1)] consumer_group.ack_ok [OF assms(1)] consumer_group.hdel_view [OF assms(1)]
  let ?i = "msg_ID m"
  define w1 where "w1 = after (xs_HIncrBy X (dlq_key stream) ?i 1) w"
  define w2 where "w2 = after (xs_Add X (stream @ '':dlq'') (msg_Values m)) w1"
  define w3 where "w3 = after (xs_Ack X stream grp ?i) w2"
  obtain z where z: "result (xs_HIncrBy X (dlq_key stream) ?i 1) w = Inr z" using assms(3) by blast
  from g(1) [OF z] assms(2) have "3 \<le> z" and v1: "gview w1 = gv_count_update (\<lambda>f. f(?i := z)) (gview w)"
    by (simp_all add: w1_def)
  have v2: "gview w2 = gview w1" using assms(4) by (auto simp: w2_def)
  obtain x where "result (xs_Ack X stream grp ?i) w2 = Inr x" using assms(5) by blast
  then have v3: "gview w3 = gv_ack ?i (gview w2)" using g(2) by (simp add: w3_def)
  have "\<not> holds m (gview w3) \<and> gv_dead (gview w3) = gv_dead (gview w)"
    using assms(6) by (auto simp: v3 v2 v1 holds_def gv_ack_def)
  moreover have "after (claim_message X stream grp h m) w = after (xs_HDel X (dlq_key stream) ?i) w3"
    using \<open>3 \<le> z\<close> by (simp add: claim_message_def z flip: w1_def w2_def w3_def)
  ultimately show ?thesis using g(3) [of ?i w3] by (auto simp: holds_def)
qed

lemma dead_letter_failure_loses_message_witness:
  "\<not> holds poison (after (claim_message full_group ''events'' ''grp'' (accepts not_poison) poison) example_group)"
proof -
  have "\<exists>z. result (xs_HIncrBy full_group (dlq_key ''events'') (msg_ID poison) 1) u = Inr z"
    and "\<exists>e. result (xs_Add full_group (''events'' @ '':dlq'') vals) u = Inl e \<and>
      id (after (xs_Add full_group (''events'' @ '':dlq'') vals) u) = id u"
    and "\<exists>x. result (xs_Ack full_group ''events'' ''grp'' i) u = Inr x" for u vals i
    by (simp_all add: full_group_def mem_group_defs)
  from dead_letter_failure_loses_message [OF full_group.consumer_group_axioms _ this, of example_group not_poison]
  show ?thesis by (simp add: example_group_def)
qed

end
