(* ===== verification/Management_Workers.thy ===== *)
theory Management_Workers
  imports Management Broker
begin

text \<open>
  The background work of \<open>sms-management\<close>: the relay that publishes outbox events to a stream of
  Redis, the consumer that takes over the status from \<open>sms-monitoring\<close>, and the import of servers
  from a spreadsheet with the export to one.
\<close>

section \<open>The outbox relay\<close>

definition outbox_fields :: "OutboxEvent \<Rightarrow> fields" where
  "outbox_fields e =
     [(''aggregate_type'', ev_AggregateType e), (''aggregate_id'', ev_AggregateID e),
      (''event_type'', event_type_name (ev_EventType e)), (''payload'', ev_Payload e)]"

text \<open>
  A pipeline sends all its commands; its error is that of the first command that failed.
\<close>

fun pipeline :: "('w, redis_error + unit) state list \<Rightarrow> ('w, redis_error + unit) state" where
  "pipeline [] = ret (Inr ())"
| "pipeline (m # ms) = do {
     r \<leftarrow> m;
     rest \<leftarrow> pipeline ms;
     ret (case r of Inl e \<Rightarrow> Inl e | Inr _ \<Rightarrow> rest)
   }"

definition PublishOutboxBatch :: "'w redis \<Rightarrow> int \<Rightarrow> string \<Rightarrow> OutboxEvent list \<Rightarrow> ('w, redis_error + unit) state" where
  "PublishOutboxBatch R maxLen stream events =
     (if events = [] then ret (Inr ())
      else pipeline (map (\<lambda>e. cmd_XAdd R stream maxLen (outbox_fields e)) events))"

definition processOutboxEvents :: "'w management_env \<Rightarrow> ('w, unit) state" where
  "processOutboxEvents E = do {
     r \<leftarrow> GetUnprocessed E (mg_batchSize E);
     case r of
       Inl e \<Rightarrow> ret ()
     | Inr events \<Rightarrow>
         if events = [] then ret ()
         else do {
           p \<leftarrow> PublishOutboxBatch (mg_redis E) (mg_maxLen E) (mg_streamName E) events;
           case p of
             Inl e \<Rightarrow> ret ()
           | Inr _ \<Rightarrow> do { MarkProcessed E (map ev_ID events); ret () }
         }
   }"

section \<open>The status consumer\<close>

definition status_processMessage :: "'w management_env \<Rightarrow> 'w message_handler" where
  "status_processMessage E msg =
     (case map_of (msg_Values msg) ''event_type'' of
        None \<Rightarrow> ret (Inr ())
      | Some eventType \<Rightarrow>
          if eventType \<noteq> ''ServerStatusChanged'' then ret (Inr ())
          else (case map_of (msg_Values msg) ''payload'' of
             None \<Rightarrow> ret (Inr ())
           | Some payloadStr \<Rightarrow>
               (case (case json_members payloadStr of None \<Rightarrow> None
                  | Some ms \<Rightarrow> (case (get_string ms ''server_id'', get_string ms ''status'') of
                      (Some i, Some st) \<Rightarrow> Some (i, st) | _ \<Rightarrow> None)) of
                  None \<Rightarrow> ret (Inl ''json'')
                | Some (i, newStatus) \<Rightarrow>
                    if i = [] \<or> newStatus = [] then ret (Inr ())
                    else do {
                      r \<leftarrow> GetByID E i;
                      case r of
                        Inl e \<Rightarrow> ret (Inr ())
                      | Inr server \<Rightarrow>
                          if srv_CurrentStatus server = newStatus then ret (Inr ())
                          else do {
                            u \<leftarrow> repo_Update E (server\<lparr>srv_CurrentStatus := newStatus\<rparr>);
                            ret (case u of Inl e \<Rightarrow> Inl ''update'' | Inr _ \<Rightarrow> Inr ())
                          }
                    })))"

section \<open>Import\<close>

definition maxFileSize :: nat where "maxFileSize = 2 * 1024 * 1024"
definition batchSize :: nat where "batchSize = 100"

text \<open>
  The library \<open>excelize\<close> is a parameter: the workbook in a file, the name of its first sheet, the
  rows of a sheet as lists of cells; and a file for a table of cells.
\<close>

record 'book excelize =
  xl_OpenReader :: "string \<Rightarrow> 'book option"
  xl_GetSheetName :: "'book \<Rightarrow> string"
  xl_Rows :: "'book \<Rightarrow> string \<Rightarrow> string list list option"
  xl_WriteTable :: "string list \<Rightarrow> string list list \<Rightarrow> string option"

record ImportResult =
  ir_SuccessCount :: int
  ir_SuccessfulServers :: "string list"
  ir_FailCount :: int
  ir_FailedServers :: "string list"

text \<open>The columns of the header: the last one with a fitting name.\<close>

definition header_index :: "string list \<Rightarrow> string list \<Rightarrow> nat option" where
  "header_index names header =
     fold (\<lambda>(i, h) acc. if TrimSpace (ToLower h) \<in> set names then Some i else acc) (enumerate 0 header) None"

definition column :: "string list \<Rightarrow> nat \<Rightarrow> string" where
  "column cols i = (if i < length cols then TrimSpace (cols ! i) else [])"

definition is_ipv4 :: "string \<Rightarrow> bool" where
  "is_ipv4 s = (case ParseIP s of None \<Rightarrow> False | Some bs \<Rightarrow> To4 bs \<noteq> None)"

definition label :: "string \<Rightarrow> string \<Rightarrow> string" where
  "label name ipv4 = name @ '' ('' @ ipv4 @ '')''"

definition imported_server :: "string \<Rightarrow> string \<Rightarrow> Server" where
  "imported_server name ipv4 = \<lparr>srv_ServerID = [], srv_ServerName = name, srv_IPv4 = ipv4,
     srv_CurrentStatus = management_StatusUnknown, srv_HealthCheckMethod = MethodICMP, srv_SSHPort = 0, srv_SSHUser = [],
     srv_SSHKey = [], srv_AgentEndpoint = [], srv_ConsecutiveFailures = 0, srv_CreatedAt = 0, srv_UpdatedAt = 0\<rparr>"

text \<open>
  The servers of a batch that are new, given the names and addresses in use; a server that is
  taken uses its own.
\<close>

fun split_batch ::
  "string set \<Rightarrow> string set \<Rightarrow> Server list \<Rightarrow> ImportResult \<Rightarrow> Server list \<Rightarrow> ImportResult \<times> Server list" where
  "split_batch names ips [] res valid = (res, valid)"
| "split_batch names ips (s # ss) res valid =
     (if srv_ServerName s \<in> names \<or> srv_IPv4 s \<in> ips
      then split_batch names ips ss
        (res\<lparr>ir_FailCount := ir_FailCount res + 1, ir_FailedServers := ir_FailedServers res @ [label (srv_ServerName s) (srv_IPv4 s)]\<rparr>) valid
      else split_batch (insert (srv_ServerName s) names) (insert (srv_IPv4 s) ips) ss
        (res\<lparr>ir_SuccessCount := ir_SuccessCount res + 1, ir_SuccessfulServers := ir_SuccessfulServers res @ [srv_ServerName s]\<rparr>)
        (valid @ [s]))"

fun new_events :: "'w management_env \<Rightarrow> Server list \<Rightarrow> ('w, OutboxEvent list) state" where
  "new_events E [] = ret []"
| "new_events E (s # ss) = do {
     e \<leftarrow> NewOutboxEvent E ''Server'' (srv_ServerID s) EventServerCreated (server_json s);
     es \<leftarrow> new_events E ss;
     ret (e # es)
   }"

definition wrapped :: "string \<Rightarrow> ('w, repo_error + 'a) state \<Rightarrow> ('w, service_error + 'a) state" where
  "wrapped msg m = do { r \<leftarrow> m; ret (case r of Inl e \<Rightarrow> Inl (ErrWrapped msg e) | Inr a \<Rightarrow> Inr a) }"

definition processBatch ::
  "'w management_env \<Rightarrow> Server list \<Rightarrow> ImportResult \<Rightarrow> ('w, service_error + ImportResult) state" where
  "processBatch E batch res =
     (if batch = [] then ret (Inr res)
      else and_then (wrapped ''failed to check existing servers: ''
             (FindByNamesOrIPv4s E (map srv_ServerName batch) (map srv_IPv4 batch))) (\<lambda>existing.
        case split_batch (srv_ServerName ` set existing) (srv_IPv4 ` set existing) batch res [] of
          (res, validServers) \<Rightarrow>
            if validServers = [] then ret (Inr res)
            else and_then (mg_tx E (
                and_then (wrapped ''batch create failed: '' (repo_BatchCreate E validServers)) (\<lambda>servers. do {
                  events \<leftarrow> new_events E servers;
                  and_then (wrapped ''failed to create outbox events: '' (outbox_BatchCreate E events)) (\<lambda>_. ret (Inr servers))
                }))) (\<lambda>_. ret (Inr res))))"

fun import_rows ::
  "'w management_env \<Rightarrow> nat \<Rightarrow> nat \<Rightarrow> string list list \<Rightarrow> Server list \<Rightarrow> ImportResult \<Rightarrow> ('w, service_error + ImportResult) state" where
  "import_rows E nameIdx ipIdx [] batch res = processBatch E batch res"
| "import_rows E nameIdx ipIdx (cols # rows) batch res =
     (let name = column cols nameIdx; ipv4 = column cols ipIdx in
      if name = [] \<and> ipv4 = [] then import_rows E nameIdx ipIdx rows batch res
      else if name = [] \<or> ipv4 = [] \<or> 255 < length name \<or> \<not> is_ipv4 ipv4
      then import_rows E nameIdx ipIdx rows batch
        (res\<lparr>ir_FailCount := ir_FailCount res + 1, ir_FailedServers := ir_FailedServers res @ [label name ipv4 @ '' - Invalid Format'']\<rparr>)
      else let batch = batch @ [imported_server name ipv4] in
        if length batch \<ge> batchSize
        then and_then (processBatch E batch res) (\<lambda>res. import_rows E nameIdx ipIdx rows [] res)
        else import_rows E nameIdx ipIdx rows batch res)"

definition ImportServers ::
  "'book excelize \<Rightarrow> 'w management_env \<Rightarrow> string \<Rightarrow> ('w, service_error + ImportResult) state" where
  "ImportServers X E fileBytes =
     (if maxFileSize < length fileBytes then ret (Inl ErrFileTooLarge)
      else case xl_OpenReader X fileBytes of
        None \<Rightarrow> ret (Inl ErrInvalidFormat)
      | Some f \<Rightarrow>
          let sheetName = xl_GetSheetName X f in
          if sheetName = [] then ret (Inl ErrNoSheets)
          else case xl_Rows X f sheetName of
            None \<Rightarrow> ret (Inl (ErrExcel ''failed to read rows''))
          | Some [] \<Rightarrow> ret (Inl ErrEmptyFile)
          | Some (header # rows) \<Rightarrow>
              (case (header_index [''server name'', ''server_name'', ''name''] header, header_index [''ipv4'', ''ip''] header) of
                 (Some nameIdx, Some ipIdx) \<Rightarrow>
                   import_rows E nameIdx ipIdx rows [] \<lparr>ir_SuccessCount = 0, ir_SuccessfulServers = [], ir_FailCount = 0, ir_FailedServers = []\<rparr>
               | _ \<Rightarrow> ret (Inl ErrMissingCols)))"

section \<open>Export\<close>

definition generateServerExcel :: "'book excelize \<Rightarrow> Server list \<Rightarrow> service_error + string" where
  "generateServerExcel X servers =
     (case xl_WriteTable X [''Server Name'', ''IPv4 Address'', ''Status'', ''Created At'', ''Last Updated'']
         (map (\<lambda>s. [srv_ServerName s, srv_IPv4 s, srv_CurrentStatus s, Format_DateTime (srv_CreatedAt s), Format_DateTime (srv_UpdatedAt s)]) servers) of
        None \<Rightarrow> Inl (ErrExcel ''failed to write excel to buffer'')
      | Some buf \<Rightarrow> Inr buf)"

definition ExportServers ::
  "'book excelize \<Rightarrow> 'w management_env \<Rightarrow> ServerListFilter \<Rightarrow> ('w, service_error + string \<times> string) state" where
  "ExportServers X E filt =
     and_then (wrapped ''failed to fetch servers for export: '' (repo_Search E filt)) (\<lambda>(servers, _).
     case generateServerExcel X servers of
       Inl e \<Rightarrow> ret (Inl e)
     | Inr buf \<Rightarrow> do { t \<leftarrow> mg_Now E; ret (Inr (buf, ''servers_export_'' @ Format_Stamp t @ ''.xlsx'')) })"

end
