(* ===== verification/Reference_World.thy ===== *)
theory Reference_World
  imports Services
begin

text \<open>
  A world of plain data: the tables as lists of rows, the keys of Redis as maps, and a clock
  that stands still. Every law of the theory Services holds of it, and every action can be
  evaluated, so the theorems that assume the laws can be applied at concrete worlds.
\<close>

record 'v world =
  wv :: 'v
  wclock :: time

lemma State_simps: "result (State f) w = fst (f w)" "after (State f) w = snd (f w)"
  by (simp_all add: result_def after_def)

section \<open>Tables\<close>

text \<open>
  \<open>fill\<close> completes the rows of an \<open>INSERT\<close>, given the rows that are there. A statement that
  would break a unique index fails.
\<close>

definition mem_First :: "('v \<Rightarrow> 'r list) \<Rightarrow> ('r \<Rightarrow> bool) \<Rightarrow> ('v world, db_error + 'r) state" where
  "mem_First get P = State (\<lambda>w. (case List.find P (get (wv w)) of None \<Rightarrow> Inl ErrRecordNotFound | Some r \<Rightarrow> Inr r, w))"

definition mem_Create ::
  "('v \<Rightarrow> 'r list) \<Rightarrow> (('r list \<Rightarrow> 'r list) \<Rightarrow> 'v \<Rightarrow> 'v) \<Rightarrow> ('r list \<Rightarrow> bool) \<Rightarrow> ('r list \<Rightarrow> 'r list \<Rightarrow> 'r list) \<Rightarrow>
   'r list \<Rightarrow> ('v world, db_error + 'r list) state" where
  "mem_Create get put uniq fill rs = State (\<lambda>w.
     let rs' = fill (get (wv w)) rs in
     if uniq (get (wv w) @ rs') then (Inr rs', w\<lparr>wv := put (\<lambda>old. old @ rs') (wv w)\<rparr>)
     else (Inl ErrDuplicatedKey, w))"

definition mem_Updates ::
  "('v \<Rightarrow> 'r list) \<Rightarrow> (('r list \<Rightarrow> 'r list) \<Rightarrow> 'v \<Rightarrow> 'v) \<Rightarrow> ('r list \<Rightarrow> bool) \<Rightarrow>
   (time \<Rightarrow> 'r \<Rightarrow> 'r) \<Rightarrow> ('r \<Rightarrow> bool) \<Rightarrow> ('r \<Rightarrow> 'r) \<Rightarrow> ('v world, db_error + int) state" where
  "mem_Updates get put uniq stamp P f = State (\<lambda>w.
     let upd = upd_rows P (\<lambda>r. stamp (wclock w) (f r)) in
     if uniq (upd (get (wv w)))
     then (Inr (int (length (filter P (get (wv w))))), w\<lparr>wv := put upd (wv w)\<rparr>)
     else (Inl ErrDuplicatedKey, w))"

text \<open>Insertion sort by the order of the query.\<close>

primrec insert_by :: "('r \<Rightarrow> 'r \<Rightarrow> bool) \<Rightarrow> 'r \<Rightarrow> 'r list \<Rightarrow> 'r list" where
  "insert_by le x [] = [x]"
| "insert_by le x (y # ys) = (if le x y then x # y # ys else y # insert_by le x ys)"

definition sort_by :: "('r \<Rightarrow> 'r \<Rightarrow> bool) \<Rightarrow> 'r list \<Rightarrow> 'r list" where
  "sort_by le xs = foldr (insert_by le) xs []"

lemma mset_insert_by [simp]: "mset (insert_by le x xs) = add_mset x (mset xs)"
  by (induction xs) auto

lemma mset_sort_by [simp]: "mset (sort_by le xs) = mset xs"
  by (induction xs) (simp_all add: sort_by_def)

lemma sorted_insert_by:
  assumes "\<And>x y. le x y \<or> le y x" and "transp le" and "sorted_wrt le xs"
  shows "sorted_wrt le (insert_by le x xs)"
  using assms(3)
proof (induction xs)
  case (Cons y ys)
  have "set (insert_by le x ys) = insert x (set ys)"
    using mset_insert_by [of le x ys] by (metis set_mset_add_mset_insert set_mset_mset)
  with Cons assms(1) [of x y] assms(2) show ?case by (auto dest: transpD)
qed simp

lemma sorted_sort_by:
  assumes "\<And>x y. le x y \<or> le y x" and "transp le"
  shows "sorted_wrt le (sort_by le xs)"
  using assms by (induction xs) (simp_all add: sort_by_def sorted_insert_by)


definition mem_Delete ::
  "('v \<Rightarrow> 'r list) \<Rightarrow> (('r list \<Rightarrow> 'r list) \<Rightarrow> 'v \<Rightarrow> 'v) \<Rightarrow> ('r \<Rightarrow> bool) \<Rightarrow> ('v world, db_error + int) state" where
  "mem_Delete get put P = State (\<lambda>w.
     (Inr (int (length (filter P (get (wv w))))), w\<lparr>wv := put (filter (\<lambda>r. \<not> P r)) (wv w)\<rparr>))"

definition mem_table ::
  "('v \<Rightarrow> 'r list) \<Rightarrow> (('r list \<Rightarrow> 'r list) \<Rightarrow> 'v \<Rightarrow> 'v) \<Rightarrow> ('r list \<Rightarrow> bool) \<Rightarrow> ('r list \<Rightarrow> 'r list \<Rightarrow> 'r list) \<Rightarrow>
   (time \<Rightarrow> 'r \<Rightarrow> 'r) \<Rightarrow> ('v world, 'r) table" where
  "mem_table get put uniq fill stamp =
     \<lparr>tbl_First = mem_First get,
      tbl_Find = (\<lambda>P. State (\<lambda>w. (Inr (filter P (get (wv w))), w))),
      tbl_Page = (\<lambda>P le off lim. State (\<lambda>w. (Inr (page off lim (sort_by le (filter P (get (wv w))))), w))),
      tbl_Count = (\<lambda>P. State (\<lambda>w. (Inr (int (length (filter P (get (wv w))))), w))),
      tbl_Create = mem_Create get put uniq fill,
      tbl_Updates = mem_Updates get put uniq stamp,
      tbl_Delete = mem_Delete get put\<rparr>"

lemmas mem_table_defs = mem_table_def mem_First_def mem_Create_def mem_Updates_def mem_Delete_def

text \<open>
  The laws hold of such a table when \<open>fill\<close> does complete the rows, and finds keys that are
  free whenever there are some.
\<close>

lemma mem_table_up:
  fixes get :: "'v \<Rightarrow> 'r list"
  assumes "\<And>old rs. list_all2 filled rs (fill old rs)"
    and "\<And>old rs rs'. list_all2 filled rs rs' \<Longrightarrow> uniq (old @ rs') \<Longrightarrow> uniq (old @ fill old rs)"
  shows "sql_table_up (mem_table get put uniq fill stamp) wclock wv get put uniq filled stamp"
proof unfold_locales
  fix P and w :: "'v world" and r
  assume "result (tbl_First (mem_table get put uniq fill stamp) P) w = Inl ErrRecordNotFound"
    and "r \<in> set (get (wv w))"
  then show "\<not> P r"
    by (auto simp: mem_table_defs result_def find_None_iff split: option.splits)
next
  fix rs :: "'r list" and w :: "'v world" and rs'
  assume "list_all2 filled rs rs'" and "uniq (get (wv w) @ rs')"
  then have "uniq (get (wv w) @ fill (get (wv w)) rs)" by (rule assms(2))
  then show "\<exists>rs''. result (tbl_Create (mem_table get put uniq fill stamp) rs) w = Inr rs''"
    by (simp add: mem_table_defs result_def Let_def)
next
  fix P and w :: "'v world" and f :: "'r \<Rightarrow> 'r" and n
  assume "result (tbl_Updates (mem_table get put uniq fill stamp) P f) w = Inr n"
  then show "\<exists>u. n = int (length (filter P (get (wv w)))) \<and>
      uniq (upd_rows P (\<lambda>r. stamp u (f r)) (get (wv w))) \<and>
      wv (after (tbl_Updates (mem_table get put uniq fill stamp) P f) w) =
        put (upd_rows P (\<lambda>r. stamp u (f r))) (wv w)"
    by (intro exI [of _ "wclock w"]) (auto simp: mem_table_defs result_def after_def Let_def split: if_splits)
next
  fix P and w :: "'v world" and f :: "'r \<Rightarrow> 'r"
  assume "\<And>u. uniq (upd_rows P (\<lambda>r. stamp u (f r)) (get (wv w)))"
  then show "\<exists>n. result (tbl_Updates (mem_table get put uniq fill stamp) P f) w = Inr n"
    by (simp add: mem_table_defs result_def Let_def)
next
  fix le :: "'r \<Rightarrow> 'r \<Rightarrow> bool" and P off lim
  assume "\<And>x y. le x y \<or> le y x" and "transp le"
  then have "sorted_wrt le (sort_by le (filter P (get (wv w))))" for w :: "'v world"
    by (rule sorted_sort_by)
  then show "reads wclock wv (tbl_Page (mem_table get put uniq fill stamp) P le off lim)
      (\<lambda>v rs. \<exists>xs. mset xs = mset (filter P (get v)) \<and> sorted_wrt le xs \<and> rs = page off lim xs)"
    by (auto simp: mem_table_defs reads_def result_def after_def
        intro!: exI [of _ "sort_by le (filter P (get (wv w)))" for w])
qed (auto simp: mem_table_defs reads_def answers_def result_def after_def Let_def assms(1)
      find_Some_iff split: option.splits if_splits)

text \<open>A key that is not in use.\<close>

definition fresh_key :: "string list \<Rightarrow> string" where
  "fresh_key used = replicate (Suc (sum_list (map length used))) (CHR ''k'')"

lemma fresh_key_notin: "fresh_key used \<notin> set used"
proof
  assume "fresh_key used \<in> set used"
  then have "length (fresh_key used) \<le> sum_list (map length used)"
    by (simp add: member_le_sum_list)
  then show False by (simp add: fresh_key_def)
qed

text \<open>Keys for the rows of an \<open>INSERT\<close> that have none: \<open>nil\<close> marks a missing key.\<close>

primrec fill_keys :: "'k \<Rightarrow> ('k list \<Rightarrow> 'k) \<Rightarrow> 'k list \<Rightarrow> 'k list \<Rightarrow> 'k list" where
  "fill_keys nil fresh used [] = []"
| "fill_keys nil fresh used (k # ks) =
     (let i = (if k = nil then fresh (nil # used @ ks) else k) in i # fill_keys nil fresh (i # used) ks)"

lemma length_fill_keys [simp]: "length (fill_keys nil fresh used ks) = length ks"
  by (induction ks arbitrary: used) (simp_all add: Let_def)

lemma fill_keys_given: "j < length ks \<Longrightarrow> ks ! j \<noteq> nil \<Longrightarrow> fill_keys nil fresh used ks ! j = ks ! j"
proof (induction ks arbitrary: used j)
  case (Cons k ks)
  then show ?case by (cases j) (simp_all add: Let_def)
qed simp

lemma fill_keys_distinct:
  assumes fresh: "\<And>l. fresh l \<notin> set l"
  shows "distinct (filter (\<lambda>k. k \<noteq> nil) ks) \<Longrightarrow> set used \<inter> set (filter (\<lambda>k. k \<noteq> nil) ks) = {} \<Longrightarrow>
    distinct (fill_keys nil fresh used ks) \<and> set used \<inter> set (fill_keys nil fresh used ks) = {}"
proof (induction ks arbitrary: used)
  case (Cons k ks)
  define i where "i = (if k = nil then fresh (nil # used @ ks) else k)"
  have "i \<notin> set used"
    using Cons.prems(2) fresh [of "nil # used @ ks"] by (auto simp: i_def)
  moreover have "set (i # used) \<inter> set (filter (\<lambda>k. k \<noteq> nil) ks) = {}"
    using Cons.prems fresh [of "nil # used @ ks"] by (auto simp: i_def split: if_splits)
  moreover have "distinct (filter (\<lambda>k. k \<noteq> nil) ks)" using Cons.prems(1) by (simp split: if_splits)
  ultimately have "distinct (fill_keys nil fresh (i # used) ks) \<and>
      set (i # used) \<inter> set (fill_keys nil fresh (i # used) ks) = {}"
    by (intro Cons.IH) auto
  with \<open>i \<notin> set used\<close> show ?case by (auto simp: Let_def simp flip: i_def)
qed simp

text \<open>
  Rows completed with keys: if there is any way to give the missing keys, this is one.
\<close>

definition fill_rows :: "('r \<Rightarrow> 'k) \<Rightarrow> ('k \<Rightarrow> 'r \<Rightarrow> 'r) \<Rightarrow> 'k \<Rightarrow> ('k list \<Rightarrow> 'k) \<Rightarrow> 'r list \<Rightarrow> 'r list \<Rightarrow> 'r list" where
  "fill_rows key set_key nil fresh old rs =
     map2 set_key (fill_keys nil fresh (map key old) (map key rs)) rs"

lemma fill_rows_keys:
  assumes "\<And>k r. key (set_key k r) = k"
  shows "map key (fill_rows key set_key nil fresh old rs) = fill_keys nil fresh (map key old) (map key rs)"
  by (rule nth_equalityI) (simp_all add: fill_rows_def assms)

lemma fill_rows_other:
  assumes "\<And>k r. h (set_key k r) = h r"
  shows "map h (fill_rows key set_key nil fresh old rs) = map h rs"
  by (rule nth_equalityI) (simp_all add: fill_rows_def assms)

lemma fill_rows_all2:
  assumes "\<And>k r. (key r \<noteq> nil \<Longrightarrow> k = key r) \<Longrightarrow> filled r (set_key k r)"
  shows "list_all2 filled rs (fill_rows key set_key nil fresh old rs)"
  by (rule list_all2_all_nthI) (auto simp: fill_rows_def fill_keys_given intro!: assms)

lemma fill_keys_not_nil:
  assumes "\<And>l. fresh l \<notin> set l"
  shows "nil \<notin> set (fill_keys nil fresh used ks)"
proof (induction ks arbitrary: used)
  case (Cons k ks)
  then show ?case using assms [of "nil # used @ ks"] by (auto simp: Let_def)
qed simp

lemma fill_rows_all2_key:
  assumes "\<And>l. fresh l \<notin> set l" and "\<And>k r. k \<noteq> nil \<Longrightarrow> (key r \<noteq> nil \<Longrightarrow> k = key r) \<Longrightarrow> filled r (set_key k r)"
  shows "list_all2 filled rs (fill_rows key set_key nil fresh old rs)"
proof (rule list_all2_all_nthI)
  fix n assume n: "n < length rs"
  then have "fill_keys nil fresh (map key old) (map key rs) ! n \<noteq> nil"
    using fill_keys_not_nil [where fresh = fresh and nil = nil, OF assms(1)] by (metis length_fill_keys length_map nth_mem)
  with n show "filled (rs ! n) (fill_rows key set_key nil fresh old rs ! n)"
    by (auto simp: fill_rows_def fill_keys_given intro!: assms(2))
qed (simp add: fill_rows_def)

lemma fill_rows_distinct:
  assumes "\<And>l. fresh l \<notin> set l" and "\<And>k r. key (set_key k r) = k"
    and all2: "list_all2 (\<lambda>r r'. key r \<noteq> nil \<longrightarrow> key r' = key r) rs rs'"
    and dist: "distinct (map key (old @ rs'))"
  shows "distinct (map key (old @ fill_rows key set_key nil fresh old rs))"
proof -
  let ?given = "filter (\<lambda>k. k \<noteq> nil) (map key rs)"
  have "distinct (map key rs') \<Longrightarrow> distinct ?given \<and> set ?given \<subseteq> set (map key rs')"
    using all2 by (induction rule: list_all2_induct) auto
  with dist have "distinct ?given" "set (map key old) \<inter> set ?given = {}" by auto
  moreover have "map key (fill_rows key set_key nil fresh old rs) =
      fill_keys nil fresh (map key old) (map key rs)"
    by (rule fill_rows_keys) (rule assms(2))
  ultimately show ?thesis
    using fill_keys_distinct [of fresh nil "map key rs" "map key old"] assms(1) dist
    by (simp del: set_map)
qed

section \<open>Redis\<close>

definition mem_write :: "((redis_db \<Rightarrow> redis_db) \<Rightarrow> 'v \<Rightarrow> 'v) \<Rightarrow> (redis_db \<Rightarrow> redis_db) \<Rightarrow> ('v world, redis_error + unit) state" where
  "mem_write rput f = State (\<lambda>w. (Inr (), w\<lparr>wv := rput f (wv w)\<rparr>))"

definition mem_read :: "('v world \<Rightarrow> 'a) \<Rightarrow> ('v world, redis_error + 'a) state" where
  "mem_read g = State (\<lambda>w. (Inr (g w), w))"

definition mem_redis :: "('v \<Rightarrow> redis_db) \<Rightarrow> ((redis_db \<Rightarrow> redis_db) \<Rightarrow> 'v \<Rightarrow> 'v) \<Rightarrow> 'v world redis" where
  "mem_redis rget rput =
     \<lparr>cmd_Set = (\<lambda>k x ttl. State (\<lambda>w. (Inr (), w\<lparr>wv := rput (do_Set k x (wclock w + ttl)) (wv w)\<rparr>))),
      cmd_SetNX = (\<lambda>k x ttl. State (\<lambda>w.
        if live (wclock w) (rd_strings (rget (wv w)) k) then (Inr False, w)
        else (Inr True, w\<lparr>wv := rput (do_Set k x (wclock w + ttl)) (wv w)\<rparr>))),
      cmd_Exists = (\<lambda>k. mem_read (\<lambda>w. if live (wclock w) (rd_strings (rget (wv w)) k) then 1 else 0)),
      cmd_Del = (\<lambda>k. mem_write rput (do_Del k)),
      cmd_HGetAll = (\<lambda>k. mem_read (\<lambda>w. rd_hashes (rget (wv w)) k)),
      cmd_HGet = (\<lambda>k f. State (\<lambda>w.
        (case map_of (rd_hashes (rget (wv w)) k) f of None \<Rightarrow> Inl RedisNil | Some x \<Rightarrow> Inr x, w))),
      cmd_HSet = (\<lambda>k fvs. mem_write rput (do_HSet k fvs)),
      cmd_SAdd = (\<lambda>k m. mem_write rput (do_SAdd k m)),
      cmd_SRem = (\<lambda>k m. mem_write rput (do_SRem k m)),
      cmd_SMembers = (\<lambda>k. mem_read (\<lambda>w. rd_sets (rget (wv w)) k)),
      cmd_ZAdd = (\<lambda>k m s. mem_write rput (do_ZAdd k m s)),
      cmd_ZRem = (\<lambda>k m. mem_write rput (do_ZRem k m)),
      cmd_ZRangeByScore = (\<lambda>k hi. mem_read (\<lambda>w.
        map fst (filter (\<lambda>(m, s). s \<le> hi) (rd_zsets (rget (wv w)) k)))),
      cmd_LLen = (\<lambda>k. mem_read (\<lambda>w. int (length (rd_lists (rget (wv w)) k)))),
      cmd_RPush = (\<lambda>k xs. mem_write rput (do_RPush k xs)),
      cmd_BLPop = (\<lambda>k. State (\<lambda>w. case rd_lists (rget (wv w)) k of
        [] \<Rightarrow> (Inl RedisNil, w)
      | x # _ \<Rightarrow> (Inr x, w\<lparr>wv := rput (do_LPop k) (wv w)\<rparr>))),
      cmd_XAdd = (\<lambda>k maxlen ent. mem_write rput (do_XAdd 0 k ent))\<rparr>"

lemmas mem_redis_defs = mem_redis_def mem_write_def mem_read_def

lemma mem_redis_up: "redis_server_up (mem_redis rget rput) wclock wv rget rput"
  by unfold_locales
    (auto simp: mem_redis_defs reads_def writes_def answers_def result_def after_def trims_def
      split: if_splits option.splits list.splits)

section \<open>The clock\<close>

definition mem_Now :: "('v world, time) state" where
  "mem_Now = State (\<lambda>w. (wclock w, w))"

interpretation mem_clock: clock_source mem_Now wclock wv
  by unfold_locales (simp_all add: mem_Now_def result_def after_def)

text \<open>The clock of the reference world stands still.\<close>

definition steady :: "('v world, 'a) state \<Rightarrow> bool" where
  "steady m \<longleftrightarrow> (\<forall>w. wclock (after m w) = wclock w)"

lemma steadyD: "steady m \<Longrightarrow> wclock (after m w) = wclock w"
  by (simp add: steady_def)

lemma steady_ret [simp]: "steady (ret a)"
  by (simp add: steady_def)

lemma steady_bind [intro!]: "steady m \<Longrightarrow> (\<And>x. steady (k x)) \<Longrightarrow> steady (m \<bind> k)"
  by (simp add: steady_def)

lemma steady_for_each [intro!]: "(\<And>x. steady (f x)) \<Longrightarrow> steady (for_each xs f)"
  by (induction xs) auto

lemma steady_table [simp]:
  "steady (tbl_First (mem_table get put uniq fill stamp) P)"
  "steady (tbl_Find (mem_table get put uniq fill stamp) P)"
  "steady (tbl_Page (mem_table get put uniq fill stamp) P le off lim)"
  "steady (tbl_Count (mem_table get put uniq fill stamp) P)"
  "steady (tbl_Create (mem_table get put uniq fill stamp) rs)"
  "steady (tbl_Updates (mem_table get put uniq fill stamp) P f)"
  "steady (tbl_Delete (mem_table get put uniq fill stamp) P)"
  by (simp_all add: steady_def mem_table_defs after_def Let_def)

lemma steady_redis [simp]:
  "steady (cmd_Set (mem_redis rget rput) k x ttl)" "steady (cmd_SetNX (mem_redis rget rput) k x ttl)"
  "steady (cmd_Exists (mem_redis rget rput) k)" "steady (cmd_Del (mem_redis rget rput) k)"
  "steady (cmd_HGetAll (mem_redis rget rput) k)" "steady (cmd_HGet (mem_redis rget rput) k f)"
  "steady (cmd_HSet (mem_redis rget rput) k fvs)" "steady (cmd_SAdd (mem_redis rget rput) k m)"
  "steady (cmd_SRem (mem_redis rget rput) k m)" "steady (cmd_SMembers (mem_redis rget rput) k)"
  "steady (cmd_ZAdd (mem_redis rget rput) k m s)" "steady (cmd_ZRem (mem_redis rget rput) k m)"
  "steady (cmd_ZRangeByScore (mem_redis rget rput) k hi)" "steady (cmd_LLen (mem_redis rget rput) k)"
  "steady (cmd_RPush (mem_redis rget rput) k xs)" "steady (cmd_BLPop (mem_redis rget rput) k)" "steady (cmd_XAdd (mem_redis rget rput) k maxlen ent)"
  by (simp_all add: steady_def mem_redis_defs after_def split: list.split)

lemma steady_Now [simp]: "steady mem_Now"
  by (simp add: steady_def mem_Now_def after_def)

end
