(* ===== verification/Management_Laws.thy ===== *)
theory Management_Laws
  imports Management_Workers Reference_World
begin

text \<open>
  What \<open>sms-management\<close> relies on, and the invariant of its database: the outbox tells the truth
  about the servers. \<open>management_step\<close> has one step for each transaction or statement of the
  service; the invariant is proved for the steps.
\<close>

section \<open>The database\<close>

record management_db =
  mdb_servers :: "Server list"
  mdb_outbox :: "OutboxEvent list"
  mdb_redis :: redis_db

definition servers_uniq :: "Server list \<Rightarrow> bool" where
  "servers_uniq ss \<longleftrightarrow> distinct (map srv_ServerID ss) \<and> distinct (map srv_ServerName ss) \<and> distinct (map srv_IPv4 ss)"

definition outbox_uniq :: "OutboxEvent list \<Rightarrow> bool" where
  "outbox_uniq es \<longleftrightarrow> distinct (map ev_ID es)"

text \<open>
  What an \<open>INSERT\<close> fills in. A payload is stored in a column of type \<open>jsonb\<close>, which keeps the
  members of an object but not their order or the white space.
\<close>

definition server_filled :: "Server \<Rightarrow> Server \<Rightarrow> bool" where
  "server_filled r r' \<longleftrightarrow>
     (\<exists>i c u. i \<noteq> [] \<and> (srv_ServerID r \<noteq> [] \<longrightarrow> i = srv_ServerID r) \<and>
        r' = r\<lparr>srv_ServerID := i, srv_CurrentStatus := (if srv_CurrentStatus r = [] then ''UNKNOWN'' else srv_CurrentStatus r),
          srv_HealthCheckMethod := (if srv_HealthCheckMethod r = [] then ''ICMP'' else srv_HealthCheckMethod r),
          srv_CreatedAt := c, srv_UpdatedAt := u\<rparr>)"

definition jsonb :: "string \<Rightarrow> string \<Rightarrow> bool" where
  "jsonb p p' \<longleftrightarrow> (\<forall>ms. parse_json p = Some (JObj ms) \<and> distinct (map fst ms) \<longrightarrow>
     (\<exists>ms'. parse_json p' = Some (JObj ms') \<and> mset ms' = mset ms))"

definition outbox_filled :: "OutboxEvent \<Rightarrow> OutboxEvent \<Rightarrow> bool" where
  "outbox_filled r r' \<longleftrightarrow>
     (\<exists>p c. jsonb (ev_Payload r) p \<and> (ev_CreatedAt r \<noteq> 0 \<longrightarrow> c = ev_CreatedAt r) \<and> r' = r\<lparr>ev_Payload := p, ev_CreatedAt := c\<rparr>)"

definition server_stamp :: "time \<Rightarrow> Server \<Rightarrow> Server" where "server_stamp u r = r\<lparr>srv_UpdatedAt := u\<rparr>"
definition outbox_stamp :: "time \<Rightarrow> OutboxEvent \<Rightarrow> OutboxEvent" where "outbox_stamp u r = r"

lemma jsonb_refl [simp]: "jsonb p p"
  by (auto simp: jsonb_def)

text \<open>
  A transaction runs its body on the database as it is; if it is not committed, nothing of it is
  left in the tables.
\<close>

locale management_services =
  clk: clock_source "mg_Now E" clock view +
  srv: sql_table "mg_servers E" clock view mdb_servers mdb_servers_update servers_uniq server_filled server_stamp +
  out: sql_table "mg_outbox E" clock view mdb_outbox mdb_outbox_update outbox_uniq outbox_filled outbox_stamp +
  rds: redis_server "mg_redis E" clock view mdb_redis mdb_redis_update
  for E :: "'w management_env" and clock :: "'w \<Rightarrow> time" and view :: "'w \<Rightarrow> management_db" +
  assumes uuid_view [simp]: "view (after (mg_uuid_New E) w) = view w"
    and encrypt_view [simp]: "view (after (mg_Encrypt E k) w) = view w"
    and tx_ok: "result (mg_tx E m) w = Inr xs \<Longrightarrow>
      \<exists>u. view u = view w \<and> result m u = Inr xs \<and> view (after (mg_tx E m) w) = view (after m u)"
    and tx_err: "result (mg_tx E m) w = Inl e \<Longrightarrow>
      \<exists>u. view u = view w \<and> view (after (mg_tx E m) w) = (view w)\<lparr>mdb_redis := mdb_redis (view (after m u))\<rparr>"

text \<open>The services answer; a transaction whose body succeeds is committed; the ids that \<open>uuid.New\<close> makes are new.\<close>

locale management_services_up = management_services +
  srv: sql_table_up "mg_servers E" clock view mdb_servers mdb_servers_update servers_uniq server_filled server_stamp +
  out: sql_table_up "mg_outbox E" clock view mdb_outbox mdb_outbox_update outbox_uniq outbox_filled outbox_stamp +
  rds: redis_server_up "mg_redis E" clock view mdb_redis mdb_redis_update +
  assumes tx_up: "(\<And>u. view u = view w \<Longrightarrow> \<exists>xs. result m u = Inr xs) \<Longrightarrow> \<exists>xs. result (mg_tx E m) w = Inr xs"
    and uuid_fresh: "result (mg_uuid_New E) w \<notin> ev_ID ` set (mdb_outbox (view w))"

section \<open>Steps and invariant\<close>

text \<open>The part of a server that the other services are told of, without its status.\<close>

definition same_config :: "Server \<Rightarrow> Server \<Rightarrow> bool" where
  "same_config s t \<longleftrightarrow> srv_ServerID s = srv_ServerID t \<and> srv_ServerName s = srv_ServerName t \<and> srv_IPv4 s = srv_IPv4 t \<and>
     srv_HealthCheckMethod s = srv_HealthCheckMethod t \<and> srv_SSHPort s = srv_SSHPort t \<and> srv_SSHUser s = srv_SSHUser t \<and>
     srv_SSHKey s = srv_SSHKey t \<and> srv_AgentEndpoint s = srv_AgentEndpoint t"

lemma same_config_refl [simp]: "same_config s s"
  by (simp add: same_config_def)

lemma same_config_trans: "same_config s t \<Longrightarrow> same_config t u \<Longrightarrow> same_config s u"
  by (simp add: same_config_def)

lemma same_config_stamp [simp]: "same_config s (server_stamp u t) \<longleftrightarrow> same_config s t"
  by (simp add: same_config_def server_stamp_def)

text \<open>An event that describes a server.\<close>

definition tells :: "OutboxEvent \<Rightarrow> Server \<Rightarrow> bool" where
  "tells e s \<longleftrightarrow> ev_AggregateID e = srv_ServerID s \<and> ev_EventType e \<noteq> EventServerDeleted \<and>
     (\<exists>s'. same_config s' s \<and> jsonb (server_json s') (ev_Payload e))"

definition trimmed :: "Server \<Rightarrow> bool" where
  "trimmed s \<longleftrightarrow> trim_server s = s"

inductive management_step :: "management_db \<Rightarrow> management_db \<Rightarrow> bool" where
  create:
    "servers_uniq (mdb_servers d @ ss) \<Longrightarrow> list_all2 tells es ss \<Longrightarrow> \<forall>s \<in> set ss. trimmed s \<Longrightarrow>
     management_step d (d\<lparr>mdb_servers := mdb_servers d @ ss, mdb_outbox := mdb_outbox d @ es\<rparr>)"
| update:
    "r \<in> set (mdb_servers d) \<Longrightarrow> srv_ServerID r = srv_ServerID new \<Longrightarrow> trimmed new \<Longrightarrow> tells e new \<Longrightarrow>
     servers_uniq (upd_rows (\<lambda>s. srv_ServerID s = srv_ServerID new) (\<lambda>s. server_stamp u (write_columns new s)) (mdb_servers d)) \<Longrightarrow>
     management_step d (d\<lparr>mdb_servers := upd_rows (\<lambda>s. srv_ServerID s = srv_ServerID new) (\<lambda>s. server_stamp u (write_columns new s)) (mdb_servers d),
       mdb_outbox := mdb_outbox d @ [e]\<rparr>)"
| delete:
    "ev_AggregateID e = i \<Longrightarrow> ev_EventType e = EventServerDeleted \<Longrightarrow>
     management_step d (d\<lparr>mdb_servers := filter (\<lambda>s. srv_ServerID s \<noteq> i) (mdb_servers d), mdb_outbox := mdb_outbox d @ [e]\<rparr>)"
| status:
    "r \<in> set (mdb_servers d) \<Longrightarrow> new = r\<lparr>srv_CurrentStatus := st\<rparr> \<Longrightarrow>
     management_step d (d\<lparr>mdb_servers := upd_rows (\<lambda>s. srv_ServerID s = srv_ServerID r)
       (\<lambda>s. server_stamp u (write_columns new s)) (mdb_servers d)\<rparr>)"
| mark:
    "management_step d (d\<lparr>mdb_outbox := upd_rows P (\<lambda>e. e\<lparr>ev_IsProcessed := True\<rparr>) (mdb_outbox d)\<rparr>)"
| redis:
    "management_step d (d\<lparr>mdb_redis := R\<rparr>)"

text \<open>The last event of a server.\<close>

definition last_event :: "string \<Rightarrow> OutboxEvent list \<Rightarrow> OutboxEvent option" where
  "last_event i es = List.find (\<lambda>e. ev_AggregateID e = i) (rev es)"

text \<open>
  The invariant: the keys are unique; the last event of every server describes it; and a server
  whose last event is not its deletion is there.
\<close>

definition outbox_truth :: "management_db \<Rightarrow> bool" where
  "outbox_truth d \<longleftrightarrow> servers_uniq (mdb_servers d) \<and> (\<forall>s \<in> set (mdb_servers d). trimmed s) \<and>
     (\<forall>s \<in> set (mdb_servers d). \<exists>e. last_event (srv_ServerID s) (mdb_outbox d) = Some e \<and> tells e s) \<and>
     (\<forall>i e. last_event i (mdb_outbox d) = Some e \<and> ev_EventType e \<noteq> EventServerDeleted \<longrightarrow> i \<in> srv_ServerID ` set (mdb_servers d))"

lemma last_event_app:
  "last_event i (es @ es') = (case last_event i es' of None \<Rightarrow> last_event i es | Some e \<Rightarrow> Some e)"
proof -
  have "List.find P (xs @ ys) = (case List.find P xs of None \<Rightarrow> List.find P ys | Some x \<Rightarrow> Some x)" for P and xs ys :: "OutboxEvent list"
    by (induction xs) auto
  then show ?thesis unfolding last_event_def rev_append by metis
qed

lemma last_event_one [simp]: "last_event i [e] = (if ev_AggregateID e = i then Some e else None)"
  by (simp add: last_event_def)

lemma last_event_None: "last_event i es = None \<longleftrightarrow> i \<notin> ev_AggregateID ` set es"
  by (auto simp: last_event_def find_None_iff)

lemma last_event_map:
  assumes "\<And>e. ev_AggregateID (f e) = ev_AggregateID e"
  shows "last_event i (map f es) = map_option f (last_event i es)"
proof -
  have "List.find (\<lambda>e. ev_AggregateID e = i) (map f xs) = map_option f (List.find (\<lambda>e. ev_AggregateID e = i) xs)" for xs
    by (induction xs) (auto simp: assms)
  then show ?thesis by (simp add: last_event_def rev_map)
qed

text \<open>The events of new servers.\<close>

lemma last_event_tells:
  assumes "list_all2 tells es ss" and "distinct (map srv_ServerID ss)"
  shows "\<forall>s \<in> set ss. \<exists>e. last_event (srv_ServerID s) es = Some e \<and> tells e s"
    and "last_event i es \<noteq> None \<longleftrightarrow> i \<in> srv_ServerID ` set ss"
proof -
  have ids: "map ev_AggregateID es = map srv_ServerID ss"
    using assms(1) by (induction rule: list_all2_induct) (auto simp: tells_def)
  then show "last_event i es \<noteq> None \<longleftrightarrow> i \<in> srv_ServerID ` set ss"
    by (metis last_event_None list.set_map)
  from assms show "\<forall>s \<in> set ss. \<exists>e. last_event (srv_ServerID s) es = Some e \<and> tells e s"
  proof (induction rule: list_all2_induct)
    case (Cons e es s ss)
    have ids: "map ev_AggregateID es = map srv_ServerID ss"
      using Cons.hyps(2) by (induction rule: list_all2_induct) (auto simp: tells_def)
    have "srv_ServerID s \<notin> ev_AggregateID ` set es" using Cons.prems ids by (metis distinct.simps(2) list.set_map list.simps(9))
    then have "last_event (srv_ServerID s) es = None" by (simp add: last_event_None)
    then have "last_event (srv_ServerID s) (e # es) = Some e"
      using last_event_app [of "srv_ServerID s" "[e]" es] Cons.hyps(1) by (simp add: tells_def)
    moreover have "\<exists>e'. last_event (srv_ServerID t) (e # es) = Some e' \<and> tells e' t" if "t \<in> set ss" for t
    proof -
      from that Cons obtain e' where "last_event (srv_ServerID t) es = Some e'" "tells e' t" by auto
      with last_event_app [of "srv_ServerID t" "[e]" es] show ?thesis by simp
    qed
    ultimately show ?case using Cons.hyps(1) by auto
  qed simp
qed

lemma tells_config: "tells e s \<Longrightarrow> same_config s t \<Longrightarrow> tells e t"
  by (auto simp: tells_def same_config_def)

lemma write_columns_config:
  "srv_ServerID s = srv_ServerID new \<Longrightarrow> same_config new (server_stamp u (write_columns new s))"
  by (simp add: same_config_def server_stamp_def write_columns_def)

lemma trimmed_config: "same_config s t \<Longrightarrow> trimmed s \<Longrightarrow> trimmed t"
  by (cases s; cases t) (simp add: same_config_def trimmed_def trim_server_def)

text \<open>A change of the events that keeps what they tell.\<close>

lemma outbox_truth_map:
  assumes f: "\<And>e. ev_AggregateID (f e) = ev_AggregateID e" "\<And>e. ev_EventType (f e) = ev_EventType e"
      "\<And>e s. tells (f e) s = tells e s"
    and d: "outbox_truth d"
  shows "outbox_truth (d\<lparr>mdb_outbox := map f (mdb_outbox d)\<rparr>)"
  using d unfolding outbox_truth_def by (auto simp: last_event_map f)

lemma management_step_truth:
  assumes "management_step d d'" and "outbox_truth d"
  shows "outbox_truth d'"
  using assms
proof (cases rule: management_step.cases)
  case (create ss es)
  have "distinct (map srv_ServerID ss)" using create(2) by (simp add: servers_uniq_def)
  note t = last_event_tells [OF create(3) this]
  have new: "srv_ServerID s \<notin> srv_ServerID ` set ss" if "s \<in> set (mdb_servers d)" for s
    using create(2) that by (auto simp: servers_uniq_def)
  have "last_event (srv_ServerID s) es = None" if "s \<in> set (mdb_servers d)" for s
    using t(2) new [OF that] by blast
  with assms(2) t create show ?thesis
    unfolding outbox_truth_def by (fastforce simp: last_event_app split: option.splits)
next
  case (update r new e u)
  let ?g = "\<lambda>s. server_stamp u (write_columns new s)"
  have rows: "set (upd_rows (\<lambda>s. srv_ServerID s = srv_ServerID new) ?g (mdb_servers d)) =
      ?g ` {s \<in> set (mdb_servers d). srv_ServerID s = srv_ServerID new} \<union> {s \<in> set (mdb_servers d). srv_ServerID s \<noteq> srv_ServerID new}"
    by (rule set_upd_rows)
  have c: "same_config new (?g s)" if "srv_ServerID s = srv_ServerID new" for s
    using that by (rule write_columns_config)
  have id: "srv_ServerID (?g s) = srv_ServerID s" for s by (simp add: server_stamp_def write_columns_def)
  have "map srv_ServerID (mdb_servers d') = map srv_ServerID (mdb_servers d)"
    unfolding update(1) by (simp add: map_upd_rows [where h = srv_ServerID] id)
  then have ids: "srv_ServerID ` set (mdb_servers d') = srv_ServerID ` set (mdb_servers d)"
    by (metis list.set_map)
  have e: "ev_AggregateID e = srv_ServerID new" using update(5) by (simp add: tells_def)
  have "trimmed s \<and> (\<exists>e'. last_event (srv_ServerID s) (mdb_outbox d') = Some e' \<and> tells e' s)" if "s \<in> set (mdb_servers d')" for s
  proof -
    from that rows update(1) consider s0 where "s = ?g s0" "srv_ServerID s0 = srv_ServerID new"
      | "s \<in> set (mdb_servers d)" "srv_ServerID s \<noteq> srv_ServerID new" by auto
    then show ?thesis
    proof cases
      case 1
      have "same_config new s" using c [OF 1(2)] 1(1) by simp
      with trimmed_config tells_config update(4,5) have "trimmed s \<and> tells e s" by blast
      with e 1 show ?thesis by (simp add: update(1) last_event_app id)
    next
      case 2
      with assms(2) e show ?thesis by (auto simp: outbox_truth_def update(1) last_event_app)
    qed
  qed
  moreover have "i \<in> srv_ServerID ` set (mdb_servers d')"
    if "last_event i (mdb_outbox d') = Some e'" "ev_EventType e' \<noteq> EventServerDeleted" for i e'
    using that assms(2) update(2,3) e unfolding ids
    by (auto simp: outbox_truth_def update(1) last_event_app split: if_splits)
  ultimately show ?thesis using update(6) by (auto simp: outbox_truth_def update(1))
next
  case (delete e i)
  have "servers_uniq (filter P ss)" if "servers_uniq ss" for P ss
    using that by (auto simp: servers_uniq_def distinct_map_filter)
  with assms(2) delete show ?thesis
    by (auto simp: outbox_truth_def last_event_app image_iff split: if_splits) metis
next
  case (status r new st u)
  let ?g = "\<lambda>s. server_stamp u (write_columns new s)"
  have r: "s = r" if "s \<in> set (mdb_servers d)" "srv_ServerID s = srv_ServerID r" for s
    using that status(2) assms(2) by (auto simp: outbox_truth_def servers_uniq_def distinct_map dest: inj_onD)
  have c: "same_config s (if srv_ServerID s = srv_ServerID r then ?g s else s)" if "s \<in> set (mdb_servers d)" for s
    using r [OF that] by (auto simp: status(3) same_config_def server_stamp_def write_columns_def)
  have m: "map h (mdb_servers d') = map h (mdb_servers d)" if "\<And>s t. same_config s t \<Longrightarrow> h s = h t" for h :: "Server \<Rightarrow> string"
  proof -
    have "h (if srv_ServerID s = srv_ServerID r then ?g s else s) = h s" if "s \<in> set (mdb_servers d)" for s
      using c [OF that] \<open>\<And>s t. same_config s t \<Longrightarrow> h s = h t\<close> by metis
    then show ?thesis by (simp add: status(1) upd_rows_def)
  qed
  have "servers_uniq (mdb_servers d')"
    using assms(2) m [of srv_ServerID] m [of srv_ServerName] m [of srv_IPv4]
    by (simp add: outbox_truth_def servers_uniq_def same_config_def)
  moreover have "trimmed t \<and> (\<exists>e. last_event (srv_ServerID t) (mdb_outbox d) = Some e \<and> tells e t)" if "t \<in> set (mdb_servers d')" for t
  proof -
    from that have "t \<in> (\<lambda>s. if srv_ServerID s = srv_ServerID r then ?g s else s) ` set (mdb_servers d)"
      by (simp add: status(1) upd_rows_def)
    then obtain s where s: "s \<in> set (mdb_servers d)" "same_config s t" using c by blast
    then obtain e where "trimmed s" "last_event (srv_ServerID s) (mdb_outbox d) = Some e" "tells e s"
      using assms(2) by (auto simp: outbox_truth_def)
    moreover have "srv_ServerID t = srv_ServerID s" using s(2) by (simp add: same_config_def)
    ultimately show ?thesis using trimmed_config tells_config s(2) by metis
  qed
  moreover have "srv_ServerID ` set (mdb_servers d') = srv_ServerID ` set (mdb_servers d)"
    using m [of srv_ServerID] by (metis list.set_map same_config_def)
  moreover have "mdb_outbox d' = mdb_outbox d" by (simp add: status(1))
  ultimately show ?thesis using assms(2) by (simp add: outbox_truth_def)
next
  case (mark P)
  show ?thesis
    unfolding mark upd_rows_def
    by (rule outbox_truth_map [OF _ _ _ assms(2)]) (simp_all add: tells_def)
next
  case (redis R)
  with assms(2) show ?thesis by (simp add: outbox_truth_def)
qed

lemma steps_truth: "management_step\<^sup>*\<^sup>* d d' \<Longrightarrow> outbox_truth d \<Longrightarrow> outbox_truth d'"
  by (induction rule: rtranclp_induct) (auto intro: management_step_truth)

end
