(* ===== verification/Management_Runs.thy ===== *)
theory Management_Runs
  imports Management_Laws
begin

text \<open>
  The operations of \<open>sms-management\<close> on the database: what each transaction and each statement
  makes of it, by the laws of the services.
\<close>

section \<open>Transactions\<close>

text \<open>A body of a transaction that leaves Redis alone, and what it has done if it succeeds.\<close>

definition body ::
  "('w \<Rightarrow> management_db) \<Rightarrow> ('w, 'e + 'a) state \<Rightarrow> (management_db \<Rightarrow> 'a \<Rightarrow> management_db \<Rightarrow> bool) \<Rightarrow> bool" where
  "body view m Q \<longleftrightarrow> (\<forall>u. mdb_redis (view (after m u)) = mdb_redis (view u) \<and>
     (\<forall>x. result m u = Inr x \<longrightarrow> Q (view u) x (view (after m u))))"

lemma body_and_then:
  assumes "body view m P" and "\<And>x. body view (k x) (R x)"
  shows "body view (and_then m k) (\<lambda>d y d'. \<exists>x d1. P d x d1 \<and> R x d1 y d')"
  using assms unfolding body_def by (auto split: sum.splits) blast+

lemma body_weaken: "body view m P \<Longrightarrow> (\<And>d x d'. P d x d' \<Longrightarrow> Q d x d') \<Longrightarrow> body view m Q"
  unfolding body_def by blast

lemma body_ret [simp]: "body view (ret (Inr x)) (\<lambda>d y d'. y = x \<and> d' = d)"
  by (simp add: body_def)

lemma body_bind:
  assumes "\<And>w. view (after m w) = view w" and "\<And>x. body view (k x) Q"
  shows "body view (m \<bind> k) Q"
  using assms unfolding body_def by (metis after_bind result_bind)

lemma body_case:
  assumes "body view m P" and "\<And>d x d' y. P d x d' \<Longrightarrow> g x = Inr y \<Longrightarrow> Q d y d'"
  shows "body view (do { r \<leftarrow> m; ret (case r of Inl e \<Rightarrow> Inl (f e) | Inr x \<Rightarrow> g x) }) Q"
  using assms unfolding body_def by (auto split: sum.splits) metis

lemma in_repo_body: "body view m Q \<Longrightarrow> body view (in_repo m) Q"
  unfolding in_repo_def by (rule body_case) auto

lemma wrapped_body: "body view m Q \<Longrightarrow> body view (wrapped msg m) Q"
  unfolding wrapped_def by (rule body_case) auto

lemma rows_affected: "int (length (filter (\<lambda>s. f s = i) rs)) \<noteq> 0 \<longleftrightarrow> i \<in> f ` set rs"
  by (auto simp: filter_empty_conv)

text \<open>An operation that does its work in a transaction, or changes nothing.\<close>

definition atomically :: "('w \<Rightarrow> 'v) \<Rightarrow> 'w \<Rightarrow> ('w, 'e + 'a) state \<Rightarrow> ('a \<Rightarrow> 'v \<Rightarrow> bool) \<Rightarrow> bool" where
  "atomically view w m Q \<longleftrightarrow>
     (case result m w of Inl e \<Rightarrow> view (after m w) = view w | Inr x \<Rightarrow> Q x (view (after m w)))"

lemma atomically_then:
  assumes "view (after m w) = view w" and "\<And>x. result m w = Inr x \<Longrightarrow> atomically view (after m w) (k x) Q"
  shows "atomically view w (and_then m k) Q"
proof (cases "result m w")
  case (Inr x)
  with assms(1) assms(2) [OF Inr] show ?thesis
    by (cases "result (k x) (after m w)") (simp_all add: atomically_def)
qed (simp add: atomically_def assms(1))

lemma atomically_cases:
  assumes "atomically view w m Q"
  obtains (failed) e where "result m w = Inl e" and "view (after m w) = view w"
  | (succeeded) x where "result m w = Inr x" and "Q x (view (after m w))"
  using assms by (auto simp: atomically_def split: sum.splits)

lemma servers_put: "mdb_servers_update f d = d\<lparr>mdb_servers := f (mdb_servers d)\<rparr>"
  by (cases d) simp

lemma outbox_put: "mdb_outbox_update f d = d\<lparr>mdb_outbox := f (mdb_outbox d)\<rparr>"
  by (cases d) simp

text \<open>An event of the outbox that carries a server.\<close>

definition new_event :: "EventType \<Rightarrow> Server \<Rightarrow> OutboxEvent \<Rightarrow> bool" where
  "new_event t s e \<longleftrightarrow> ev_AggregateType e = ''Server'' \<and> ev_AggregateID e = srv_ServerID s \<and> ev_EventType e = t \<and>
     \<not> ev_IsProcessed e \<and> jsonb (server_json s) (ev_Payload e)"

lemma new_event_tells: "new_event t s e \<Longrightarrow> t \<noteq> EventServerDeleted \<Longrightarrow> tells e s"
  unfolding new_event_def tells_def using same_config_refl by blast

text \<open>What a successful transaction of each kind has done.\<close>

definition did_create :: "management_db \<Rightarrow> Server list \<Rightarrow> management_db \<Rightarrow> bool" where
  "did_create d ss d' \<longleftrightarrow> servers_uniq (mdb_servers d @ ss) \<and> (\<exists>es. list_all2 (new_event EventServerCreated) ss es \<and>
     d' = d\<lparr>mdb_servers := mdb_servers d @ ss, mdb_outbox := mdb_outbox d @ es\<rparr>)"

definition updated :: "Server \<Rightarrow> management_db \<Rightarrow> management_db \<Rightarrow> bool" where
  "updated new d d' \<longleftrightarrow> srv_ServerID new \<in> srv_ServerID ` set (mdb_servers d) \<and>
     (\<exists>u. servers_uniq (upd_rows (\<lambda>s. srv_ServerID s = srv_ServerID new) (\<lambda>s. server_stamp u (write_columns new s)) (mdb_servers d)) \<and>
       d' = d\<lparr>mdb_servers := upd_rows (\<lambda>s. srv_ServerID s = srv_ServerID new) (\<lambda>s. server_stamp u (write_columns new s)) (mdb_servers d)\<rparr>)"

definition did_update :: "Server \<Rightarrow> management_db \<Rightarrow> Server \<Rightarrow> management_db \<Rightarrow> bool" where
  "did_update new d s d' \<longleftrightarrow> (\<exists>t e d1. s = (trim_server new)\<lparr>srv_UpdatedAt := t\<rparr> \<and> updated (trim_server new) d d1 \<and>
     new_event EventServerUpdated s e \<and> d' = d1\<lparr>mdb_outbox := mdb_outbox d1 @ [e]\<rparr>)"

definition did_delete :: "string \<Rightarrow> management_db \<Rightarrow> management_db \<Rightarrow> bool" where
  "did_delete i d d' \<longleftrightarrow> i \<in> srv_ServerID ` set (mdb_servers d) \<and>
     (\<exists>e. ev_AggregateID e = i \<and> ev_EventType e = EventServerDeleted \<and> \<not> ev_IsProcessed e \<and> jsonb (deleted_payload i) (ev_Payload e) \<and>
       d' = d\<lparr>mdb_servers := filter (\<lambda>s. srv_ServerID s \<noteq> i) (mdb_servers d), mdb_outbox := mdb_outbox d @ [e]\<rparr>)"

text \<open>A server with the values of an update. A new address or method makes the status unknown.\<close>

definition new_server :: "Server \<Rightarrow> ServerInput \<Rightarrow> string \<Rightarrow> Server" where
  "new_server old input key = (updated_server old input key)\<lparr>srv_IPv4 := in_IPv4 input,
     srv_CurrentStatus := (if srv_HealthCheckMethod old \<noteq> in_HealthCheckMethod input \<or> srv_IPv4 old \<noteq> in_IPv4 input
       then management_StatusUnknown else srv_CurrentStatus old)\<rparr>"

context management_services
begin

lemma tx_cases:
  assumes "body view m Q"
  obtains (committed) xs where "result (mg_tx E m) w = Inr xs" and "Q (view w) xs (view (after (mg_tx E m) w))"
  | (undone) e where "result (mg_tx E m) w = Inl e" and "view (after (mg_tx E m) w) = view w"
proof (cases "result (mg_tx E m) w")
  case (Inl e)
  from tx_err [OF this] obtain u where "view u = view w"
    "view (after (mg_tx E m) w) = (view w)\<lparr>mdb_redis := mdb_redis (view (after m u))\<rparr>" by blast
  with assms have "view (after (mg_tx E m) w) = view w" by (simp add: body_def)
  with Inl show thesis by (rule undone)
next
  case (Inr xs)
  from tx_ok [OF this] assms have "Q (view w) xs (view (after (mg_tx E m) w))" unfolding body_def by metis
  with Inr show thesis by (rule committed)
qed

lemma atomically_tx:
  assumes "body view m P" and "\<And>x d. P (view w) x d \<Longrightarrow> Q (f x) d"
  shows "atomically view w (and_then (mg_tx E m) (\<lambda>x. ret (Inr (f x)))) Q"
  using assms(2) by (cases rule: tx_cases [OF assms(1), of w]) (simp_all add: atomically_def)

lemma NewOutboxEvent_view [simp]: "view (after (NewOutboxEvent E a i t p) w) = view w"
  by (simp add: NewOutboxEvent_def clk.now_view)

lemma NewOutboxEvent_result:
  "\<exists>k c. result (NewOutboxEvent E a i t p) w = \<lparr>ev_ID = k, ev_AggregateType = a, ev_AggregateID = i, ev_EventType = t,
     ev_Payload = p, ev_IsProcessed = False, ev_CreatedAt = c\<rparr>"
  by (auto simp: NewOutboxEvent_def)

lemma servers_Create_body:
  "body view (tbl_Create (mg_servers E) rs) (\<lambda>d ss d'. list_all2 server_filled rs ss \<and> servers_uniq (mdb_servers d @ ss) \<and>
     d' = d\<lparr>mdb_servers := mdb_servers d @ ss\<rparr>)"
  unfolding body_def
proof (intro allI conjI impI)
  fix w
  show "mdb_redis (view (after (tbl_Create (mg_servers E) rs) w)) = mdb_redis (view w)"
    by (cases "result (tbl_Create (mg_servers E) rs) w") (auto dest: srv.Create_err srv.Create_ok)
next
  fix w ss
  assume "result (tbl_Create (mg_servers E) rs) w = Inr ss"
  from srv.Create_ok [OF this] show "list_all2 server_filled rs ss" "servers_uniq (mdb_servers (view w) @ ss)"
    "view (after (tbl_Create (mg_servers E) rs) w) = (view w)\<lparr>mdb_servers := mdb_servers (view w) @ ss\<rparr>"
    by (simp_all add: servers_put [of "\<lambda>old. old @ ss"])
qed

lemma outbox_Create_body:
  "body view (tbl_Create (mg_outbox E) rs) (\<lambda>d es d'. list_all2 outbox_filled rs es \<and> outbox_uniq (mdb_outbox d @ es) \<and>
     d' = d\<lparr>mdb_outbox := mdb_outbox d @ es\<rparr>)"
  unfolding body_def
proof (intro allI conjI impI)
  fix w
  show "mdb_redis (view (after (tbl_Create (mg_outbox E) rs) w)) = mdb_redis (view w)"
    by (cases "result (tbl_Create (mg_outbox E) rs) w") (auto dest: out.Create_err out.Create_ok)
next
  fix w es
  assume "result (tbl_Create (mg_outbox E) rs) w = Inr es"
  from out.Create_ok [OF this] show "list_all2 outbox_filled rs es" "outbox_uniq (mdb_outbox (view w) @ es)"
    "view (after (tbl_Create (mg_outbox E) rs) w) = (view w)\<lparr>mdb_outbox := mdb_outbox (view w) @ es\<rparr>"
    by (simp_all add: outbox_put [of "\<lambda>old. old @ es"])
qed

text \<open>The event that a transaction writes last.\<close>

lemma event_body:
  "body view (do { event \<leftarrow> NewOutboxEvent E ''Server'' i t p; and_then (in_repo (outbox_Create E event)) (\<lambda>_. ret (Inr x)) })
     (\<lambda>d y d'. y = x \<and> (\<exists>e. ev_AggregateType e = ''Server'' \<and> ev_AggregateID e = i \<and> ev_EventType e = t \<and> \<not> ev_IsProcessed e \<and>
        jsonb p (ev_Payload e) \<and> outbox_uniq (mdb_outbox d @ [e]) \<and> d' = d\<lparr>mdb_outbox := mdb_outbox d @ [e]\<rparr>))"
  (is "body view ?m ?Q")
  unfolding body_def
proof (intro allI)
  fix w
  let ?u = "after (NewOutboxEvent E ''Server'' i t p) w"
  obtain ev where ev: "result (NewOutboxEvent E ''Server'' i t p) w = ev" "ev_AggregateType ev = ''Server''" "ev_AggregateID ev = i"
      "ev_EventType ev = t" "ev_Payload ev = p" "\<not> ev_IsProcessed ev"
    using NewOutboxEvent_result [of "''Server''" i t p w] by auto
  note c = outbox_Create_body [of "[ev]", unfolded body_def, rule_format, of ?u]
  show "mdb_redis (view (after ?m w)) = mdb_redis (view w) \<and> (\<forall>y. result ?m w = Inr y \<longrightarrow> ?Q (view w) y (view (after ?m w)))"
  proof (cases "result (tbl_Create (mg_outbox E) [ev]) ?u")
    case (Inl e)
    with c show ?thesis by (simp add: ev(1) in_repo_def outbox_Create_def)
  next
    case (Inr es)
    with c obtain e where "es = [e]" "outbox_filled ev e" by (auto simp: list_all2_Cons1)
    then have e: "ev_AggregateType e = ''Server''" "ev_AggregateID e = i" "ev_EventType e = t" "\<not> ev_IsProcessed e" "jsonb p (ev_Payload e)"
      using ev by (auto simp: outbox_filled_def)
    have a: "result ?m w = Inr x" "view (after ?m w) = (view w)\<lparr>mdb_outbox := mdb_outbox (view w) @ [e]\<rparr>"
        "outbox_uniq (mdb_outbox (view w) @ [e])"
      using c Inr \<open>es = [e]\<close> by (simp_all add: ev(1) in_repo_def outbox_Create_def)
    show ?thesis unfolding a using e a(3) by auto
  qed
qed

lemma repo_Create_body:
  "body view (repo_Create E server) (\<lambda>d s d'. server_filled (trim_server server) s \<and> servers_uniq (mdb_servers d @ [s]) \<and>
     d' = d\<lparr>mdb_servers := mdb_servers d @ [s]\<rparr>)"
  unfolding repo_Create_def by (rule body_case [OF servers_Create_body]) (auto simp: list_all2_Cons1)

lemma repo_BatchCreate_body:
  "body view (repo_BatchCreate E servers) (\<lambda>d ss d'. list_all2 server_filled servers ss \<and>
     (servers \<noteq> [] \<longrightarrow> servers_uniq (mdb_servers d @ ss)) \<and> d' = d\<lparr>mdb_servers := mdb_servers d @ ss\<rparr>)"
proof (cases "servers = []")
  case True
  then show ?thesis by (simp add: repo_BatchCreate_def body_def)
next
  case False
  then show ?thesis unfolding repo_BatchCreate_def by (auto intro!: body_case [OF servers_Create_body])
qed

lemma repo_Update_body:
  "body view (repo_Update E new) (\<lambda>d s d'. (\<exists>t. s = (trim_server new)\<lparr>srv_UpdatedAt := t\<rparr>) \<and> updated (trim_server new) d d')"
proof -
  have "body view (tbl_Updates (mg_servers E) (\<lambda>s. srv_ServerID s = srv_ServerID new) (write_columns (trim_server new)))
    (\<lambda>d n d'. n \<noteq> 0 \<longrightarrow> updated (trim_server new) d d')"
    unfolding body_def
  proof (intro allI conjI impI)
    fix w
    let ?m = "tbl_Updates (mg_servers E) (\<lambda>s. srv_ServerID s = srv_ServerID new) (write_columns (trim_server new))"
    show "mdb_redis (view (after ?m w)) = mdb_redis (view w)"
      by (cases rule: srv.Updates_cases [of "\<lambda>s. srv_ServerID s = srv_ServerID new" "write_columns (trim_server new)" w]) simp_all
    fix n :: int
    assume n: "result ?m w = Inr n" "n \<noteq> 0"
    have i: "srv_ServerID (trim_server new) = srv_ServerID new" by (simp add: trim_server_def)
    from srv.Updates_ok [OF n(1)] n(2) show "updated (trim_server new) (view w) (view (after ?m w))"
      unfolding updated_def i servers_put [of "upd_rows P f" for P f] rows_affected [symmetric] by metis
  qed
  then show ?thesis
    unfolding repo_Update_def
    by (intro body_bind [where m = "mg_Now E"]) (auto simp: clk.now_view intro!: body_case split: if_splits)
qed

lemma repo_Delete_body:
  "body view (repo_Delete E i) (\<lambda>d _ d'. i \<in> srv_ServerID ` set (mdb_servers d) \<and>
     d' = d\<lparr>mdb_servers := filter (\<lambda>s. srv_ServerID s \<noteq> i) (mdb_servers d)\<rparr>)"
proof -
  have "body view (tbl_Delete (mg_servers E) (\<lambda>s. srv_ServerID s = i))
    (\<lambda>d n d'. n \<noteq> 0 \<longrightarrow> i \<in> srv_ServerID ` set (mdb_servers d) \<and> d' = d\<lparr>mdb_servers := filter (\<lambda>s. srv_ServerID s \<noteq> i) (mdb_servers d)\<rparr>)"
    unfolding body_def
  proof (intro allI conjI impI)
    fix w
    let ?m = "tbl_Delete (mg_servers E) (\<lambda>s. srv_ServerID s = i)"
    show "mdb_redis (view (after ?m w)) = mdb_redis (view w)"
      by (cases "result ?m w") (auto dest: srv.Delete_err srv.Delete_ok)
    fix n :: int
    assume n: "result ?m w = Inr n" "n \<noteq> 0"
    from srv.Delete_ok [OF n(1)] n(2) rows_affected [of srv_ServerID i "mdb_servers (view w)"]
    show "i \<in> srv_ServerID ` set (mdb_servers (view w))"
      "view (after ?m w) = (view w)\<lparr>mdb_servers := filter (\<lambda>s. srv_ServerID s \<noteq> i) (mdb_servers (view w))\<rparr>"
      by (simp_all add: servers_put [of "filter P" for P])
  qed
  then show ?thesis
    unfolding repo_Delete_def by (rule body_case) (auto split: if_splits)
qed

section \<open>Operations on one server\<close>

lemma write_with_event_body:
  assumes "body view write P"
  shows "body view (write_with_event E write t) (\<lambda>d ss d'. \<exists>s d1 e. ss = [s] \<and> P d s d1 \<and> new_event t s e \<and>
    d' = d1\<lparr>mdb_outbox := mdb_outbox d1 @ [e]\<rparr>)"
  unfolding write_with_event_def
  by (rule body_weaken [OF body_and_then [OF in_repo_body [OF assms] event_body]]) (auto simp: new_event_def)

lemma create_body:
  "body view (write_with_event E (repo_Create E server) EventServerCreated)
     (\<lambda>d ss d'. \<exists>s. ss = [s] \<and> server_filled (trim_server server) s \<and> did_create d ss d')"
  by (rule body_weaken [OF write_with_event_body [OF repo_Create_body]]) (fastforce simp: did_create_def)

lemma update_body:
  "body view (write_with_event E (repo_Update E server) EventServerUpdated)
     (\<lambda>d ss d'. \<exists>s. ss = [s] \<and> did_update server d s d')"
  by (rule body_weaken [OF write_with_event_body [OF repo_Update_body]]) (auto simp: did_update_def)

lemma delete_body:
  "body view (and_then (in_repo (repo_Delete E i)) (\<lambda>_. do {
      event \<leftarrow> NewOutboxEvent E ''Server'' i EventServerDeleted (deleted_payload i);
      and_then (in_repo (outbox_Create E event)) (\<lambda>_. ret (Inr []))
    })) (\<lambda>d _ d'. did_delete i d d')"
  by (rule body_weaken [OF body_and_then [OF in_repo_body [OF repo_Delete_body] event_body]])
    (auto simp: did_delete_def)

lemma repo_First_view [simp]: "view (after (repo_First E P) w) = view w"
  by (simp add: repo_First_def)

lemma GetBy_view [simp]:
  "view (after (GetByID E i) w) = view w" "view (after (GetByName E i) w) = view w" "view (after (GetByIPv4 E i) w) = view w"
  by (simp_all add: GetByID_def GetByName_def GetByIPv4_def)

lemma repo_First_found: "result (repo_First E P) w = Inr s \<Longrightarrow> s \<in> set (mdb_servers (view w)) \<and> P s"
  by (auto simp: repo_First_def split: sum.splits if_splits dest: srv.First_found)

lemma absent_view: "(\<And>w. view (after m w) = view w) \<Longrightarrow> view (after (absent m own d) w) = view w"
  by (simp add: absent_def)

lemma absent_name_view [simp]: "view (after (absent (GetByName E n) own d) w) = view w"
  by (rule absent_view) simp

lemma absent_ipv4_view [simp]: "view (after (absent (GetByIPv4 E n) own d) w) = view w"
  by (rule absent_view) simp

lemma lift_check_simps [simp]:
  "after (lift_check c) w = w" "result (lift_check c) w = (case c of None \<Rightarrow> Inr () | Some e \<Rightarrow> Inl e)"
  by (simp_all add: lift_check_def)

lemma encrypt_key_view [simp]: "view (after (encrypt_key E k) w) = view w"
  by (simp add: encrypt_key_def)

lemma find_server_view [simp]: "view (after (find_server E i) w) = view w"
  by (simp add: find_server_def)

lemma find_server_found: "result (find_server E i) w = Inr s \<Longrightarrow> s \<in> set (mdb_servers (view w)) \<and> srv_ServerID s = i"
  by (auto simp: find_server_def GetByID_def split: sum.splits if_splits dest: repo_First_found)

text \<open>A server is created with its event, or nothing is.\<close>

lemma if_view [simp]:
  "(\<And>w. view (after m w) = view w) \<Longrightarrow> view (after (if c then m else ret x) w) = view w"
  by simp

lemma CreateServer_atomic:
  "atomically view w (CreateServer E input) (\<lambda>s d. create_check E input = None \<and>
     (\<exists>key. server_filled (trim_server (created_server (clean_input input) key)) s) \<and> did_create (view w) [s] d)"
  unfolding CreateServer_def Let_def
  by (intro atomically_tx [OF create_body] atomically_then) (auto split: option.splits)

lemma default_input_key [simp]: "in_SSHKey (default_input old input) = in_SSHKey input"
  by (simp add: default_input_def)

lemma new_server_eq:
  assumes "m = (srv_HealthCheckMethod old \<noteq> in_HealthCheckMethod input)" and "a = (srv_IPv4 old \<noteq> in_IPv4 input)"
  shows "(if m \<or> a then (if a then (updated_server old input key)\<lparr>srv_IPv4 := in_IPv4 input\<rparr> else updated_server old input key)
        \<lparr>srv_CurrentStatus := management_StatusUnknown\<rparr>
      else (if a then (updated_server old input key)\<lparr>srv_IPv4 := in_IPv4 input\<rparr> else updated_server old input key)) =
    new_server old input key"
  using assms by (cases old) (auto simp: new_server_def updated_server_def)

lemma UpdateServer_atomic:
  "atomically view w (UpdateServer E i input) (\<lambda>s d. \<exists>old key. old \<in> set (mdb_servers (view w)) \<and> srv_ServerID old = i \<and>
     update_check E old (default_input old input) = None \<and> (in_SSHKey input = [] \<longrightarrow> key = srv_SSHKey old) \<and>
     did_update (new_server old (default_input old input) key) (view w) s d)"
  unfolding UpdateServer_def Let_def
proof (rule atomically_then, goal_cases)
  case (2 old)
  note old = find_server_found [OF 2]
  show ?case
    unfolding new_server_eq [OF refl refl]
    by (intro atomically_tx [OF update_body] atomically_then) (use old in \<open>auto split: option.splits if_splits\<close>)
qed simp

lemma DeleteServer_atomic:
  "atomically view w (DeleteServer E i) (\<lambda>_ d. did_delete i (view w) d)"
  unfolding DeleteServer_def
proof (rule atomically_then, goal_cases)
  case (2 old)
  show ?case
    by (cases rule: tx_cases [OF delete_body, of i "after (find_server E i) w"]) (auto simp: atomically_def)
qed simp

section \<open>The status consumer\<close>

lemma upd_rows_none: "i \<notin> f ` set rs \<Longrightarrow> upd_rows (\<lambda>r. f r = i) g rs = rs"
  by (auto simp: upd_rows_def intro!: map_idI)

lemma repo_Update_atomic:
  "atomically view w (repo_Update E new) (\<lambda>s d. updated (trim_server new) (view w) d)"
proof (cases "result (repo_Update E new) w")
  case (Inr s)
  with repo_Update_body [of new, unfolded body_def, rule_format, of w] show ?thesis by (simp add: atomically_def)
next
  case (Inl e)
  let ?P = "\<lambda>s. srv_ServerID s = srv_ServerID new" and ?f = "write_columns (trim_server new)" and ?w = "after (mg_Now E) w"
  have v: "view (after (repo_Update E new) w) = view (after (tbl_Updates (mg_servers E) ?P ?f) ?w)"
    by (simp add: repo_Update_def)
  have "view (after (tbl_Updates (mg_servers E) ?P ?f) ?w) = view ?w"
  proof (cases rule: srv.Updates_cases [of ?P ?f ?w])
    case (ok u)
    then have "srv_ServerID new \<notin> srv_ServerID ` set (mdb_servers (view ?w))"
      using Inl rows_affected [of srv_ServerID "srv_ServerID new" "mdb_servers (view ?w)"]
      by (auto simp: repo_Update_def split: if_splits)
    then have u: "upd_rows ?P g (mdb_servers (view ?w)) = mdb_servers (view ?w)" for g
      by (rule upd_rows_none)
    show ?thesis unfolding ok(2) servers_put [of "upd_rows ?P g" for g] u by simp
  qed
  with Inl v show ?thesis by (simp add: atomically_def clk.now_view)
qed

lemma status_processMessage_cases:
  obtains (same) "view (after (status_processMessage E msg) w) = view w"
  | (stored) r st where "r \<in> set (mdb_servers (view w))" and "result (status_processMessage E msg) w = Inr ()"
      and "updated (trim_server (r\<lparr>srv_CurrentStatus := st\<rparr>)) (view w) (view (after (status_processMessage E msg) w))"
proof (cases "view (after (status_processMessage E msg) w) = view w")
  case False
  then obtain i st r where r: "result (GetByID E i) w = Inr r" and
      m: "status_processMessage E msg = do {
        x \<leftarrow> GetByID E i;
        case x of Inl e \<Rightarrow> ret (Inr ()) | Inr server \<Rightarrow>
          if srv_CurrentStatus server = st then ret (Inr ())
          else do { u \<leftarrow> repo_Update E (server\<lparr>srv_CurrentStatus := st\<rparr>); ret (case u of Inl e \<Rightarrow> Inl ''update'' | Inr _ \<Rightarrow> Inr ()) } }"
    unfolding status_processMessage_def by (auto split: option.splits if_splits sum.splits)
  from r have r': "r \<in> set (mdb_servers (view w))" by (auto simp: GetByID_def dest: repo_First_found)
  from False m r have "srv_CurrentStatus r \<noteq> st" by auto
  from repo_Update_atomic [of "after (GetByID E i) w" "r\<lparr>srv_CurrentStatus := st\<rparr>"] show thesis
  proof (cases rule: atomically_cases)
    case (succeeded x)
    with m r \<open>srv_CurrentStatus r \<noteq> st\<close> show thesis by (intro stored [OF r']) simp_all
  next
    case (failed e)
    with m r False \<open>srv_CurrentStatus r \<noteq> st\<close> show thesis by simp
  qed
qed (rule same)

end

section \<open>Creation with services that answer\<close>

definition named :: "management_db \<Rightarrow> string \<Rightarrow> bool" where
  "named d n \<longleftrightarrow> (\<exists>s \<in> set (mdb_servers d). srv_ServerName s = TrimSpace n)"

definition addressed :: "management_db \<Rightarrow> string \<Rightarrow> bool" where
  "addressed d a \<longleftrightarrow> (\<exists>s \<in> set (mdb_servers d). srv_IPv4 s = TrimSpace a)"

context management_services_up
begin

lemma absent_up:
  "result (absent (repo_First E P) (\<lambda>_. False) dup) w = (if \<exists>s \<in> set (mdb_servers (view w)). P s then Inl dup else Inr ())"
  by (cases rule: srv.First_cases [of P w]) (auto simp: absent_def repo_First_def)

lemma absent_name_up: "result (absent (GetByName E n) (\<lambda>_. False) dup) w = (if named (view w) n then Inl dup else Inr ())"
  by (simp add: GetByName_def absent_up named_def)

lemma absent_ipv4_up: "result (absent (GetByIPv4 E a) (\<lambda>_. False) dup) w = (if addressed (view w) a then Inl dup else Inr ())"
  by (simp add: GetByIPv4_def absent_up addressed_def)

lemma create_tx_up:
  assumes "servers_uniq (mdb_servers (view w))" and "outbox_uniq (mdb_outbox (view w))" and "srv_ServerID server = []"
    and "\<not> named (view w) (srv_ServerName server)" and "\<not> addressed (view w) (srv_IPv4 server)"
  shows "\<exists>xs. result (mg_tx E (write_with_event E (repo_Create E server) t)) w = Inr xs"
proof (rule tx_up)
  fix u assume u: "view u = view w"
  define s where "s = (trim_server server)\<lparr>srv_ServerID := fresh_key (map srv_ServerID (mdb_servers (view w))),
    srv_CurrentStatus := (if srv_CurrentStatus server = [] then ''UNKNOWN'' else srv_CurrentStatus server),
    srv_HealthCheckMethod := (if srv_HealthCheckMethod server = [] then ''ICMP'' else srv_HealthCheckMethod server)\<rparr>"
  have "server_filled (trim_server server) s"
    unfolding server_filled_def s_def using assms(3)
    by (intro exI [of _ "fresh_key (map srv_ServerID (mdb_servers (view w)))"] exI [of _ "srv_CreatedAt server"] exI [of _ "srv_UpdatedAt server"])
      (simp add: trim_server_def fresh_key_def)
  moreover have "servers_uniq (mdb_servers (view u) @ [s])"
    using assms(1,4,5) fresh_key_notin [of "map srv_ServerID (mdb_servers (view w))"]
    by (auto simp: u servers_uniq_def s_def trim_server_def named_def addressed_def)
  ultimately obtain ss where ss: "result (tbl_Create (mg_servers E) [trim_server server]) u = Inr ss"
    using srv.Create_up [of "[trim_server server]" "[s]" u] by auto
  then obtain s' where s': "result (repo_Create E server) u = Inr s'" by (simp add: repo_Create_def)
  let ?u = "after (repo_Create E server) u"
  have o: "mdb_outbox (view ?u) = mdb_outbox (view w)"
    using repo_Create_body [of server, unfolded body_def, rule_format, of u] s' by (simp add: u)
  define ev where "ev = result (NewOutboxEvent E ''Server'' (srv_ServerID s') t (server_json s')) ?u"
  have "ev_ID ev = result (mg_uuid_New E) ?u" by (simp add: ev_def NewOutboxEvent_def)
  with assms(2) uuid_fresh [of ?u] have "outbox_uniq (mdb_outbox (view ?u) @ [ev])" by (simp add: outbox_uniq_def o)
  moreover have "outbox_filled ev ev"
    unfolding outbox_filled_def by (intro exI [of _ "ev_Payload ev"] exI [of _ "ev_CreatedAt ev"]) simp
  ultimately have "\<exists>es. result (tbl_Create (mg_outbox E) [ev]) (after (NewOutboxEvent E ''Server'' (srv_ServerID s') t (server_json s')) ?u) = Inr es"
    by (intro out.Create_up [of "[ev]" "[ev]"]) simp_all
  then show "\<exists>xs. result (write_with_event E (repo_Create E server) t) u = Inr xs"
    using s' by (auto simp: write_with_event_def in_repo_def outbox_Create_def ev_def [symmetric])
qed

text \<open>The outcome of \<open>CreateServer\<close>, by cases.\<close>

lemma CreateServer_up:
  assumes "servers_uniq (mdb_servers (view w))" and "outbox_uniq (mdb_outbox (view w))"
    and "\<And>u. \<exists>c. result (mg_Encrypt E (in_SSHKey (clean_input input))) u = Inr c"
  shows "if named (view w) (in_ServerName input) then result (CreateServer E input) w = Inl ErrNameExists
    else if addressed (view w) (in_IPv4 input) then result (CreateServer E input) w = Inl ErrIPv4Exists
    else case create_check E input of Some e \<Rightarrow> result (CreateServer E input) w = Inl e
    | None \<Rightarrow> \<exists>s. result (CreateServer E input) w = Inr s"
proof -
  let ?u1 = "after (absent (GetByName E (in_ServerName input)) (\<lambda>_. False) ErrNameExists) w"
  let ?u2 = "after (absent (GetByIPv4 E (in_IPv4 input)) (\<lambda>_. False) ErrIPv4Exists) ?u1"
  let ?u3 = "after (encrypt_key E (in_SSHKey (clean_input input))) ?u2"
  obtain c where c: "result (encrypt_key E (in_SSHKey (clean_input input))) ?u2 = Inr c"
    using assms(3) [of ?u2] by (auto simp: encrypt_key_def)
  have n: "srv_ServerName (created_server (clean_input input) c) = in_ServerName input"
    "srv_IPv4 (created_server (clean_input input) c) = in_IPv4 input" "srv_ServerID (created_server (clean_input input) c) = []"
    by (simp_all add: created_server_def clean_input_def Let_def)
  show ?thesis
    using create_tx_up [of ?u3 "created_server (clean_input input) c" EventServerCreated] assms(1,2)
    by (auto simp: CreateServer_def absent_name_up absent_ipv4_up Let_def c n split: option.split)
qed

end

end
