(* ===== verification/Management_Batches.thy ===== *)
theory Management_Batches
  imports Management_Runs
begin

text \<open>
  The outbox relay and the import on the database: what one turn of the relay publishes and marks,
  and how an import accounts for the rows of a sheet.
\<close>

section \<open>The stream\<close>

text \<open>Entries are appended in order; old ones may be dropped, down to the length the publisher gives.\<close>

definition do_XAdds :: "nat \<Rightarrow> string \<Rightarrow> fields list \<Rightarrow> redis_db \<Rightarrow> redis_db" where
  "do_XAdds n k es d = d\<lparr>rd_streams := (rd_streams d)(k := drop n (rd_streams d k @ es))\<rparr>"

definition trimmed_by :: "int \<Rightarrow> nat \<Rightarrow> nat \<Rightarrow> bool" where
  "trimmed_by maxlen len n \<longleftrightarrow> n = 0 \<or> n < len \<and> maxlen \<le> int (len - n)"

lemma do_XAdds_Cons:
  assumes "trims maxlen (length (rd_streams d k)) a" and "trimmed_by maxlen (length (rd_streams d k) + 1 - a + length es) b"
  shows "do_XAdds b k es (do_XAdd a k e d) = do_XAdds (a + b) k (e # es) d"
    and "trimmed_by maxlen (length (rd_streams d k) + length (e # es)) (a + b)"
proof -
  have a: "a \<le> length (rd_streams d k)" using assms(1) by (auto simp: trims_def)
  then have "drop b (drop a (rd_streams d k @ [e]) @ es) = drop (a + b) (rd_streams d k @ e # es)"
    by (simp add: add.commute)
  then show "do_XAdds b k es (do_XAdd a k e d) = do_XAdds (a + b) k (e # es) d"
    by (simp add: do_XAdds_def do_XAdd_def)
  show "trimmed_by maxlen (length (rd_streams d k) + length (e # es)) (a + b)"
    using a assms by (auto simp: trimmed_by_def trims_def)
qed

text \<open>A trimmed stream still ends with all of the new entries if they are no more than its length.\<close>

lemma do_XAdds_suffix:
  assumes "trimmed_by maxlen (length (rd_streams d k) + length es) n" and "int (length es) \<le> maxlen"
  obtains old where "rd_streams (do_XAdds n k es d) k = old @ es"
proof
  show "rd_streams (do_XAdds n k es d) k = drop n (rd_streams d k) @ es"
    using assms by (auto simp: do_XAdds_def trimmed_by_def)
qed

lemma redis_put: "mdb_redis_update f d = d\<lparr>mdb_redis := f (mdb_redis d)\<rparr>"
  by (cases d) simp

text \<open>The events that still have to be published.\<close>

definition unprocessed :: "management_db \<Rightarrow> OutboxEvent list" where
  "unprocessed d = filter (\<lambda>e. \<not> ev_IsProcessed e) (mdb_outbox d)"

definition marked :: "OutboxEvent list \<Rightarrow> management_db \<Rightarrow> management_db" where
  "marked b d = d\<lparr>mdb_outbox := upd_rows (\<lambda>e. ev_ID e \<in> set (map ev_ID b)) (\<lambda>e. e\<lparr>ev_IsProcessed := True\<rparr>) (mdb_outbox d)\<rparr>"

text \<open>The first events in the order of their times.\<close>

definition oldest :: "int \<Rightarrow> OutboxEvent list \<Rightarrow> OutboxEvent list \<Rightarrow> bool" where
  "oldest n es b \<longleftrightarrow> (\<exists>xs. mset xs = mset es \<and> sorted_wrt (\<lambda>x y. ev_CreatedAt x \<le> ev_CreatedAt y) xs \<and> b = page 0 n xs)"

lemma oldest_subset: "oldest n es b \<Longrightarrow> set b \<subseteq> set es"
  unfolding oldest_def page_def by (metis drop0 mset_eq_setD nat_0_iff order_refl set_take_subset)

lemma oldest_mset: "oldest n es b \<Longrightarrow> mset b \<subseteq># mset es"
  unfolding oldest_def page_def
  by (metis append_take_drop_id drop0 mset_append mset_subset_eq_add_left nat_0_iff order_refl subset_mset.order_refl)

lemma oldest_length: "oldest n es b \<Longrightarrow> 0 \<le> n \<Longrightarrow> length b = min (nat n) (length es)"
  unfolding oldest_def page_def using mset_eq_length by fastforce

lemma marked_outside [simp]: "mdb_servers (marked b d) = mdb_servers d" "mdb_redis (marked b d) = mdb_redis d"
  by (simp_all add: marked_def)

lemma marked_ids [simp]: "map ev_ID (mdb_outbox (marked b d)) = map ev_ID (mdb_outbox d)"
  by (simp add: marked_def map_upd_rows)

text \<open>Marking a batch takes just the batch out of the events to publish.\<close>

lemma filter_keys_mset:
  assumes "distinct (map f es)" and "mset b \<subseteq># mset es"
  shows "mset (filter (\<lambda>e. f e \<in> f ` set b) es) = mset b"
proof -
  have s: "set b \<subseteq> set es" using assms(2) by (metis set_mset_mono set_mset_mset)
  have "distinct es" "inj_on f (set es)" using assms(1) by (simp_all add: distinct_map)
  moreover have "distinct b"
    using \<open>distinct es\<close> assms(2) mset_subset_eq_count [OF assms(2)]
    by (metis distinct_count_atmost_1 count_eq_zero_iff le_antisym linorder_not_less less_one set_mset_mset subsetD s le_zero_eq not_in_iff nat_less_le)
  moreover have "{e \<in> set es. f e \<in> f ` set b} = set b" using s \<open>inj_on f (set es)\<close> by (auto dest: inj_onD)
  ultimately show ?thesis
    using set_eq_iff_mset_eq_distinct [of "filter (\<lambda>e. f e \<in> f ` set b) es" b] by simp
qed

lemma unprocessed_marked:
  assumes "outbox_uniq (mdb_outbox d)" and "mset b \<subseteq># mset (unprocessed d)"
  shows "mset (unprocessed (marked b d)) = mset (unprocessed d) - mset b"
proof -
  let ?P = "\<lambda>e. ev_ID e \<in> ev_ID ` set b"
  have "distinct (map ev_ID (unprocessed d))"
    using assms(1) by (simp add: outbox_uniq_def unprocessed_def distinct_map_filter)
  from filter_keys_mset [OF this assms(2)] have "mset (filter ?P (unprocessed d)) = mset b" .
  moreover have "mset (unprocessed d) = mset (filter ?P (unprocessed d)) + mset (filter (\<lambda>e. \<not> ?P e) (unprocessed d))"
    by (simp add: multiset_partition [symmetric])
  moreover have "unprocessed (marked b d) = filter (\<lambda>e. \<not> ?P e) (unprocessed d)"
  proof -
    have "filter (\<lambda>e. \<not> ev_IsProcessed e) (upd_rows ?P (\<lambda>e. e\<lparr>ev_IsProcessed := True\<rparr>) es) =
        filter (\<lambda>e. \<not> ?P e) (filter (\<lambda>e. \<not> ev_IsProcessed e) es)" for es
      by (induction es) (simp_all add: upd_rows_def)
    moreover have "mdb_outbox (marked b d) = upd_rows ?P (\<lambda>e. e\<lparr>ev_IsProcessed := True\<rparr>) (mdb_outbox d)"
      by (simp add: marked_def)
    ultimately show ?thesis unfolding unprocessed_def by metis
  qed
  ultimately show ?thesis by (metis add_diff_cancel_left')
qed

context management_services
begin

text \<open>A pipeline of \<open>XADD\<close> changes nothing but the keys of Redis; without an error it has appended every entry.\<close>

lemma pipeline_view:
  "\<exists>R. view (after (pipeline (map (\<lambda>e. cmd_XAdd (mg_redis E) k maxlen (g e)) es)) w) = (view w)\<lparr>mdb_redis := R\<rparr>"
proof (induction es arbitrary: w)
  case Nil
  show ?case by (rule exI [of _ "mdb_redis (view w)"]) simp
next
  case (Cons e es)
  let ?m = "cmd_XAdd (mg_redis E) k maxlen (g e)"
  have "view (after ?m w) = view w \<or> (\<exists>n. view (after ?m w) = mdb_redis_update (do_XAdd n k (g e)) (view w))"
    using rds.XAdd_ok [of k maxlen "g e" w] rds.XAdd_err [of k maxlen "g e" w] by (cases "result ?m w") blast+
  moreover have "view w = (view w)\<lparr>mdb_redis := mdb_redis (view w)\<rparr>" by simp
  ultimately have "\<exists>R. view (after ?m w) = (view w)\<lparr>mdb_redis := R\<rparr>" using redis_put by metis
  with Cons [of "after ?m w"] show ?case by (auto simp del: map_map)
qed

lemma pipeline_ok:
  assumes "result (pipeline (map (\<lambda>e. cmd_XAdd (mg_redis E) k maxlen (g e)) es)) w = Inr ()"
  shows "\<exists>n. trimmed_by maxlen (length (rd_streams (mdb_redis (view w)) k) + length es) n \<and>
    view (after (pipeline (map (\<lambda>e. cmd_XAdd (mg_redis E) k maxlen (g e)) es)) w) = mdb_redis_update (do_XAdds n k (map g es)) (view w)"
  using assms
proof (induction es arbitrary: w)
  case Nil
  have "view w = mdb_redis_update (do_XAdds 0 k []) (view w)" by (simp add: do_XAdds_def)
  then show ?case by (auto simp: trimmed_by_def)
next
  case (Cons e es)
  let ?m = "cmd_XAdd (mg_redis E) k maxlen (g e)" and ?d = "mdb_redis (view w)"
  from Cons.prems obtain u where u: "result ?m w = Inr u"
    "result (pipeline (map (\<lambda>e. cmd_XAdd (mg_redis E) k maxlen (g e)) es)) (after ?m w) = Inr ()"
    by (auto split: sum.splits)
  from rds.XAdd_ok [OF u(1)] obtain a where a: "trims maxlen (length (rd_streams ?d k)) a"
    "view (after ?m w) = mdb_redis_update (do_XAdd a k (g e)) (view w)" by auto
  have len: "length (rd_streams (mdb_redis (view (after ?m w))) k) = length (rd_streams ?d k) + 1 - a"
    by (simp add: a(2) do_XAdd_def)
  from Cons.IH [OF u(2)] obtain b where
    b: "trimmed_by maxlen (length (rd_streams ?d k) + 1 - a + length es) b"
    "view (after (pipeline (map (\<lambda>e. cmd_XAdd (mg_redis E) k maxlen (g e)) es)) (after ?m w)) =
       mdb_redis_update (do_XAdds b k (map g es)) (view (after ?m w))"
    unfolding len by blast
  from do_XAdds_Cons [OF a(1), of "map g es" b "g e"] b(1)
  have c: "do_XAdds b k (map g es) (do_XAdd a k (g e) ?d) = do_XAdds (a + b) k (g e # map g es) ?d"
    "trimmed_by maxlen (length (rd_streams ?d k) + length (e # es)) (a + b)" by simp_all
  have "mdb_redis_update (do_XAdds b k (map g es)) (mdb_redis_update (do_XAdd a k (g e)) (view w)) =
      mdb_redis_update (do_XAdds (a + b) k (map g (e # es))) (view w)"
    using c(1) by (cases "view w") simp
  with c(2) b(2) a(2) show ?case by (intro exI [of _ "a + b"]) simp
qed

text \<open>One turn of the relay.\<close>

lemma by_time: "ev_CreatedAt x \<le> ev_CreatedAt y \<or> ev_CreatedAt y \<le> ev_CreatedAt x" "transp (\<lambda>a b. ev_CreatedAt a \<le> ev_CreatedAt b)"
  by (auto simp: transp_def)

lemma GetUnprocessed_view [simp]: "view (after (GetUnprocessed E n) w) = view w"
  using reads_view [OF out.Page_reads [OF by_time]] by (simp add: GetUnprocessed_def)

lemma GetUnprocessed_oldest:
  assumes "result (GetUnprocessed E n) w = Inr es"
  shows "oldest n (unprocessed (view w)) es"
  using reads_result [OF out.Page_reads [OF by_time], of "\<lambda>e. \<not> ev_IsProcessed e" 0 n w] assms
  by (auto simp: GetUnprocessed_def oldest_def unprocessed_def split: sum.splits)

lemma MarkProcessed_view:
  "view (after (MarkProcessed E (map ev_ID b)) w) = view w \<or> view (after (MarkProcessed E (map ev_ID b)) w) = marked b (view w)"
proof (cases "b = []")
  case False
  let ?P = "\<lambda>e. ev_ID e \<in> set (map ev_ID b)" and ?f = "\<lambda>e. e\<lparr>ev_IsProcessed := True\<rparr>"
  show ?thesis
  proof (cases rule: out.Updates_cases [of ?P ?f w])
    case (ok u)
    then show ?thesis using False
      by (simp add: MarkProcessed_def marked_def outbox_put [of "upd_rows P g" for P g] outbox_stamp_def)
  next
    case (err e)
    with False show ?thesis by (simp add: MarkProcessed_def)
  qed
qed (simp add: MarkProcessed_def)

lemma relay_cases:
  obtains (none) R where "view (after (processOutboxEvents E) w) = (view w)\<lparr>mdb_redis := R\<rparr>"
  | (relayed) b n where "oldest (mg_batchSize E) (unprocessed (view w)) b"
      and "trimmed_by (mg_maxLen E) (length (rd_streams (mdb_redis (view w)) (mg_streamName E)) + length b) n"
      and "view (after (processOutboxEvents E) w) =
        marked b (mdb_redis_update (do_XAdds n (mg_streamName E) (map outbox_fields b)) (view w))"
proof -
  let ?v = "view (after (processOutboxEvents E) w)" and ?w = "after (GetUnprocessed E (mg_batchSize E)) w"
  have same: "\<exists>R. view w = (view w)\<lparr>mdb_redis := R\<rparr>" by (rule exI [of _ "mdb_redis (view w)"]) simp
  show thesis
  proof (cases "result (GetUnprocessed E (mg_batchSize E)) w")
    case (Inl e)
    then have "?v = view w" by (simp add: processOutboxEvents_def)
    with same none show thesis by auto
  next
    case (Inr b)
    let ?p = "pipeline (map (\<lambda>e. cmd_XAdd (mg_redis E) (mg_streamName E) (mg_maxLen E) (outbox_fields e)) b)"
    show thesis
    proof (cases "b = []")
      case True
      with Inr have "?v = view w" by (simp add: processOutboxEvents_def)
      with same none show thesis by auto
    next
      case False
      note run = processOutboxEvents_def PublishOutboxBatch_def Inr False
      from pipeline_view [of "mg_streamName E" "mg_maxLen E" outbox_fields b ?w] obtain R where
        R: "view (after ?p ?w) = (view w)\<lparr>mdb_redis := R\<rparr>" by auto
      show thesis
      proof (cases "result ?p ?w")
        case (Inl e)
        with R have "?v = (view w)\<lparr>mdb_redis := R\<rparr>" by (simp add: run)
        then show thesis by (rule none)
      next
        case ok: (Inr u)
        then have v: "?v = view (after (MarkProcessed E (map ev_ID b)) (after ?p ?w))" by (simp add: run)
        from pipeline_ok [of "mg_streamName E" "mg_maxLen E" outbox_fields b ?w] ok obtain n where
          n: "trimmed_by (mg_maxLen E) (length (rd_streams (mdb_redis (view w)) (mg_streamName E)) + length b) n"
          "view (after ?p ?w) = mdb_redis_update (do_XAdds n (mg_streamName E) (map outbox_fields b)) (view w)" by auto
        from MarkProcessed_view [of b "after ?p ?w"] show thesis
        proof
          assume "view (after (MarkProcessed E (map ev_ID b)) (after ?p ?w)) = view (after ?p ?w)"
          with v R show thesis by (intro none) simp
        next
          assume "view (after (MarkProcessed E (map ev_ID b)) (after ?p ?w)) = marked b (view (after ?p ?w))"
          with v n GetUnprocessed_oldest [OF Inr] show thesis by (intro relayed) simp_all
        qed
      qed
    qed
  qed
qed

end

section \<open>The relay with services that answer\<close>

context management_services_up
begin

lemma pipeline_up: "result (pipeline (map (\<lambda>e. cmd_XAdd (mg_redis E) k maxlen (g e)) es)) w = Inr ()"
proof (induction es arbitrary: w)
  case (Cons e es)
  have "result (cmd_XAdd (mg_redis E) k maxlen (g e)) w = Inr ()" by (rule rds.XAdd_up)
  with Cons show ?case by simp
qed simp

lemma relay_up:
  assumes "outbox_uniq (mdb_outbox (view w))"
  obtains b n where "oldest (mg_batchSize E) (unprocessed (view w)) b"
    and "trimmed_by (mg_maxLen E) (length (rd_streams (mdb_redis (view w)) (mg_streamName E)) + length b) n"
    and "view (after (processOutboxEvents E) w) =
      marked b (mdb_redis_update (do_XAdds n (mg_streamName E) (map outbox_fields b)) (view w))"
proof -
  let ?v = "view (after (processOutboxEvents E) w)" and ?w = "after (GetUnprocessed E (mg_batchSize E)) w"
  obtain b where b: "result (GetUnprocessed E (mg_batchSize E)) w = Inr b"
    using out.Page_up [of "\<lambda>e. \<not> ev_IsProcessed e" "\<lambda>a b. ev_CreatedAt a \<le> ev_CreatedAt b" 0 "mg_batchSize E"]
    by (auto simp: GetUnprocessed_def answers_def dest: spec [of _ w])
  let ?p = "pipeline (map (\<lambda>e. cmd_XAdd (mg_redis E) (mg_streamName E) (mg_maxLen E) (outbox_fields e)) b)"
  have p: "result ?p ?w = Inr ()" by (rule pipeline_up)
  from pipeline_ok [OF p] obtain n where
    n: "trimmed_by (mg_maxLen E) (length (rd_streams (mdb_redis (view w)) (mg_streamName E)) + length b) n"
    "view (after ?p ?w) = mdb_redis_update (do_XAdds n (mg_streamName E) (map outbox_fields b)) (view w)" by auto
  have "view (after (MarkProcessed E (map ev_ID b)) (after ?p ?w)) = marked b (view (after ?p ?w))" if "b \<noteq> []"
  proof -
    let ?P = "\<lambda>e. ev_ID e \<in> set (map ev_ID b)" and ?f = "\<lambda>e. e\<lparr>ev_IsProcessed := True\<rparr>"
    have "outbox_uniq (upd_rows ?P (\<lambda>r. outbox_stamp u (?f r)) (mdb_outbox (view (after ?p ?w))))" for u
      using assms by (simp add: n(2) outbox_uniq_def map_upd_rows outbox_stamp_def)
    then obtain u where "view (after (tbl_Updates (mg_outbox E) ?P ?f) (after ?p ?w)) =
        mdb_outbox_update (upd_rows ?P (\<lambda>r. outbox_stamp u (?f r))) (view (after ?p ?w))"
      using out.Updates_put by metis
    with that show ?thesis
      by (simp add: MarkProcessed_def marked_def outbox_put [of "upd_rows P g" for P g] outbox_stamp_def)
  qed
  moreover have "marked [] d = d" "mdb_redis_update (do_XAdds 0 k []) d = d" for d k
    by (simp_all add: marked_def do_XAdds_def upd_rows_def)
  ultimately have "?v = marked b (mdb_redis_update (do_XAdds n' (mg_streamName E) (map outbox_fields b)) (view w)) \<and>
      trimmed_by (mg_maxLen E) (length (rd_streams (mdb_redis (view w)) (mg_streamName E)) + length b) n'"
    if "n' = (if b = [] then 0 else n)" for n'
    using b p n that by (cases "b = []") (simp_all add: processOutboxEvents_def PublishOutboxBatch_def trimmed_by_def)
  with GetUnprocessed_oldest [OF b] show thesis using that by blast
qed

end

section \<open>The import\<close>

text \<open>The rows of a sheet that an import has to account for.\<close>

definition filled_row :: "nat \<Rightarrow> nat \<Rightarrow> string list \<Rightarrow> bool" where
  "filled_row nameIdx ipIdx cols \<longleftrightarrow> column cols nameIdx \<noteq> [] \<or> column cols ipIdx \<noteq> []"

text \<open>Of \<open>n\<close> rows, the servers \<open>added\<close> are reported as created and the others as failed.\<close>

definition accounts :: "nat \<Rightarrow> Server list \<Rightarrow> ImportResult \<Rightarrow> ImportResult \<Rightarrow> bool" where
  "accounts n added res res' \<longleftrightarrow>
     ir_SuccessCount res' = ir_SuccessCount res + int (length added) \<and>
     ir_SuccessfulServers res' = ir_SuccessfulServers res @ map srv_ServerName added \<and>
     length added \<le> n \<and>
     ir_FailCount res' = ir_FailCount res + int (n - length added) \<and>
     length (ir_FailedServers res') = length (ir_FailedServers res) + (n - length added)"

lemma accounts_0 [simp]: "accounts 0 [] res res"
  by (simp add: accounts_def)

lemma accounts_trans: "accounts n xs r0 r1 \<Longrightarrow> accounts m ys r1 r2 \<Longrightarrow> accounts (n + m) (xs @ ys) r0 r2"
  by (auto simp: accounts_def)

lemma accounts_names: "map srv_ServerName xs = map srv_ServerName ys \<Longrightarrow> accounts n xs r r' = accounts n ys r r'"
  by (frule map_eq_imp_length_eq) (simp add: accounts_def)

lemma split_batch_accounts:
  assumes "split_batch names ips batch res valid = (res', valid')"
  shows "\<exists>new. valid' = valid @ new \<and> set new \<subseteq> set batch \<and> accounts (length batch) new res res'"
  using assms
proof (induction names ips batch res valid rule: split_batch.induct)
  case (2 names ips s ss res valid)
  show ?case
  proof (cases "srv_ServerName s \<in> names \<or> srv_IPv4 s \<in> ips")
    case True
    with 2 obtain new where n: "valid' = valid @ new" "set new \<subseteq> set ss"
      "accounts (length ss) new (res\<lparr>ir_FailCount := ir_FailCount res + 1, ir_FailedServers := ir_FailedServers res @ [label (srv_ServerName s) (srv_IPv4 s)]\<rparr>) res'"
      by auto
    then have "accounts (length (s # ss)) new res res'" by (auto simp: accounts_def)
    with n show ?thesis by auto
  next
    case False
    with 2 obtain new where n: "valid' = valid @ [s] @ new" "set new \<subseteq> set ss"
      "accounts (length ss) new (res\<lparr>ir_SuccessCount := ir_SuccessCount res + 1, ir_SuccessfulServers := ir_SuccessfulServers res @ [srv_ServerName s]\<rparr>) res'"
      by auto
    then have "accounts (length (s # ss)) (s # new) res res'" by (auto simp: accounts_def)
    with n show ?thesis by auto
  qed
qed auto

lemma TrimSpace_column [simp]: "TrimSpace (column cols i) = column cols i"
  by (simp add: column_def)

lemma trimmed_imported [simp]: "trimmed (imported_server (column cols i) (column cols j))"
  by (simp add: trimmed_def trim_server_def imported_server_def)

text \<open>Successful transactions as steps.\<close>

lemma trim_server_trimmed [simp]: "trimmed (trim_server s)"
  by (simp add: trimmed_def trim_server_def)

lemma server_filled_trimmed: "server_filled r r' \<Longrightarrow> trimmed r \<Longrightarrow> trimmed r'"
  by (cases r) (auto simp: server_filled_def trimmed_def trim_server_def)

lemma server_filled_name: "server_filled r r' \<Longrightarrow> srv_ServerName r' = srv_ServerName r"
  by (auto simp: server_filled_def)

lemma list_all2_flip_tells: "list_all2 (new_event EventServerCreated) ss es \<Longrightarrow> list_all2 tells es ss"
  by (induction rule: list_all2_induct) (auto intro: new_event_tells)

lemma did_create_step:
  assumes "did_create d ss d'" and "\<And>s. s \<in> set ss \<Longrightarrow> trimmed s"
  shows "management_step d d'"
  using assms unfolding did_create_def
  by (elim conjE exE) (auto intro!: management_step.create list_all2_flip_tells)

lemma did_update_step:
  assumes "did_update new d s d'"
  shows "management_step d d'"
proof -
  from assms obtain t e d1 where s: "s = (trim_server new)\<lparr>srv_UpdatedAt := t\<rparr>" and u: "updated (trim_server new) d d1"
    and e: "new_event EventServerUpdated s e" and d': "d' = d1\<lparr>mdb_outbox := mdb_outbox d1 @ [e]\<rparr>"
    by (auto simp: did_update_def)
  have "tells e (trim_server new)"
    using new_event_tells [OF e] by (rule tells_config) (simp_all add: s same_config_def)
  moreover obtain r where "r \<in> set (mdb_servers d)" "srv_ServerID r = srv_ServerID (trim_server new)"
    using u by (auto simp: updated_def)
  moreover from u obtain v where
    "servers_uniq (upd_rows (\<lambda>s. srv_ServerID s = srv_ServerID (trim_server new)) (\<lambda>s. server_stamp v (write_columns (trim_server new) s)) (mdb_servers d))"
    "d1 = d\<lparr>mdb_servers := upd_rows (\<lambda>s. srv_ServerID s = srv_ServerID (trim_server new)) (\<lambda>s. server_stamp v (write_columns (trim_server new) s)) (mdb_servers d)\<rparr>"
    by (auto simp: updated_def)
  ultimately show ?thesis
    using management_step.update [of r d "trim_server new" e v] by (simp add: d')
qed

lemma did_delete_step: "did_delete i d d' \<Longrightarrow> management_step d d'"
  unfolding did_delete_def by (auto intro: management_step.delete)

lemma status_step:
  assumes "updated (trim_server (r\<lparr>srv_CurrentStatus := st\<rparr>)) d d'" and "r \<in> set (mdb_servers d)" and "trimmed r"
  shows "management_step d d'"
proof -
  have "trim_server (r\<lparr>srv_CurrentStatus := st\<rparr>) = r\<lparr>srv_CurrentStatus := st\<rparr>"
    using assms(3) by (cases r) (simp add: trimmed_def trim_server_def)
  with assms(1,2) show ?thesis by (auto simp: updated_def intro: management_step.status)
qed

lemma redis_mark_step: "management_step\<^sup>*\<^sup>* d (marked b (mdb_redis_update f d))"
proof -
  have "management_step d (mdb_redis_update f d)" by (subst redis_put) (rule management_step.redis)
  moreover have "management_step (mdb_redis_update f d) (marked b (mdb_redis_update f d))"
    unfolding marked_def by (rule management_step.mark)
  ultimately show ?thesis by auto
qed

context management_services
begin

lemma new_events_run:
  "view (after (new_events E ss) w) = view w \<and> list_all2 (\<lambda>s e. ev_AggregateType e = ''Server'' \<and> ev_AggregateID e = srv_ServerID s \<and>
     ev_EventType e = EventServerCreated \<and> \<not> ev_IsProcessed e \<and> ev_Payload e = server_json s) ss (result (new_events E ss) w)"
proof (induction ss arbitrary: w)
  case (Cons s ss)
  let ?m = "NewOutboxEvent E ''Server'' (srv_ServerID s) EventServerCreated (server_json s)"
  from Cons [of "after ?m w"] NewOutboxEvent_result [of "''Server''" "srv_ServerID s" EventServerCreated "server_json s" w]
  show ?case by auto
qed simp

lemma outbox_BatchCreate_body:
  "body view (outbox_BatchCreate E es) (\<lambda>d _ d'. \<exists>es'. list_all2 outbox_filled es es' \<and> d' = d\<lparr>mdb_outbox := mdb_outbox d @ es'\<rparr>)"
proof (cases "es = []")
  case True
  then show ?thesis by (auto simp: outbox_BatchCreate_def body_def)
next
  case False
  then show ?thesis
    unfolding outbox_BatchCreate_def by (auto intro!: body_case [OF outbox_Create_body])
qed

lemma batch_body:
  assumes "valid \<noteq> []"
  shows "body view (and_then (wrapped msg (repo_BatchCreate E valid)) (\<lambda>servers. do {
      events \<leftarrow> new_events E servers;
      and_then (wrapped msg' (outbox_BatchCreate E events)) (\<lambda>_. ret (Inr servers))
    })) (\<lambda>d ss d'. list_all2 server_filled valid ss \<and> did_create d ss d')"
proof -
  have e: "body view (do { events \<leftarrow> new_events E ss; and_then (wrapped msg' (outbox_BatchCreate E events)) (\<lambda>_. ret (Inr ss)) })
      (\<lambda>d ss' d'. ss' = ss \<and> (\<exists>es. list_all2 (new_event EventServerCreated) ss es \<and> d' = d\<lparr>mdb_outbox := mdb_outbox d @ es\<rparr>))"
    (is "body view ?m ?Q") for ss
    unfolding body_def
  proof (intro allI)
    fix w
    let ?es = "result (new_events E ss) w" and ?w = "after (new_events E ss) w"
    have f: "list_all2 (new_event EventServerCreated) ss es'" if "list_all2 outbox_filled ?es es'" for es'
      by (rule list_all2_trans [OF _ conjunct2 [OF new_events_run [of ss w]] that]) (auto simp: outbox_filled_def new_event_def)
    have "body view (and_then (wrapped msg' (outbox_BatchCreate E ?es)) (\<lambda>_. ret (Inr ss)))
        (\<lambda>d ss' d'. ss' = ss \<and> (\<exists>es'. list_all2 outbox_filled ?es es' \<and> d' = d\<lparr>mdb_outbox := mdb_outbox d @ es'\<rparr>))"
      by (rule body_weaken [OF body_and_then [OF wrapped_body [OF outbox_BatchCreate_body] body_ret]]) auto
    note r = this [unfolded body_def, rule_format, of ?w]
    have v: "view ?w = view w" by (rule conjunct1 [OF new_events_run])
    have "?Q (view w) x (view (after ?m w))" if "result ?m w = Inr x" for x
    proof -
      from that have "result (and_then (wrapped msg' (outbox_BatchCreate E ?es)) (\<lambda>_. ret (Inr ss))) ?w = Inr x" by simp
      from conjunct2 [OF r, rule_format, OF this] obtain es' where "x = ss" "list_all2 outbox_filled ?es es'"
        "view (after ?m w) = (view w)\<lparr>mdb_outbox := mdb_outbox (view w) @ es'\<rparr>" unfolding v after_bind by blast
      with f show ?thesis by blast
    qed
    moreover have "mdb_redis (view (after ?m w)) = mdb_redis (view w)"
      using conjunct1 [OF r] unfolding v after_bind .
    ultimately show "mdb_redis (view (after ?m w)) = mdb_redis (view w) \<and>
        (\<forall>x. result ?m w = Inr x \<longrightarrow> ?Q (view w) x (view (after ?m w)))" by blast
  qed
  show ?thesis
    by (rule body_weaken [OF body_and_then [OF wrapped_body [OF repo_BatchCreate_body] e]])
      (auto simp: did_create_def assms)
qed

end

text \<open>A batch, and the rows of a sheet.\<close>

definition import_done ::
  "management_db \<Rightarrow> nat \<Rightarrow> ImportResult \<Rightarrow> service_error + ImportResult \<Rightarrow> management_db \<Rightarrow> bool" where
  "import_done d n res out d' \<longleftrightarrow> management_step\<^sup>*\<^sup>* d d' \<and>
     (\<forall>res'. out = Inr res' \<longrightarrow> (\<exists>added. mdb_servers d' = mdb_servers d @ added \<and> accounts n added res res'))"

lemma import_done_trans:
  assumes "import_done d n r0 (Inr r1) d1" and "import_done d1 m r1 out d'"
  shows "import_done d (n + m) r0 out d'"
  unfolding import_done_def
proof (intro conjI allI impI)
  show "management_step\<^sup>*\<^sup>* d d'" using assms by (auto simp: import_done_def)
  fix res' assume "out = Inr res'"
  with assms obtain xs ys where "mdb_servers d1 = mdb_servers d @ xs" "accounts n xs r0 r1"
    "mdb_servers d' = mdb_servers d1 @ ys" "accounts m ys r1 res'" by (auto simp: import_done_def)
  then show "\<exists>added. mdb_servers d' = mdb_servers d @ added \<and> accounts (n + m) added r0 res'"
    by (auto intro: accounts_trans)
qed

context management_services
begin

lemma processBatch_done:
  assumes "\<And>s. s \<in> set batch \<Longrightarrow> trimmed s"
  shows "import_done (view w) (length batch) res (result (processBatch E batch res) w) (view (after (processBatch E batch res) w))"
proof (cases "batch = []")
  case True
  then show ?thesis by (simp add: processBatch_def import_done_def)
next
  case False
  let ?m = "wrapped ''failed to check existing servers: '' (FindByNamesOrIPv4s E (map srv_ServerName batch) (map srv_IPv4 batch))"
  have v: "view (after ?m w) = view w" by (simp add: wrapped_def FindByNamesOrIPv4s_def)
  show ?thesis
  proof (cases "result ?m w")
    case (Inl e)
    with False v show ?thesis by (simp add: processBatch_def import_done_def)
  next
    case (Inr existing)
    obtain res1 valid where sp: "split_batch (srv_ServerName ` set existing) (srv_IPv4 ` set existing) batch res [] = (res1, valid)"
      by fastforce
    from split_batch_accounts [OF this] have a: "set valid \<subseteq> set batch" "accounts (length batch) valid res res1" by auto
    show ?thesis
    proof (cases "valid = []")
      case True
      with False v Inr sp a(2) show ?thesis by (simp add: processBatch_def import_done_def)
    next
      case v0: False
      define M where "M = and_then (wrapped ''batch create failed: '' (repo_BatchCreate E valid)) (\<lambda>servers. do {
          events \<leftarrow> new_events E servers;
          and_then (wrapped ''failed to create outbox events: '' (outbox_BatchCreate E events)) (\<lambda>_. ret (Inr servers)) })"
      have b: "body view M (\<lambda>d ss d'. list_all2 server_filled valid ss \<and> did_create d ss d')"
        unfolding M_def by (rule batch_body [OF v0])
      have run: "result (processBatch E batch res) w = result (and_then (mg_tx E M) (\<lambda>_. ret (Inr res1))) (after ?m w)"
        "after (processBatch E batch res) w = after (and_then (mg_tx E M) (\<lambda>_. ret (Inr res1))) (after ?m w)"
        using False v0 Inr sp by (simp_all add: processBatch_def M_def)
      from b show ?thesis
      proof (cases rule: tx_cases [where w = "after ?m w"])
        case (committed ss)
        have "list_all2 (\<lambda>r s. srv_ServerName s = srv_ServerName r \<and> trimmed s) valid ss"
          using conjunct1 [OF committed(2)]
          by (rule list.rel_mono_strong) (use a(1) assms in \<open>auto simp: server_filled_name intro: server_filled_trimmed\<close>)
        then have n: "map srv_ServerName ss = map srv_ServerName valid" and t: "\<forall>s \<in> set ss. trimmed s"
          by (induction rule: list_all2_induct) auto
        let ?d = "view (after (mg_tx E M) (after ?m w))"
        have c: "did_create (view w) ss ?d" using committed(2) v by simp
        then have "management_step\<^sup>*\<^sup>* (view w) ?d" using did_create_step t by blast
        moreover have "mdb_servers ?d = mdb_servers (view w) @ ss" using c by (auto simp: did_create_def)
        moreover have "accounts (length batch) ss res res1" using a(2) accounts_names [OF n] by blast
        ultimately show ?thesis
          unfolding run import_done_def by (simp add: committed(1))
      next
        case (undone e)
        with v show ?thesis unfolding run by (simp add: import_done_def)
      qed
    qed
  qed
qed

lemma import_rows_done:
  assumes "\<And>s. s \<in> set batch \<Longrightarrow> trimmed s"
  shows "import_done (view w) (length batch + length (filter (filled_row i j) rows)) res
    (result (import_rows E i j rows batch res) w) (view (after (import_rows E i j rows batch res) w))"
  using assms
proof (induction rows arbitrary: batch res w)
  case Nil
  then show ?case using processBatch_done by simp
next
  case (Cons cols rows)
  let ?n = "column cols i" and ?a = "column cols j"
  let ?s = "imported_server ?n ?a"
  consider (empty) "?n = []" "?a = []"
    | (bad) "filled_row i j cols" "?n = [] \<or> ?a = [] \<or> 255 < length ?n \<or> \<not> is_ipv4 ?a"
    | (good) "filled_row i j cols" "\<not> (?n = [] \<or> ?a = [] \<or> 255 < length ?n \<or> \<not> is_ipv4 ?a)"
    by (auto simp: filled_row_def)
  then show ?case
  proof cases
    case empty
    with Cons show ?thesis by (simp add: filled_row_def)
  next
    case bad
    let ?res = "res\<lparr>ir_FailCount := ir_FailCount res + 1, ir_FailedServers := ir_FailedServers res @ [label ?n ?a @ '' - Invalid Format'']\<rparr>"
    have run: "import_rows E i j (cols # rows) batch res = import_rows E i j rows batch ?res"
      using bad by (auto simp: filled_row_def Let_def)
    have "import_done (view w) 1 res (Inr ?res) (view w)" by (simp add: import_done_def accounts_def)
    from import_done_trans [OF this Cons.IH [OF Cons.prems, where res = ?res]] bad(1)
    show ?thesis unfolding run by simp
  next
    case good
    have t: "trimmed s" if "s \<in> set (batch @ [?s])" for s using Cons.prems that by auto
    show ?thesis
    proof (cases "batchSize \<le> length (batch @ [?s])")
      case False
      then have run: "import_rows E i j (cols # rows) batch res = import_rows E i j rows (batch @ [?s]) res"
        using good by (simp add: filled_row_def Let_def)
      from Cons.IH [of "batch @ [?s]" w res] t good(1) show ?thesis unfolding run by simp
    next
      case True
      let ?m = "processBatch E (batch @ [?s]) res"
      have run: "import_rows E i j (cols # rows) batch res = and_then ?m (\<lambda>res. import_rows E i j rows [] res)"
        using good True by (simp add: filled_row_def Let_def)
      note b = processBatch_done [of "batch @ [?s]" w res, OF t]
      show ?thesis
      proof (cases "result ?m w")
        case (Inl e)
        with b show ?thesis unfolding run by (simp add: import_done_def)
      next
        case (Inr r1)
        from import_done_trans [OF b [unfolded Inr] Cons.IH [of "[]" "after ?m w" r1]] good(1) Inr
        show ?thesis unfolding run by simp
      qed
    qed
  qed
qed

text \<open>The sheet that an import reads, and its rows.\<close>

lemma ImportServers_done:
  assumes "result (ImportServers X E bytes) w = Inr res"
  obtains f header rows i j added where "length bytes \<le> maxFileSize" and "xl_OpenReader X bytes = Some f"
    and "xl_Rows X f (xl_GetSheetName X f) = Some (header # rows)"
    and "header_index [''server name'', ''server_name'', ''name''] header = Some i" and "header_index [''ipv4'', ''ip''] header = Some j"
    and "mdb_servers (view (after (ImportServers X E bytes) w)) = mdb_servers (view w) @ added"
    and "ir_SuccessCount res = int (length added)" and "ir_SuccessfulServers res = map srv_ServerName added"
    and "ir_SuccessCount res + ir_FailCount res = int (length (filter (filled_row i j) rows))"
    and "ir_FailCount res = int (length (ir_FailedServers res))"
proof -
  let ?r = "\<lparr>ir_SuccessCount = 0, ir_SuccessfulServers = [], ir_FailCount = 0, ir_FailedServers = []\<rparr>"
  from assms obtain f header rows i j where *: "length bytes \<le> maxFileSize" "xl_OpenReader X bytes = Some f"
      "xl_Rows X f (xl_GetSheetName X f) = Some (header # rows)"
      "header_index [''server name'', ''server_name'', ''name''] header = Some i" "header_index [''ipv4'', ''ip''] header = Some j"
    and run: "ImportServers X E bytes = import_rows E i j rows [] ?r"
    unfolding ImportServers_def Let_def by (auto split: if_splits option.splits list.splits)
  have "import_done (view w) (length (filter (filled_row i j) rows)) ?r (Inr res) (view (after (ImportServers X E bytes) w))"
    using import_rows_done [of "[]" w i j rows ?r] assms unfolding run by simp
  then obtain added where "mdb_servers (view (after (ImportServers X E bytes) w)) = mdb_servers (view w) @ added"
    "accounts (length (filter (filled_row i j) rows)) added ?r res" by (auto simp: import_done_def)
  with * show thesis by (auto simp: accounts_def intro!: that)
qed

lemma ImportServers_steps: "management_step\<^sup>*\<^sup>* (view w) (view (after (ImportServers X E bytes) w))"
  using import_rows_done [of "[]"] unfolding ImportServers_def Let_def
  by (auto simp: import_done_def split: option.splits list.splits)

end

section \<open>Requests\<close>

text \<open>What changes the database of the service: its requests, the messages of its consumer, the turns of its relay.\<close>

datatype 'book management_request =
    MCreate ServerInput | MUpdate string ServerInput | MDelete string | MSearch ServerListFilter
  | MImport "'book excelize" string | MExport "'book excelize" ServerListFilter
  | MStatus message | MRelay

definition no_result :: "('w, 'a) state \<Rightarrow> ('w, unit) state" where
  "no_result m = do { m; ret () }"

definition management_serve :: "'w management_env \<Rightarrow> 'book management_request \<Rightarrow> ('w, unit) state" where
  "management_serve E r =
     (case r of
        MCreate input \<Rightarrow> no_result (CreateServer E input)
      | MUpdate i input \<Rightarrow> no_result (UpdateServer E i input)
      | MDelete i \<Rightarrow> no_result (DeleteServer E i)
      | MSearch f \<Rightarrow> no_result (SearchServers E f)
      | MImport X bytes \<Rightarrow> no_result (ImportServers X E bytes)
      | MExport X f \<Rightarrow> no_result (ExportServers X E f)
      | MStatus msg \<Rightarrow> no_result (status_processMessage E msg)
      | MRelay \<Rightarrow> processOutboxEvents E)"

lemma after_no_result [simp]: "after (no_result m) w = after m w"
  by (simp add: no_result_def)

text \<open>\<open>ORDER BY\<close> denotes a total preorder of the rows, whatever the clause.\<close>

definition total_orders :: "'w management_env \<Rightarrow> bool" where
  "total_orders E \<longleftrightarrow> (\<forall>c. (\<forall>x y. mg_Order E c x y \<or> mg_Order E c y x) \<and> transp (mg_Order E c))"

context management_services
begin

lemma repo_Search_view: "total_orders E \<Longrightarrow> view (after (repo_Search E f) w) = view w"
  using reads_view [OF srv.Page_reads]
  by (auto simp: repo_Search_def total_orders_def split: sum.split)

lemma serve_steps:
  assumes "total_orders E" and "outbox_truth (view w)"
  shows "management_step\<^sup>*\<^sup>* (view w) (view (after (management_serve E r) w))"
proof (cases r)
  case (MCreate input)
  from CreateServer_atomic [of w input] have "management_step\<^sup>*\<^sup>* (view w) (view (after (CreateServer E input) w))"
  proof (cases rule: atomically_cases)
    case (succeeded s)
    then obtain key where "server_filled (trim_server (created_server (clean_input input) key)) s" by auto
    then have "trimmed s" using trim_server_trimmed by (rule server_filled_trimmed)
    with succeeded show ?thesis by (auto dest!: did_create_step)
  qed simp
  with MCreate show ?thesis by (simp add: management_serve_def)
next
  case (MUpdate i input)
  show ?thesis
    unfolding MUpdate management_serve_def
    by (cases rule: atomically_cases [OF UpdateServer_atomic [of w i input]]) (auto dest: did_update_step)
next
  case (MDelete i)
  show ?thesis
    unfolding MDelete management_serve_def
    by (cases rule: atomically_cases [OF DeleteServer_atomic [of w i]]) (auto dest: did_delete_step)
next
  case (MSearch f)
  with assms(1) show ?thesis
    by (simp add: management_serve_def SearchServers_def Let_def in_repo_def repo_Search_view)
next
  case (MImport X bytes)
  then show ?thesis by (simp add: management_serve_def ImportServers_steps)
next
  case (MExport X f)
  have "view (after (ExportServers X E f) w) = view w"
    using assms(1) by (auto simp: ExportServers_def wrapped_def repo_Search_view clk.now_view split: sum.splits)
  with MExport show ?thesis by (simp add: management_serve_def)
next
  case (MStatus msg)
  have "management_step\<^sup>*\<^sup>* (view w) (view (after (status_processMessage E msg) w))"
  proof (cases rule: status_processMessage_cases [of msg w])
    case (stored r st)
    have "trimmed r" using assms(2) stored(1) by (simp add: outbox_truth_def)
    with stored show ?thesis by (blast intro: status_step)
  qed simp
  with MStatus show ?thesis by (simp add: management_serve_def)
next
  case MRelay
  have "management_step\<^sup>*\<^sup>* (view w) (view (after (processOutboxEvents E) w))"
  proof (cases rule: relay_cases [of w])
    case (none R)
    then show ?thesis using management_step.redis by auto
  next
    case (relayed b n)
    then show ?thesis using redis_mark_step by simp
  qed
  with MRelay show ?thesis by (simp add: management_serve_def)
qed

lemma serve_all_truth:
  assumes "total_orders E" and "outbox_truth (view w)"
  shows "outbox_truth (view (after (for_each rs (management_serve E)) w))"
  by (rule for_each_inv [where P = "\<lambda>w. outbox_truth (view w)"]) (use assms steps_truth serve_steps in blast)+

end

end
