(* ===== verification/Monitoring.thy ===== *)
theory Monitoring
  imports Broker Crypto
begin

text \<open>
  The service \<open>sms-monitoring\<close>: the state machine of a server's status, kept in Redis; the queue
  of servers to check with its producer and its workers; the health checkers; the consumers of
  the events of \<open>sms-management\<close> and of the heartbeats of the agents; the sweeper that notices
  missing heartbeats.
\<close>

section \<open>Domain and keys\<close>

definition ServerStatusOnline :: string where "ServerStatusOnline = ''ONLINE''"
definition ServerStatusOffline :: string where "ServerStatusOffline = ''OFFLINE''"
definition ServerStatusUnknown :: string where "ServerStatusUnknown = ''UNKNOWN''"
definition HealthCheckMethodAgentPush :: string where "HealthCheckMethodAgentPush = ''AGENT_PUSH''"

lemmas status_defs = ServerStatusOnline_def ServerStatusOffline_def ServerStatusUnknown_def

record ServerState =
  st_Status :: string
  st_RetryCount :: int

definition ServerAllIDsKey :: string where "ServerAllIDsKey = ''server:all_ids''"
definition server_info_key :: "string \<Rightarrow> string" where "server_info_key i = ''server:info:'' @ i"
definition AgentHeartbeatZSetKey :: string where "AgentHeartbeatZSetKey = ''monitoring:agent:heartbeats''"
definition MonitoringQueueKey :: string where "MonitoringQueueKey = ''monitoring:queue''"

text \<open>Reading a key that is not in a Go map gives the empty string.\<close>

definition lookup :: "fields \<Rightarrow> string \<Rightarrow> string" where
  "lookup fvs f = (case map_of fvs f of None \<Rightarrow> [] | Some x \<Rightarrow> x)"

section \<open>The state store\<close>

datatype monitoring_error = ErrServerStateNotFound | ErrGetServerInfo redis_error | ErrUpdateStatus redis_error

definition GetServerState :: "'w redis \<Rightarrow> string \<Rightarrow> ('w, monitoring_error + ServerState) state" where
  "GetServerState R serverID = do {
     r \<leftarrow> cmd_HGetAll R (server_info_key serverID);
     case r of
       Inl e \<Rightarrow> ret (Inl (ErrGetServerInfo e))
     | Inr vals \<Rightarrow>
         if vals = [] then ret (Inl ErrServerStateNotFound)
         else ret (Inr \<lparr>st_Status = lookup vals ''status'', st_RetryCount = fst (Atoi (lookup vals ''retry_count''))\<rparr>)
   }"

definition SetServerState :: "'w redis \<Rightarrow> string \<Rightarrow> string \<Rightarrow> int \<Rightarrow> ('w, monitoring_error + unit) state" where
  "SetServerState R serverID status retryCount = do {
     r \<leftarrow> cmd_HSet R (server_info_key serverID) [(''status'', status), (''retry_count'', Itoa retryCount)];
     case r of Inl e \<Rightarrow> ret (Inl (ErrUpdateStatus e)) | Inr _ \<Rightarrow> ret (Inr ())
   }"

section \<open>Evaluation\<close>

text \<open>
  The environment of the service. \<open>LogObservation\<close> is the interface to the observation log in
  Elasticsearch; it does not block.
\<close>

record 'w monitoring_env =
  mon_redis :: "'w redis"
  mon_Now :: "('w, time) state"
  mon_LogObservation :: "string \<Rightarrow> bool \<Rightarrow> ('w, unit) state"
  mon_failureThreshold :: int
  mon_maxLen :: int

text \<open>The new status and retry count, and whether the status and the count have changed.\<close>

definition next_status :: "int \<Rightarrow> bool \<Rightarrow> string \<Rightarrow> int \<Rightarrow> string \<times> int \<times> bool \<times> bool" where
  "next_status threshold pingSuccess currentStatus retryCount =
     (if pingSuccess then
        if currentStatus = ServerStatusOffline \<or> currentStatus = ServerStatusUnknown
        then (ServerStatusOnline, 0, True, True)
        else if retryCount > 0 then (currentStatus, 0, False, True)
        else (currentStatus, retryCount, False, False)
      else
        if currentStatus = ServerStatusOnline \<or> currentStatus = ServerStatusUnknown then
          if retryCount + 1 \<ge> threshold \<or> currentStatus = ServerStatusUnknown
          then (ServerStatusOffline, threshold, True, True)
          else (currentStatus, retryCount + 1, False, True)
        else
          if retryCount < threshold then (currentStatus, retryCount + 1, False, True)
          else if retryCount > threshold then (currentStatus, threshold, False, True)
          else (currentStatus, retryCount, False, False))"

definition status_stream :: string where
  "status_stream = ''sms.events.server_status''"

definition status_payload :: "string \<Rightarrow> string \<Rightarrow> int \<Rightarrow> string" where
  "status_payload serverID status retryCount =
     Marshal (JObj [(''retry_count'', JInt retryCount), (''server_id'', JStr serverID), (''status'', JStr status)])"

definition status_event :: "string \<Rightarrow> string \<Rightarrow> int \<Rightarrow> fields" where
  "status_event serverID status retryCount =
     [(''server_id'', serverID), (''event_type'', ''ServerStatusChanged''),
      (''payload'', status_payload serverID status retryCount)]"

text \<open>The second half of \<open>Evaluate\<close>: the cache is written, then the event is published.\<close>

fun apply_transition ::
  "'w monitoring_env \<Rightarrow> string \<Rightarrow> string \<times> int \<times> bool \<times> bool \<Rightarrow> ('w, monitoring_error + unit) state" where
  "apply_transition E serverID (newStatus, retryCount, statusChanged, retryChanged) = do {
     r \<leftarrow> (if statusChanged \<or> retryChanged then SetServerState (mon_redis E) serverID newStatus retryCount
           else ret (Inr ()));
     case r of
       Inl e \<Rightarrow> ret (Inl e)
     | Inr _ \<Rightarrow>
         if statusChanged then do {
           monitoring_Publish (mon_redis E) (mon_maxLen E) status_stream (status_event serverID newStatus retryCount);
           ret (Inr ())
         } else ret (Inr ())
   }"

definition Evaluate ::
  "'w monitoring_env \<Rightarrow> string \<Rightarrow> string \<Rightarrow> bool \<Rightarrow> ('w, monitoring_error + unit) state" where
  "Evaluate E serverID ip pingSuccess = do {
     mon_LogObservation E serverID pingSuccess;
     r \<leftarrow> GetServerState (mon_redis E) serverID;
     case r of
       Inl e \<Rightarrow> ret (Inl e)
     | Inr st \<Rightarrow>
         let currentStatus = (if st_Status st = [] then ServerStatusUnknown else st_Status st) in
         apply_transition E serverID
           (next_status (mon_failureThreshold E) pingSuccess currentStatus (st_RetryCount st))
   }"

section \<open>Consumers and sweeper\<close>

definition monitoring_error_text :: "monitoring_error \<Rightarrow> string" where
  "monitoring_error_text e =
     (case e of
        ErrServerStateNotFound \<Rightarrow> ''server state not found''
      | ErrGetServerInfo x \<Rightarrow> ''failed to get server info from redis: '' @ redis_error_text x
      | ErrUpdateStatus x \<Rightarrow> ''failed to update redis status: '' @ redis_error_text x)"

text \<open>The IP address in the cache; the empty string if it cannot be read.\<close>

definition cached_ipv4 :: "'w redis \<Rightarrow> string \<Rightarrow> ('w, string) state" where
  "cached_ipv4 R serverID = do {
     r \<leftarrow> cmd_HGet R (server_info_key serverID) ''ipv4'';
     ret (case r of Inl e \<Rightarrow> [] | Inr x \<Rightarrow> x)
   }"

definition heartbeat_processMessage :: "'w monitoring_env \<Rightarrow> 'w message_handler" where
  "heartbeat_processMessage E msg =
     (let serverID = lookup (msg_Values msg) ''server_id'' in
      if serverID = [] then ret (Inr ())
      else do {
        ipv4 \<leftarrow> cached_ipv4 (mon_redis E) serverID;
        r \<leftarrow> Evaluate E serverID ipv4 True;
        ret (case r of Inl e \<Rightarrow> Inl (monitoring_error_text e) | Inr _ \<Rightarrow> Inr ())
      })"

definition sweep :: "'w monitoring_env \<Rightarrow> int \<Rightarrow> ('w, unit) state" where
  "sweep E timeoutSec = do {
     t \<leftarrow> mon_Now E;
     r \<leftarrow> cmd_ZRangeByScore (mon_redis E) AgentHeartbeatZSetKey (Unix t - timeoutSec);
     case r of
       Inl e \<Rightarrow> ret ()
     | Inr expiredServers \<Rightarrow> for_each expiredServers (\<lambda>serverID. do {
         ipv4 \<leftarrow> cached_ipv4 (mon_redis E) serverID;
         Evaluate E serverID ipv4 False;
         cmd_ZRem (mon_redis E) AgentHeartbeatZSetKey serverID;
         ret ()
       })
   }"

text \<open>The payload of an event of \<open>sms-management\<close>, as the consumer reads it.\<close>

record server_payload =
  pl_ID :: string
  pl_IPv4 :: string
  pl_CurrentStatus :: string
  pl_HealthCheckMethod :: string
  pl_SSHPort :: int
  pl_SSHUser :: string
  pl_SSHKey :: string
  pl_AgentEndpoint :: string

definition unmarshal_payload :: "string \<Rightarrow> server_payload option" where
  "unmarshal_payload s =
     (case json_members s of
        None \<Rightarrow> None
      | Some ms \<Rightarrow>
          (case (get_string ms ''server_id'', get_string ms ''ipv4'', get_string ms ''current_status'',
                 get_string ms ''health_check_method'', get_int ms ''ssh_port'', get_string ms ''ssh_user'',
                 get_string ms ''ssh_key'', get_string ms ''agent_endpoint'') of
             (Some i, Some ip, Some st, Some hm, Some p, Some u, Some k, Some ep) \<Rightarrow>
               Some \<lparr>pl_ID = i, pl_IPv4 = ip, pl_CurrentStatus = st, pl_HealthCheckMethod = hm, pl_SSHPort = p,
                 pl_SSHUser = u, pl_SSHKey = k, pl_AgentEndpoint = ep\<rparr>
           | _ \<Rightarrow> None))"

text \<open>Commands whose error is not looked at.\<close>

definition attempt :: "('w, 'e + 'a) state \<Rightarrow> ('w, unit) state" where
  "attempt m = do { m; ret () }"

definition sync_server :: "'w monitoring_env \<Rightarrow> server_payload \<Rightarrow> ('w, unit) state" where
  "sync_server E p =
     (let R = mon_redis E; serverID = pl_ID p; key = server_info_key serverID;
          status = (if pl_CurrentStatus p = [] then ''UNKNOWN'' else pl_CurrentStatus p);
          set = (\<lambda>f x. attempt (cmd_HSet R key [(f, x)]))
      in do {
        attempt (cmd_SAdd R ServerAllIDsKey serverID);
        (if pl_IPv4 p \<noteq> [] then set ''ipv4'' (pl_IPv4 p) else ret ());
        set ''status'' status;
        (if pl_HealthCheckMethod p \<noteq> [] then do {
           set ''health_check_method'' (pl_HealthCheckMethod p);
           if pl_HealthCheckMethod p = ''AGENT_PUSH'' then do {
             t \<leftarrow> mon_Now E;
             attempt (cmd_ZAdd R AgentHeartbeatZSetKey serverID (Unix t))
           } else ret ()
         } else set ''health_check_method'' ''ICMP'');
        set ''ssh_port'' (Itoa (pl_SSHPort p));
        set ''ssh_user'' (pl_SSHUser p);
        set ''ssh_key'' (pl_SSHKey p);
        set ''agent_endpoint'' (pl_AgentEndpoint p)
      })"

definition drop_server :: "'w monitoring_env \<Rightarrow> string \<Rightarrow> ('w, unit) state" where
  "drop_server E serverID = do {
     attempt (cmd_SRem (mon_redis E) ServerAllIDsKey serverID);
     attempt (cmd_Del (mon_redis E) (server_info_key serverID))
   }"

definition stream_processMessage :: "'w monitoring_env \<Rightarrow> 'w message_handler" where
  "stream_processMessage E msg =
     (case (map_of (msg_Values msg) ''event_type'', map_of (msg_Values msg) ''payload'') of
        (Some eventType, Some payloadStr) \<Rightarrow>
          (case unmarshal_payload payloadStr of
             None \<Rightarrow> ret (Inl ''json'')
           | Some p \<Rightarrow>
               if eventType = ''ServerCreated'' \<or> eventType = ''ServerUpdated'' then do { sync_server E p; ret (Inr ()) }
               else if eventType = ''ServerDeleted'' then do { drop_server E (pl_ID p); ret (Inr ()) }
               else ret (Inr ()))
      | _ \<Rightarrow> ret (Inr ()))"

section \<open>Health checkers\<close>

text \<open>
  The network: probing by ICMP with \<open>pro-bing\<close>, one packet, whose run gives the number of packets
  received; SSH sessions; HTTP requests. The deadline of a context is one of the errors.
\<close>

record 'w network =
  net_NewPinger :: "string \<Rightarrow> ('w, string + unit) state"
  net_PingerRun :: "string \<Rightarrow> bool \<Rightarrow> duration \<Rightarrow> ('w, string + int) state"
  net_SSHDial :: "string \<Rightarrow> string \<Rightarrow> string \<Rightarrow> duration \<Rightarrow> ('w, string + unit) state"
  net_NewSession :: "('w, string + unit) state"
  net_SessionRun :: "string \<Rightarrow> ('w, string + unit) state"
  net_NewRequest :: "string \<Rightarrow> ('w, string + unit) state"
  net_Do :: "string \<Rightarrow> duration \<Rightarrow> ('w, string + int) state"

definition ICMP_Check :: "'w network \<Rightarrow> bool \<Rightarrow> duration \<Rightarrow> fields \<Rightarrow> ('w, bool) state" where
  "ICMP_Check N privileged tmo config =
     (let ip = lookup config ''ipv4'' in
      if ip = [] then ret False
      else do {
        p \<leftarrow> net_NewPinger N ip;
        case p of
          Inl e \<Rightarrow> ret False
        | Inr _ \<Rightarrow> do {
            r \<leftarrow> net_PingerRun N ip privileged tmo;
            ret (case r of Inl e \<Rightarrow> False | Inr packetsRecv \<Rightarrow> packetsRecv > 0)
          }
      })"

definition Ping :: "'w network \<Rightarrow> bool \<Rightarrow> string \<Rightarrow> duration \<Rightarrow> ('w, bool) state" where
  "Ping N privileged ip tmo = do {
     p \<leftarrow> net_NewPinger N ip;
     case p of
       Inl e \<Rightarrow> ret False
     | Inr _ \<Rightarrow> do {
         r \<leftarrow> net_PingerRun N ip privileged tmo;
         ret (case r of Inl e \<Rightarrow> False | Inr packetsRecv \<Rightarrow> packetsRecv > 0)
       }
   }"

definition SSH_Check :: "'w network \<Rightarrow> (string \<Rightarrow> crypto_error + string) \<Rightarrow> duration \<Rightarrow> fields \<Rightarrow> ('w, bool) state" where
  "SSH_Check N Decrypt tmo config =
     (let ip = lookup config ''ipv4''; port = lookup config ''ssh_port''; user = lookup config ''ssh_user'';
          key = lookup config ''ssh_key''
      in case (if key = [] then Inr [] else Decrypt key) of
           Inl e \<Rightarrow> ret False
         | Inr key \<Rightarrow>
             if ip = [] \<or> port = [] \<or> user = [] then ret False
             else do {
               c \<leftarrow> net_SSHDial N (ip @ '':'' @ port) user key tmo;
               case c of
                 Inl e \<Rightarrow> ret False
               | Inr _ \<Rightarrow> do {
                   s \<leftarrow> net_NewSession N;
                   case s of
                     Inl e \<Rightarrow> ret False
                   | Inr _ \<Rightarrow> do {
                       r \<leftarrow> net_SessionRun N ''echo 1'';
                       ret (case r of Inl e \<Rightarrow> False | Inr _ \<Rightarrow> True)
                     }
                 }
             })"

definition AgentPull_Check :: "'w network \<Rightarrow> duration \<Rightarrow> fields \<Rightarrow> ('w, bool) state" where
  "AgentPull_Check N tmo config =
     (let endpoint = lookup config ''agent_endpoint'' in
      if endpoint = [] then ret False
      else do {
        q \<leftarrow> net_NewRequest N endpoint;
        case q of
          Inl e \<Rightarrow> ret False
        | Inr _ \<Rightarrow> do {
            r \<leftarrow> net_Do N endpoint tmo;
            ret (case r of Inl e \<Rightarrow> False | Inr statusCode \<Rightarrow> statusCode = 200)
          }
      })"

record 'w checkerFactory =
  fac_icmp :: "fields \<Rightarrow> ('w, bool) state"
  fac_ssh :: "fields \<Rightarrow> ('w, bool) state"
  fac_agentPull :: "fields \<Rightarrow> ('w, bool) state"

definition NewHealthCheckerFactory ::
  "'w network \<Rightarrow> (string \<Rightarrow> crypto_error + string) \<Rightarrow> bool \<Rightarrow> duration \<Rightarrow> duration \<Rightarrow> duration \<Rightarrow> 'w checkerFactory" where
  "NewHealthCheckerFactory N Decrypt privileged icmp ssh agentPull =
     \<lparr>fac_icmp = ICMP_Check N privileged icmp, fac_ssh = SSH_Check N Decrypt ssh, fac_agentPull = AgentPull_Check N agentPull\<rparr>"

definition GetChecker :: "'w checkerFactory \<Rightarrow> string \<Rightarrow> fields \<Rightarrow> ('w, bool) state" where
  "GetChecker F method =
     (if method = ''SSH'' then fac_ssh F else if method = ''AGENT_PULL'' then fac_agentPull F else fac_icmp F)"

section \<open>Workers and producer\<close>

definition processServer :: "'w monitoring_env \<Rightarrow> 'w checkerFactory \<Rightarrow> string \<Rightarrow> ('w, unit) state" where
  "processServer E F serverID = do {
     r \<leftarrow> cmd_HGetAll (mon_redis E) (server_info_key serverID);
     case r of
       Inl e \<Rightarrow> ret ()
     | Inr configMap \<Rightarrow>
         if configMap = [] then ret ()
         else do {
           success \<leftarrow> GetChecker F (lookup configMap ''health_check_method'') (AList.update ''server_id'' serverID configMap);
           Evaluate E serverID (lookup configMap ''ipv4'') success;
           ret ()
         }
   }"

text \<open>
  One turn of a worker: it waits up to two seconds for a server id. The workers of a pool share
  nothing but Redis; a run of the pool is a sequence of turns, \<open>schedule\<close> says whose.
\<close>

definition worker_turn :: "'w monitoring_env \<Rightarrow> 'w checkerFactory \<Rightarrow> ('w, unit) state" where
  "worker_turn E F = do {
     r \<leftarrow> cmd_BLPop (mon_redis E) MonitoringQueueKey;
     case r of Inl e \<Rightarrow> ret () | Inr serverID \<Rightarrow> processServer E F serverID
   }"

definition pool_Run :: "'w monitoring_env \<Rightarrow> 'w checkerFactory \<Rightarrow> int \<Rightarrow> nat list \<Rightarrow> ('w, unit) state" where
  "pool_Run E F concurrency schedule =
     for_each (filter (\<lambda>workerID. int workerID < concurrency) schedule) (\<lambda>_. worker_turn E F)"

definition AcquireLock :: "'w redis \<Rightarrow> string \<Rightarrow> duration \<Rightarrow> ('w, redis_error + bool) state" where
  "AcquireLock R key expiration = cmd_SetNX R key ''locked'' expiration"

definition lock_expiration :: "duration \<Rightarrow> duration" where
  "lock_expiration tickInterval = (let d = tickInterval - 2 * Second in if d \<le> 0 then tickInterval else d)"

text \<open>The servers whose method is known and not \<open>AGENT_PUSH\<close>, in the order of the set.\<close>

primrec polling_servers :: "'w redis \<Rightarrow> string list \<Rightarrow> ('w, string list) state" where
  "polling_servers R [] = ret []"
| "polling_servers R (i # is) = do {
     r \<leftarrow> cmd_HGet R (server_info_key i) ''health_check_method'';
     rest \<leftarrow> polling_servers R is;
     ret (case r of Inl e \<Rightarrow> rest | Inr method \<Rightarrow> if method \<noteq> HealthCheckMethodAgentPush then i # rest else rest)
   }"

definition populate_queue :: "'w redis \<Rightarrow> ('w, unit) state" where
  "populate_queue R = do {
     r \<leftarrow> cmd_SMembers R ServerAllIDsKey;
     case r of
       Inl e \<Rightarrow> ret ()
     | Inr serverIDs \<Rightarrow>
         if serverIDs = [] then ret ()
         else do {
           pollingServers \<leftarrow> polling_servers R serverIDs;
           if pollingServers = [] then ret () else attempt (cmd_RPush R MonitoringQueueKey pollingServers)
         }
   }"

definition runProducerCycle :: "'w redis \<Rightarrow> string \<Rightarrow> duration \<Rightarrow> ('w, unit) state" where
  "runProducerCycle R lockKey tickInterval = do {
     r \<leftarrow> AcquireLock R lockKey (lock_expiration tickInterval);
     if (case r of Inl e \<Rightarrow> False | Inr acquired \<Rightarrow> acquired) then do {
       n \<leftarrow> cmd_LLen R MonitoringQueueKey;
       if (case n of Inl e \<Rightarrow> False | Inr queueLen \<Rightarrow> queueLen > 0) then ret () else populate_queue R
     } else ret ()
   }"

end
