(* ===== verification/Monitoring_Laws.thy ===== *)
theory Monitoring_Laws
  imports Monitoring Reference_World
begin

text \<open>
  What \<open>sms-monitoring\<close> relies on, the abstract state machine of a server's health, and the proof
  that \<open>Evaluate\<close> implements it on the cache in Redis.
\<close>

section \<open>The services\<close>

locale monitoring_services =
  clk: clock_source "mon_Now E" clock view +
  rds: redis_server "mon_redis E" clock view id "\<lambda>f. f"
  for E :: "'w monitoring_env" and clock :: "'w \<Rightarrow> time" and view :: "'w \<Rightarrow> redis_db" +
  assumes log_view [simp]: "view (after (mon_LogObservation E i b) w) = view w"
    and log_clock: "clock w \<le> clock (after (mon_LogObservation E i b) w)"
    and threshold_range: "- (2 ^ 63) \<le> mon_failureThreshold E" "mon_failureThreshold E < 2 ^ 63"

locale monitoring_services_up = monitoring_services +
  rds: redis_server_up "mon_redis E" clock view id "\<lambda>f. f"

section \<open>The abstract state machine\<close>

text \<open>
  A server was not seen yet, is up with a number of failures since the last success, or is down.
\<close>

datatype health = NotSeen | Up int | Down

fun health_step :: "int \<Rightarrow> bool \<Rightarrow> health \<Rightarrow> health" where
  "health_step T True h = Up 0"
| "health_step T False NotSeen = Down"
| "health_step T False (Up n) = (if n + 1 \<ge> T then Down else Up (n + 1))"
| "health_step T False Down = Down"

definition status_of :: "health \<Rightarrow> string" where
  "status_of h = (case h of NotSeen \<Rightarrow> ServerStatusUnknown | Up _ \<Rightarrow> ServerStatusOnline | Down \<Rightarrow> ServerStatusOffline)"

text \<open>The events of one step: one if the status changes, with the count that is stored then.\<close>

definition step_events :: "int \<Rightarrow> string \<Rightarrow> health \<Rightarrow> health \<Rightarrow> fields list" where
  "step_events T i h h' =
     (if status_of h' = status_of h then []
      else [status_event i (status_of h') (case h' of Up n \<Rightarrow> n | _ \<Rightarrow> T)])"

text \<open>The health that the cache shows for a server; a negative count does not occur.\<close>

definition health_of :: "string \<Rightarrow> int \<Rightarrow> health option" where
  "health_of status retry =
     (if status = ServerStatusOnline then (if 0 \<le> retry then Some (Up retry) else None)
      else if status = ServerStatusOffline then Some Down
      else if status = ServerStatusUnknown \<or> status = [] then Some NotSeen else None)"

definition server_health :: "redis_db \<Rightarrow> string \<Rightarrow> health option" where
  "server_health d i =
     (let vals = rd_hashes d (server_info_key i) in
      if vals = [] then None else health_of (lookup vals ''status'') (fst (Atoi (lookup vals ''retry_count''))))"

text \<open>
  \<open>next_status\<close> is the step of the abstract machine, and says truthfully what has changed.
\<close>

lemma next_status_refines:
  assumes "health_of status retry = Some h" and "next_status T ok (if status = [] then ServerStatusUnknown else status) retry = (s', r', sc, rc)"
    and "- (2 ^ 63) \<le> T" "T < 2 ^ 63" and "- (2 ^ 63) \<le> retry" "retry < 2 ^ 63"
  shows "health_of s' r' = Some (health_step T ok h) \<and> - (2 ^ 63) \<le> r' \<and> r' < 2 ^ 63 \<and>
    s' = status_of (health_step T ok h) \<and> (sc \<longleftrightarrow> status_of (health_step T ok h) \<noteq> status_of h) \<and>
    (sc \<longrightarrow> rc \<and> r' = (case health_step T ok h of Up n \<Rightarrow> n | _ \<Rightarrow> T)) \<and>
    (\<not> sc \<and> \<not> rc \<longrightarrow> s' = (if status = [] then ServerStatusUnknown else status) \<and> r' = retry)"
  using assms
  by (cases ok; cases h)
    (auto simp: next_status_def health_of_def status_of_def status_defs split: if_splits)

section \<open>The state store on the view\<close>

lemma map_of_fold_update:
  "map_of (fold (\<lambda>(f, x). AList.update f x) fvs l) = map_of l ++ map_of (rev fvs)"
  by (induction fvs arbitrary: l) (auto simp: update_conv' map_add_def fun_eq_iff split: option.split)

lemma update_not_Nil [simp]: "AList.update f x l \<noteq> []"
  by (cases l) auto

lemma fold_update_Nil [simp]: "fold (\<lambda>(f, x). AList.update f x) fvs l = [] \<longleftrightarrow> l = [] \<and> fvs = []"
proof (induction fvs arbitrary: l)
  case (Cons p fvs)
  show ?case by (cases p) (simp add: Cons)
qed simp

lemma server_info_key_inject [simp]: "server_info_key i = server_info_key j \<longleftrightarrow> i = j"
  by (simp add: server_info_key_def)

lemma rd_hashes_do_HSet [simp]:
  "rd_hashes (do_HSet k fvs d) k' = (if k' = k then fold (\<lambda>(f, x). AList.update f x) fvs (rd_hashes d k) else rd_hashes d k')"
  by (simp add: do_HSet_def)

definition set_state :: "string \<Rightarrow> string \<Rightarrow> int \<Rightarrow> redis_db \<Rightarrow> redis_db" where
  "set_state i status retry = do_HSet (server_info_key i) [(''status'', status), (''retry_count'', Itoa retry)]"

lemma server_health_set_state:
  assumes "- (2 ^ 63) \<le> r" "r < 2 ^ 63"
  shows "server_health (set_state i s r d) j = (if j = i then health_of s r else server_health d j)"
  using assms
  by (auto simp: server_health_def set_state_def lookup_def map_of_fold_update Atoi_Itoa Let_def
      simp del: fold.simps)

lemma other_keys_set_state [simp]:
  "rd_streams (set_state i s r d) = rd_streams d" "rd_zsets (set_state i s r d) = rd_zsets d"
  "rd_lists (set_state i s r d) = rd_lists d" "rd_sets (set_state i s r d) = rd_sets d"
  "rd_strings (set_state i s r d) = rd_strings d"
  by (simp_all add: set_state_def do_HSet_def)

lemma Atoi_range: "Atoi s = (n, e) \<Longrightarrow> - (2 ^ 63) \<le> n \<and> n < 2 ^ 63"
  by (auto simp: Atoi_def Let_def split: if_splits)

text \<open>Two databases that agree but for the states of servers and one stream.\<close>

definition same_keys :: "redis_db \<Rightarrow> redis_db \<Rightarrow> bool" where
  "same_keys d d' \<longleftrightarrow> rd_zsets d' = rd_zsets d \<and> rd_lists d' = rd_lists d \<and> rd_sets d' = rd_sets d \<and>
     rd_strings d' = rd_strings d \<and> (\<forall>k. k \<noteq> status_stream \<longrightarrow> rd_streams d' k = rd_streams d k)"

text \<open>Entries were appended to a stream, and old ones may have been trimmed.\<close>

definition appended :: "string \<Rightarrow> fields list \<Rightarrow> redis_db \<Rightarrow> redis_db \<Rightarrow> bool" where
  "appended k es d d' \<longleftrightarrow> (\<exists>n \<le> length (rd_streams d k @ es). rd_streams d' k = drop n (rd_streams d k @ es))"

lemma appended_refl [simp]: "appended k [] d d"
  by (auto simp: appended_def intro!: exI [of _ 0])

lemma appended_trans:
  assumes "appended k es d d'" and "appended k es' d' d''"
  shows "appended k (es @ es') d d''"
proof -
  let ?s = "rd_streams d k"
  from assms(1) obtain n where n: "n \<le> length (?s @ es)" and s': "rd_streams d' k = drop n (?s @ es)"
    unfolding appended_def by blast
  from assms(2) obtain n' where n': "n' \<le> length (drop n (?s @ es) @ es')"
    and s'': "rd_streams d'' k = drop n' (drop n (?s @ es) @ es')"
    unfolding appended_def s' by blast
  have "drop n (?s @ es) @ es' = drop n (?s @ es @ es')" using n by simp
  then have "rd_streams d'' k = drop (n' + n) (?s @ es @ es')" by (simp only: s'' drop_drop)
  moreover have "n' + n \<le> length (?s @ es @ es')" using n n' by (simp del: drop_append)
  ultimately show ?thesis unfolding appended_def by blast
qed

section \<open>Evaluate\<close>

text \<open>What one evaluation makes of the cache, and of the stream of status events.\<close>

definition evaluated :: "int \<Rightarrow> string \<Rightarrow> health \<Rightarrow> health \<Rightarrow> redis_db \<Rightarrow> redis_db \<Rightarrow> bool" where
  "evaluated T i h h' d d' \<longleftrightarrow>
     server_health d i = Some h \<and> server_health d' i = Some h' \<and>
     (\<forall>k. k \<noteq> server_info_key i \<longrightarrow> rd_hashes d' k = rd_hashes d k) \<and>
     (\<forall>f. f \<noteq> ''status'' \<and> f \<noteq> ''retry_count'' \<longrightarrow>
        map_of (rd_hashes d' (server_info_key i)) f = map_of (rd_hashes d (server_info_key i)) f) \<and>
     same_keys d d' \<and> appended status_stream (step_events T i h h') d d'"

lemma set_state_hash:
  "f \<noteq> ''status'' \<Longrightarrow> f \<noteq> ''retry_count'' \<Longrightarrow>
   map_of (rd_hashes (set_state i s r d) k) f = map_of (rd_hashes d k) f"
  by (simp add: set_state_def map_of_fold_update map_add_def del: fold.simps split: option.split)

lemma set_state_hash_other: "k \<noteq> server_info_key i \<Longrightarrow> rd_hashes (set_state i s r d) k = rd_hashes d k"
  by (simp add: set_state_def)

lemma do_XAdd_keys [simp]:
  "rd_hashes (do_XAdd n k e d) = rd_hashes d" "rd_zsets (do_XAdd n k e d) = rd_zsets d"
  "rd_lists (do_XAdd n k e d) = rd_lists d" "rd_sets (do_XAdd n k e d) = rd_sets d"
  "rd_strings (do_XAdd n k e d) = rd_strings d"
  "rd_streams (do_XAdd n k e d) k' = (if k' = k then drop n (rd_streams d k @ [e]) else rd_streams d k')"
  by (simp_all add: do_XAdd_def)

lemma server_health_do_XAdd [simp]: "server_health (do_XAdd n k e d) = server_health d"
  by (simp add: server_health_def fun_eq_iff)

lemma server_health_hashes: "rd_hashes d' (server_info_key j) = rd_hashes d (server_info_key j) \<Longrightarrow>
    server_health d' j = server_health d j"
  by (simp add: server_health_def)

lemma evaluated_other: "evaluated T i h h' d d' \<Longrightarrow> j \<noteq> i \<Longrightarrow> server_health d' j = server_health d j"
  by (intro server_health_hashes) (simp add: evaluated_def)

context monitoring_services_up
begin

lemma GetServerState_up:
  "result (GetServerState (mon_redis E) i) w =
     (let vals = rd_hashes (view w) (server_info_key i) in
      if vals = [] then Inl ErrServerStateNotFound
      else Inr \<lparr>st_Status = lookup vals ''status'', st_RetryCount = fst (Atoi (lookup vals ''retry_count''))\<rparr>)"
  by (simp add: GetServerState_def rds.HGetAll_up Let_def)

lemma GetServerState_view [simp]: "view (after (GetServerState (mon_redis E) i) w) = view w"
  by (auto simp: GetServerState_def split: sum.split)

lemma HSet_up: "\<exists>u. result (cmd_HSet (mon_redis E) k fvs) w = Inr u"
  using rds.redis_up(6) unfolding answers_def by blast

lemma SetServerState_up:
  "result (SetServerState (mon_redis E) i s r) w = Inr ()"
  "view (after (SetServerState (mon_redis E) i s r) w) = set_state i s r (view w)"
  using HSet_up [of "server_info_key i" "[(''status'', s), (''retry_count'', Itoa r)]" w]
    rds.redis_writes_up(2) [of "server_info_key i" "[(''status'', s), (''retry_count'', Itoa r)]" w]
  by (auto simp: SetServerState_def set_state_def split: sum.split)

lemma Publish_up:
  obtains n where "n \<le> length (rd_streams (view w) k @ [e])"
    and "view (after (monitoring_Publish (mon_redis E) (mon_maxLen E) k e) w) = do_XAdd n k e (view w)"
proof -
  obtain n where "trims (mon_maxLen E) (length (rd_streams (view w) k)) n"
    "view (after (cmd_XAdd (mon_redis E) k (mon_maxLen E) e) w) = do_XAdd n k e (view w)"
    using rds.XAdd_up [of "mon_maxLen E" w k e] by auto
  then show thesis by (intro that [of n]) (auto simp: trims_def monitoring_Publish_def)
qed

text \<open>\<open>Evaluate\<close> does not fail and takes one step of the abstract machine.\<close>

lemma Evaluate_up:
  assumes h: "server_health (view w) i = Some h"
  shows "result (Evaluate E i ip ok) w = Inr () \<and>
    evaluated (mon_failureThreshold E) i h (health_step (mon_failureThreshold E) ok h)
      (view w) (view (after (Evaluate E i ip ok) w))"
proof -
  let ?T = "mon_failureThreshold E"
  define vals where "vals = rd_hashes (view w) (server_info_key i)"
  define status where "status = lookup vals ''status''"
  define retry where "retry = fst (Atoi (lookup vals ''retry_count''))"
  define h' where "h' = health_step ?T ok h"
  define w0 where "w0 = after (GetServerState (mon_redis E) i) (after (mon_LogObservation E i ok) w)"
  have v0: "view w0 = view w" by (simp add: w0_def)
  have ne: "vals \<noteq> []" and ho: "health_of status retry = Some h"
    using h by (auto simp: server_health_def Let_def vals_def status_def retry_def split: if_splits)
  have get: "result (GetServerState (mon_redis E) i) (after (mon_LogObservation E i ok) w) =
      Inr \<lparr>st_Status = status, st_RetryCount = retry\<rparr>"
    using ne by (simp add: GetServerState_up Let_def status_def retry_def vals_def)
  obtain s' r' sc rc where n: "next_status ?T ok (if status = [] then ServerStatusUnknown else status) retry = (s', r', sc, rc)"
    by (metis prod_cases4)
  have "- (2 ^ 63) \<le> retry" "retry < 2 ^ 63"
    using Atoi_range [of "lookup vals ''retry_count''" retry] by (simp_all add: retry_def prod_eq_iff)
  note r = next_status_refines [OF ho n threshold_range this, folded h'_def]
  let ?A = "apply_transition E i (s', r', sc, rc)"
  have eval: "result (Evaluate E i ip ok) w = result ?A w0" "after (Evaluate E i ip ok) w = after ?A w0"
    by (simp_all add: Evaluate_def get w0_def Let_def del: apply_transition.simps flip: n)
  define d1 where "d1 = (if sc \<or> rc then set_state i s' r' (view w) else view w)"
  have hd: "server_health d1 i = Some h'"
  proof (cases "sc \<or> rc")
    case True
    with r show ?thesis by (auto simp: d1_def server_health_set_state)
  next
    case False
    with r have "s' = (if status = [] then ServerStatusUnknown else status)" "r' = retry" by auto
    with r ho have "h' = h" by (auto simp: health_of_def status_defs split: if_splits)
    with False h show ?thesis by (simp add: d1_def)
  qed
  have d1: "\<forall>k. k \<noteq> server_info_key i \<longrightarrow> rd_hashes d1 k = rd_hashes (view w) k"
    "\<forall>f. f \<noteq> ''status'' \<and> f \<noteq> ''retry_count'' \<longrightarrow>
        map_of (rd_hashes d1 (server_info_key i)) f = map_of (rd_hashes (view w) (server_info_key i)) f"
    "rd_streams d1 = rd_streams (view w)" "same_keys (view w) d1"
    by (simp_all add: d1_def set_state_hash set_state_hash_other same_keys_def)
  show ?thesis
  proof (cases sc)
    case True
    define w1 where "w1 = after (SetServerState (mon_redis E) i s' r') w0"
    define w2 where "w2 = after (monitoring_Publish (mon_redis E) (mon_maxLen E) status_stream (status_event i s' r')) w1"
    have v1: "view w1 = d1" using True by (simp add: w1_def d1_def SetServerState_up v0)
    obtain n where n: "n \<le> length (rd_streams (view w1) status_stream @ [status_event i s' r'])"
      "view w2 = do_XAdd n status_stream (status_event i s' r') (view w1)"
      using Publish_up [of w1 status_stream "status_event i s' r'"] by (auto simp: w2_def)
    have "result (Evaluate E i ip ok) w = Inr ()" "after (Evaluate E i ip ok) w = w2"
      using True by (simp_all add: eval SetServerState_up w1_def w2_def)
    moreover have "step_events ?T i h h' = [status_event i s' r']"
      using r True by (simp add: step_events_def)
    ultimately show ?thesis
      using n d1 hd h by (auto simp: evaluated_def same_keys_def appended_def v1 simp flip: h'_def simp del: drop_append)
  next
    case False
    have "result (Evaluate E i ip ok) w = Inr ()" "view (after (Evaluate E i ip ok) w) = d1"
      using False by (simp_all add: eval SetServerState_up d1_def v0)
    moreover have "step_events ?T i h h' = []"
      using r False by (simp add: step_events_def)
    moreover have "appended status_stream [] (view w) d1"
      by (auto simp: appended_def d1(3) intro!: exI [of _ 0])
    ultimately show ?thesis
      using d1 hd h by (simp add: evaluated_def flip: h'_def)
  qed
qed

text \<open>A server that is not in the cache is not evaluated.\<close>

lemma Evaluate_unknown:
  assumes "rd_hashes (view w) (server_info_key i) = []"
  shows "result (Evaluate E i ip ok) w = Inl ErrServerStateNotFound \<and> view (after (Evaluate E i ip ok) w) = view w"
  by (simp add: Evaluate_def GetServerState_up assms)

end

end
