(* ===== verification/Monitoring_Runs.thy ===== *)
theory Monitoring_Runs
  imports Monitoring_Laws
begin

text \<open>
  Sequences of evaluations, the sweeper, the producer and the workers on the view of Redis.
\<close>

section \<open>Sequences of checks\<close>

text \<open>The health after a list of results, and the events that were published on the way.\<close>

definition health_run :: "int \<Rightarrow> bool list \<Rightarrow> health \<Rightarrow> health" where
  "health_run T bs h = fold (health_step T) bs h"

fun run_events :: "int \<Rightarrow> string \<Rightarrow> bool list \<Rightarrow> health \<Rightarrow> fields list" where
  "run_events T i [] h = []"
| "run_events T i (b # bs) h = step_events T i h (health_step T b h) @ run_events T i bs (health_step T b h)"

lemma health_run_simps [simp]:
  "health_run T [] h = h" "health_run T (b # bs) h = health_run T bs (health_step T b h)"
  by (simp_all add: health_run_def)

lemma after_attempt [simp]: "after (attempt m) w = after m w"
  by (simp add: attempt_def)

lemma health_run_append: "health_run T (as @ bs) h = health_run T bs (health_run T as h)"
  by (simp add: health_run_def)

text \<open>Failures after a success: the server goes down with the one that reaches the threshold.\<close>

lemma health_run_down: "health_run T (replicate n False) Down = Down"
  by (induction n) simp_all

lemma health_run_failures:
  assumes "0 \<le> k"
  shows "health_run T (replicate n False) (Up k) = (if n > 0 \<and> k + int n \<ge> T then Down else Up (k + int n))"
  using assms
proof (induction n arbitrary: k)
  case (Suc n)
  show ?case
  proof (cases "k + 1 \<ge> T")
    case True
    with Suc.prems show ?thesis by (simp add: health_run_down)
  next
    case False
    with Suc show ?thesis by auto
  qed
qed simp

lemma same_keys_trans: "same_keys d d' \<Longrightarrow> same_keys d' d'' \<Longrightarrow> same_keys d d''"
  by (simp add: same_keys_def)

lemma evaluated_trans:
  assumes "evaluated T i h h' d d'" and "server_health d'' i = Some h''"
    and "\<forall>k. k \<noteq> server_info_key i \<longrightarrow> rd_hashes d'' k = rd_hashes d' k"
    and "same_keys d' d''" and "appended status_stream es d' d''"
  shows "\<forall>k. k \<noteq> server_info_key i \<longrightarrow> rd_hashes d'' k = rd_hashes d k"
    and "same_keys d d''" and "appended status_stream (step_events T i h h' @ es) d d''"
  using assms by (auto simp: evaluated_def intro: same_keys_trans appended_trans)

text \<open>The servers that are polled: their method is in the cache and is not that of pushing agents.\<close>

definition polled :: "redis_db \<Rightarrow> string \<Rightarrow> bool" where
  "polled d i \<longleftrightarrow> (\<exists>method. map_of (rd_hashes d (server_info_key i)) ''health_check_method'' = Some method \<and>
     method \<noteq> HealthCheckMethodAgentPush)"

text \<open>What a worker hands to the checker of a server.\<close>

definition check_config :: "redis_db \<Rightarrow> string \<Rightarrow> fields" where
  "check_config d i = AList.update ''server_id'' i (rd_hashes d (server_info_key i))"

definition check_method :: "redis_db \<Rightarrow> string \<Rightarrow> string" where
  "check_method d i = lookup (rd_hashes d (server_info_key i)) ''health_check_method''"

context monitoring_services_up
begin

lemma Evaluate_run:
  fixes bs :: "bool list" and ip :: string
  assumes "server_health (view w) i = Some h"
  defines "d' \<equiv> view (after (for_each bs (\<lambda>b. attempt (Evaluate E i ip b))) w)"
  shows "server_health d' i = Some (health_run (mon_failureThreshold E) bs h) \<and>
    (\<forall>k. k \<noteq> server_info_key i \<longrightarrow> rd_hashes d' k = rd_hashes (view w) k) \<and> same_keys (view w) d' \<and>
    appended status_stream (run_events (mon_failureThreshold E) i bs h) (view w) d'"
  using assms(1) unfolding d'_def
proof (induction bs arbitrary: w h)
  case Nil
  then show ?case by (simp add: same_keys_def)
next
  case (Cons b bs)
  let ?T = "mon_failureThreshold E"
  let ?w = "after (Evaluate E i ip b) w"
  have e: "evaluated ?T i h (health_step ?T b h) (view w) (view ?w)" using Evaluate_up [OF Cons.prems] by blast
  then have "server_health (view ?w) i = Some (health_step ?T b h)" by (simp add: evaluated_def)
  note IH = Cons.IH [OF this]
  note t = evaluated_trans [OF e conjunct1 [OF IH] conjunct1 [OF conjunct2 [OF IH]]
      conjunct1 [OF conjunct2 [OF conjunct2 [OF IH]]] conjunct2 [OF conjunct2 [OF conjunct2 [OF IH]]]]
  from IH t show ?case by simp
qed

section \<open>The sweeper\<close>

lemma cached_ipv4_view [simp]: "view (after (cached_ipv4 (mon_redis E) i) w) = view w"
  by (simp add: cached_ipv4_def)

text \<open>What the sweeper makes of a server whose heartbeat is missing.\<close>

definition swept :: "string \<Rightarrow> redis_db \<Rightarrow> redis_db \<Rightarrow> bool" where
  "swept i d d' \<longleftrightarrow>
     (\<forall>j. server_health d' j = (if j = i then map_option (health_step (mon_failureThreshold E) False) (server_health d j)
        else server_health d j)) \<and>
     (\<forall>k. k \<noteq> server_info_key i \<longrightarrow> rd_hashes d' k = rd_hashes d k) \<and>
     rd_zsets d' AgentHeartbeatZSetKey = filter (\<lambda>(m, s). m \<noteq> i) (rd_zsets d AgentHeartbeatZSetKey)"

lemma sweep_one:
  assumes "rd_hashes (view w) (server_info_key i) = [] \<or> server_health (view w) i \<noteq> None"
  shows "swept i (view w) (view (after (do { ipv4 \<leftarrow> cached_ipv4 (mon_redis E) i; Evaluate E i ipv4 False;
    cmd_ZRem (mon_redis E) AgentHeartbeatZSetKey i; ret () }) w))"
proof -
  define w1 where "w1 = after (cached_ipv4 (mon_redis E) i) w"
  define w2 where "w2 = after (Evaluate E i (result (cached_ipv4 (mon_redis E) i) w) False) w1"
  have v1: "view w1 = view w" by (simp add: w1_def)
  have z: "view (after (cmd_ZRem (mon_redis E) AgentHeartbeatZSetKey i) w2) = do_ZRem AgentHeartbeatZSetKey i (view w2)"
    using rds.redis_writes_up(6) by simp
  have e: "server_health (view w2) j = (if j = i then map_option (health_step (mon_failureThreshold E) False) (server_health (view w) j)
      else server_health (view w) j)" for j
  proof (cases "server_health (view w) i")
    case None
    with assms have "rd_hashes (view w1) (server_info_key i) = []" by (simp add: v1)
    from Evaluate_unknown [OF this] None show ?thesis by (simp add: w2_def v1)
  next
    case (Some h)
    then have "server_health (view w1) i = Some h" by (simp add: v1)
    from Evaluate_up [OF this] have ev: "evaluated (mon_failureThreshold E) i h (health_step (mon_failureThreshold E) False h) (view w1) (view w2)"
      by (simp add: w2_def)
    then show ?thesis using evaluated_other [OF ev, of j] Some by (auto simp: evaluated_def v1)
  qed
  have s: "rd_zsets (view w2) = rd_zsets (view w) \<and> (\<forall>k. k \<noteq> server_info_key i \<longrightarrow> rd_hashes (view w2) k = rd_hashes (view w) k)"
  proof (cases "server_health (view w) i")
    case None
    with assms have "rd_hashes (view w1) (server_info_key i) = []" by (simp add: v1)
    from Evaluate_unknown [OF this] show ?thesis by (simp add: w2_def v1)
  next
    case (Some h)
    then have "server_health (view w1) i = Some h" by (simp add: v1)
    from Evaluate_up [OF this] show ?thesis by (simp add: w2_def evaluated_def same_keys_def v1)
  qed
  have "server_health (do_ZRem AgentHeartbeatZSetKey i d) j = server_health d j" for d j
    by (rule server_health_hashes) (simp add: do_ZRem_def)
  moreover have "(\<lambda>(k, u :: int). i \<noteq> k) = (\<lambda>(m, s). m \<noteq> i)" by auto
  ultimately show ?thesis
    using e s by (simp add: swept_def z flip: w1_def w2_def) (simp add: do_ZRem_def AList.delete_eq)
qed

lemma sweep_all:
  assumes "distinct is"
    and "\<forall>i \<in> set is. rd_hashes (view w) (server_info_key i) = [] \<or> server_health (view w) i \<noteq> None"
  defines "w' \<equiv> after (for_each is (\<lambda>i. do { ipv4 \<leftarrow> cached_ipv4 (mon_redis E) i; Evaluate E i ipv4 False;
    cmd_ZRem (mon_redis E) AgentHeartbeatZSetKey i; ret () })) w"
  shows "(\<forall>j. server_health (view w') j = (if j \<in> set is then map_option (health_step (mon_failureThreshold E) False) (server_health (view w) j)
      else server_health (view w) j)) \<and>
    rd_zsets (view w') AgentHeartbeatZSetKey = filter (\<lambda>(m, s). m \<notin> set is) (rd_zsets (view w) AgentHeartbeatZSetKey)"
  using assms(1,2) unfolding w'_def
proof (induction "is" arbitrary: w)
  case (Cons i "is")
  define w1 where "w1 = after (do { ipv4 \<leftarrow> cached_ipv4 (mon_redis E) i; Evaluate E i ipv4 False;
    cmd_ZRem (mon_redis E) AgentHeartbeatZSetKey i; ret () }) w"
  have s: "swept i (view w) (view w1)" unfolding w1_def using Cons.prems by (intro sweep_one) simp
  have "\<forall>j \<in> set is. rd_hashes (view w1) (server_info_key j) = [] \<or> server_health (view w1) j \<noteq> None"
    using Cons.prems s by (auto simp: swept_def)
  with Cons.IH [of w1] Cons.prems(1) s show ?case
    by (auto simp: swept_def w1_def case_prod_beta intro!: filter_cong)
qed simp

lemma sweep_up:
  fixes tmo :: int
  assumes "distinct (map fst zs)" and "rd_zsets (view w) AgentHeartbeatZSetKey = zs"
    and "\<forall>(i, s) \<in> set zs. rd_hashes (view w) (server_info_key i) = [] \<or> server_health (view w) i \<noteq> None"
  defines "limit \<equiv> Unix (clock w) - tmo"
  shows "rd_zsets (view (after (sweep E tmo) w)) AgentHeartbeatZSetKey = filter (\<lambda>(i, s). s > limit) zs \<and>
    (\<forall>j. server_health (view (after (sweep E tmo) w)) j =
      (if \<exists>s \<le> limit. (j, s) \<in> set zs then map_option (health_step (mon_failureThreshold E) False) (server_health (view w) j)
       else server_health (view w) j))"
proof -
  define w1 where "w1 = after (mon_Now E) w"
  have v1: "view w1 = view w" by (simp add: w1_def clk.now_view)
  define z where "z = cmd_ZRangeByScore (mon_redis E) AgentHeartbeatZSetKey limit"
  obtain ids where ids: "result z w1 = Inr ids"
    and m: "mset ids = mset (map fst (filter (\<lambda>(m, s). s \<le> limit) zs))"
    using reads_answer [OF rds.ZRange_reads rds.redis_up(12), of AgentHeartbeatZSetKey limit w1] assms(2)
    by (auto simp: z_def v1)
  have v2: "view (after z w1) = view w" by (simp add: z_def v1)
  have "distinct (map fst (filter (\<lambda>(m, s). s \<le> limit) zs))" using assms(1) by (rule distinct_map_filter)
  then have d: "distinct ids" using m by (metis mset_eq_imp_distinct_iff)
  have set: "set ids = {i. \<exists>s \<le> limit. (i, s) \<in> set zs}"
    using mset_eq_setD [OF m] by force
  have "\<forall>i \<in> set ids. rd_hashes (view (after z w1)) (server_info_key i) = [] \<or> server_health (view (after z w1)) i \<noteq> None"
    using assms(3) by (auto simp: set v2)
  note all = sweep_all [OF d this]
  have after: "after (sweep E tmo) w = after (for_each ids (\<lambda>i. do { ipv4 \<leftarrow> cached_ipv4 (mon_redis E) i;
      Evaluate E i ipv4 False; cmd_ZRem (mon_redis E) AgentHeartbeatZSetKey i; ret () })) (after z w1)"
    using ids by (simp add: sweep_def w1_def z_def clk.now_reads limit_def)
  have "(\<lambda>(m, s). m \<notin> set ids) p \<longleftrightarrow> (\<lambda>(i, s). s > limit) p" if "p \<in> set zs" for p
    using that assms(1) by (auto simp: set case_prod_beta not_le dest: eq_key_imp_eq_value [rotated 1])
      (metis eq_key_imp_eq_value linorder_not_less prod.collapse)
  then have "filter (\<lambda>(m, s). m \<notin> set ids) zs = filter (\<lambda>(i, s). s > limit) zs" by (intro filter_cong) auto
  moreover have iff: "(\<exists>s \<le> limit. (j, s) \<in> set zs) \<longleftrightarrow> j \<in> set ids" for j by (simp add: set)
  ultimately show ?thesis using all assms(2) unfolding after iff by (simp add: v2)
qed

section \<open>The producer\<close>

lemma polling_servers_view [simp]: "view (after (polling_servers (mon_redis E) is) w) = view w"
  by (induction "is" arbitrary: w) simp_all

lemma polling_servers_up: "result (polling_servers (mon_redis E) is) w = filter (polled (view w)) is"
  by (induction "is" arbitrary: w) (auto simp: rds.HGet_up_iff polled_def split: option.splits)

lemma do_RPush_Nil [simp]: "do_RPush k [] d = d"
  by (simp add: do_RPush_def)

lemma populate_queue_up:
  obtains xs where "mset xs = mset (filter (polled (view w)) (rd_sets (view w) ServerAllIDsKey))"
    and "view (after (populate_queue (mon_redis E)) w) = do_RPush MonitoringQueueKey xs (view w)"
proof -
  let ?m = "cmd_SMembers (mon_redis E) ServerAllIDsKey"
  obtain ids where ids: "result ?m w = Inr ids" and m: "mset ids = mset (rd_sets (view w) ServerAllIDsKey)"
    using reads_answer [OF rds.SMembers_reads rds.redis_up(9)] by (metis id_apply)
  have v: "view (after ?m w) = view w" by simp
  have "view (after (populate_queue (mon_redis E)) w) = do_RPush MonitoringQueueKey (filter (polled (view w)) ids) (view w)"
    using ids by (auto simp: populate_queue_def polling_servers_up v rds.redis_writes_up(7))
  moreover have "mset (filter (polled (view w)) ids) = mset (filter (polled (view w)) (rd_sets (view w) ServerAllIDsKey))"
    using m by simp
  ultimately show thesis by (rule that [rotated])
qed

lemma runProducerCycle_up:
  fixes lockKey :: string and tick :: duration and w
  defines "d' \<equiv> view (after (runProducerCycle (mon_redis E) lockKey tick) w)"
    and "d1 \<equiv> do_Set lockKey ''locked'' (clock w + lock_expiration tick) (view w)"
  shows "live (clock w) (rd_strings (view w) lockKey) \<Longrightarrow> d' = view w"
    and "\<not> live (clock w) (rd_strings (view w) lockKey) \<Longrightarrow> rd_lists (view w) MonitoringQueueKey \<noteq> [] \<Longrightarrow> d' = d1"
    and "\<not> live (clock w) (rd_strings (view w) lockKey) \<Longrightarrow> rd_lists (view w) MonitoringQueueKey = [] \<Longrightarrow>
      \<exists>xs. mset xs = mset (filter (polled (view w)) (rd_sets (view w) ServerAllIDsKey)) \<and> d' = do_RPush MonitoringQueueKey xs d1"
proof -
  let ?lock = "AcquireLock (mon_redis E) lockKey (lock_expiration tick)" and ?len = "cmd_LLen (mon_redis E) MonitoringQueueKey"
  define w1 where "w1 = after ?lock w"
  have l: "result ?lock w = Inr (\<not> live (clock w) (rd_strings (view w) lockKey))"
    by (simp add: AcquireLock_def rds.SetNX_up)
  have v1: "view w1 = (if live (clock w) (rd_strings (view w) lockKey) then view w else d1)"
    using rds.SetNX_ok [OF l [unfolded AcquireLock_def]] by (simp add: w1_def AcquireLock_def d1_def)
  have v2: "view (after ?len w1) = view w1" by simp
  have d1: "rd_lists d1 = rd_lists (view w)" "rd_sets d1 = rd_sets (view w)" "polled d1 = polled (view w)"
    by (simp_all add: d1_def do_Set_def polled_def fun_eq_iff)
  show "live (clock w) (rd_strings (view w) lockKey) \<Longrightarrow> d' = view w"
    using l v1 by (simp add: d'_def runProducerCycle_def flip: w1_def)
  show "d' = d1" if "\<not> live (clock w) (rd_strings (view w) lockKey)" "rd_lists (view w) MonitoringQueueKey \<noteq> []"
    using that l v1 d1 by (simp add: d'_def runProducerCycle_def rds.LLen_up flip: w1_def)
  show "\<exists>xs. mset xs = mset (filter (polled (view w)) (rd_sets (view w) ServerAllIDsKey)) \<and> d' = do_RPush MonitoringQueueKey xs d1"
    if "\<not> live (clock w) (rd_strings (view w) lockKey)" "rd_lists (view w) MonitoringQueueKey = []"
  proof -
    obtain xs where "mset xs = mset (filter (polled (view (after ?len w1))) (rd_sets (view (after ?len w1)) ServerAllIDsKey))"
      and "view (after (populate_queue (mon_redis E)) (after ?len w1)) = do_RPush MonitoringQueueKey xs (view (after ?len w1))"
      using populate_queue_up [of "after ?len w1"] by blast
    with that l v1 d1 v2 show ?thesis
      by (intro exI [of _ xs]) (simp add: d'_def runProducerCycle_def rds.LLen_up flip: w1_def)
  qed
qed

section \<open>The workers\<close>

lemma do_LPop_keys [simp]:
  "rd_hashes (do_LPop k d) = rd_hashes d" "rd_lists (do_LPop k d) k = tl (rd_lists d k)"
  by (simp_all add: do_LPop_def)

lemma server_health_do_LPop [simp]: "server_health (do_LPop k d) = server_health d"
  by (simp add: server_health_def fun_eq_iff)

lemma worker_idle:
  assumes "rd_lists (view w) MonitoringQueueKey = []"
  shows "view (after (worker_turn E F) w) = view w"
proof -
  have "do_LPop MonitoringQueueKey (view w) = view w" using assms by (simp add: do_LPop_def fun_upd_idem)
  moreover have "\<exists>e. result (cmd_BLPop (mon_redis E) MonitoringQueueKey) w = Inl e"
    using rds.BLPop_ok [of MonitoringQueueKey w] assms by (cases "result (cmd_BLPop (mon_redis E) MonitoringQueueKey) w") auto
  ultimately show ?thesis using rds.BLPop_err [of MonitoringQueueKey w] by (auto simp: worker_turn_def)
qed

lemma worker_turn_up:
  assumes q: "rd_lists (view w) MonitoringQueueKey = i # rest" and h: "server_health (view w) i = Some h"
    and F: "\<And>method cfg u. view (after (GetChecker F method cfg) u) = view u \<and> result (GetChecker F method cfg) u = answer method cfg"
  defines "d' \<equiv> view (after (worker_turn E F) w)"
  shows "rd_lists d' MonitoringQueueKey = rest \<and> (\<forall>k. k \<noteq> server_info_key i \<longrightarrow> rd_hashes d' k = rd_hashes (view w) k) \<and>
    (\<forall>j. server_health d' j = (if j = i
      then Some (health_step (mon_failureThreshold E) (answer (check_method (view w) i) (check_config (view w) i)) h)
      else server_health (view w) j))"
proof -
  let ?pop = "cmd_BLPop (mon_redis E) MonitoringQueueKey" and ?get = "cmd_HGetAll (mon_redis E) (server_info_key i)"
  let ?c = "GetChecker F (check_method (view w) i) (check_config (view w) i)"
  have pop: "result ?pop w = Inr i" using rds.BLPop_up [of w MonitoringQueueKey i rest] q by simp
  define w1 where "w1 = after ?pop w"
  have v1: "view w1 = do_LPop MonitoringQueueKey (view w)" using rds.BLPop_ok [OF pop] by (simp add: w1_def)
  define w2 where "w2 = after ?c (after ?get w1)"
  have v2: "view w2 = view w1" using F by (simp add: w2_def)
  have ne: "rd_hashes (view w1) (server_info_key i) \<noteq> []"
    using h by (auto simp: server_health_def v1 Let_def split: if_splits)
  have "after (worker_turn E F) w = after (Evaluate E i (lookup (rd_hashes (view w) (server_info_key i)) ''ipv4'')
      (answer (check_method (view w) i) (check_config (view w) i))) w2"
    using pop ne F by (simp add: worker_turn_def processServer_def rds.HGetAll_up v1 w2_def check_method_def check_config_def flip: w1_def)
  moreover have "server_health (view w2) i = Some h" using h by (simp add: v2 v1)
  ultimately have e: "evaluated (mon_failureThreshold E) i h
      (health_step (mon_failureThreshold E) (answer (check_method (view w) i) (check_config (view w) i)) h) (view w2) d'"
    using Evaluate_up by (simp add: d'_def)
  then show ?thesis
    using evaluated_other [OF e] q by (auto simp: evaluated_def same_keys_def v2 v1)
qed

text \<open>With as many turns as there are servers in the queue, each is checked once.\<close>

lemma workers_up:
  assumes "rd_lists (view w) MonitoringQueueKey = xs" and "distinct xs" and "\<forall>i \<in> set xs. server_health (view w) i \<noteq> None"
    and F: "\<And>method cfg u. view (after (GetChecker F method cfg) u) = view u \<and> result (GetChecker F method cfg) u = answer method cfg"
    and "length xs \<le> length turns"
  defines "d' \<equiv> view (after (for_each turns (\<lambda>_. worker_turn E F)) w)"
  shows "rd_lists d' MonitoringQueueKey = [] \<and> (\<forall>j. server_health d' j = (if j \<in> set xs
      then map_option (health_step (mon_failureThreshold E) (answer (check_method (view w) j) (check_config (view w) j))) (server_health (view w) j)
      else server_health (view w) j))"
  using assms(1-3,5) unfolding d'_def
proof (induction turns arbitrary: xs w)
  case Nil
  then show ?case by simp
next
  case (Cons t ts)
  let ?w = "after (worker_turn E F) w"
  show ?case
  proof (cases xs)
    case Nil
    with Cons.prems(1) have "view ?w = view w" by (intro worker_idle) simp
    with Cons.IH [of ?w "[]"] Cons.prems Nil show ?thesis by simp
  next
    case (Cons i rest)
    then obtain h where h: "server_health (view w) i = Some h" using Cons.prems(3) by auto
    from Cons.prems(1) Cons have q: "rd_lists (view w) MonitoringQueueKey = i # rest" by simp
    note t = worker_turn_up [OF q h F]
    have cfg: "check_method (view ?w) j = check_method (view w) j \<and> check_config (view ?w) j = check_config (view w) j"
      if "j \<noteq> i" for j
      using t that by (simp add: check_method_def check_config_def)
    have "i \<notin> set rest" using Cons Cons.prems(2) by simp
    have "rd_lists (view (after (for_each ts (\<lambda>_. worker_turn E F)) ?w)) MonitoringQueueKey = [] \<and>
        (\<forall>j. server_health (view (after (for_each ts (\<lambda>_. worker_turn E F)) ?w)) j = (if j \<in> set rest
          then map_option (health_step (mon_failureThreshold E) (answer (check_method (view ?w) j) (check_config (view ?w) j))) (server_health (view ?w) j)
          else server_health (view ?w) j))"
      using t Cons Cons.prems by (intro Cons.IH) auto
    then show ?thesis using t cfg \<open>i \<notin> set rest\<close> Cons h by auto
  qed
qed

end

end
