(* ===== verification/Management_Properties.thy ===== *)
theory Management_Properties
  imports Management_Batches Monitoring_Runs
begin

text \<open>
  The properties of \<open>sms-management\<close>, with witnesses in a world of plain data, and of its exchange of
  events with \<open>sms-monitoring\<close>.
\<close>

section \<open>A reference environment\<close>

definition complete_server :: "string \<Rightarrow> Server \<Rightarrow> Server" where
  "complete_server i r = r\<lparr>srv_ServerID := i,
     srv_CurrentStatus := (if srv_CurrentStatus r = [] then ''UNKNOWN'' else srv_CurrentStatus r),
     srv_HealthCheckMethod := (if srv_HealthCheckMethod r = [] then ''ICMP'' else srv_HealthCheckMethod r)\<rparr>"

definition ref_servers :: "(management_db world, Server) table" where
  "ref_servers = mem_table mdb_servers mdb_servers_update servers_uniq (fill_rows srv_ServerID complete_server [] fresh_key) server_stamp"

definition ref_outbox :: "(management_db world, OutboxEvent) table" where
  "ref_outbox = mem_table mdb_outbox mdb_outbox_update outbox_uniq (\<lambda>old rs. rs) outbox_stamp"

definition mem_tx ::
  "(management_db world, service_error + Server list) state \<Rightarrow> (management_db world, service_error + Server list) state" where
  "mem_tx m = State (\<lambda>w. case result m w of
     Inl e \<Rightarrow> (Inl e, (after m w)\<lparr>wv := (wv w)\<lparr>mdb_redis := mdb_redis (wv (after m w))\<rparr>\<rparr>)
   | Inr xs \<Rightarrow> (Inr xs, after m w))"

definition ref_management :: "management_db world management_env" where
  "ref_management = \<lparr>mg_servers = ref_servers, mg_outbox = ref_outbox, mg_tx = mem_tx, mg_Now = mem_Now,
     mg_uuid_New = State (\<lambda>w. (fresh_key (map ev_ID (mdb_outbox (wv w))), w)),
     mg_ParseRequestURI = (\<lambda>s. s \<noteq> []), mg_Encrypt = (\<lambda>k. ret (Inr (''sealed:'' @ k))), mg_ILIKE = (\<lambda>s p. True),
     mg_Order = (\<lambda>c x y. True), mg_redis = mem_redis mdb_redis mdb_redis_update,
     mg_streamName = ''sms.events.server'', mg_batchSize = 50, mg_maxLen = 10000\<rparr>"

interpretation ref_servers: sql_table_up ref_servers wclock wv mdb_servers mdb_servers_update servers_uniq server_filled server_stamp
  unfolding ref_servers_def
proof (rule mem_table_up)
  fix old rs
  have "server_filled r (complete_server k r)" if "k \<noteq> []" "srv_ServerID r \<noteq> [] \<Longrightarrow> k = srv_ServerID r" for k r
    unfolding server_filled_def complete_server_def
    by (intro exI [of _ k] exI [of _ "srv_CreatedAt r"] exI [of _ "srv_UpdatedAt r"]) (use that in auto)
  then show "list_all2 server_filled rs (fill_rows srv_ServerID complete_server [] fresh_key old rs)"
    by (rule fill_rows_all2_key [OF fresh_key_notin])
  fix rs'
  assume f: "list_all2 server_filled rs rs'" and u: "servers_uniq (old @ rs')"
  from f have "list_all2 (\<lambda>r r'. srv_ServerID r \<noteq> [] \<longrightarrow> srv_ServerID r' = srv_ServerID r) rs rs'"
    by (rule list.rel_mono_strong) (auto simp: server_filled_def)
  moreover have "srv_ServerID (complete_server k r) = k" for k r by (simp add: complete_server_def)
  moreover have "distinct (map srv_ServerID (old @ rs'))" using u unfolding servers_uniq_def by blast
  ultimately have "distinct (map srv_ServerID (old @ fill_rows srv_ServerID complete_server [] fresh_key old rs))"
    by (intro fill_rows_distinct [OF fresh_key_notin])
  moreover have "map srv_ServerName rs' = map srv_ServerName rs" "map srv_IPv4 rs' = map srv_IPv4 rs"
    using f by (induction rule: list_all2_induct) (auto simp: server_filled_def)
  moreover have "map srv_ServerName (fill_rows srv_ServerID complete_server [] fresh_key old rs) = map srv_ServerName rs"
    "map srv_IPv4 (fill_rows srv_ServerID complete_server [] fresh_key old rs) = map srv_IPv4 rs"
    by (simp_all add: fill_rows_other complete_server_def)
  ultimately show "servers_uniq (old @ fill_rows srv_ServerID complete_server [] fresh_key old rs)"
    using u unfolding servers_uniq_def map_append by metis
qed

interpretation ref_outbox: sql_table_up ref_outbox wclock wv mdb_outbox mdb_outbox_update outbox_uniq outbox_filled outbox_stamp
  unfolding ref_outbox_def
proof (rule mem_table_up)
  fix old rs :: "OutboxEvent list"
  have "outbox_filled r r" for r
    unfolding outbox_filled_def by (intro exI [of _ "ev_Payload r"] exI [of _ "ev_CreatedAt r"]) simp
  then show "list_all2 outbox_filled rs rs" by (simp add: list_all2_refl)
  fix rs'
  assume f: "list_all2 outbox_filled rs rs'" and u: "outbox_uniq (old @ rs')"
  from f have "map ev_ID rs' = map ev_ID rs" by (induction rule: list_all2_induct) (auto simp: outbox_filled_def)
  with u show "outbox_uniq (old @ rs)" by (simp add: outbox_uniq_def del: set_map)
qed

interpretation ref_mg: management_services_up ref_management wclock wv
proof -
  have r: "redis_server_up (mem_redis mdb_redis mdb_redis_update) wclock wv mdb_redis mdb_redis_update" by (rule mem_redis_up)
  have tx: "result (mem_tx m) w = result m w" "wv (after (mem_tx m) w) =
      (case result m w of Inl e \<Rightarrow> (wv w)\<lparr>mdb_redis := mdb_redis (wv (after m w))\<rparr> | Inr xs \<Rightarrow> wv (after m w))" for m w
    by (auto simp: mem_tx_def result_def after_def split: sum.split)
  show "management_services_up ref_management wclock wv"
    by (simp add: management_services_up_def management_services_def management_services_axioms_def management_services_up_axioms_def
        ref_management_def mem_clock.clock_source_axioms ref_servers.sql_table_axioms ref_servers.sql_table_up_axioms
        ref_outbox.sql_table_axioms ref_outbox.sql_table_up_axioms r r [THEN redis_server_up.axioms(1)] tx)
      (use fresh_key_notin [of "map ev_ID es" for es] in \<open>auto simp: result_def after_def\<close>)
qed

text \<open>One server, whose creation is still to be published.\<close>

definition example_server :: Server where
  "example_server = \<lparr>srv_ServerID = ''s1'', srv_ServerName = ''web'', srv_IPv4 = ''10.1.0.1'', srv_CurrentStatus = ''ONLINE'',
     srv_HealthCheckMethod = ''ICMP'', srv_SSHPort = 0, srv_SSHUser = [], srv_SSHKey = [], srv_AgentEndpoint = [],
     srv_ConsecutiveFailures = 0, srv_CreatedAt = 5, srv_UpdatedAt = 5\<rparr>"

definition example_event :: OutboxEvent where
  "example_event = \<lparr>ev_ID = ''e1'', ev_AggregateType = ''Server'', ev_AggregateID = ''s1'', ev_EventType = EventServerCreated,
     ev_Payload = server_json example_server, ev_IsProcessed = False, ev_CreatedAt = 5\<rparr>"

definition example_management :: "management_db world" where
  "example_management = \<lparr>wv = \<lparr>mdb_servers = [example_server], mdb_outbox = [example_event], mdb_redis = empty_redis\<rparr>, wclock = 9\<rparr>"

lemma example_tells: "tells example_event example_server"
  unfolding tells_def by (intro conjI exI [of _ example_server]) (simp_all add: example_event_def example_server_def)

lemma example_trimmed: "trimmed example_server"
proof -
  have "TrimSpace ''web'' = ''web''" "TrimSpace ''10.1.0.1'' = ''10.1.0.1''" by code_simp+
  then show ?thesis by (simp add: trimmed_def trim_server_def example_server_def)
qed

lemma example_truth: "outbox_truth (wv example_management)"
  using example_tells example_trimmed
  by (auto simp: outbox_truth_def example_management_def servers_uniq_def example_event_def example_server_def split: if_splits)

lemma ref_orders: "total_orders ref_management"
  by (simp add: total_orders_def ref_management_def transp_def)

section \<open>Properties\<close>

text \<open>
  C1: the outbox tells the truth. Whatever requests, status messages and turns of the relay the
  service handles, with whatever failures of the database and of Redis on the way: ids, names and
  addresses stay unique, the last event of every server describes the server as it is, and no
  server is missing whose last event is not its deletion. A change and its event are never torn apart.
\<close>

theorem outbox_tells_the_truth:
  assumes "management_services E clock view" and "total_orders E" and "outbox_truth (view w)"
  shows "outbox_truth (view (after (for_each rs (management_serve E)) w))"
  using assms by (rule management_services.serve_all_truth)

definition example_input :: ServerInput where
  "example_input = \<lparr>in_ServerName = '' db '', in_IPv4 = ''10.1.0.2'', in_HealthCheckMethod = ''SSH'', in_SSHPort = 22,
     in_SSHUser = ''root'', in_SSHKey = ''PRIVATE KEY'', in_AgentEndpoint = []\<rparr>"

definition example_book :: "unit excelize" where
  "example_book = \<lparr>xl_OpenReader = (\<lambda>bytes. Some ()), xl_GetSheetName = (\<lambda>b. ''Sheet1''),
     xl_Rows = (\<lambda>b name. Some [[''Name'', ''IPv4''], [''a'', ''10.0.0.1''], [], [''b''], [''web'', ''10.0.0.9'']]),
     xl_WriteTable = (\<lambda>header rows. None)\<rparr>"

theorem outbox_tells_the_truth_witness:
  "outbox_truth (wv (after (for_each [MDelete ''s1'', MRelay, MUpdate ''s1'' example_input, MImport example_book [], MCreate example_input]
     (management_serve ref_management)) example_management))"
  by (rule outbox_tells_the_truth [OF ref_mg.management_services_axioms ref_orders example_truth])



text \<open>
  C18: \<open>UpdateServer\<close> changes one server or nothing. The new values are stored with their event, under
  the same id; a new address or method makes the status unknown, otherwise it is kept; an empty key
  in the request keeps the stored one; names and addresses stay unique.
\<close>

theorem update_server_outcome:
  assumes "management_services E clock view" and "d = view w" and "d' = view (after (UpdateServer E i input) w)"
  shows "case result (UpdateServer E i input) w of
      Inl e \<Rightarrow> d' = d
    | Inr s \<Rightarrow> (\<exists>old \<in> set (mdb_servers d). srv_ServerID old = i \<and> srv_ServerID s = i \<and>
        srv_ServerName s = TrimSpace (in_ServerName input) \<and> srv_IPv4 s = TrimSpace (in_IPv4 input) \<and>
        srv_HealthCheckMethod s = in_HealthCheckMethod input \<and>
        srv_CurrentStatus s = (if srv_HealthCheckMethod old \<noteq> in_HealthCheckMethod input \<or> srv_IPv4 old \<noteq> in_IPv4 input
          then ''UNKNOWN'' else srv_CurrentStatus old) \<and>
        (in_SSHKey input = [] \<longrightarrow> srv_SSHKey s = srv_SSHKey old) \<and>
        update_check E old (default_input old input) = None) \<and>
        servers_uniq (mdb_servers d') \<and>
        (\<exists>u. mdb_servers d' = upd_rows (\<lambda>r. srv_ServerID r = i) (\<lambda>r. server_stamp u (write_columns s r)) (mdb_servers d)) \<and>
        (\<exists>e. mdb_outbox d' = mdb_outbox d @ [e] \<and> new_event EventServerUpdated s e)"
proof (cases "result (UpdateServer E i input) w")
  case (Inl e)
  then show ?thesis
    using management_services.UpdateServer_atomic [OF assms(1), of w i input] by (simp add: atomically_def assms(2,3))
next
  case (Inr s)
  with management_services.UpdateServer_atomic [OF assms(1), of w i input, unfolded atomically_def, folded assms(2,3)]
  obtain old key where old: "old \<in> set (mdb_servers d)" "srv_ServerID old = i" "update_check E old (default_input old input) = None"
      "in_SSHKey input = [] \<longrightarrow> key = srv_SSHKey old" and u: "did_update (new_server old (default_input old input) key) d s d'"
    by auto
  let ?new = "trim_server (new_server old (default_input old input) key)"
  from u obtain t e d1 where s: "s = ?new\<lparr>srv_UpdatedAt := t\<rparr>" and d1: "updated ?new d d1"
    and e: "new_event EventServerUpdated s e" "d' = d1\<lparr>mdb_outbox := mdb_outbox d1 @ [e]\<rparr>" by (auto simp: did_update_def)
  have i: "srv_ServerID ?new = i" and c: "write_columns ?new = write_columns s"
    by (simp_all add: s trim_server_def new_server_def updated_server_def old(2) write_columns_def fun_eq_iff)
  have f: "srv_ServerID s = i \<and> srv_ServerName s = TrimSpace (in_ServerName input) \<and> srv_IPv4 s = TrimSpace (in_IPv4 input) \<and>
      srv_HealthCheckMethod s = in_HealthCheckMethod input \<and>
      srv_CurrentStatus s = (if srv_HealthCheckMethod old \<noteq> in_HealthCheckMethod input \<or> srv_IPv4 old \<noteq> in_IPv4 input
        then ''UNKNOWN'' else srv_CurrentStatus old) \<and> (in_SSHKey input = [] \<longrightarrow> srv_SSHKey s = srv_SSHKey old)"
    using old(2,4) by (simp add: s trim_server_def new_server_def updated_server_def default_input_def management_StatusUnknown_def)
  have "servers_uniq (mdb_servers d') \<and> mdb_outbox d' = mdb_outbox d @ [e] \<and>
      (\<exists>u. mdb_servers d' = upd_rows (\<lambda>r. srv_ServerID r = i) (\<lambda>r. server_stamp u (write_columns s r)) (mdb_servers d))"
    using d1 unfolding updated_def e(2) i c by auto
  with Inr old(1-3) f e(1) show ?thesis by auto
qed

theorem update_server_outcome_witness:
  "\<exists>s. result (UpdateServer ref_management ''s1'' (example_input\<lparr>in_HealthCheckMethod := ''ICMP'', in_IPv4 := ''10.1.0.1''\<rparr>)) example_management = Inr s \<and>
     srv_CurrentStatus s = ''ONLINE''"
proof -
  have t: "TrimSpace '' db '' = ''db''" "TrimSpace ''10.1.0.1'' = ''10.1.0.1''" by code_simp+
  have f: "fresh_key [''e1''] \<noteq> ''e1''" using fresh_key_notin [of "[''e1'']"] by simp
  have "\<exists>s. result (UpdateServer ref_management ''s1'' (example_input\<lparr>in_HealthCheckMethod := ''ICMP'', in_IPv4 := ''10.1.0.1''\<rparr>)) example_management = Inr s"
    using f
    by (simp add: UpdateServer_def find_server_def GetByID_def GetByName_def repo_First_def absent_def lift_check_def update_check_def agent_check_def
        default_input_def updated_server_def encrypt_key_def write_with_event_def in_repo_def repo_Update_def NewOutboxEvent_def outbox_Create_def
        ref_management_def ref_servers_def ref_outbox_def mem_table_defs mem_tx_def mem_Now_def State_simps example_input_def example_management_def
        example_server_def example_event_def Let_def method_defs t trim_server_def servers_uniq_def outbox_uniq_def upd_rows_def write_columns_def
        server_stamp_def)
  moreover note update_server_outcome [OF ref_mg.management_services_axioms refl refl, of "''s1''"
      "example_input\<lparr>in_HealthCheckMethod := ''ICMP'', in_IPv4 := ''10.1.0.1''\<rparr>" example_management]
  ultimately show ?thesis by (auto simp: example_management_def example_server_def)
qed

text \<open>
  C7: the relay never loses an event. A turn takes the oldest events that are not yet processed,
  in the order of their times, and marks them only when all of them stand at the end of the stream,
  in that order; if anything fails before, no event is marked and the next turn takes them again.
\<close>

theorem relay_marks_what_it_published:
  assumes "management_services E clock view" and "0 \<le> mg_batchSize E" and "mg_batchSize E \<le> mg_maxLen E"
    and "d = view w" and "d' = view (after (processOutboxEvents E) w)"
  shows "mdb_servers d' = mdb_servers d \<and>
    (mdb_outbox d' = mdb_outbox d \<or>
     (\<exists>b old. oldest (mg_batchSize E) (unprocessed d) b \<and>
        rd_streams (mdb_redis d') (mg_streamName E) = old @ map outbox_fields b \<and>
        mdb_outbox d' = upd_rows (\<lambda>e. ev_ID e \<in> ev_ID ` set b) (\<lambda>e. e\<lparr>ev_IsProcessed := True\<rparr>) (mdb_outbox d)))"
proof (cases rule: management_services.relay_cases [OF assms(1), of w])
  case (1 R)
  then show ?thesis by (simp add: assms(4,5))
next
  case (2 b n)
  have "int (length b) \<le> mg_maxLen E" using oldest_length [OF 2(1) assms(2)] assms(2,3) by simp
  with 2(2) obtain old where
    "rd_streams (do_XAdds n (mg_streamName E) (map outbox_fields b) (mdb_redis (view w))) (mg_streamName E) = old @ map outbox_fields b"
    by (auto elim!: do_XAdds_suffix [where es = "map outbox_fields b", rotated -1])
  moreover have "mdb_outbox d' = upd_rows (\<lambda>e. ev_ID e \<in> ev_ID ` set b) (\<lambda>e. e\<lparr>ev_IsProcessed := True\<rparr>) (mdb_outbox d)"
    unfolding assms(4,5) 2(3) by (simp add: marked_def)
  ultimately show ?thesis using 2(1,3) unfolding assms(4,5) by auto
qed

theorem relay_marks_what_it_published_witness:
  "mdb_servers (wv (after (processOutboxEvents ref_management) example_management)) = [example_server]"
  using relay_marks_what_it_published [OF ref_mg.management_services_axioms _ _ refl refl, of example_management]
  by (simp add: ref_management_def example_management_def)



text \<open>
  C19: an import accounts for every row. A successful import reports each row of the first sheet that
  is not blank either among the created servers or among the failed ones; the servers that it
  reports as created, in this order and no others, are now in the table.
\<close>

theorem import_accounts_for_rows:
  assumes "management_services E clock view" and "result (ImportServers X E bytes) w = Inr res"
  shows "\<exists>f header rows i j added. xl_OpenReader X bytes = Some f \<and> xl_Rows X f (xl_GetSheetName X f) = Some (header # rows) \<and>
    header_index [''server name'', ''server_name'', ''name''] header = Some i \<and> header_index [''ipv4'', ''ip''] header = Some j \<and>
    ir_SuccessCount res + ir_FailCount res = int (length (filter (filled_row i j) rows)) \<and>
    ir_FailCount res = int (length (ir_FailedServers res)) \<and>
    ir_SuccessCount res = int (length added) \<and> ir_SuccessfulServers res = map srv_ServerName added \<and>
    mdb_servers (view (after (ImportServers X E bytes) w)) = mdb_servers (view w) @ added"
  by (rule management_services.ImportServers_done [OF assms]) blast

theorem import_accounts_for_rows_witness:
  "\<exists>res. result (ImportServers example_book ref_management []) example_management = Inr res \<and> ir_SuccessCount res + ir_FailCount res = 3"
proof -
  have h: "header_index [''server name'', ''server_name'', ''name''] [''Name'', ''IPv4''] = Some 0"
    "header_index [''ipv4'', ''ip''] [''Name'', ''IPv4''] = Some 1" by code_simp+
  have t: "TrimSpace ''a'' = ''a''" "TrimSpace ''b'' = ''b''" "TrimSpace ''web'' = ''web''" "TrimSpace ''10.0.0.1'' = ''10.0.0.1''"
    "TrimSpace ''10.0.0.9'' = ''10.0.0.9''" "is_ipv4 ''10.0.0.1''" "is_ipv4 ''10.0.0.9''" by code_simp+
  have f: "fresh_key [''e1''] \<noteq> ''e1''" "fresh_key [''s1''] \<noteq> ''s1''" "fresh_key [[], ''s1''] \<noteq> ''s1''"
    using fresh_key_notin [of "[''e1'']"] fresh_key_notin [of "[''s1'']"] fresh_key_notin [of "[[], ''s1'']"] by simp_all
  have "\<exists>res. result (ImportServers example_book ref_management []) example_management = Inr res"
    using f
    by (simp add: ImportServers_def example_book_def h column_def t maxFileSize_def batchSize_def imported_server_def processBatch_def
        wrapped_def FindByNamesOrIPv4s_def repo_BatchCreate_def NewOutboxEvent_def outbox_BatchCreate_def
        ref_management_def ref_servers_def ref_outbox_def mem_table_defs mem_tx_def mem_Now_def State_simps example_management_def
        example_server_def example_event_def Let_def servers_uniq_def outbox_uniq_def fill_rows_def complete_server_def)
  then obtain res where r: "result (ImportServers example_book ref_management []) example_management = Inr res" ..
  from import_accounts_for_rows [OF ref_mg.management_services_axioms r]
  have "ir_SuccessCount res + ir_FailCount res = 3" by (auto simp: example_book_def h filled_row_def column_def t)
  with r show ?thesis by blast
qed

end
