(* ===== verification/Monitoring_Properties.thy ===== *)
theory Monitoring_Properties
  imports Monitoring_Runs
begin

text \<open>
  The properties of \<open>sms-monitoring\<close>, with witnesses in a world of plain data.
\<close>

definition ref_monitoring :: "redis_db world monitoring_env" where
  "ref_monitoring = \<lparr>mon_redis = mem_redis id (\<lambda>f. f), mon_Now = mem_Now, mon_LogObservation = (\<lambda>i b. ret ()),
     mon_failureThreshold = 3, mon_maxLen = 1000\<rparr>"

interpretation ref_mon: monitoring_services_up ref_monitoring wclock wv
proof -
  have "redis_server_up (mem_redis id (\<lambda>f. f)) wclock (wv :: redis_db world \<Rightarrow> redis_db) id (\<lambda>f. f)"
    by (rule mem_redis_up)
  then show "monitoring_services_up ref_monitoring wclock wv"
    by (simp add: monitoring_services_up_def monitoring_services_def monitoring_services_axioms_def
        redis_server_up_def ref_monitoring_def mem_clock.clock_source_axioms)
qed

text \<open>Two servers: \<open>s1\<close> is polled and has failed twice, \<open>s2\<close> pushes heartbeats.\<close>

definition example_cache :: "redis_db world" where
  "example_cache = \<lparr>wv = empty_redis\<lparr>
       rd_hashes := (\<lambda>_. [])
         (server_info_key ''s1'' := [(''ipv4'', ''10.1.0.1''), (''status'', ''ONLINE''), (''retry_count'', ''2''),
            (''health_check_method'', ''ICMP'')],
          server_info_key ''s2'' := [(''ipv4'', ''10.1.0.2''), (''status'', ''ONLINE''), (''retry_count'', ''0''),
            (''health_check_method'', ''AGENT_PUSH'')]),
       rd_sets := (\<lambda>_. [])(ServerAllIDsKey := [''s1'', ''s2'']),
       rd_zsets := (\<lambda>_. [])(AgentHeartbeatZSetKey := [(''s2'', 100)])\<rparr>,
     wclock = (62135596800 + 200) * Second\<rparr>"

lemma example_health:
  "server_health (wv example_cache) ''s1'' = Some (Up 2)" "server_health (wv example_cache) ''s2'' = Some (Up 0)"
  by code_simp+

text \<open>
  C2: \<open>Evaluate\<close> implements the abstract machine of a server's health: it does not fail, takes one
  step of the machine on the state in Redis, publishes an event exactly when the status changes,
  with the new status and count, and touches nothing else.
\<close>

theorem Evaluate_refines_health_step:
  assumes "monitoring_services_up E clock view" and "server_health (view w) i = Some h"
  shows "result (Evaluate E i ip ok) w = Inr () \<and>
    evaluated (mon_failureThreshold E) i h (health_step (mon_failureThreshold E) ok h) (view w) (view (after (Evaluate E i ip ok) w))"
  using assms by (rule monitoring_services_up.Evaluate_up)

theorem Evaluate_refines_health_step_witness:
  "evaluated 3 ''s1'' (Up 2) Down (wv example_cache) (wv (after (Evaluate ref_monitoring ''s1'' ''10.1.0.1'' False) example_cache))"
  using Evaluate_refines_health_step [OF ref_mon.monitoring_services_up_axioms example_health(1), of "''10.1.0.1''" False]
  by (simp add: ref_monitoring_def)

text \<open>
  C6: no flapping. Whatever happened before, after a success and \<open>n\<close> failures in a row a server is
  offline exactly if \<open>n\<close> has reached the threshold; before that it is online and \<open>n\<close> is its count.
\<close>

theorem offline_exactly_at_threshold:
  assumes "monitoring_services_up E clock view" and "server_health (view w) i = Some h"
  shows "server_health (view (after (for_each (bs @ True # replicate n False) (\<lambda>b. attempt (Evaluate E i ip b))) w)) i =
    Some (if n > 0 \<and> int n \<ge> mon_failureThreshold E then Down else Up (int n))"
  using monitoring_services_up.Evaluate_run [OF assms, of "bs @ True # replicate n False" ip]
  by (simp add: health_run_append health_run_failures)

theorem offline_exactly_at_threshold_witness:
  "server_health (wv (after (for_each [False, True, False, False] (\<lambda>b. attempt (Evaluate ref_monitoring ''s1'' [] b))) example_cache)) ''s1'' =
   Some (Up 2)"
  using offline_exactly_at_threshold [OF ref_mon.monitoring_services_up_axioms example_health(1), of "[False]" 2 "[]"]
  by (simp add: ref_monitoring_def numeral_2_eq_2)

text \<open>
  C31: a sweep takes the agents whose last heartbeat is older than the timeout, and only those: each
  is counted as one failed check and leaves the set of heartbeats, the others keep their entry and
  their health.
\<close>

theorem sweep_fails_missing_agents:
  assumes "monitoring_services_up E clock view"
    and "distinct (map fst zs)" and "rd_zsets (view w) AgentHeartbeatZSetKey = zs"
    and "\<forall>(i, s) \<in> set zs. rd_hashes (view w) (server_info_key i) = [] \<or> server_health (view w) i \<noteq> None"
    and "limit = Unix (clock w) - timeoutSec"
  shows "rd_zsets (view (after (sweep E timeoutSec) w)) AgentHeartbeatZSetKey = filter (\<lambda>(i, s). s > limit) zs \<and>
    (\<forall>j. server_health (view (after (sweep E timeoutSec) w)) j =
      (if \<exists>s \<le> limit. (j, s) \<in> set zs then map_option (health_step (mon_failureThreshold E) False) (server_health (view w) j)
       else server_health (view w) j))"
  using monitoring_services_up.sweep_up [OF assms(1-4)] assms(5) by simp

theorem sweep_fails_missing_agents_witness:
  "rd_zsets (wv (after (sweep ref_monitoring 60) example_cache)) AgentHeartbeatZSetKey = [] \<and>
   server_health (wv (after (sweep ref_monitoring 60) example_cache)) ''s2'' = Some (Up 1)"
proof -
  have "rd_zsets (wv example_cache) AgentHeartbeatZSetKey = [(''s2'', 100)]" "Unix (wclock example_cache) - 60 = 140"
    by code_simp+
  with sweep_fails_missing_agents [OF ref_mon.monitoring_services_up_axioms, of "[(''s2'', 100)]" example_cache 140 60]
  show ?thesis by (simp add: example_health ref_monitoring_def)
qed



text \<open>
  C22: every polled server is checked. After a producer cycle on an empty queue, a run of the worker
  pool with as many turns as there are polled servers empties the queue, and each of these servers
  has taken one step with the answer of the checker of its own method; no other server has changed.
\<close>

theorem every_polled_server_is_checked:
  assumes "monitoring_services_up E clock view" and "\<not> live (clock w) (rd_strings (view w) lockKey)"
    and "rd_lists (view w) MonitoringQueueKey = []" and "distinct (rd_sets (view w) ServerAllIDsKey)"
    and "ps = filter (polled (view w)) (rd_sets (view w) ServerAllIDsKey)"
    and "\<forall>i \<in> set ps. server_health (view w) i \<noteq> None"
    and "\<And>method cfg u. view (after (GetChecker F method cfg) u) = view u \<and> result (GetChecker F method cfg) u = answer method cfg"
    and "length ps \<le> length (filter (\<lambda>workerID. int workerID < concurrency) schedule)"
    and "d' = view (after (do { runProducerCycle (mon_redis E) lockKey tick; pool_Run E F concurrency schedule }) w)"
  shows "rd_lists d' MonitoringQueueKey = [] \<and> (\<forall>i. server_health d' i = (if i \<in> set ps
      then map_option (health_step (mon_failureThreshold E) (answer (check_method (view w) i) (check_config (view w) i)))
        (server_health (view w) i)
      else server_health (view w) i))"
proof -
  let ?w = "after (runProducerCycle (mon_redis E) lockKey tick) w"
  obtain xs where xs: "mset xs = mset ps"
    and v: "view ?w = do_RPush MonitoringQueueKey xs (do_Set lockKey ''locked'' (clock w + lock_expiration tick) (view w))"
    using monitoring_services_up.runProducerCycle_up(3) [OF assms(1-3)] assms(5) by blast
  have h: "rd_hashes (view ?w) = rd_hashes (view w)" by (simp add: v do_RPush_def do_Set_def)
  then have same: "server_health (view ?w) i = server_health (view w) i" "check_method (view ?w) i = check_method (view w) i"
    "check_config (view ?w) i = check_config (view w) i" for i
    by (simp_all add: server_health_def check_method_def check_config_def)
  have ps: "set xs = set ps" "distinct xs" "length xs = length ps"
    using mset_eq_setD [OF xs] mset_eq_length [OF xs] mset_eq_imp_distinct_iff [OF xs] assms(4,5) by simp_all
  have "rd_lists (view ?w) MonitoringQueueKey = xs" using assms(3) by (simp add: v do_RPush_def do_Set_def)
  note run = monitoring_services_up.workers_up [OF assms(1) this ps(2) _ assms(7), of "filter (\<lambda>workerID. int workerID < concurrency) schedule"]
  show ?thesis using run assms(6,8) by (simp add: assms(9) pool_Run_def same ps)
qed

definition example_checkers :: "redis_db world checkerFactory" where
  "example_checkers = \<lparr>fac_icmp = (\<lambda>cfg. ret False), fac_ssh = (\<lambda>cfg. ret True), fac_agentPull = (\<lambda>cfg. ret True)\<rparr>"

theorem every_polled_server_is_checked_witness:
  "server_health (wv (after (do { runProducerCycle (mon_redis ref_monitoring) ''lock'' Minute;
     pool_Run ref_monitoring example_checkers 2 [0, 1, 5] }) example_cache)) ''s1'' = Some Down"
proof -
  have cache: "\<not> live (wclock example_cache) (rd_strings (wv example_cache) ''lock'')"
    "rd_lists (wv example_cache) MonitoringQueueKey = []" "distinct (rd_sets (wv example_cache) ServerAllIDsKey)"
    "[''s1''] = filter (polled (wv example_cache)) (rd_sets (wv example_cache) ServerAllIDsKey)"
    by (simp_all add: example_cache_def empty_redis_def live_def polled_def HealthCheckMethodAgentPush_def)
  have health: "\<forall>i \<in> set [''s1'']. server_health (wv example_cache) i \<noteq> None" by (simp add: example_health)
  have checkers: "wv (after (GetChecker example_checkers how cfg) u) = wv u \<and>
      result (GetChecker example_checkers how cfg) u = (how = ''SSH'' \<or> how = ''AGENT_PULL'')" for how cfg u
    by (simp add: GetChecker_def example_checkers_def)
  have turns: "length [''s1''] \<le> length (filter (\<lambda>workerID. int workerID < 2) [0, 1, 5])" by simp
  have "check_method (wv example_cache) ''s1'' = ''ICMP''"
    by (simp add: check_method_def example_cache_def lookup_def server_info_key_def)
  moreover note every_polled_server_is_checked [OF ref_mon.monitoring_services_up_axioms cache health checkers turns refl, of Minute]
  ultimately show ?thesis by (simp add: example_health ref_monitoring_def)
qed

end
