(* ===== verification/Exchange.thy ===== *)
theory Exchange
  imports Management_Properties Monitoring_Properties
begin

text \<open>
  The exchange between \<open>sms-management\<close> and \<open>sms-monitoring\<close>: the events of the outbox bring the
  configuration of the servers into the cache of the monitoring service, and its status events come
  back into the table of servers.
\<close>

section \<open>Reading an object whose members were stored in another order\<close>

lemma fold_filter_id: "(\<And>x a. \<not> P x \<Longrightarrow> f x a = a) \<Longrightarrow> fold f xs a = fold f (filter P xs) a"
  by (induction xs arbitrary: a) auto

lemma filter_member: "filter P xs = [x] \<Longrightarrow> P x"
proof -
  assume f: "filter P xs = [x]"
  have "x \<in> set (filter P xs)" by (simp add: f)
  then show "P x" by simp
qed

lemma get_string_unique:
  assumes "filter (\<lambda>(k, v). fold_name k = fold_name name) ms = [(k, JStr s)]"
  shows "get_string ms name = Some s"
proof -
  have "fold_name k = fold_name name"
    using filter_member [OF assms] by simp
  then show ?thesis
    unfolding get_string_def
    by (subst fold_filter_id [where P = "\<lambda>(k, v). fold_name k = fold_name name"]) (auto simp: assms)
qed

lemma get_int_unique:
  assumes "filter (\<lambda>(k, v). fold_name k = fold_name name) ms = [(k, JNum l)]"
  shows "get_int ms name = int_literal l"
proof -
  have "fold_name k = fold_name name"
    using filter_member [OF assms] by simp
  then show ?thesis
    unfolding get_int_def
    by (subst fold_filter_id [where P = "\<lambda>(k, v). fold_name k = fold_name name"]) (auto simp: assms)
qed

lemma filter_mset_single: "mset ms' = mset ms \<Longrightarrow> filter P ms = [x] \<Longrightarrow> filter P ms' = [x]"
  by (metis mset_filter mset_single_iff)

text \<open>The names of the members of a server, folded: no two agree.\<close>

lemma server_names:
  "fold_name ''server_id'' = ''SERVER_ID''" "fold_name ''server_name'' = ''SERVER_NAME''" "fold_name ''ipv4'' = ''IPV4''"
  "fold_name ''current_status'' = ''CURRENT_STATUS''" "fold_name ''health_check_method'' = ''HEALTH_CHECK_METHOD''"
  "fold_name ''ssh_port'' = ''SSH_PORT''" "fold_name ''ssh_user'' = ''SSH_USER''" "fold_name ''ssh_key'' = ''SSH_KEY''"
  "fold_name ''agent_endpoint'' = ''AGENT_ENDPOINT''" "fold_name ''consecutive_failures'' = ''CONSECUTIVE_FAILURES''"
  "fold_name ''created_at'' = ''CREATED_AT''" "fold_name ''updated_at'' = ''UPDATED_AT''"
  "fold_name ''status'' = ''STATUS''" "fold_name ''retry_count'' = ''RETRY_COUNT''"
  by code_simp+

text \<open>What a server needs for its members to travel: text in ASCII and a port that fits.\<close>

definition portable :: "Server \<Rightarrow> bool" where
  "portable s \<longleftrightarrow> ascii (srv_ServerID s) \<and> ascii (srv_ServerName s) \<and> ascii (srv_IPv4 s) \<and> ascii (srv_CurrentStatus s) \<and>
     ascii (srv_HealthCheckMethod s) \<and> ascii (srv_SSHUser s) \<and> ascii (srv_SSHKey s) \<and> ascii (srv_AgentEndpoint s) \<and>
     - (2 ^ 63) \<le> srv_SSHPort s \<and> srv_SSHPort s < 2 ^ 63"

lemma server_members_plain: "portable s \<Longrightarrow> \<forall>(k, v) \<in> set (server_members s). ascii k \<and> plain v"
  by (simp add: server_members_def portable_def)

lemma server_filters:
  "filter (\<lambda>(k, v). fold_name k = fold_name ''server_id'') (server_members s) = [(''server_id'', JStr (srv_ServerID s))]"
  "filter (\<lambda>(k, v). fold_name k = fold_name ''ipv4'') (server_members s) = [(''ipv4'', JStr (srv_IPv4 s))]"
  "filter (\<lambda>(k, v). fold_name k = fold_name ''current_status'') (server_members s) = [(''current_status'', JStr (srv_CurrentStatus s))]"
  "filter (\<lambda>(k, v). fold_name k = fold_name ''health_check_method'') (server_members s) = [(''health_check_method'', JStr (srv_HealthCheckMethod s))]"
  "filter (\<lambda>(k, v). fold_name k = fold_name ''ssh_port'') (server_members s) = [(''ssh_port'', JNum (Itoa (srv_SSHPort s)))]"
  "filter (\<lambda>(k, v). fold_name k = fold_name ''ssh_user'') (server_members s) = [(''ssh_user'', JStr (srv_SSHUser s))]"
  "filter (\<lambda>(k, v). fold_name k = fold_name ''ssh_key'') (server_members s) = [(''ssh_key'', JStr (srv_SSHKey s))]"
  "filter (\<lambda>(k, v). fold_name k = fold_name ''agent_endpoint'') (server_members s) = [(''agent_endpoint'', JStr (srv_AgentEndpoint s))]"
  by (simp_all add: server_members_def server_names JInt_def del: fold_name.simps)

text \<open>The consumer reads from the stored payload what the management service wrote.\<close>

lemma unmarshal_server:
  assumes "portable s" and "jsonb (server_json s) p"
  shows "unmarshal_payload p = Some \<lparr>pl_ID = srv_ServerID s, pl_IPv4 = srv_IPv4 s, pl_CurrentStatus = srv_CurrentStatus s,
    pl_HealthCheckMethod = srv_HealthCheckMethod s, pl_SSHPort = srv_SSHPort s, pl_SSHUser = srv_SSHUser s,
    pl_SSHKey = srv_SSHKey s, pl_AgentEndpoint = srv_AgentEndpoint s\<rparr>"
proof -
  have "parse_json (server_json s) = Some (JObj (server_members s))"
    unfolding server_json_def
    by (rule parse_Marshal [OF _ server_members_plain [OF assms(1)]]) (simp add: server_members_def)
  moreover have "distinct (map fst (server_members s))" by (simp add: server_members_def)
  ultimately obtain ms where ms: "parse_json p = Some (JObj ms)" "mset ms = mset (server_members s)"
    using assms(2) by (auto simp: jsonb_def)
  note f = server_filters [THEN filter_mset_single [OF ms(2)]]
  have "int_literal (Itoa (srv_SSHPort s)) = Some (srv_SSHPort s)" using assms(1) by (simp add: portable_def)
  then show ?thesis
    by (simp add: unmarshal_payload_def json_members_def ms(1) f(1-4,6-8) [THEN get_string_unique] f(5) [THEN get_int_unique])
qed

section \<open>The cache of the monitoring service\<close>

text \<open>The entry of a server in the cache, as the events describe it.\<close>

definition cached :: "Server \<Rightarrow> fields \<Rightarrow> bool" where
  "cached s fvs \<longleftrightarrow>
     (srv_IPv4 s \<noteq> [] \<longrightarrow> lookup fvs ''ipv4'' = srv_IPv4 s) \<and>
     lookup fvs ''status'' = (if srv_CurrentStatus s = [] then ''UNKNOWN'' else srv_CurrentStatus s) \<and>
     lookup fvs ''health_check_method'' = (if srv_HealthCheckMethod s = [] then ''ICMP'' else srv_HealthCheckMethod s) \<and>
     lookup fvs ''ssh_port'' = Itoa (srv_SSHPort s) \<and> lookup fvs ''ssh_user'' = srv_SSHUser s \<and>
     lookup fvs ''ssh_key'' = srv_SSHKey s \<and> lookup fvs ''agent_endpoint'' = srv_AgentEndpoint s"

lemma lookup_update [simp]: "lookup (AList.update f x fvs) g = (if g = f then x else lookup fvs g)"
  by (simp add: lookup_def update_conv')

lemma other_sets [simp]: "rd_sets (do_HSet k fvs d) = rd_sets d" "rd_sets (do_ZAdd k m x d) = rd_sets d"
  "rd_hashes (do_ZAdd k m x d) = rd_hashes d" "rd_hashes (do_SAdd k m d) = rd_hashes d"
  "rd_hashes (do_SRem k m d) = rd_hashes d"
  by (simp_all add: do_HSet_def do_ZAdd_def do_SAdd_def do_SRem_def)

context monitoring_services_up
begin

lemma attempt_simps [simp]: "after (attempt m) w = after m w" "result (attempt m) w = ()"
  by (simp_all add: attempt_def)

lemma hset_up [simp]: "view (after (cmd_HSet (mon_redis E) k fvs) w) = do_HSet k fvs (view w)"
  using rds.redis_writes_up(2) by simp

lemma sadd_up [simp]: "view (after (cmd_SAdd (mon_redis E) k m) w) = do_SAdd k m (view w)"
  using rds.redis_writes_up(3) by simp

lemma zadd_up [simp]: "view (after (cmd_ZAdd (mon_redis E) k m x) w) = do_ZAdd k m x (view w)"
  using rds.redis_writes_up(5) by simp

lemma sync_server_up:
  assumes "d' = view (after (sync_server E \<lparr>pl_ID = srv_ServerID s, pl_IPv4 = srv_IPv4 s, pl_CurrentStatus = srv_CurrentStatus s,
    pl_HealthCheckMethod = srv_HealthCheckMethod s, pl_SSHPort = srv_SSHPort s, pl_SSHUser = srv_SSHUser s,
    pl_SSHKey = srv_SSHKey s, pl_AgentEndpoint = srv_AgentEndpoint s\<rparr>) w)"
  shows "cached s (rd_hashes d' (server_info_key (srv_ServerID s)))"
    and "srv_ServerID s \<in> set (rd_sets d' ServerAllIDsKey)"
    and "k \<noteq> server_info_key (srv_ServerID s) \<Longrightarrow> rd_hashes d' k = rd_hashes (view w) k"
proof -
  note run = assms sync_server_def clk.now_view Let_def
  show "cached s (rd_hashes d' (server_info_key (srv_ServerID s)))"
    unfolding cached_def by (simp add: run)
  show "srv_ServerID s \<in> set (rd_sets d' ServerAllIDsKey)"
    by (simp add: run do_SAdd_def)
  show "k \<noteq> server_info_key (srv_ServerID s) \<Longrightarrow> rd_hashes d' k = rd_hashes (view w) k"
    by (simp add: run)
qed

lemma srem_up [simp]: "view (after (cmd_SRem (mon_redis E) k m) w) = do_SRem k m (view w)"
  using rds.redis_writes_up(4) by simp

lemma del_up [simp]: "view (after (cmd_Del (mon_redis E) k) w) = do_Del k (view w)"
  using rds.redis_writes_up(1) by simp

lemma drop_server_up: "view (after (drop_server E i) w) = do_Del (server_info_key i) (do_SRem ServerAllIDsKey i (view w))"
  by (simp add: drop_server_def)

end

section \<open>Deletions\<close>

text \<open>The payload of a deletion is put together by hand; an id that needs no escapes makes it JSON.\<close>

lemma deleted_payload_json: "escape i = i \<Longrightarrow> deleted_payload i = Marshal (JObj [(''server_id'', JStr i)])"
proof -
  have e: "escape ''server_id'' = ''server_id''" by code_simp
  assume "escape i = i"
  with e show ?thesis by (simp add: deleted_payload_def quoted_def)
qed

lemma unmarshal_deleted:
  assumes "ascii i" and "escape i = i" and "jsonb (deleted_payload i) p"
  shows "\<exists>pl. unmarshal_payload p = Some pl \<and> pl_ID pl = i"
proof -
  have "parse_json (deleted_payload i) = Some (JObj [(''server_id'', JStr i)])"
    unfolding deleted_payload_json [OF assms(2)] using assms(1) by (intro parse_Marshal) simp_all
  then obtain ms where ms: "parse_json p = Some (JObj ms)" "mset ms = mset [(''server_id'', JStr i)]"
    using assms(3) by (auto simp: jsonb_def)
  then have "ms = [(''server_id'', JStr i)]" by (metis mset_single_iff mset.simps(1,2) add_mset_add_single empty_neutral(1))
  with ms(1) show ?thesis
    by (simp add: unmarshal_payload_def json_members_def get_string_def get_int_def server_names del: fold_name.simps)
qed

section \<open>Status events\<close>

lemma status_event_members:
  assumes "ascii i" and "ascii st"
  obtains ms where "json_members (status_payload i st n) = Some ms" and "get_string ms ''server_id'' = Some i"
    and "get_string ms ''status'' = Some st"
proof
  let ?ms = "[(''retry_count'', JInt n), (''server_id'', JStr i), (''status'', JStr st)]"
  show "json_members (status_payload i st n) = Some ?ms"
    unfolding status_payload_def by (rule json_members_Marshal) (simp_all add: assms)
  show "get_string ?ms ''server_id'' = Some i" "get_string ?ms ''status'' = Some st"
    by (simp_all add: get_string_def server_names del: fold_name.simps)
qed

lemma status_processMessage_event:
  assumes "ascii i" and "ascii st" and "i \<noteq> []" and "st \<noteq> []" and "msg_Values msg = status_event i st n"
  shows "status_processMessage E msg = do {
    r \<leftarrow> GetByID E i;
    case r of
      Inl e \<Rightarrow> ret (Inr ())
    | Inr server \<Rightarrow>
        if srv_CurrentStatus server = st then ret (Inr ())
        else do {
          u \<leftarrow> repo_Update E (server\<lparr>srv_CurrentStatus := st\<rparr>);
          ret (case u of Inl e \<Rightarrow> Inl ''update'' | Inr _ \<Rightarrow> Inr ())
        }
  }"
proof -
  obtain ms where "json_members (status_payload i st n) = Some ms" "get_string ms ''server_id'' = Some i"
    "get_string ms ''status'' = Some st" using status_event_members [OF assms(1,2)] by blast
  with assms(3,4) show ?thesis
    by (simp add: status_processMessage_def assms(5) status_event_def)
qed

context management_services_up
begin

lemma GetByID_up:
  assumes "servers_uniq (mdb_servers (view w))" and "s \<in> set (mdb_servers (view w))"
  shows "result (GetByID E (srv_ServerID s)) w = Inr s"
proof -
  have "result (tbl_First (mg_servers E) (\<lambda>r. srv_ServerID r = srv_ServerID s)) w = Inr s"
    using assms by (intro srv.First_unique) (auto simp: servers_uniq_def distinct_map dest: inj_onD)
  then show ?thesis by (simp add: GetByID_def repo_First_def)
qed

lemma status_update_up:
  assumes "servers_uniq (mdb_servers (view w))" and "s \<in> set (mdb_servers (view w))" and "trimmed s"
  obtains x u where "result (repo_Update E (s\<lparr>srv_CurrentStatus := st\<rparr>)) w = Inr x"
    and "view (after (repo_Update E (s\<lparr>srv_CurrentStatus := st\<rparr>)) w) = (view w)\<lparr>mdb_servers :=
      map (\<lambda>r. if srv_ServerID r = srv_ServerID s then server_stamp u (s\<lparr>srv_CurrentStatus := st\<rparr>) else r) (mdb_servers (view w))\<rparr>"
proof -
  let ?new = "s\<lparr>srv_CurrentStatus := st\<rparr>" and ?P = "\<lambda>r. srv_ServerID r = srv_ServerID s" and ?w = "after (mg_Now E) w"
  have t: "trim_server ?new = ?new" using assms(3) by (cases s) (simp add: trimmed_def trim_server_def)
  have r: "r = s" if "r \<in> set (mdb_servers (view w))" "?P r" for r
    using that assms(1,2) by (auto simp: servers_uniq_def distinct_map dest: inj_onD)
  have c: "write_columns ?new s = ?new" by (cases s) (simp add: write_columns_def)
  have rows: "upd_rows ?P (\<lambda>r. server_stamp u (write_columns ?new r)) (mdb_servers (view w)) =
      map (\<lambda>r. if ?P r then server_stamp u ?new else r) (mdb_servers (view w))" for u
  proof -
    have "(if ?P x then server_stamp u (write_columns ?new x) else x) = (if ?P x then server_stamp u ?new else x)"
      if "x \<in> set (mdb_servers (view w))" for x
      using r [OF that] c by (cases "?P x") simp_all
    then show ?thesis by (simp add: upd_rows_def)
  qed
  have "servers_uniq (upd_rows ?P (\<lambda>r. server_stamp u (write_columns ?new r)) (mdb_servers (view ?w)))" for u
  proof -
    have "map h (upd_rows ?P (\<lambda>r. server_stamp u (write_columns ?new r)) (mdb_servers (view w))) = map h (mdb_servers (view w))"
      if "h (server_stamp u ?new) = h s" for h :: "Server \<Rightarrow> string"
    proof (rule map_upd_rows)
      fix x assume "x \<in> set (mdb_servers (view w))" "?P x"
      then have "x = s" by (rule r)
      with c that show "h (server_stamp u (write_columns ?new x)) = h x" by simp
    qed
    from this [of srv_ServerID] this [of srv_ServerName] this [of srv_IPv4] assms(1) show ?thesis
      by (simp add: servers_uniq_def clk.now_view server_stamp_def)
  qed
  then obtain u where "result (tbl_Updates (mg_servers E) ?P (write_columns ?new)) ?w = Inr (int (length (filter ?P (mdb_servers (view ?w)))))"
    "view (after (tbl_Updates (mg_servers E) ?P (write_columns ?new)) ?w) =
       mdb_servers_update (upd_rows ?P (\<lambda>r. server_stamp u (write_columns ?new r))) (view ?w)"
    by (rule srv.Updates_put) blast
  moreover have "length (filter ?P (mdb_servers (view w))) \<noteq> 0" using assms(2) by (auto simp: filter_empty_conv)
  ultimately show thesis
    using that [of _ u] by (simp add: repo_Update_def t clk.now_view servers_put [of "upd_rows P f" for P f] rows)
qed

end

section \<open>Properties\<close>

text \<open>
  C12: the configuration travels. When the relay has published an event of the outbox and
  \<open>sms-monitoring\<close> handles the message, its cache holds the address, the method and the access
  data of the server as they were stored, and the server is among those to be checked; after the
  event of a deletion nothing of the server is left. No other server is touched, and the message
  is acknowledged.
\<close>

theorem outbox_event_updates_cache:
  assumes "monitoring_services_up E clock view" and "msg_Values msg = outbox_fields e" and "i = ev_AggregateID e"
    and "if ev_EventType e = EventServerDeleted then ascii i \<and> escape i = i \<and> jsonb (deleted_payload i) (ev_Payload e)
      else srv_ServerID s = i \<and> portable s \<and> jsonb (server_json s) (ev_Payload e)"
    and "d' = view (after (stream_processMessage E msg) w)"
  shows "result (stream_processMessage E msg) w = Inr () \<and>
    (if ev_EventType e = EventServerDeleted
     then rd_hashes d' (server_info_key i) = [] \<and> i \<notin> set (rd_sets d' ServerAllIDsKey)
     else cached s (rd_hashes d' (server_info_key i)) \<and> i \<in> set (rd_sets d' ServerAllIDsKey)) \<and>
    (\<forall>j. j \<noteq> i \<longrightarrow> rd_hashes d' (server_info_key j) = rd_hashes (view w) (server_info_key j))"
proof (cases "ev_EventType e = EventServerDeleted")
  case True
  with assms(4) obtain pl where "unmarshal_payload (ev_Payload e) = Some pl" "pl_ID pl = i" using unmarshal_deleted by auto
  with True have run: "stream_processMessage E msg = do { drop_server E i; ret (Inr ()) }"
    by (simp add: stream_processMessage_def assms(2) outbox_fields_def event_type_name_def)
  have "server_info_key i \<noteq> ServerAllIDsKey" by (simp add: server_info_key_def ServerAllIDsKey_def)
  with True show ?thesis
    by (simp add: assms(5) run monitoring_services_up.drop_server_up [OF assms(1)] do_Del_def do_SRem_def)
next
  case False
  with assms(4) have s: "srv_ServerID s = i" "portable s" "jsonb (server_json s) (ev_Payload e)" by simp_all
  from False have t: "event_type_name (ev_EventType e) = ''ServerCreated'' \<or> event_type_name (ev_EventType e) = ''ServerUpdated''"
    by (cases "ev_EventType e") (simp_all add: event_type_name_def)
  have run: "stream_processMessage E msg = do { sync_server E \<lparr>pl_ID = srv_ServerID s, pl_IPv4 = srv_IPv4 s,
      pl_CurrentStatus = srv_CurrentStatus s, pl_HealthCheckMethod = srv_HealthCheckMethod s, pl_SSHPort = srv_SSHPort s,
      pl_SSHUser = srv_SSHUser s, pl_SSHKey = srv_SSHKey s, pl_AgentEndpoint = srv_AgentEndpoint s\<rparr>; ret (Inr ()) }"
    using t by (auto simp: stream_processMessage_def assms(2) outbox_fields_def unmarshal_server [OF s(2,3)])
  note c = monitoring_services_up.sync_server_up [OF assms(1), of d' s w]
  show ?thesis using False c assms(5) by (auto simp: run s(1))
qed

theorem outbox_event_updates_cache_witness:
  "lookup (rd_hashes (wv (after (stream_processMessage ref_monitoring \<lparr>msg_ID = ''1-0'', msg_Values = outbox_fields example_event\<rparr>) example_cache))
     (server_info_key ''s1'')) ''status'' = ''ONLINE''"
proof -
  have p: "portable example_server" by (simp add: portable_def example_server_def)
  note outbox_event_updates_cache [OF ref_mon.monitoring_services_up_axioms _ refl _ refl, of "\<lparr>msg_ID = ''1-0'', msg_Values = outbox_fields example_event\<rparr>"
      example_event example_server example_cache]
  then show ?thesis using p by (simp add: example_event_def cached_def example_server_def)
qed

text \<open>
  C33: the status comes back. When \<open>sms-management\<close> handles the event that \<open>sms-monitoring\<close> published
  for a change of status, the server's row shows the new status with its configuration as it was,
  no other row and no event has changed, and the message is acknowledged.
\<close>

theorem status_event_reaches_table:
  assumes "management_services_up E clock view" and "servers_uniq (mdb_servers (view w))"
    and "s \<in> set (mdb_servers (view w))" and "trimmed s" and "ascii (srv_ServerID s)" and "srv_ServerID s \<noteq> []"
    and "ascii st" and "st \<noteq> []" and "msg_Values msg = status_event (srv_ServerID s) st n"
    and "d' = view (after (status_processMessage E msg) w)"
  shows "result (status_processMessage E msg) w = Inr () \<and> mdb_outbox d' = mdb_outbox (view w) \<and>
    (\<exists>t. same_config s t \<and> srv_CurrentStatus t = st \<and>
      mdb_servers d' = map (\<lambda>r. if srv_ServerID r = srv_ServerID s then t else r) (mdb_servers (view w)))"
proof -
  have up: "management_services E clock view" using assms(1) by (simp add: management_services_up_def)
  note run = status_processMessage_event [OF assms(5,7,6,8,9), of E]
  note get = management_services_up.GetByID_up [OF assms(1-3)]
  note v = management_services.GetBy_view(1) [OF up]
  show ?thesis
  proof (cases "srv_CurrentStatus s = st")
    case True
    have "(if srv_ServerID r = srv_ServerID s then s else r) = r" if "r \<in> set (mdb_servers (view w))" for r
      using that assms(2,3) by (auto simp: servers_uniq_def distinct_map dest: inj_onD)
    then have "map (\<lambda>r. if srv_ServerID r = srv_ServerID s then s else r) (mdb_servers (view w)) = mdb_servers (view w)"
      by (intro map_idI)
    with True show ?thesis unfolding assms(10) run by (auto simp: get v intro!: exI [of _ s])
  next
    case False
    let ?w = "after (GetByID E (srv_ServerID s)) w"
    obtain x u where "result (repo_Update E (s\<lparr>srv_CurrentStatus := st\<rparr>)) ?w = Inr x"
      "view (after (repo_Update E (s\<lparr>srv_CurrentStatus := st\<rparr>)) ?w) = (view ?w)\<lparr>mdb_servers :=
        map (\<lambda>r. if srv_ServerID r = srv_ServerID s then server_stamp u (s\<lparr>srv_CurrentStatus := st\<rparr>) else r) (mdb_servers (view ?w))\<rparr>"
      by (rule management_services_up.status_update_up [OF assms(1), of ?w s st]) (use assms(2-4) v in auto)
    with False show ?thesis unfolding assms(10) run
      by (auto simp: get v same_config_def server_stamp_def intro!: exI [of _ "server_stamp u (s\<lparr>srv_CurrentStatus := st\<rparr>)"])
  qed
qed

theorem status_event_reaches_table_witness:
  "result (status_processMessage ref_management \<lparr>msg_ID = ''1-0'', msg_Values = status_event ''s1'' ''OFFLINE'' 3\<rparr>) example_management = Inr ()"
  using status_event_reaches_table [OF ref_mg.management_services_up_axioms _ _ example_trimmed _ _ _ _ _ refl, of example_management
      "''OFFLINE''" "\<lparr>msg_ID = ''1-0'', msg_Values = status_event ''s1'' ''OFFLINE'' 3\<rparr>" 3]
  by (simp add: servers_uniq_def example_management_def example_server_def)

text \<open>
  Every error of the lookup counts as a server that does not exist. If the database cannot be
  read when a status event arrives, the handler reports success: the message is acknowledged and
  the status is lost.
\<close>

lemma status_event_lost_on_read_error:
  assumes "result (GetByID E i) w = Inl (ErrDB err)" and "msg_Values msg = status_event i st n"
    and "ascii i" and "ascii st" and "i \<noteq> []" and "st \<noteq> []"
  shows "result (status_processMessage E msg) w = Inr () \<and> after (status_processMessage E msg) w = after (GetByID E i) w"
  unfolding status_processMessage_event [OF assms(3-6,2)] by (simp add: assms(1))

lemma status_event_lost_on_read_error_witness:
  "result (status_processMessage (ref_management\<lparr>mg_servers := ref_servers\<lparr>tbl_First := \<lambda>P. ret (Inl (ErrDatabase ''timeout''))\<rparr>\<rparr>)
     \<lparr>msg_ID = ''1-0'', msg_Values = status_event ''s1'' ''OFFLINE'' 3\<rparr>) example_management = Inr ()"
  using status_event_lost_on_read_error [of "ref_management\<lparr>mg_servers := ref_servers\<lparr>tbl_First := \<lambda>P. ret (Inl (ErrDatabase ''timeout''))\<rparr>\<rparr>"
      "''s1''" example_management "ErrDatabase ''timeout''" "\<lparr>msg_ID = ''1-0'', msg_Values = status_event ''s1'' ''OFFLINE'' 3\<rparr>" "''OFFLINE''" 3]
  by (simp add: GetByID_def repo_First_def ref_management_def)

end
