(* ===== verification/Float64.thy ===== *)
theory Float64
  imports Go_Strings "HOL-Library.Log_Nat"
begin

text \<open>
  The type \<open>float64\<close> of Go: a number is the rational it stands for, and every operation rounds its
  exact result to 53 binary digits, halfway cases to the even digit. The services compute with
  counts, percentages and hours, far from the limits of the exponent, so that neither overflow nor
  the small numbers that lose digits are considered.
\<close>

section \<open>Rounding\<close>

definition round_even :: "rat \<Rightarrow> int" where
  "round_even y =
     (let f = \<lfloor>y\<rfloor>; r = y - of_int f in
      if r < 1 / 2 then f else if 1 / 2 < r then f + 1 else if even f then f else f + 1)"

text \<open>The exponent that brings a number between two to the 52 and two to the 53.\<close>

definition scale :: "rat \<Rightarrow> int" where
  "scale x =
     (case quotient_of x of (p, q) \<Rightarrow>
        let k = 52 - (bitlen \<bar>p\<bar> - bitlen q) in if \<bar>x\<bar> * 2 powi k < 2 ^ 52 then k + 1 else k)"

definition fl :: "rat \<Rightarrow> rat" where
  "fl x = (if x = 0 then 0 else of_int (round_even (x * 2 powi scale x)) / 2 powi scale x)"

definition fl_mul :: "rat \<Rightarrow> rat \<Rightarrow> rat" where "fl_mul x y = fl (x * y)"
definition fl_div :: "rat \<Rightarrow> rat \<Rightarrow> rat" where "fl_div x y = fl (x / y)"
definition fl_add :: "rat \<Rightarrow> rat \<Rightarrow> rat" where "fl_add x y = fl (x + y)"

text \<open>\<open>float64(n)\<close> and \<open>int(x)\<close>, which cuts off the fraction.\<close>

definition fl_of_int :: "int \<Rightarrow> rat" where "fl_of_int n = fl (of_int n)"
definition fl_trunc :: "rat \<Rightarrow> int" where "fl_trunc x = (if x < 0 then \<lceil>x\<rceil> else \<lfloor>x\<rfloor>)"

lemma round_even_error: "\<bar>of_int (round_even y) - y\<bar> \<le> 1 / 2"
proof -
  have "of_int \<lfloor>y\<rfloor> \<le> y" "y < of_int \<lfloor>y\<rfloor> + 1" by linarith+
  then show ?thesis by (auto simp: round_even_def Let_def abs_le_iff)
qed

lemma round_even_le: "y \<le> of_int n \<Longrightarrow> round_even y \<le> n"
proof -
  assume y: "y \<le> of_int n"
  then have f: "\<lfloor>y\<rfloor> \<le> n" by linarith
  show ?thesis
  proof (cases "\<lfloor>y\<rfloor> = n")
    case True
    with y have "y - of_int \<lfloor>y\<rfloor> \<le> 0" by simp
    then have "y - of_int \<lfloor>y\<rfloor> < 1 / 2" by linarith
    with True show ?thesis by (simp add: round_even_def Let_def)
  next
    case False
    with f show ?thesis by (auto simp: round_even_def Let_def)
  qed
qed

lemma round_even_ge: "of_int n \<le> y \<Longrightarrow> n \<le> round_even y"
proof -
  assume "of_int n \<le> y"
  then have "n \<le> \<lfloor>y\<rfloor>" by linarith
  then show ?thesis by (auto simp: round_even_def Let_def)
qed

lemma round_even_of_int [simp]: "round_even (of_int n) = n"
  by (rule antisym) (simp_all add: round_even_le round_even_ge)

lemma scale_bounds:
  assumes "x \<noteq> 0"
  shows "2 ^ 52 \<le> \<bar>x\<bar> * 2 powi scale x" and "\<bar>x\<bar> * 2 powi scale x < 2 ^ 53"
proof -
  obtain p q where pq: "quotient_of x = (p, q)" by (cases "quotient_of x")
  have q: "0 < q" and x: "x = of_int p / of_int q"
    using pq quotient_of_denom_pos [OF pq] quotient_of_div [OF pq] by auto
  with assms have p: "p \<noteq> 0" by auto
  define k where "k = 52 - (bitlen \<bar>p\<bar> - bitlen q)"
  have bp: "2 ^ nat (bitlen \<bar>p\<bar> - 1) \<le> \<bar>p\<bar>" "\<bar>p\<bar> < 2 ^ nat (bitlen \<bar>p\<bar>)"
    and bq: "2 ^ nat (bitlen q - 1) \<le> q" "q < 2 ^ nat (bitlen q)"
    using bitlen_bounds [of "\<bar>p\<bar>"] bitlen_bounds [of q] p q by auto
  let ?a = "bitlen \<bar>p\<bar>" and ?b = "bitlen q"
  have "?a \<noteq> 0" "?b \<noteq> 0" "0 \<le> ?a" "0 \<le> ?b" using p q by (simp_all add: bitlen_eq_zero_iff bitlen_nonneg)
  then have pos: "0 < ?a" "0 < ?b" by linarith+
  have pw: "(2 :: rat) powi n = of_int (2 ^ nat n)" if "0 \<le> n" for n
    using that by (simp add: power_int_def)
  have e: "(2 :: rat) powi (?a - 1) = of_int (2 ^ nat (?a - 1))" "(2 :: rat) powi ?a = of_int (2 ^ nat ?a)"
    "(2 :: rat) powi (?b - 1) = of_int (2 ^ nat (?b - 1))" "(2 :: rat) powi ?b = of_int (2 ^ nat ?b)"
    using pos by (intro pw; simp)+
  have P: "(2 :: rat) powi (?a - 1) \<le> \<bar>of_int p\<bar>" "\<bar>of_int p\<bar> < (2 :: rat) powi ?a"
    unfolding e of_int_abs [symmetric] of_int_le_iff of_int_less_iff by (rule bp)+
  have Q: "(2 :: rat) powi (?b - 1) \<le> of_int q" "of_int q < (2 :: rat) powi ?b"
    unfolding e of_int_le_iff of_int_less_iff by (rule bq)+
  have qpos: "0 < (of_int q :: rat)" using q by simp
  have ax: "\<bar>x\<bar> = \<bar>of_int p\<bar> / of_int q" using q by (simp add: x)
  have "\<bar>x\<bar> * 2 powi k * of_int q = \<bar>of_int p\<bar> * 2 powi k" using qpos by (simp add: ax)
  have two: "(2 :: rat) powi k = 2 ^ 52 * 2 powi ?b / 2 powi ?a"
  proof -
    have "(2 :: rat) powi k = 2 powi (52 + ?b - ?a)" by (simp add: k_def algebra_simps)
    also have "\<dots> = 2 powi 52 * 2 powi ?b / 2 powi ?a" by (simp add: power_int_diff power_int_add)
    finally show ?thesis by simp
  qed
  have half: "(2 :: rat) powi (?a - 1) = 2 powi ?a / 2" "(2 :: rat) powi (?b - 1) = 2 powi ?b / 2"
    by (simp_all add: power_int_diff)
  have A: "0 < (2 :: rat) powi ?a" "0 < (2 :: rat) powi ?b" by (simp_all add: zero_less_power_int)
  have lo: "2 ^ 51 < \<bar>x\<bar> * 2 powi k"
  proof -
    have "(2 :: rat) powi ?a / 2 * of_int q < \<bar>of_int p\<bar> * 2 powi ?b"
      using P(1) Q(2) A half(1) qpos by (intro mult_le_less_imp_less) auto
    then show ?thesis using A qpos by (simp add: ax two field_simps)
  qed
  have hi: "\<bar>x\<bar> * 2 powi k < 2 ^ 53"
  proof -
    have "\<bar>of_int p\<bar> * ((2 :: rat) powi ?b / 2) < 2 powi ?a * of_int q"
      using P(2) Q(1) A half(2) qpos by (intro mult_less_le_imp_less) auto
    then show ?thesis using A qpos by (simp add: ax two field_simps)
  qed
  have s: "scale x = (if \<bar>x\<bar> * 2 powi k < 2 ^ 52 then k + 1 else k)"
    unfolding scale_def pq k_def by (simp add: Let_def)
  have "(2 :: rat) powi (k + 1) = 2 * 2 powi k" by (simp add: power_int_add)
  with lo hi s show "2 ^ 52 \<le> \<bar>x\<bar> * 2 powi scale x" "\<bar>x\<bar> * 2 powi scale x < 2 ^ 53" by auto
qed

lemma fl_error: "\<bar>fl x - x\<bar> \<le> \<bar>x\<bar> / 2 ^ 53"
proof (cases "x = 0")
  case False
  let ?t = "(2 :: rat) powi scale x"
  have t: "0 < ?t" by (simp add: zero_less_power_int)
  have "fl x - x = (of_int (round_even (x * ?t)) - x * ?t) / ?t"
    using False t by (simp add: fl_def diff_divide_distrib)
  then have "\<bar>fl x - x\<bar> = \<bar>of_int (round_even (x * ?t)) - x * ?t\<bar> / ?t"
    using t by (simp only: abs_divide abs_of_pos)
  also have "\<dots> \<le> 1 / 2 / ?t" by (rule divide_right_mono [OF round_even_error]) (use t in simp)
  also have "\<dots> \<le> \<bar>x\<bar> / 2 ^ 53" using scale_bounds(1) [OF False] t by (simp add: field_simps)
  finally show ?thesis .
qed (simp add: fl_def)

lemma scale_nonneg:
  assumes "x \<noteq> 0" and "\<bar>x\<bar> < 2 ^ 53"
  shows "0 \<le> scale x"
proof (rule ccontr)
  assume "\<not> 0 \<le> scale x"
  then have "(2 :: rat) powi scale x \<le> 2 powi (-1)" by (intro power_int_increasing) auto
  then have "\<bar>x\<bar> * 2 powi scale x \<le> \<bar>x\<bar> * (1 / 2)" by (intro mult_left_mono) (simp_all add: power_int_minus)
  with scale_bounds(1) [OF assms(1)] have "(2 :: rat) ^ 52 \<le> \<bar>x\<bar> * (1 / 2)" by (rule order_trans)
  then have "(2 :: rat) ^ 53 \<le> \<bar>x\<bar>" by simp
  with assms(2) show False by simp
qed

text \<open>Rounding does not cross a whole number.\<close>

lemma fl_le_int:
  assumes "x \<le> of_int n" and "\<bar>x\<bar> < 2 ^ 53"
  shows "fl x \<le> of_int n"
proof (cases "x = 0")
  case False
  let ?t = "(2 :: rat) powi scale x"
  have t: "0 < ?t" "?t = of_int (2 ^ nat (scale x))"
    using scale_nonneg [OF False assms(2)] by (simp_all add: zero_less_power_int power_int_def)
  have "x * ?t \<le> of_int n * ?t" using assms(1) t(1) by (simp add: mult_right_mono)
  also have "\<dots> = of_int (n * 2 ^ nat (scale x))" by (simp add: t(2))
  finally have "of_int (round_even (x * ?t)) \<le> (of_int (n * 2 ^ nat (scale x)) :: rat)"
    using round_even_le by (simp only: of_int_le_iff)
  then have "of_int (round_even (x * ?t)) \<le> of_int n * ?t" by (simp add: t(2))
  with False t(1) show ?thesis by (simp add: fl_def divide_le_eq)
qed (use assms in \<open>simp add: fl_def\<close>)

lemma fl_ge_int:
  assumes "of_int n \<le> x" and "\<bar>x\<bar> < 2 ^ 53"
  shows "of_int n \<le> fl x"
proof (cases "x = 0")
  case False
  let ?t = "(2 :: rat) powi scale x"
  have t: "0 < ?t" "?t = of_int (2 ^ nat (scale x))"
    using scale_nonneg [OF False assms(2)] by (simp_all add: zero_less_power_int power_int_def)
  have "of_int (n * 2 ^ nat (scale x)) = of_int n * ?t" by (simp add: t(2))
  also have "\<dots> \<le> x * ?t" using assms(1) t(1) by (simp add: mult_right_mono)
  finally have "(of_int (n * 2 ^ nat (scale x)) :: rat) \<le> of_int (round_even (x * ?t))"
    using round_even_ge by (simp only: of_int_le_iff)
  then have "of_int n * ?t \<le> of_int (round_even (x * ?t))" by (simp add: t(2))
  with False t(1) show ?thesis by (simp add: fl_def le_divide_eq)
qed (use assms in \<open>simp add: fl_def\<close>)

lemma fl_of_int [simp]: "\<bar>n\<bar> < 2 ^ 53 \<Longrightarrow> fl_of_int n = of_int n"
proof -
  assume "\<bar>n\<bar> < 2 ^ 53"
  then have "\<bar>of_int n :: rat\<bar> < 2 ^ 53"
    by (metis of_int_abs of_int_less_iff of_int_numeral of_int_power)
  then show ?thesis unfolding fl_of_int_def by (intro antisym fl_le_int fl_ge_int) simp_all
qed

section \<open>The grid\<close>

text \<open>A number is rounded to the nearest point of a grid, whose distance its magnitude gives.\<close>

lemma scale_ge: "x \<noteq> 0 \<Longrightarrow> \<bar>x\<bar> * 2 powi k < 2 ^ 53 \<Longrightarrow> k \<le> scale x"
proof (rule ccontr)
  assume x: "x \<noteq> 0" "\<bar>x\<bar> * 2 powi k < 2 ^ 53" and "\<not> k \<le> scale x"
  then have "(2 :: rat) powi (scale x + 1) \<le> 2 powi k" by (intro power_int_increasing) auto
  then have "\<bar>x\<bar> * (2 * 2 powi scale x) \<le> \<bar>x\<bar> * 2 powi k"
    by (intro mult_left_mono) (simp_all add: power_int_add)
  with scale_bounds(1) [OF x(1)] x(2) show False by simp
qed

lemma scale_le: "x \<noteq> 0 \<Longrightarrow> 2 ^ 52 \<le> \<bar>x\<bar> * 2 powi k \<Longrightarrow> scale x \<le> k"
proof (rule ccontr)
  assume x: "x \<noteq> 0" "2 ^ 52 \<le> \<bar>x\<bar> * 2 powi k" and "\<not> scale x \<le> k"
  then have "(2 :: rat) powi (k + 1) \<le> 2 powi scale x" by (intro power_int_increasing) auto
  then have "\<bar>x\<bar> * (2 * 2 powi k) \<le> \<bar>x\<bar> * 2 powi scale x"
    by (intro mult_left_mono) (simp_all add: power_int_add)
  with scale_bounds(2) [OF x(1)] x(2) show False by simp
qed

lemma fl_grid: "x \<noteq> 0 \<Longrightarrow> fl x * 2 powi scale x = of_int (round_even (x * 2 powi scale x))"
  by (simp add: fl_def)

lemma fl_nearest: "x \<noteq> 0 \<Longrightarrow> \<bar>fl x - x\<bar> * 2 powi scale x \<le> 1 / 2"
proof -
  assume "x \<noteq> 0"
  have "\<bar>fl x - x\<bar> * 2 powi scale x = \<bar>fl x * 2 powi scale x - x * 2 powi scale x\<bar>"
    by (simp add: abs_mult zero_less_power_int flip: left_diff_distrib)
  also have "\<dots> \<le> 1 / 2" unfolding fl_grid [OF \<open>x \<noteq> 0\<close>] by (rule round_even_error)
  finally show ?thesis .
qed

lemma round_even_near: "\<bar>y - of_int n\<bar> < 1 / 2 \<Longrightarrow> round_even y = n"
proof -
  assume "\<bar>y - of_int n\<bar> < 1 / 2"
  then have y: "of_int n - 1 / 2 < y" "y < of_int n + 1 / 2" by linarith+
  then have "\<lfloor>y\<rfloor> = n \<or> \<lfloor>y\<rfloor> = n - 1" by linarith
  then show ?thesis using y by (auto simp: round_even_def Let_def)
qed

end
