(* ===== verification/Grpc.thy ===== *)
theory Grpc
  imports Services
begin

text \<open>
  What the gRPC servers of the three services with an API share: the context of a call, status
  codes, the principal, the role table and the interceptors. The packages \<open>security\<close> and
  \<open>middlewares\<close> exist once in each service; the parts that are the same are written once here
  and instantiated for the service, the parts that differ are written for each.
\<close>

section \<open>Principals, permissions and roles\<close>

record Principal =
  pr_UserID :: string
  pr_Username :: string
  pr_Email :: string
  pr_RoleID :: string
  pr_RoleCode :: string
  pr_SessionID :: string

definition PermServerCreate :: string where "PermServerCreate = ''server:create''"
definition PermServerRead :: string where "PermServerRead = ''server:read''"
definition PermServerUpdate :: string where "PermServerUpdate = ''server:update''"
definition PermServerDelete :: string where "PermServerDelete = ''server:delete''"
definition PermServerImport :: string where "PermServerImport = ''server:import''"
definition PermServerExport :: string where "PermServerExport = ''server:export''"
definition PermReportRequest :: string where "PermReportRequest = ''report:request''"

lemmas perm_defs = PermServerCreate_def PermServerRead_def PermServerUpdate_def PermServerDelete_def
  PermServerImport_def PermServerExport_def PermReportRequest_def

text \<open>An \<open>Authorizer\<close> is its table: the permissions of each role.\<close>

type_synonym authorizer = "string \<Rightarrow> (string \<Rightarrow> bool option) option"

definition adminPerms :: "string \<Rightarrow> bool option" where
  "adminPerms = [PermServerCreate \<mapsto> True, PermServerRead \<mapsto> True, PermServerUpdate \<mapsto> True,
     PermServerDelete \<mapsto> True, PermServerImport \<mapsto> True, PermServerExport \<mapsto> True,
     PermReportRequest \<mapsto> True]"

definition userPerms :: "string \<Rightarrow> bool option" where
  "userPerms = [PermServerRead \<mapsto> True]"

text \<open>Reading a Go map of booleans: a missing key reads as \<open>false\<close>.\<close>

definition map_bool :: "(string \<Rightarrow> bool option) \<Rightarrow> string \<Rightarrow> bool" where
  "map_bool m k = (case m k of None \<Rightarrow> False | Some b \<Rightarrow> b)"

definition has_permission :: "authorizer \<Rightarrow> string \<Rightarrow> Principal option \<Rightarrow> string \<Rightarrow> bool" where
  "has_permission rolePermissions admin prin requiredPermission =
     (if requiredPermission = [] then True
      else case prin of
        None \<Rightarrow> False
      | Some p \<Rightarrow>
          if pr_RoleCode p = admin then True
          else case rolePermissions (pr_RoleCode p) of
            None \<Rightarrow> False
          | Some perms \<Rightarrow> map_bool perms requiredPermission)"

text \<open>The authorizers of the three services.\<close>

definition identity_NewAuthorizer :: authorizer where
  "identity_NewAuthorizer = [''ADMIN'' \<mapsto> adminPerms, ''USER'' \<mapsto> userPerms]"

definition identity_HasPermission :: "Principal option \<Rightarrow> string \<Rightarrow> bool" where
  "identity_HasPermission = has_permission identity_NewAuthorizer ''ADMIN''"

definition management_NewAuthorizer :: authorizer where
  "management_NewAuthorizer = [''ADMIN'' \<mapsto> adminPerms, ''USER'' \<mapsto> userPerms]"

definition management_HasPermission :: "Principal option \<Rightarrow> string \<Rightarrow> bool" where
  "management_HasPermission = has_permission management_NewAuthorizer ''ADMIN''"

definition reporting_NewAuthorizer :: authorizer where
  "reporting_NewAuthorizer = [''ADMIN'' \<mapsto> adminPerms, ''USER'' \<mapsto> userPerms]"

definition reporting_HasPermission :: "Principal option \<Rightarrow> string \<Rightarrow> bool" where
  "reporting_HasPermission = has_permission reporting_NewAuthorizer ''ADMIN''"

section \<open>Calls\<close>

datatype code = OK | InvalidArgument | NotFound | AlreadyExists | PermissionDenied | Internal | Unauthenticated | Unknown

datatype status = Status code string

text \<open>
  The context of a call: the principal an interceptor put there, the metadata that came with
  the call (the keys are in lower case), the address of the peer.
\<close>

record grpc_ctx =
  ctx_Principal :: "Principal option"
  ctx_Metadata :: "(string \<Rightarrow> string list) option"
  ctx_Peer :: "string option"

definition SetPrincipal :: "grpc_ctx \<Rightarrow> Principal \<Rightarrow> grpc_ctx" where
  "SetPrincipal ctx p = ctx\<lparr>ctx_Principal := Some p\<rparr>"

definition GetPrincipal :: "grpc_ctx \<Rightarrow> Principal option" where
  "GetPrincipal ctx = ctx_Principal ctx"

type_synonym ('w, 'a, 'b) handler = "grpc_ctx \<Rightarrow> 'a \<Rightarrow> ('w, status + 'b) state"
type_synonym ('w, 'a, 'b) interceptor = "string \<Rightarrow> ('w, 'a, 'b) handler \<Rightarrow> ('w, 'a, 'b) handler"

text \<open>The first interceptor of a chain is the outermost.\<close>

definition chain2 :: "('w, 'a, 'b) interceptor \<Rightarrow> ('w, 'a, 'b) interceptor \<Rightarrow> ('w, 'a, 'b) interceptor" where
  "chain2 f g method h = f method (g method h)"

text \<open>\<open>PermissionInterceptor\<close> of the three services; the authorizer is never nil here.\<close>

definition permission_interceptor ::
  "(Principal option \<Rightarrow> string \<Rightarrow> bool) \<Rightarrow> (string \<Rightarrow> string option) \<Rightarrow> ('w, 'a, 'b) interceptor" where
  "permission_interceptor HasPermission methodPermissions method h ctx req =
     (case methodPermissions method of
        None \<Rightarrow> h ctx req
      | Some requiredPermission \<Rightarrow>
          (case GetPrincipal ctx of
             None \<Rightarrow> ret (Inl (Status Unauthenticated ''unauthorized''))
           | Some prin \<Rightarrow>
               if \<not> HasPermission (Some prin) requiredPermission
               then ret (Inl (Status PermissionDenied ''forbidden''))
               else h ctx req))"

definition identity_PermissionInterceptor :: "(string \<Rightarrow> string option) \<Rightarrow> ('w, 'a, 'b) interceptor" where
  "identity_PermissionInterceptor = permission_interceptor identity_HasPermission"

definition management_PermissionInterceptor :: "(string \<Rightarrow> string option) \<Rightarrow> ('w, 'a, 'b) interceptor" where
  "management_PermissionInterceptor = permission_interceptor management_HasPermission"

definition reporting_PermissionInterceptor :: "(string \<Rightarrow> string option) \<Rightarrow> ('w, 'a, 'b) interceptor" where
  "reporting_PermissionInterceptor = permission_interceptor reporting_HasPermission"

text \<open>
  \<open>AuthMetadataInterceptor\<close> of \<open>sms-management\<close> and \<open>sms-reporting\<close>: the principal is what the
  gateway forwarded in the headers that the identity service set.
\<close>

definition first_value :: "(string \<Rightarrow> string list) \<Rightarrow> string \<Rightarrow> string" where
  "first_value md k = (case md k of [] \<Rightarrow> [] | v # _ \<Rightarrow> v)"

definition metadata_principal :: "(string \<Rightarrow> string list) \<Rightarrow> Principal" where
  "metadata_principal md =
     \<lparr>pr_UserID = first_value md ''x-user-id'', pr_Username = first_value md ''x-user-name'',
      pr_Email = first_value md ''x-user-email'', pr_RoleID = [],
      pr_RoleCode = first_value md ''x-user-role'', pr_SessionID = []\<rparr>"

definition auth_metadata_interceptor :: "('w, 'a, 'b) interceptor" where
  "auth_metadata_interceptor method h ctx req =
     (case ctx_Metadata ctx of
        None \<Rightarrow> h ctx req
      | Some md \<Rightarrow>
          let prin = metadata_principal md in
          if pr_UserID prin \<noteq> [] then h (SetPrincipal ctx prin) req else h ctx req)"

definition management_AuthMetadataInterceptor :: "('w, 'a, 'b) interceptor" where
  "management_AuthMetadataInterceptor = auth_metadata_interceptor"

definition reporting_AuthMetadataInterceptor :: "('w, 'a, 'b) interceptor" where
  "reporting_AuthMetadataInterceptor = auth_metadata_interceptor"

text \<open>The method tables.\<close>

definition management_methodPermissions :: "string \<Rightarrow> string option" where
  "management_methodPermissions =
     [''/server_management.v1.ServerManagementService/CreateServer'' \<mapsto> PermServerCreate,
      ''/server_management.v1.ServerManagementService/ViewServers'' \<mapsto> PermServerRead,
      ''/server_management.v1.ServerManagementService/UpdateServer'' \<mapsto> PermServerUpdate,
      ''/server_management.v1.ServerManagementService/DeleteServer'' \<mapsto> PermServerDelete,
      ''/server_management.v1.ServerManagementService/ImportServers'' \<mapsto> PermServerImport,
      ''/server_management.v1.ServerManagementService/ExportServers'' \<mapsto> PermServerExport]"

definition reporting_methodPermissions :: "string \<Rightarrow> string option" where
  "reporting_methodPermissions = [''/reporting.v1.ReportingService/RequestReport'' \<mapsto> PermReportRequest]"

section \<open>Access control\<close>

text \<open>
  The contract of an authorizer, for the interceptor: no principal has no permission, and an
  administrator has all.
\<close>

locale access_control =
  fixes HasPermission :: "Principal option \<Rightarrow> string \<Rightarrow> bool"
  assumes nobody: "perm \<noteq> [] \<Longrightarrow> \<not> HasPermission None perm"
    and admin: "pr_RoleCode p = ''ADMIN'' \<Longrightarrow> HasPermission (Some p) perm"
    and user: "pr_RoleCode p = ''USER'' \<Longrightarrow> perm \<noteq> [] \<Longrightarrow> HasPermission (Some p) perm \<longleftrightarrow> perm = PermServerRead"
    and stranger: "pr_RoleCode p \<notin> {''ADMIN'', ''USER''} \<Longrightarrow> perm \<noteq> [] \<Longrightarrow> \<not> HasPermission (Some p) perm"
begin

lemma has_permission_iff:
  "perm \<noteq> [] \<Longrightarrow> HasPermission (Some p) perm \<longleftrightarrow>
     pr_RoleCode p = ''ADMIN'' \<or> pr_RoleCode p = ''USER'' \<and> perm = PermServerRead"
  using admin user stranger by blast

text \<open>A call of a protected method reaches its handler exactly if its principal may make it.\<close>

lemma guarded:
  assumes "methods m = Some perm" and "perm \<noteq> []"
  shows "permission_interceptor HasPermission methods m h ctx req =
    (case ctx_Principal ctx of
       None \<Rightarrow> ret (Inl (Status Unauthenticated ''unauthorized''))
     | Some p \<Rightarrow>
         if pr_RoleCode p = ''ADMIN'' \<or> pr_RoleCode p = ''USER'' \<and> perm = PermServerRead then h ctx req
         else ret (Inl (Status PermissionDenied ''forbidden'')))"
  using assms has_permission_iff by (simp add: permission_interceptor_def GetPrincipal_def split: option.split)

end

lemma has_permission_access:
  "access_control (has_permission [''ADMIN'' \<mapsto> adminPerms, ''USER'' \<mapsto> userPerms] ''ADMIN'')"
  by unfold_locales (auto simp: has_permission_def userPerms_def map_bool_def)

interpretation identity_access: access_control identity_HasPermission
  unfolding identity_HasPermission_def identity_NewAuthorizer_def by (rule has_permission_access)

interpretation management_access: access_control management_HasPermission
  unfolding management_HasPermission_def management_NewAuthorizer_def by (rule has_permission_access)

interpretation reporting_access: access_control reporting_HasPermission
  unfolding reporting_HasPermission_def reporting_NewAuthorizer_def by (rule has_permission_access)

end
