(* ===== verification/Reporting.thy ===== *)
theory Reporting
  imports Broker Crypto Go_Time Float64 Json Grpc
begin

text \<open>
  The service \<open>sms-reporting\<close>: a replica of the servers, kept by the events of the other services;
  requests for reports, made by users and by the daily scheduler; the work on a request, which
  ends in an event that asks \<open>sms-notification\<close> for a mail.
\<close>

section \<open>Domain\<close>

definition ReportStatusPending :: string where "ReportStatusPending = ''PENDING''"
definition ReportStatusProcessing :: string where "ReportStatusProcessing = ''PROCESSING''"
definition ReportStatusCompleted :: string where "ReportStatusCompleted = ''COMPLETED''"
definition ReportStatusFailed :: string where "ReportStatusFailed = ''FAILED''"

lemmas report_status_defs = ReportStatusPending_def ReportStatusProcessing_def ReportStatusCompleted_def ReportStatusFailed_def

record ReportRequest =
  rq_ID :: string
  rq_RequestorEmail :: string
  rq_StartTime :: time
  rq_EndTime :: time
  rq_Status :: string
  rq_CorrelationID :: string
  rq_CreatedAt :: time
  rq_UpdatedAt :: time

record ReportingServer =
  rsv_ServerID :: string
  rsv_Name :: string
  rsv_IPv4 :: string
  rsv_Status :: string
  rsv_UpdatedAt :: time

record NotificationEvent =
  ne_To :: string
  ne_Subject :: string
  ne_Body :: string

definition EventNotificationRequested :: string where
  "EventNotificationRequested = ''NotificationRequested''"

definition notification_members :: "NotificationEvent \<Rightarrow> (string \<times> json) list" where
  "notification_members e = [(''to'', JStr (ne_To e)), (''subject'', JStr (ne_Subject e)), (''body'', JStr (ne_Body e))]"

definition notification_json :: "NotificationEvent \<Rightarrow> string" where
  "notification_json e = Marshal (JObj (notification_members e))"

datatype reporting_error =
    ErrInvalidEmail | ErrInvalidDateRange | ErrInvalidDateFormat
  | ErrReportingDB db_error | ErrObservations string string | ErrNotify redis_error

datatype repository_error = ErrServerUnknown | ErrReplica db_error

section \<open>Environment\<close>

text \<open>
  The dependencies of the service. \<open>rep_Upsert conflict assign row\<close> is \<open>INSERT ... ON CONFLICT DO
  UPDATE\<close>: \<open>conflict\<close> compares the columns of the index, \<open>assign\<close> gives the updated row.
  \<open>rep_Count index from to success\<close> counts observations in Elasticsearch, all of them or those with
  \<open>is_success\<close>; a client that is nil, and a publisher that is nil, is \<open>None\<close>. \<open>rep_html\<close> holds the
  text of \<open>templates/status_report.html\<close> between its actions. \<open>rep_Enqueue\<close> sends to the channel of
  the workers.
\<close>

record 'w reporting_env =
  rep_requests :: "('w, ReportRequest) table"
  rep_servers :: "('w, ReportingServer) table"
  rep_Upsert :: "(ReportingServer \<Rightarrow> ReportingServer \<Rightarrow> bool) \<Rightarrow> (ReportingServer \<Rightarrow> ReportingServer \<Rightarrow> ReportingServer) \<Rightarrow>
    ReportingServer \<Rightarrow> ('w, db_error + unit) state"
  rep_Count :: "(string \<Rightarrow> string \<Rightarrow> string \<Rightarrow> bool \<Rightarrow> ('w, string + int) state) option"
  rep_esIndex :: string
  rep_publisher :: "'w redis option"
  rep_maxLen :: int
  rep_notificationStream :: string
  rep_html :: "string list"
  rep_NewUUID :: "('w, string) state"
  rep_Now :: "('w, time) state"
  rep_Enqueue :: "ReportRequest \<Rightarrow> ('w, unit) state"

section \<open>Repository\<close>

definition report_db :: "('w, db_error + 'a) state \<Rightarrow> ('w, reporting_error + 'a) state" where
  "report_db m = do { r \<leftarrow> m; ret (case r of Inl e \<Rightarrow> Inl (ErrReportingDB e) | Inr a \<Rightarrow> Inr a) }"

definition CreateReportRequest :: "'w reporting_env \<Rightarrow> ReportRequest \<Rightarrow> ('w, reporting_error + unit) state" where
  "CreateReportRequest E req = and_then (report_db (tbl_Create (rep_requests E) [req])) (\<lambda>_. ret (Inr ()))"

definition UpdateReportStatus :: "'w reporting_env \<Rightarrow> string \<Rightarrow> string \<Rightarrow> ('w, reporting_error + unit) state" where
  "UpdateReportStatus E reqID status =
     and_then (report_db (tbl_Updates (rep_requests E) (\<lambda>r. rq_ID r = reqID) (\<lambda>r. r\<lparr>rq_Status := status\<rparr>))) (\<lambda>_. ret (Inr ()))"

definition GetServerCountByStatus :: "'w reporting_env \<Rightarrow> string \<Rightarrow> ('w, reporting_error + int) state" where
  "GetServerCountByStatus E status =
     report_db (tbl_Count (rep_servers E) (if status \<noteq> [] then (\<lambda>r. rsv_Status r = status) else (\<lambda>r. True)))"

definition replica_db :: "('w, db_error + 'a) state \<Rightarrow> ('w, repository_error + 'a) state" where
  "replica_db m = do { r \<leftarrow> m; ret (case r of Inl e \<Rightarrow> Inl (ErrReplica e) | Inr a \<Rightarrow> Inr a) }"

definition UpsertReportingServer :: "'w reporting_env \<Rightarrow> ReportingServer \<Rightarrow> ('w, repository_error + unit) state" where
  "UpsertReportingServer E server =
     replica_db (rep_Upsert E (\<lambda>new old. rsv_ServerID new = rsv_ServerID old)
       (\<lambda>new old. old\<lparr>rsv_Name := rsv_Name new, rsv_IPv4 := rsv_IPv4 new, rsv_Status := rsv_Status new,
          rsv_UpdatedAt := rsv_UpdatedAt new\<rparr>) server)"

definition UpdateReportingServerStatus :: "'w reporting_env \<Rightarrow> string \<Rightarrow> string \<Rightarrow> ('w, repository_error + unit) state" where
  "UpdateReportingServerStatus E serverID status =
     and_then (replica_db (tbl_Updates (rep_servers E) (\<lambda>r. rsv_ServerID r = serverID) (\<lambda>r. r\<lparr>rsv_Status := status\<rparr>)))
       (\<lambda>n. ret (if n = 0 then Inl ErrServerUnknown else Inr ()))"

definition DeleteReportingServer :: "'w reporting_env \<Rightarrow> string \<Rightarrow> ('w, repository_error + unit) state" where
  "DeleteReportingServer E serverID =
     and_then (replica_db (tbl_Delete (rep_servers E) (\<lambda>r. rsv_ServerID r = serverID))) (\<lambda>_. ret (Inr ()))"

section \<open>The consumers of events\<close>

text \<open>The payload of a server event, and the row that the replica gets.\<close>

definition replica_payload :: "string \<Rightarrow> (string \<times> string \<times> string \<times> string) option" where
  "replica_payload s =
     (case json_members s of
        None \<Rightarrow> None
      | Some ms \<Rightarrow>
          (case (get_string ms ''server_id'', get_string ms ''server_name'', get_string ms ''ipv4'', get_string ms ''current_status'') of
             (Some i, Some n, Some ip, Some st) \<Rightarrow> Some (i, n, ip, st)
           | _ \<Rightarrow> None))"

definition replica_row :: "string \<times> string \<times> string \<times> string \<Rightarrow> ReportingServer" where
  "replica_row p =
     (case p of (i, n, ip, st) \<Rightarrow>
        \<lparr>rsv_ServerID = i, rsv_Name = n, rsv_IPv4 = ip, rsv_Status = (if st = [] then ''UNKNOWN'' else st), rsv_UpdatedAt = 0\<rparr>)"

definition handler_result :: "repository_error + unit \<Rightarrow> string + unit" where
  "handler_result r = (case r of Inl e \<Rightarrow> Inl ''database'' | Inr _ \<Rightarrow> Inr ())"

definition handleServerEvent :: "'w reporting_env \<Rightarrow> 'w message_handler" where
  "handleServerEvent E msg =
     (case (map_of (msg_Values msg) ''event_type'', map_of (msg_Values msg) ''payload'') of
        (Some eventType, Some payloadStr) \<Rightarrow>
          if eventType = ''ServerCreated'' \<or> eventType = ''ServerUpdated'' then
            (case replica_payload payloadStr of
               None \<Rightarrow> ret (Inl ''json'')
             | Some p \<Rightarrow> do { r \<leftarrow> UpsertReportingServer E (replica_row p); ret (handler_result r) })
          else if eventType = ''ServerDeleted'' then
            (case json_members payloadStr of
               None \<Rightarrow> ret (Inl ''json'')
             | Some ms \<Rightarrow>
                 (case get_string ms ''server_id'' of
                    None \<Rightarrow> ret (Inl ''json'')
                  | Some i \<Rightarrow> do { r \<leftarrow> DeleteReportingServer E i; ret (handler_result r) }))
          else ret (Inr ())
      | _ \<Rightarrow> ret (Inr ()))"

definition handleStatusEvent :: "'w reporting_env \<Rightarrow> 'w message_handler" where
  "handleStatusEvent E msg =
     (case (map_of (msg_Values msg) ''event_type'', map_of (msg_Values msg) ''payload'') of
        (Some eventType, Some payloadStr) \<Rightarrow>
          if eventType = ''ServerStatusChanged'' then
            (case json_members payloadStr of
               None \<Rightarrow> ret (Inl ''json'')
             | Some ms \<Rightarrow>
                 (case (get_string ms ''server_id'', get_string ms ''status'') of
                    (Some i, Some st) \<Rightarrow> do {
                      r \<leftarrow> UpdateReportingServerStatus E i st;
                      ret (if r = Inl ErrServerUnknown then Inr () else handler_result r)
                    }
                  | _ \<Rightarrow> ret (Inl ''json'')))
          else ret (Inr ())
      | _ \<Rightarrow> ret (Inr ()))"

section \<open>Uptime\<close>

definition CalculateUptime :: "'w reporting_env \<Rightarrow> time \<Rightarrow> time \<Rightarrow> ('w, reporting_error + rat) state" where
  "CalculateUptime E startTime endTime =
     (case rep_Count E of
        None \<Rightarrow> ret (Inr 0)
      | Some es \<Rightarrow> do {
          t \<leftarrow> es (rep_esIndex E) (Format_RFC3339 startTime) (Format_RFC3339 endTime) False;
          case t of
            Inl e \<Rightarrow> ret (Inl (ErrObservations ''failed to count total observations: '' e))
          | Inr totalCount \<Rightarrow>
              if totalCount = 0 then ret (Inr 0)
              else do {
                s \<leftarrow> es (rep_esIndex E) (Format_RFC3339 startTime) (Format_RFC3339 endTime) True;
                case s of
                  Inl e \<Rightarrow> ret (Inl (ErrObservations ''failed to count success observations: '' e))
                | Inr successCount \<Rightarrow> ret (Inr (fl_mul (fl_div (fl_of_int successCount) (fl_of_int totalCount)) 100))
              }
        })"

section \<open>The work on a request\<close>

record TemplateData =
  td_StartDate :: string
  td_EndDate :: string
  td_PeriodDays :: int
  td_TotalServers :: int
  td_OnlineServers :: int
  td_OfflineServers :: int
  td_UnknownServers :: int
  td_UptimePercent :: rat
  td_OnlinePercent :: rat
  td_OfflinePercent :: rat
  td_UnknownPercent :: rat
  td_HealthLabel :: string

definition percentage :: "int \<Rightarrow> int \<Rightarrow> rat" where
  "percentage n whole = (if whole \<le> 0 then 0 else fl_div (fl_mul (fl_of_int n) 100) (fl_of_int whole))"

definition healthLabel :: "rat \<Rightarrow> string" where
  "healthLabel uptime =
     (if uptime \<ge> 99 then ''Healthy'' else if uptime \<ge> 95 then ''Attention Recommended'' else ''Action Required'')"

text \<open>\<open>Time.Sub\<close> saturates; \<open>Duration.Hours\<close> adds the whole hours and the rest, in floating point.\<close>

definition time_Sub :: "time \<Rightarrow> time \<Rightarrow> duration" where
  "time_Sub t u = max (- (2 ^ 63)) (min (2 ^ 63 - 1) (t - u))"

definition dur_Hours :: "duration \<Rightarrow> rat" where
  "dur_Hours d =
     (let h = sgn d * (\<bar>d\<bar> div Hour); n = d - h * Hour in fl_add (fl_of_int h) (fl_div (fl_of_int n) (of_int Hour)))"

definition PeriodDays :: "time \<Rightarrow> time \<Rightarrow> int" where
  "PeriodDays startTime endTime = fl_trunc (fl_div (dur_Hours (time_Sub endTime startTime)) 24) + 1"

definition report_data :: "ReportRequest \<Rightarrow> int \<times> int \<times> int \<times> int \<Rightarrow> rat \<Rightarrow> TemplateData" where
  "report_data req counts uptimePercent =
     (case counts of (totalServers, onlineServers, offlineServers, unknownServers) \<Rightarrow>
        \<lparr>td_StartDate = Format_Date (rq_StartTime req), td_EndDate = Format_Date (rq_EndTime req),
         td_PeriodDays = PeriodDays (rq_StartTime req) (rq_EndTime req),
         td_TotalServers = totalServers, td_OnlineServers = onlineServers, td_OfflineServers = offlineServers,
         td_UnknownServers = unknownServers, td_UptimePercent = uptimePercent,
         td_OnlinePercent = percentage onlineServers totalServers,
         td_OfflinePercent = percentage offlineServers totalServers,
         td_UnknownPercent = percentage unknownServers totalServers,
         td_HealthLabel = healthLabel uptimePercent\<rparr>)"

text \<open>
  The template: its actions in the order in which they stand between the pieces of text. Values in
  the text of a page are escaped; \<open>%.1f\<close> and \<open>%.2f\<close> round to the nearest decimal.
\<close>

definition html_char :: "char \<Rightarrow> string" where
  "html_char c =
     (if c = CHR 0x00 then [CHR 0xEF, CHR 0xBF, CHR 0xBD]
      else if c = CHR 0x22 then ''&#34;'' else if c = CHR ''&'' then ''&amp;'' else if c = CHR 0x27 then ''&#39;''
      else if c = CHR ''+'' then ''&#43;'' else if c = CHR ''<'' then ''&lt;'' else if c = CHR ''>'' then ''&gt;''
      else [c])"

definition html_escape :: "string \<Rightarrow> string" where
  "html_escape s = concat (map html_char s)"

definition Sprintf_f :: "nat \<Rightarrow> rat \<Rightarrow> string" where
  "Sprintf_f k x =
     (let n = round_even (\<bar>x\<bar> * 10 ^ k) in
      (if x < 0 then ''-'' else []) @ Itoa (n div 10 ^ k) @ ''.'' @ pad k (n mod 10 ^ k))"

definition template_actions :: "TemplateData \<Rightarrow> string list" where
  "template_actions d =
     [td_StartDate d, td_EndDate d, Itoa (td_PeriodDays d),
      Sprintf_f 2 (td_UptimePercent d), td_HealthLabel d,
      Itoa (td_TotalServers d),
      Itoa (td_OnlineServers d), Sprintf_f 1 (td_OnlinePercent d),
      Itoa (td_OfflineServers d), Sprintf_f 1 (td_OfflinePercent d),
      Itoa (td_UnknownServers d), Sprintf_f 1 (td_UnknownPercent d),
      td_StartDate d, td_EndDate d, Sprintf_f 2 (td_UptimePercent d),
      Itoa (td_OnlineServers d), Itoa (td_OfflineServers d), Itoa (td_UnknownServers d)]"

definition render :: "string list \<Rightarrow> TemplateData \<Rightarrow> string" where
  "render pieces d = concat (map2 (@) pieces (map html_escape (template_actions d) @ [[]]))"

definition notification_fields :: "NotificationEvent \<Rightarrow> fields" where
  "notification_fields e = [(''event_type'', EventNotificationRequested), (''payload'', notification_json e)]"

definition report_mail :: "'w reporting_env \<Rightarrow> ReportRequest \<Rightarrow> TemplateData \<Rightarrow> NotificationEvent" where
  "report_mail E req d = \<lparr>ne_To = rq_RequestorEmail req, ne_Subject = ''Server Status Report'', ne_Body = render (rep_html E) d\<rparr>"

definition doWork :: "'w reporting_env \<Rightarrow> ReportRequest \<Rightarrow> ('w, reporting_error + unit) state" where
  "doWork E req =
     and_then (GetServerCountByStatus E []) (\<lambda>totalServers.
     and_then (GetServerCountByStatus E ''ONLINE'') (\<lambda>onlineServers.
     and_then (GetServerCountByStatus E ''OFFLINE'') (\<lambda>offlineServers.
     and_then (GetServerCountByStatus E ''UNKNOWN'') (\<lambda>unknownServers.
     and_then (CalculateUptime E (rq_StartTime req) (rq_EndTime req)) (\<lambda>uptimePercent.
       case rep_publisher E of
         None \<Rightarrow> ret (Inr ())
       | Some R \<Rightarrow> do {
           r \<leftarrow> reporting_Publish R (rep_maxLen E) (rep_notificationStream E)
             (notification_fields (report_mail E req
               (report_data req (totalServers, onlineServers, offlineServers, unknownServers) uptimePercent)));
           ret (case r of Inl e \<Rightarrow> Inl (ErrNotify e) | Inr _ \<Rightarrow> Inr ())
         })))))"

definition processReport :: "'w reporting_env \<Rightarrow> ReportRequest \<Rightarrow> ('w, unit) state" where
  "processReport E req = do {
     r \<leftarrow> UpdateReportStatus E (rq_ID req) ReportStatusProcessing;
     case r of
       Inl e \<Rightarrow> ret ()
     | Inr _ \<Rightarrow> do {
         u \<leftarrow> doWork E req;
         UpdateReportStatus E (rq_ID req) (case u of Inl e \<Rightarrow> ReportStatusFailed | Inr _ \<Rightarrow> ReportStatusCompleted);
         ret ()
       }
   }"

section \<open>Requests\<close>

definition NewReportRequest ::
  "'w reporting_env \<Rightarrow> string \<Rightarrow> time \<Rightarrow> time \<Rightarrow> string \<Rightarrow> ('w, reporting_error + ReportRequest) state" where
  "NewReportRequest E requestorEmail startTime endTime correlationID =
     (if TrimSpace requestorEmail = [] then ret (Inl ErrInvalidEmail)
      else if endTime < startTime then ret (Inl ErrInvalidDateRange)
      else do {
        requestID \<leftarrow> rep_NewUUID E;
        ret (Inr \<lparr>rq_ID = requestID, rq_RequestorEmail = requestorEmail, rq_StartTime = startTime, rq_EndTime = endTime,
          rq_Status = ReportStatusPending, rq_CorrelationID = correlationID, rq_CreatedAt = 0, rq_UpdatedAt = 0\<rparr>)
      })"

text \<open>The last nanosecond of a day.\<close>

definition end_of_day :: "time \<Rightarrow> time" where
  "end_of_day t = t + 24 * Hour + - Nanosecond"

definition RequestReport :: "'w reporting_env \<Rightarrow> string \<Rightarrow> string \<Rightarrow> string \<Rightarrow> ('w, reporting_error + unit) state" where
  "RequestReport E email startDate endDate =
     (case Parse_date startDate of
        None \<Rightarrow> ret (Inl ErrInvalidDateFormat)
      | Some start \<Rightarrow>
          (case Parse_date endDate of
             None \<Rightarrow> ret (Inl ErrInvalidDateFormat)
           | Some endd \<Rightarrow> do {
               correlationID \<leftarrow> rep_NewUUID E;
               and_then (NewReportRequest E email start (end_of_day endd) correlationID) (\<lambda>req.
                 and_then (CreateReportRequest E req) (\<lambda>_. do { rep_Enqueue E req; ret (Inr ()) }))
             }))"

section \<open>The daily scheduler\<close>

definition schedulerLockKey :: string where
  "schedulerLockKey = ''lock:reporting_scheduler''"

definition reporting_AcquireLock :: "'w redis option \<Rightarrow> string \<Rightarrow> duration \<Rightarrow> ('w, redis_error + bool) state" where
  "reporting_AcquireLock rdb key expiration = (case rdb of None \<Rightarrow> ret (Inr True) | Some R \<Rightarrow> cmd_SetNX R key ''locked'' expiration)"

definition scheduler_email :: "string \<Rightarrow> string" where
  "scheduler_email adminEmail = (if adminEmail = [] then ''admin@example.com'' else adminEmail)"

definition scheduler_job :: "'w reporting_env \<Rightarrow> 'w redis option \<Rightarrow> string \<Rightarrow> ('w, unit) state" where
  "scheduler_job E rdb adminEmail = do {
     l \<leftarrow> reporting_AcquireLock rdb schedulerLockKey (30 * Second);
     case l of
       Inl e \<Rightarrow> ret ()
     | Inr acquired \<Rightarrow>
         if \<not> acquired then ret ()
         else do {
           now \<leftarrow> rep_Now E;
           u \<leftarrow> rep_NewUUID E;
           r \<leftarrow> NewReportRequest E (scheduler_email adminEmail) ((now div Day - 1) * Day) (now div Day * Day) (''cron-'' @ u);
           case r of Inl e \<Rightarrow> ret () | Inr req \<Rightarrow> rep_Enqueue E req
         }
   }"

section \<open>The API\<close>

definition reporting_error_text :: "reporting_error \<Rightarrow> string" where
  "reporting_error_text e =
     (case e of
        ErrInvalidEmail \<Rightarrow> ''invalid email address''
      | ErrInvalidDateRange \<Rightarrow> ''start time must be before or equal to end time''
      | ErrInvalidDateFormat \<Rightarrow> ''invalid date format: must be YYYY-MM-DD''
      | ErrReportingDB d \<Rightarrow> db_error_text d
      | ErrObservations msg err \<Rightarrow> msg @ err
      | ErrNotify x \<Rightarrow> ''failed to publish notification event: '' @ redis_error_text x)"

text \<open>A request is the address and the two dates; a response is its status, code and message.\<close>

definition grpc_RequestReport :: "'w reporting_env \<Rightarrow> ('w, string \<times> string \<times> string, string \<times> int \<times> string) handler" where
  "grpc_RequestReport E ctx req =
     (case req of (targetEmail, startDate, endDate) \<Rightarrow>
        if targetEmail = [] then ret (Inl (Status InvalidArgument ''target_email is required''))
        else do {
          r \<leftarrow> RequestReport E targetEmail startDate endDate;
          ret (case r of
            Inl e \<Rightarrow> Inl (if e \<in> {ErrInvalidEmail, ErrInvalidDateRange, ErrInvalidDateFormat}
              then Status InvalidArgument (reporting_error_text e)
              else Status Internal (''failed to request report: '' @ reporting_error_text e))
          | Inr _ \<Rightarrow> Inr (''processing'', 202, ''Report request accepted and is being processed in the background''))
        })"

text \<open>The handler behind the interceptors of \<open>Run\<close>.\<close>

definition reporting_chain :: "('w, 'a, 'b) interceptor" where
  "reporting_chain = chain2 reporting_AuthMetadataInterceptor (reporting_PermissionInterceptor reporting_methodPermissions)"

end
