(* ===== verification/Reporting_Laws.thy ===== *)
theory Reporting_Laws
  imports Reporting Reference_World
begin

text \<open>
  What \<open>sms-reporting\<close> relies on, and what its operations do under it: the replica of the servers
  as a map, the counts of the servers by status, the life of a request.
\<close>

section \<open>The database\<close>

record reporting_db =
  rdb_requests :: "ReportRequest list"
  rdb_servers :: "ReportingServer list"
  rdb_redis :: redis_db
  rdb_jobs :: "ReportRequest list"

definition requests_uniq :: "ReportRequest list \<Rightarrow> bool" where
  "requests_uniq rs \<longleftrightarrow> distinct (map rq_ID rs)"

definition replica_uniq :: "ReportingServer list \<Rightarrow> bool" where
  "replica_uniq rs \<longleftrightarrow> distinct (map rsv_ServerID rs)"

text \<open>The database keeps times to the microsecond.\<close>

definition request_filled :: "ReportRequest \<Rightarrow> ReportRequest \<Rightarrow> bool" where
  "request_filled r r' \<longleftrightarrow>
     (\<exists>s e c u. \<bar>s - rq_StartTime r\<bar> \<le> 1000 \<and> \<bar>e - rq_EndTime r\<bar> \<le> 1000 \<and>
        r' = r\<lparr>rq_StartTime := s, rq_EndTime := e, rq_CreatedAt := c, rq_UpdatedAt := u\<rparr>)"

lemma request_filled_refl: "request_filled r r"
  unfolding request_filled_def
  by (intro exI [of _ "rq_StartTime r"] exI [of _ "rq_EndTime r"] exI [of _ "rq_CreatedAt r"] exI [of _ "rq_UpdatedAt r"]) simp

definition replica_filled :: "ReportingServer \<Rightarrow> ReportingServer \<Rightarrow> bool" where
  "replica_filled r r' \<longleftrightarrow>
     (\<exists>u. r' = r\<lparr>rsv_Status := (if rsv_Status r = [] then ''UNKNOWN'' else rsv_Status r), rsv_UpdatedAt := u\<rparr>)"

definition request_stamp :: "time \<Rightarrow> ReportRequest \<Rightarrow> ReportRequest" where "request_stamp u r = r\<lparr>rq_UpdatedAt := u\<rparr>"
definition replica_stamp :: "time \<Rightarrow> ReportingServer \<Rightarrow> ReportingServer" where "replica_stamp u r = r\<lparr>rsv_UpdatedAt := u\<rparr>"

text \<open>\<open>INSERT ... ON CONFLICT DO UPDATE\<close> on the rows of a table.\<close>

definition upsert_rows :: "('r \<Rightarrow> 'r \<Rightarrow> bool) \<Rightarrow> ('r \<Rightarrow> 'r \<Rightarrow> 'r) \<Rightarrow> 'r \<Rightarrow> 'r list \<Rightarrow> 'r list" where
  "upsert_rows conflict assign row rs =
     (if list_ex (conflict row) rs then upd_rows (conflict row) (assign row) rs else rs @ [row])"

locale reporting_services =
  clk: clock_source "rep_Now E" clock view +
  req: sql_table "rep_requests E" clock view rdb_requests rdb_requests_update requests_uniq request_filled request_stamp +
  srv: sql_table "rep_servers E" clock view rdb_servers rdb_servers_update replica_uniq replica_filled replica_stamp
  for E :: "'w reporting_env" and clock :: "'w \<Rightarrow> time" and view :: "'w \<Rightarrow> reporting_db" +
  assumes Upsert_ok: "result (rep_Upsert E conflict assign row) w = Inr u \<Longrightarrow>
      \<exists>row'. replica_filled row row' \<and> view (after (rep_Upsert E conflict assign row) w) =
        rdb_servers_update (upsert_rows conflict assign row') (view w)"
    and Upsert_err: "result (rep_Upsert E conflict assign row) w = Inl e \<Longrightarrow> view (after (rep_Upsert E conflict assign row) w) = view w"
    and uuid_view [simp]: "view (after (rep_NewUUID E) w) = view w"
    and count_view: "rep_Count E = Some es \<Longrightarrow> view (after (es ix from to s) w) = view w"
    and enqueue_view [simp]: "view (after (rep_Enqueue E r) w) = rdb_jobs_update (\<lambda>q. q @ [r]) (view w)"

text \<open>The database answers; a statement that keeps the keys unique succeeds, and \<open>uuid.New\<close> makes new keys.\<close>

locale reporting_services_up = reporting_services +
  req: sql_table_up "rep_requests E" clock view rdb_requests rdb_requests_update requests_uniq request_filled request_stamp +
  srv: sql_table_up "rep_servers E" clock view rdb_servers rdb_servers_update replica_uniq replica_filled replica_stamp +
  assumes Upsert_up: "(\<And>row'. replica_filled row row' \<Longrightarrow> replica_uniq (upsert_rows conflict assign row' (rdb_servers (view w)))) \<Longrightarrow>
      \<exists>u. result (rep_Upsert E conflict assign row) w = Inr u"
    and uuid_fresh: "result (rep_NewUUID E) w \<notin> rq_ID ` set (rdb_requests (view w))"

text \<open>A publisher is configured; its Redis may fail.\<close>

locale reporting_publisher = reporting_services_up +
  pub: redis_server R clock view rdb_redis rdb_redis_update for R :: "'w redis" +
  assumes publisher: "rep_publisher E = Some R"

section \<open>The replica as a map\<close>

definition replica :: "ReportingServer list \<Rightarrow> string \<Rightarrow> (string \<times> string \<times> string) option" where
  "replica rs = map_of (map (\<lambda>r. (rsv_ServerID r, (rsv_Name r, rsv_IPv4 r, rsv_Status r))) rs)"

lemma replica_Nil [simp]: "replica [] i = None"
  by (simp add: replica_def)

lemma replica_Cons [simp]:
  "replica (r # rs) i = (if rsv_ServerID r = i then Some (rsv_Name r, rsv_IPv4 r, rsv_Status r) else replica rs i)"
  by (simp add: replica_def)

lemma replica_None: "replica rs i = None \<longleftrightarrow> i \<notin> rsv_ServerID ` set rs"
  by (induction rs) auto

lemma replica_append: "replica (rs @ ss) i = (case replica rs i of None \<Rightarrow> replica ss i | Some x \<Rightarrow> Some x)"
  by (induction rs) auto

lemma replica_upd:
  assumes "\<And>r. rsv_ServerID (g r) = rsv_ServerID r"
  shows "replica (upd_rows (\<lambda>r. rsv_ServerID r = i) g rs) j =
    (if j = i then (case List.find (\<lambda>r. rsv_ServerID r = i) rs of None \<Rightarrow> None
        | Some r \<Rightarrow> Some (rsv_Name (g r), rsv_IPv4 (g r), rsv_Status (g r)))
     else replica rs j)"
  by (induction rs) (auto simp: upd_rows_def assms)

lemma replica_find: "replica rs i = map_option (\<lambda>r. (rsv_Name r, rsv_IPv4 r, rsv_Status r)) (List.find (\<lambda>r. rsv_ServerID r = i) rs)"
  by (induction rs) auto

lemma replica_filter: "replica (filter (\<lambda>r. rsv_ServerID r \<noteq> i) rs) j = (if j = i then None else replica rs j)"
  by (induction rs) auto

lemma replica_upsert:
  assumes "\<And>old. assign row old = old\<lparr>rsv_Name := rsv_Name row, rsv_IPv4 := rsv_IPv4 row, rsv_Status := rsv_Status row,
    rsv_UpdatedAt := rsv_UpdatedAt row\<rparr>"
  shows "replica (upsert_rows (\<lambda>new old. rsv_ServerID new = rsv_ServerID old) assign row rs) =
    (replica rs)(rsv_ServerID row \<mapsto> (rsv_Name row, rsv_IPv4 row, rsv_Status row))"
proof
  fix j
  have sym: "(\<lambda>old. rsv_ServerID row = rsv_ServerID old) = (\<lambda>r. rsv_ServerID r = rsv_ServerID row)" by auto
  show "replica (upsert_rows (\<lambda>new old. rsv_ServerID new = rsv_ServerID old) assign row rs) j =
      ((replica rs)(rsv_ServerID row \<mapsto> (rsv_Name row, rsv_IPv4 row, rsv_Status row))) j"
  proof (cases "list_ex (\<lambda>old. rsv_ServerID row = rsv_ServerID old) rs")
    case True
    then obtain r where "List.find (\<lambda>r. rsv_ServerID r = rsv_ServerID row) rs = Some r"
      by (cases "List.find (\<lambda>r. rsv_ServerID r = rsv_ServerID row) rs") (auto simp: find_None_iff list_ex_iff)
    with True show ?thesis by (simp add: upsert_rows_def sym replica_upd assms)
  next
    case False
    then have "replica rs (rsv_ServerID row) = None" by (auto simp: replica_None list_ex_iff)
    with False show ?thesis by (auto simp: upsert_rows_def replica_append split: option.split)
  qed
qed

lemma upsert_uniq:
  assumes "replica_uniq rs" and "\<And>old. rsv_ServerID (assign row old) = rsv_ServerID old"
  shows "replica_uniq (upsert_rows (\<lambda>new old. rsv_ServerID new = rsv_ServerID old) assign row rs)"
proof (cases "list_ex (\<lambda>old. rsv_ServerID row = rsv_ServerID old) rs")
  case True
  with assms show ?thesis
    by (simp add: upsert_rows_def replica_uniq_def map_upd_rows)
next
  case False
  with assms show ?thesis by (auto simp: upsert_rows_def replica_uniq_def list_ex_iff)
qed

context reporting_services_up
begin

lemma Upsert_replica:
  assumes "replica_uniq (rdb_servers (view w))" and "rsv_Status row \<noteq> []"
  shows "result (UpsertReportingServer E row) w = Inr ()"
    and "replica_uniq (rdb_servers (view (after (UpsertReportingServer E row) w)))"
    and "replica (rdb_servers (view (after (UpsertReportingServer E row) w))) =
      (replica (rdb_servers (view w)))(rsv_ServerID row \<mapsto> (rsv_Name row, rsv_IPv4 row, rsv_Status row))"
    and "(view (after (UpsertReportingServer E row) w))\<lparr>rdb_servers := []\<rparr> = (view w)\<lparr>rdb_servers := []\<rparr>"
proof -
  let ?assign = "\<lambda>new old. old\<lparr>rsv_Name := rsv_Name new, rsv_IPv4 := rsv_IPv4 new, rsv_Status := rsv_Status new,
    rsv_UpdatedAt := rsv_UpdatedAt new\<rparr>"
  let ?up = "rep_Upsert E (\<lambda>new old. rsv_ServerID new = rsv_ServerID old) ?assign row"
  have "\<exists>u. result ?up w = Inr u" by (rule Upsert_up) (simp add: upsert_uniq assms(1))
  then obtain u where u: "result ?up w = Inr u" ..
  from Upsert_ok [OF u] obtain row' where row': "replica_filled row row'"
    "view (after ?up w) = rdb_servers_update (upsert_rows (\<lambda>new old. rsv_ServerID new = rsv_ServerID old) ?assign row') (view w)"
    by blast
  from row'(1) assms(2) have f: "rsv_ServerID row' = rsv_ServerID row" "rsv_Name row' = rsv_Name row"
    "rsv_IPv4 row' = rsv_IPv4 row" "rsv_Status row' = rsv_Status row" by (auto simp: replica_filled_def)
  show "result (UpsertReportingServer E row) w = Inr ()" using u by (simp add: UpsertReportingServer_def replica_db_def)
  have v: "view (after (UpsertReportingServer E row) w) = view (after ?up w)" by (simp add: UpsertReportingServer_def replica_db_def)
  show "replica_uniq (rdb_servers (view (after (UpsertReportingServer E row) w)))"
    unfolding v by (simp add: row'(2) upsert_uniq assms(1))
  show "replica (rdb_servers (view (after (UpsertReportingServer E row) w))) =
      (replica (rdb_servers (view w)))(rsv_ServerID row \<mapsto> (rsv_Name row, rsv_IPv4 row, rsv_Status row))"
    unfolding v using replica_upsert [of ?assign row' "rdb_servers (view w)"] by (simp add: row'(2) f)
  show "(view (after (UpsertReportingServer E row) w))\<lparr>rdb_servers := []\<rparr> = (view w)\<lparr>rdb_servers := []\<rparr>"
    unfolding v by (simp add: row'(2))
qed

lemma Delete_replica:
  assumes "replica_uniq (rdb_servers (view w))"
  shows "result (DeleteReportingServer E i) w = Inr ()"
    and "replica_uniq (rdb_servers (view (after (DeleteReportingServer E i) w)))"
    and "replica (rdb_servers (view (after (DeleteReportingServer E i) w))) = (replica (rdb_servers (view w)))(i := None)"
proof -
  obtain n where n: "result (tbl_Delete (rep_servers E) (\<lambda>r. rsv_ServerID r = i)) w = Inr n"
    using srv.Delete_up unfolding answers_def by blast
  note d = srv.Delete_ok [OF n]
  show "result (DeleteReportingServer E i) w = Inr ()" by (simp add: DeleteReportingServer_def replica_db_def n)
  have v: "rdb_servers (view (after (DeleteReportingServer E i) w)) = filter (\<lambda>r. rsv_ServerID r \<noteq> i) (rdb_servers (view w))"
    using d by (simp add: DeleteReportingServer_def replica_db_def n)
  show "replica_uniq (rdb_servers (view (after (DeleteReportingServer E i) w)))"
    using assms unfolding v by (simp add: replica_uniq_def distinct_map inj_on_def)
  show "replica (rdb_servers (view (after (DeleteReportingServer E i) w))) = (replica (rdb_servers (view w)))(i := None)"
    unfolding v by (rule ext) (simp add: replica_filter)
qed

lemma Status_replica:
  assumes "replica_uniq (rdb_servers (view w))"
  shows "result (UpdateReportingServerStatus E i st) w =
      (if replica (rdb_servers (view w)) i = None then Inl ErrServerUnknown else Inr ())"
    and "replica_uniq (rdb_servers (view (after (UpdateReportingServerStatus E i st) w)))"
    and "replica (rdb_servers (view (after (UpdateReportingServerStatus E i st) w))) =
      (case replica (rdb_servers (view w)) i of None \<Rightarrow> replica (rdb_servers (view w))
       | Some (n, ip, _) \<Rightarrow> (replica (rdb_servers (view w)))(i \<mapsto> (n, ip, st)))"
proof -
  let ?P = "\<lambda>r. rsv_ServerID r = i" and ?f = "\<lambda>r. r\<lparr>rsv_Status := st\<rparr>"
  have keys: "map rsv_ServerID (upd_rows ?P (\<lambda>r. replica_stamp u (?f r)) rs) = map rsv_ServerID rs" for u rs
    by (rule map_upd_rows) (simp add: replica_stamp_def)
  obtain u where u: "result (tbl_Updates (rep_servers E) ?P ?f) w = Inr (int (length (filter ?P (rdb_servers (view w)))))"
    "view (after (tbl_Updates (rep_servers E) ?P ?f) w) = rdb_servers_update (upd_rows ?P (\<lambda>r. replica_stamp u (?f r))) (view w)"
    by (rule srv.Updates_put [of ?P ?f w]) (use assms keys in \<open>auto simp: replica_uniq_def simp del: set_map\<close>)
  have n: "filter ?P rs = [] \<longleftrightarrow> replica rs i = None" for rs by (induction rs) auto
  show "result (UpdateReportingServerStatus E i st) w =
      (if replica (rdb_servers (view w)) i = None then Inl ErrServerUnknown else Inr ())"
    by (simp add: UpdateReportingServerStatus_def replica_db_def u(1) n)
  have v: "rdb_servers (view (after (UpdateReportingServerStatus E i st) w)) =
      upd_rows ?P (\<lambda>r. replica_stamp u (?f r)) (rdb_servers (view w))"
    by (simp add: UpdateReportingServerStatus_def replica_db_def u)
  show "replica_uniq (rdb_servers (view (after (UpdateReportingServerStatus E i st) w)))"
    using assms unfolding v by (simp add: replica_uniq_def keys)
  show "replica (rdb_servers (view (after (UpdateReportingServerStatus E i st) w))) =
      (case replica (rdb_servers (view w)) i of None \<Rightarrow> replica (rdb_servers (view w))
       | Some (n, ip, _) \<Rightarrow> (replica (rdb_servers (view w)))(i \<mapsto> (n, ip, st)))"
    unfolding v
    by (rule ext) (auto simp: replica_upd replica_stamp_def replica_find [of _ i] split: option.split)
qed

end

end
