(* ===== verification/Reporting_Figures.thy ===== *)
theory Reporting_Figures
  imports Reporting
begin

text \<open>
  The figures of a report: percentages, the label of the fleet's health and the number of days, as
  they come out of the arithmetic of \<open>float64\<close>.
\<close>

section \<open>Percentages\<close>

lemma percentage_bounds:
  assumes "0 \<le> n" and "n \<le> t" and "t < 2 ^ 46"
  shows "0 \<le> percentage n t" and "percentage n t \<le> 100"
proof -
  have e: "fl_of_int n = of_int n" "fl_of_int t = of_int t" "fl_mul (of_int n) 100 = of_int (n * 100)"
  proof -
    show "fl_of_int n = of_int n" "fl_of_int t = of_int t" using assms by simp_all
    have "fl_of_int (n * 100) = of_int (n * 100)" using assms by simp
    then show "fl_mul (of_int n) 100 = of_int (n * 100)" by (simp add: fl_mul_def fl_of_int_def)
  qed
  have p: "percentage n t = fl (of_int (n * 100) / of_int t)" if "0 < t"
    using that by (simp add: percentage_def e fl_div_def del: of_int_mult)
  have b: "0 \<le> (of_int (n * 100) / of_int t :: rat)" "of_int (n * 100) / of_int t \<le> (100 :: rat)" if "0 < t"
    using that assms by (simp_all add: divide_le_eq)
  show "0 \<le> percentage n t"
    using fl_ge_int [of 0 "of_int (n * 100) / of_int t"] b p by (cases "0 < t") (auto simp: percentage_def)
  show "percentage n t \<le> 100"
    using fl_le_int [of "of_int (n * 100) / of_int t" 100] b p by (cases "0 < t") (auto simp: percentage_def)
qed

section \<open>The label\<close>

definition uptime_of :: "int \<Rightarrow> int \<Rightarrow> rat" where
  "uptime_of s t = fl_mul (fl_div (fl_of_int s) (fl_of_int t)) 100"

lemma uptime_error:
  assumes "0 \<le> s" and "s \<le> t" and "0 < t" and "t < 2 ^ 43"
  shows "\<bar>uptime_of s t - 100 * (of_int s / of_int t)\<bar> \<le> 300 / 2 ^ 53"
proof -
  define x where "x = (of_int s / of_int t :: rat)"
  define \<epsilon> where "\<epsilon> = (1 / 2 ^ 53 :: rat)"
  have x: "0 \<le> x" "x \<le> 1" using assms by (simp_all add: x_def divide_le_eq)
  have eps: "0 < \<epsilon>" "\<epsilon> \<le> 1 / 2" by (simp_all add: \<epsilon>_def)
  have u: "uptime_of s t = fl (fl x * 100)"
    using assms by (simp add: uptime_of_def fl_mul_def fl_div_def x_def)
  have fe: "\<bar>fl y - y\<bar> \<le> \<bar>y\<bar> * \<epsilon>" for y using fl_error [of y] by (simp add: \<epsilon>_def)
  have "\<bar>x\<bar> * \<epsilon> \<le> 1 * \<epsilon>" using x eps by (intro mult_right_mono) auto
  with fe [of x] have f: "\<bar>fl x - x\<bar> \<le> \<epsilon>" by simp
  with x eps have "\<bar>fl x * 100\<bar> \<le> 150" by linarith
  then have "\<bar>fl x * 100\<bar> * \<epsilon> \<le> 150 * \<epsilon>" using eps by (intro mult_right_mono) auto
  with fe [of "fl x * 100"] have "\<bar>fl (fl x * 100) - fl x * 100\<bar> \<le> 150 * \<epsilon>" by linarith
  with f eps have "\<bar>fl (fl x * 100) - 100 * x\<bar> \<le> 300 * \<epsilon>" by linarith
  then show ?thesis unfolding u x_def [symmetric] by (simp add: \<epsilon>_def)
qed

text \<open>A threshold is passed exactly when the fraction passes it; at the threshold the sum comes out even.\<close>

lemma uptime_threshold:
  assumes "0 \<le> s" and "s \<le> t" and "0 < t" and "t < 2 ^ 43"
    and "fl (fl (of_int k / 100) * 100) = of_int k"
  shows "of_int k \<le> uptime_of s t \<longleftrightarrow> k * t \<le> 100 * s"
proof -
  define y where "y = (100 * (of_int s / of_int t) :: rat)"
  have t: "0 < (of_int t :: rat)" using assms(3) by simp
  define \<delta> where "\<delta> = (300 / 2 ^ 53 :: rat)"
  have gap: "\<delta> < (1 :: rat) / of_int t"
  proof -
    have "(of_int t :: rat) < of_int (2 ^ 43)" using assms(4) by (simp only: of_int_less_iff)
    then show ?thesis using t by (simp add: \<delta>_def field_simps)
  qed
  note err = uptime_error [OF assms(1-4), folded y_def \<delta>_def]
  have y: "y = of_int (100 * s) / of_int t" by (simp add: y_def)
  consider (less) "100 * s + 1 \<le> k * t" | (equal) "100 * s = k * t" | (greater) "k * t + 1 \<le> 100 * s" by linarith
  then show ?thesis
  proof cases
    case less
    then have "(of_int (100 * s + 1) :: rat) \<le> of_int (k * t)" by (simp only: of_int_le_iff)
    then have "y + 1 / of_int t \<le> of_int k" using t by (simp add: y field_simps)
    with err gap have "uptime_of s t < of_int k" by linarith
    with less show ?thesis by simp
  next
    case equal
    then have "(of_int (100 * s) :: rat) = of_int (k * t)" by (simp only: of_int_eq_iff)
    then have "of_int s / of_int t = (of_int k / 100 :: rat)" using t by (simp add: field_simps)
    moreover have "uptime_of s t = fl (fl (of_int s / of_int t) * 100)"
      using assms by (simp add: uptime_of_def fl_mul_def fl_div_def)
    ultimately have "uptime_of s t = of_int k" using assms(5) by (simp only:)
    with equal show ?thesis by simp
  next
    case greater
    then have "(of_int (k * t + 1) :: rat) \<le> of_int (100 * s)" by (simp only: of_int_le_iff)
    moreover have "of_int k + 1 / of_int t = of_int (k * t + 1) / (of_int t :: rat)" using t by (simp add: field_simps)
    ultimately have "of_int k + 1 / of_int t \<le> y" using t unfolding y by (simp only: divide_right_mono less_imp_le)
    with err gap have "of_int k \<le> uptime_of s t" by linarith
    with greater show ?thesis by simp
  qed
qed

lemma threshold_sums: "fl (fl (of_int 99 / 100) * 100) = of_int 99" "fl (fl (of_int 95 / 100) * 100) = of_int 95"
  by code_simp+

section \<open>The number of days\<close>

text \<open>A report for the days from \<open>start\<close> covers \<open>n\<close> days if it ends in the last nanosecond of the last one.\<close>

lemma PeriodDays_hours:
  assumes "1 \<le> n" and "n \<le> 106751"
  shows "PeriodDays start (end_of_day (start + (n - 1) * Day)) =
    fl_trunc (fl (fl (of_int (24 * n - 1) + fl ((of_int Hour - 1) / of_int Hour)) / 24)) + 1"
proof -
  let ?d = "24 * Hour * n - 1"
  have d: "end_of_day (start + (n - 1) * Day) - start = ?d"
    by (simp add: end_of_day_def Day_def Nanosecond_def algebra_simps)
  have "0 \<le> ?d" "?d < 2 ^ 63" using assms by (simp_all add: duration_defs)
  then have s: "time_Sub (end_of_day (start + (n - 1) * Day)) start = ?d" by (simp add: time_Sub_def d)
  have q: "?d div Hour = 24 * n - 1" by (simp add: duration_defs)
  have r: "?d - (24 * n - 1) * Hour = Hour - 1" by (simp add: algebra_simps)
  have "sgn ?d = 1" using assms by (simp add: duration_defs)
  moreover have "fl_of_int (24 * n - 1) = of_int (24 * n - 1)" using assms by (intro fl_of_int) simp
  moreover have "fl_of_int (Hour - 1) = of_int Hour - 1" by (simp add: duration_defs)
  ultimately have "dur_Hours ?d = fl (of_int (24 * n - 1) + fl ((of_int Hour - 1) / of_int Hour))"
    using \<open>0 \<le> ?d\<close> by (simp only: dur_Hours_def q r fl_add_def fl_div_def abs_of_nonneg Let_def mult_1)
  then show ?thesis by (simp add: PeriodDays_def s fl_div_def)
qed

text \<open>What is missing from the last hour: more than two to the minus 42, less than two to the minus 41.\<close>

lemma missing_part:
  obtains d where "fl ((of_int Hour - 1) / of_int Hour) = 1 - d" and "1 / 2 ^ 42 < d" and "d < 1 / 2 ^ 41"
proof
  show "fl ((of_int Hour - 1) / of_int Hour) = 1 - (1 - fl ((of_int Hour - 1) / of_int Hour))" by simp
  show "1 / 2 ^ 42 < 1 - fl ((of_int Hour - 1) / of_int Hour)" "1 - fl ((of_int Hour - 1) / of_int Hour) < 1 / 2 ^ 41"
    by code_simp+
qed

lemma PeriodDays_short:
  assumes "1 \<le> n" and "n \<le> 170"
  shows "PeriodDays start (end_of_day (start + (n - 1) * Day)) = n"
proof -
  obtain d where d: "fl ((of_int Hour - 1) / of_int Hour) = 1 - d" "1 / 2 ^ 42 < d" "d < 1 / 2 ^ 41" by (rule missing_part)
  define N where "N = (of_int n :: rat)"
  define x where "x = 24 * N - d"
  define H where "H = fl x"
  define z where "z = H / 24"
  define s where "s = scale x"
  have N: "1 \<le> N" "N \<le> 170" using assms by (simp_all add: N_def)
  have x: "23 < x" "x < 4096" using N d(2,3) by (simp_all add: x_def)
  have H: "of_int (24 * n - 1) \<le> H" unfolding H_def
    using x d(3) by (intro fl_ge_int) (simp_all add: x_def N_def)
  then have H1: "24 * N - 1 \<le> H" by (simp add: N_def)
  have s41: "41 \<le> s" unfolding s_def using x by (intro scale_ge) auto
  have p: "0 < (2 :: rat) powi s" "(2 :: rat) powi s = of_int (2 ^ nat s)"
    using s41 by (simp_all add: zero_less_power_int power_int_def)
  have big: "2 ^ 41 \<le> (2 :: rat) powi s"
    using power_int_increasing [OF s41, of "2 :: rat"] by simp
  have near: "(H - x) * 2 powi s \<le> 1 / 2"
  proof -
    have "(H - x) * 2 powi s \<le> \<bar>H - x\<bar> * 2 powi s" using p(1) by (intro mult_right_mono) auto
    also have "\<dots> \<le> 1 / 2" unfolding H_def s_def using x by (intro fl_nearest) auto
    finally show ?thesis .
  qed
  have "1 / 2 < d * 2 powi s"
  proof -
    have "1 / 2 ^ 42 * 2 ^ 41 \<le> 1 / 2 ^ 42 * (2 :: rat) powi s" by (intro mult_left_mono big) simp
    also have "\<dots> < d * 2 powi s" by (intro mult_strict_right_mono d(2) p(1))
    finally show ?thesis by simp
  qed
  moreover have "(H - x) * 2 powi s = H * 2 powi s - 24 * N * 2 powi s + d * 2 powi s" by (simp add: x_def algebra_simps)
  ultimately have "H * 2 powi s < 24 * N * 2 powi s" using near by linarith
  moreover obtain k where k: "H * 2 powi s = of_int k" using fl_grid [of x] x unfolding H_def s_def by auto
  moreover have m: "24 * N * 2 powi s = of_int (24 * n * 2 ^ nat s)" by (simp add: N_def p(2))
  ultimately have "k < 24 * n * 2 ^ nat s" by (simp only: of_int_less_iff)
  then have "k + 1 \<le> 24 * n * 2 ^ nat s" by simp
  then have "(of_int (k + 1) :: rat) \<le> of_int (24 * n * 2 ^ nat s)" by (simp only: of_int_le_iff)
  then have below: "H * 2 powi s + 1 \<le> 24 * N * 2 powi s" unfolding m [symmetric] by (simp add: k)
  have z: "N - 1 / 24 \<le> z" "z * 2 powi s + 1 / 24 \<le> N * 2 powi s" using H1 below by (simp_all add: z_def)
  have z0: "0 < z" using z(1) N by simp
  have "\<bar>z\<bar> * 2 powi (s + 4) < 2 ^ 53"
  proof -
    have "x * 2 powi s < 2 ^ 53" using scale_bounds(2) [of x] x by (simp add: s_def)
    moreover have "H * 2 powi s \<le> x * 2 powi s + 1 / 2" using near by (simp add: algebra_simps)
    moreover have "\<bar>z\<bar> * 2 powi (s + 4) = H * 2 powi s * (2 / 3)" using z0 by (simp add: z_def power_int_add)
    ultimately show ?thesis by simp
  qed
  then have s': "s + 4 \<le> scale z" using z0 by (intro scale_ge) auto
  have "16 * 2 powi s \<le> (2 :: rat) powi scale z"
    using power_int_increasing [OF s', of "2 :: rat"] by (simp add: power_int_add)
  then have "\<bar>fl z - z\<bar> * (16 * 2 powi s) \<le> \<bar>fl z - z\<bar> * 2 powi scale z" by (intro mult_left_mono) auto
  also have "\<dots> \<le> 1 / 2" using z0 by (intro fl_nearest) auto
  finally have "\<bar>fl z - z\<bar> * 2 powi s \<le> 1 / 32" by simp
  moreover have "(fl z - z) * 2 powi s \<le> \<bar>fl z - z\<bar> * 2 powi s" using p(1) by (intro mult_right_mono) auto
  ultimately have "(fl z - z) * 2 powi s \<le> 1 / 32" by (rule order_trans [rotated])
  moreover have "(fl z - z) * 2 powi s = fl z * 2 powi s - z * 2 powi s" by (simp add: algebra_simps)
  ultimately have "fl z * 2 powi s < N * 2 powi s" using z(2) by linarith
  then have hi: "fl z < N" using p(1) by simp
  have "z * 2 powi s < N * 2 powi s" using z(2) by linarith
  then have "z < N" using p(1) by simp
  then have "of_int (n - 1) \<le> fl z" using z(1) N z0 by (intro fl_ge_int) (simp_all add: N_def)
  with hi have "\<lfloor>fl z\<rfloor> = n - 1" "0 \<le> fl z" using assms unfolding N_def by (simp_all add: floor_eq_iff)
  moreover have "of_int (24 * n - 1) + (1 - d) = x" by (simp add: x_def N_def)
  ultimately show ?thesis
    using assms by (simp add: PeriodDays_hours d(1) fl_trunc_def flip: H_def z_def)
qed

lemma PeriodDays_long:
  assumes "171 \<le> n" and "n \<le> 106751"
  shows "PeriodDays start (end_of_day (start + (n - 1) * Day)) = n + 1"
proof -
  obtain d where d: "fl ((of_int Hour - 1) / of_int Hour) = 1 - d" "1 / 2 ^ 42 < d" "d < 1 / 2 ^ 41" by (rule missing_part)
  define x where "x = (24 * of_int n - d :: rat)"
  define s where "s = scale x"
  have N: "171 \<le> (of_int n :: rat)" "(of_int n :: rat) \<le> 106751" using assms by simp_all
  have x: "4096 < x" "x < 2 ^ 52" using N d(2,3) by (simp_all add: x_def)
  have s: "0 \<le> s" "s \<le> 40" unfolding s_def
  proof -
    show "0 \<le> scale x" using x by (intro scale_nonneg) auto
    have "scale x < 41"
    proof (rule ccontr)
      assume "\<not> scale x < 41"
      then have "(2 :: rat) powi 41 \<le> 2 powi scale x" by (intro power_int_increasing) auto
      then have "4096 * 2 ^ 41 \<le> x * 2 powi scale x" using x by (intro mult_mono) auto
      with scale_bounds(2) [of x] x show False by simp
    qed
    then show "scale x \<le> 40" by simp
  qed
  have p: "0 < (2 :: rat) powi s" "(2 :: rat) powi s = of_int (2 ^ nat s)"
    using s by (simp_all add: zero_less_power_int power_int_def)
  have "(2 :: rat) powi s \<le> 2 ^ 40" using power_int_increasing [OF s(2), of "2 :: rat"] by simp
  then have "d * 2 powi s \<le> d * 2 ^ 40" using d(2) by (intro mult_left_mono) auto
  also have "\<dots> < 1 / 2 ^ 41 * 2 ^ 40" by (intro mult_strict_right_mono d(3)) simp
  finally have "d * 2 powi s < 1 / 2" by simp
  moreover have "x * 2 powi s - of_int (24 * n * 2 ^ nat s) = - (d * 2 powi s)" by (simp add: x_def p(2) algebra_simps)
  moreover have "0 \<le> d * 2 powi s" using d(2) p(1) by simp
  ultimately have "\<bar>x * 2 powi s - of_int (24 * n * 2 ^ nat s)\<bar> < 1 / 2" by simp
  then have "round_even (x * 2 powi s) = 24 * n * 2 ^ nat s" by (rule round_even_near)
  with fl_grid [of x] x have "fl x * 2 powi s = 24 * of_int n * 2 powi s" by (simp add: s_def [symmetric] p(2))
  then have "fl x = 24 * of_int n" using p(1) by simp
  moreover have "of_int (24 * n - 1) + (1 - d) = x" by (simp add: x_def)
  moreover have "fl (of_int n) = of_int n" using assms fl_of_int [of n] by (simp add: fl_of_int_def)
  ultimately show ?thesis
    using assms by (simp add: PeriodDays_hours d(1) fl_trunc_def)
qed

end
