(* ===== verification/Reporting_Runs.thy ===== *)
theory Reporting_Runs
  imports Reporting_Laws Reporting_Figures
begin

text \<open>
  Runs of \<open>sms-reporting\<close>: what becomes of a request for a report, and of the daily job, when the
  database answers and Elasticsearch and Redis may fail.
\<close>

section \<open>The mail of a report\<close>

definition count_status :: "ReportingServer list \<Rightarrow> string \<Rightarrow> int" where
  "count_status rs st = int (length (filter (\<lambda>r. rsv_Status r = st) rs))"

definition server_counts :: "ReportingServer list \<Rightarrow> int \<times> int \<times> int \<times> int" where
  "server_counts rs = (int (length rs), count_status rs ''ONLINE'', count_status rs ''OFFLINE'', count_status rs ''UNKNOWN'')"

text \<open>The mail that reports an uptime and the counts of the replica has been put into the stream.\<close>

definition mail_requested ::
  "'w reporting_env \<Rightarrow> ReportRequest \<Rightarrow> rat \<Rightarrow> ReportingServer list \<Rightarrow> redis_db \<Rightarrow> redis_db \<Rightarrow> bool" where
  "mail_requested E req u rs r r' \<longleftrightarrow>
     (\<exists>n. trims (rep_maxLen E) (length (rd_streams r (rep_notificationStream E))) n \<and>
        r' = do_XAdd n (rep_notificationStream E)
          (notification_fields (report_mail E req (report_data req (server_counts rs) u))) r)"

text \<open>The uptime that \<open>CalculateUptime\<close> gave for the period of the request.\<close>

definition uptime_answer :: "'w reporting_env \<Rightarrow> ReportRequest \<Rightarrow> rat \<Rightarrow> bool" where
  "uptime_answer E req u \<longleftrightarrow> (\<exists>w. result (CalculateUptime E (rq_StartTime req) (rq_EndTime req)) w = Inr u)"

lemma uptime_answer_cases:
  assumes "uptime_answer E req u"
  shows "u = 0 \<or> (\<exists>s t. t \<noteq> 0 \<and> u = uptime_of s t)"
proof -
  obtain w where "result (CalculateUptime E (rq_StartTime req) (rq_EndTime req)) w = Inr u"
    using assms by (auto simp: uptime_answer_def)
  then show ?thesis
    by (auto simp: CalculateUptime_def uptime_of_def split: option.splits sum.splits if_splits)
qed

context reporting_services
begin

lemma CalculateUptime_view [simp]: "view (after (CalculateUptime E a b) w) = view w"
  by (auto simp: CalculateUptime_def count_view split: option.split sum.split)

lemma GetServerCount_view [simp]: "view (after (GetServerCountByStatus E st) w) = view w"
  by (simp add: GetServerCountByStatus_def report_db_def)

lemma NewReportRequest_view [simp]: "view (after (NewReportRequest E m a b c) w) = view w"
  by (simp add: NewReportRequest_def)

end

context reporting_services_up
begin

lemma GetServerCount_up:
  "result (GetServerCountByStatus E st) w =
     Inr (if st = [] then int (length (rdb_servers (view w))) else count_status (rdb_servers (view w)) st)"
proof -
  have "\<exists>n. result (tbl_Count (rep_servers E) P) w = Inr n" for P
    using srv.Count_up unfolding answers_def by blast
  then have "result (tbl_Count (rep_servers E) P) w = Inr (int (length (filter P (rdb_servers (view w)))))" for P
    using srv.Count_found by metis
  then show ?thesis by (simp add: GetServerCountByStatus_def report_db_def count_status_def)
qed

text \<open>A change of status is a change of the row of the request, if there is one.\<close>

lemma UpdateReportStatus_up:
  assumes "requests_uniq (rdb_requests (view w))"
  obtains u where "result (UpdateReportStatus E i st) w = Inr ()"
    and "view (after (UpdateReportStatus E i st) w) =
      rdb_requests_update (upd_rows (\<lambda>r. rq_ID r = i) (\<lambda>r. r\<lparr>rq_Status := st, rq_UpdatedAt := u\<rparr>)) (view w)"
proof -
  let ?P = "\<lambda>r. rq_ID r = i" and ?f = "\<lambda>r. r\<lparr>rq_Status := st\<rparr>"
  have keys: "map rq_ID (upd_rows ?P (\<lambda>r. request_stamp u (?f r)) rs) = map rq_ID rs" for u rs
    by (rule map_upd_rows) (simp add: request_stamp_def)
  obtain u where "result (tbl_Updates (rep_requests E) ?P ?f) w = Inr (int (length (filter ?P (rdb_requests (view w)))))"
    "view (after (tbl_Updates (rep_requests E) ?P ?f) w) = rdb_requests_update (upd_rows ?P (\<lambda>r. request_stamp u (?f r))) (view w)"
    by (rule req.Updates_put [of ?P ?f w]) (use assms keys in \<open>auto simp: requests_uniq_def simp del: set_map\<close>)
  then show thesis
    by (intro that [of u]) (simp_all add: UpdateReportStatus_def report_db_def request_stamp_def)
qed

end

lemma upd_rows_uniq: "requests_uniq rs \<Longrightarrow> requests_uniq (upd_rows P (\<lambda>r. r\<lparr>rq_Status := st, rq_UpdatedAt := u\<rparr>) rs)"
proof -
  have "map rq_ID (upd_rows P (\<lambda>r. r\<lparr>rq_Status := st, rq_UpdatedAt := u\<rparr>) rs) = map rq_ID rs" by (rule map_upd_rows) simp
  then show "requests_uniq rs \<Longrightarrow> requests_uniq (upd_rows P (\<lambda>r. r\<lparr>rq_Status := st, rq_UpdatedAt := u\<rparr>) rs)"
    by (simp add: requests_uniq_def)
qed

context reporting_publisher
begin

lemma doWork_outcome:
  obtains (mail) u where "uptime_answer E rq u"
      and "mail_requested E rq u (rdb_servers (view w)) (rdb_redis (view w)) (rdb_redis (view (after (doWork E rq) w)))"
      and "(view (after (doWork E rq) w))\<lparr>rdb_redis := rdb_redis (view w)\<rparr> = view w"
  | (none) e where "result (doWork E rq) w = Inl e" and "view (after (doWork E rq) w) = view w"
proof -
  let ?count = "\<lambda>st. after (GetServerCountByStatus E st)"
  define v where "v = ?count ''UNKNOWN'' (?count ''OFFLINE'' (?count ''ONLINE'' (?count [] w)))"
  let ?up = "CalculateUptime E (rq_StartTime rq) (rq_EndTime rq)"
  have v: "view v = view w" by (simp add: v_def)
  show thesis
  proof (cases "result ?up v")
    case (Inl e)
    then have "result (doWork E rq) w = Inl e" "view (after (doWork E rq) w) = view w"
      by (simp_all add: doWork_def GetServerCount_up flip: v_def) (simp add: v)
    then show ?thesis by (rule none)
  next
    case (Inr u)
    let ?mail = "notification_fields (report_mail E rq (report_data rq (server_counts (rdb_servers (view w))) u))"
    let ?pub = "cmd_XAdd R (rep_notificationStream E) (rep_maxLen E) ?mail"
    have run: "result (doWork E rq) w = (case result ?pub (after ?up v) of Inl e \<Rightarrow> Inl (ErrNotify e) | Inr _ \<Rightarrow> Inr ())"
      "view (after (doWork E rq) w) = view (after ?pub (after ?up v))"
      using Inr by (simp_all add: doWork_def GetServerCount_up publisher reporting_Publish_def server_counts_def flip: v_def)
    have u: "uptime_answer E rq u" using Inr by (auto simp: uptime_answer_def)
    have sent: thesis if "\<exists>n. trims (rep_maxLen E) (length (rd_streams (rdb_redis (view w)) (rep_notificationStream E))) n \<and>
        view (after ?pub (after ?up v)) = rdb_redis_update (do_XAdd n (rep_notificationStream E) ?mail) (view w)"
      using that by (intro mail [OF u]) (auto simp: mail_requested_def run(2))
    show ?thesis
    proof (cases "result ?pub (after ?up v)")
      case (Inl e)
      from pub.XAdd_err [OF Inl] show ?thesis
      proof (elim disjE)
        assume "view (after ?pub (after ?up v)) = view (after ?up v)"
        with Inl show ?thesis by (intro none) (simp_all add: run v)
      qed (use sent v in auto)
    next
      case (Inr x)
      from pub.XAdd_ok [OF Inr] show ?thesis using sent v by auto
    qed
  qed
qed

text \<open>
  The end of a request: \<open>COMPLETED\<close> with the mail asked for, or \<open>FAILED\<close>. Nothing else changes but
  the row of the request and the stream.
\<close>

lemma processReport_outcome:
  assumes "requests_uniq (rdb_requests (view w))" and "d' = view (after (processReport E rq) w)"
  obtains u st where "rdb_requests d' = upd_rows (\<lambda>r. rq_ID r = rq_ID rq) (\<lambda>r. r\<lparr>rq_Status := st, rq_UpdatedAt := u\<rparr>) (rdb_requests (view w))"
    and "rdb_servers d' = rdb_servers (view w)" and "rdb_jobs d' = rdb_jobs (view w)"
    and "st = ReportStatusCompleted \<and>
        (\<exists>p. uptime_answer E rq p \<and> mail_requested E rq p (rdb_servers (view w)) (rdb_redis (view w)) (rdb_redis d')) \<or>
      st = ReportStatusFailed \<and>
        (rdb_redis d' = rdb_redis (view w) \<or>
         (\<exists>p. uptime_answer E rq p \<and> mail_requested E rq p (rdb_servers (view w)) (rdb_redis (view w)) (rdb_redis d')))"
proof -
  let ?P = "\<lambda>r. rq_ID r = rq_ID rq" and ?set = "\<lambda>st u r. r\<lparr>rq_Status := st, rq_UpdatedAt := u\<rparr>"
  let ?w = "after (UpdateReportStatus E (rq_ID rq) ReportStatusProcessing) w"
  obtain u1 where 1: "result (UpdateReportStatus E (rq_ID rq) ReportStatusProcessing) w = Inr ()"
    "view ?w = rdb_requests_update (upd_rows ?P (?set ReportStatusProcessing u1)) (view w)"
    using UpdateReportStatus_up [OF assms(1)] by metis
  define v where "v = after (doWork E rq) ?w"
  define st where "st = (case result (doWork E rq) ?w of Inl e \<Rightarrow> ReportStatusFailed | Inr _ \<Rightarrow> ReportStatusCompleted)"
  have work: "rdb_requests (view v) = rdb_requests (view ?w) \<and> rdb_servers (view v) = rdb_servers (view w) \<and>
      rdb_jobs (view v) = rdb_jobs (view w) \<and>
      (result (doWork E rq) ?w \<noteq> Inr () \<and> rdb_redis (view v) = rdb_redis (view w) \<or>
       (\<exists>p. uptime_answer E rq p \<and> mail_requested E rq p (rdb_servers (view w)) (rdb_redis (view w)) (rdb_redis (view v))))"
  proof (cases rule: doWork_outcome [of rq ?w])
    case (mail u)
    from mail(3) have "rdb_requests (view v) = rdb_requests (view ?w)" "rdb_servers (view v) = rdb_servers (view ?w)"
      "rdb_jobs (view v) = rdb_jobs (view ?w)" by (cases "view v"; cases "view ?w"; simp add: v_def)+
    with mail(1,2) 1(2) show ?thesis by (auto simp: v_def)
  next
    case (none e)
    with 1(2) show ?thesis by (simp add: v_def)
  qed
  then have u: "requests_uniq (rdb_requests (view v))" using assms(1) by (simp add: 1(2) upd_rows_uniq)
  obtain u2 where 2: "view (after (UpdateReportStatus E (rq_ID rq) st) v) = rdb_requests_update (upd_rows ?P (?set st u2)) (view v)"
    using UpdateReportStatus_up [OF u] by metis
  have d': "d' = rdb_requests_update (upd_rows ?P (?set st u2)) (view v)"
    using 2 by (simp add: assms(2) processReport_def 1(1) v_def st_def)
  have again: "upd_rows ?P (?set st u2) (upd_rows ?P (?set ReportStatusProcessing u1) rs) = upd_rows ?P (?set st u2) rs" for rs
    by (simp add: upd_rows_def)
  have st: "st = ReportStatusCompleted \<and> result (doWork E rq) ?w = Inr () \<or> st = ReportStatusFailed"
    by (simp add: st_def split: sum.split)
  have red: "rdb_redis d' = rdb_redis (view v)" by (simp add: d')
  show thesis
  proof (rule that)
    show "rdb_requests d' = upd_rows ?P (?set st u2) (rdb_requests (view w))"
      using work by (simp add: d' 1(2) again)
    show "rdb_servers d' = rdb_servers (view w)" "rdb_jobs d' = rdb_jobs (view w)" using work by (simp_all add: d')
    show "st = ReportStatusCompleted \<and>
        (\<exists>p. uptime_answer E rq p \<and> mail_requested E rq p (rdb_servers (view w)) (rdb_redis (view w)) (rdb_redis d')) \<or>
      st = ReportStatusFailed \<and>
        (rdb_redis d' = rdb_redis (view w) \<or>
         (\<exists>p. uptime_answer E rq p \<and> mail_requested E rq p (rdb_servers (view w)) (rdb_redis (view w)) (rdb_redis d')))"
      unfolding red using st work by blast
  qed
qed

end

section \<open>Requests\<close>

text \<open>The daily job asks for a report on yesterday and today's midnight; the table does not get to know.\<close>

definition daily_request :: "time \<Rightarrow> ReportRequest \<Rightarrow> bool" where
  "daily_request t rq \<longleftrightarrow>
     rq_StartTime rq = (t div Day - 1) * Day \<and> rq_EndTime rq = t div Day * Day \<and> rq_Status rq = ReportStatusPending"

context reporting_services_up
begin

lemma CreateReportRequest_up:
  assumes "requests_uniq (rdb_requests (view w))" and "rq_ID rq \<notin> rq_ID ` set (rdb_requests (view w))"
  obtains rq' where "result (CreateReportRequest E rq) w = Inr ()" and "request_filled rq rq'"
    and "view (after (CreateReportRequest E rq) w) = rdb_requests_update (\<lambda>rs. rs @ [rq']) (view w)"
proof -
  have "list_all2 request_filled [rq] [rq]" by (simp add: request_filled_refl)
  moreover have "requests_uniq (rdb_requests (view w) @ [rq])" using assms by (simp add: requests_uniq_def)
  ultimately obtain rs where rs: "result (tbl_Create (rep_requests E) [rq]) w = Inr rs"
    using req.Create_up by blast
  from req.Create_ok [OF rs] obtain rq' where "rs = [rq']" "request_filled rq rq'"
    by (auto simp: list_all2_Cons1)
  with req.Create_ok [OF rs] rs show thesis
    by (intro that [of rq']) (simp_all add: CreateReportRequest_def report_db_def)
qed

lemma RequestReport_outcome:
  assumes "requests_uniq (rdb_requests (view w))"
    and "Parse_date from = Some a" and "Parse_date to = Some b" and "a \<le> end_of_day b" and "TrimSpace email \<noteq> []"
  obtains rq rq' where "result (RequestReport E email from to) w = Inr ()"
    and "rq_ID rq \<notin> rq_ID ` set (rdb_requests (view w))" and "rq_RequestorEmail rq = email"
    and "rq_StartTime rq = a" and "rq_EndTime rq = end_of_day b" and "rq_Status rq = ReportStatusPending"
    and "request_filled rq rq'"
    and "view (after (RequestReport E email from to) w) =
      (view w)\<lparr>rdb_requests := rdb_requests (view w) @ [rq'], rdb_jobs := rdb_jobs (view w) @ [rq]\<rparr>"
proof -
  define v where "v = after (rep_NewUUID E) w"
  define c where "c = result (rep_NewUUID E) w"
  define rq where "rq = \<lparr>rq_ID = result (rep_NewUUID E) v, rq_RequestorEmail = email, rq_StartTime = a,
    rq_EndTime = end_of_day b, rq_Status = ReportStatusPending, rq_CorrelationID = c, rq_CreatedAt = 0, rq_UpdatedAt = 0\<rparr>"
  have v: "view v = view w" by (simp add: v_def)
  have new: "result (NewReportRequest E email a (end_of_day b) c) v = Inr rq"
    "view (after (NewReportRequest E email a (end_of_day b) c) v) = view w"
    using assms(4,5) by (simp_all add: NewReportRequest_def rq_def v)
  have fresh: "rq_ID rq \<notin> rq_ID ` set (rdb_requests (view w))" using uuid_fresh [of v] by (simp add: rq_def v)
  let ?v = "after (NewReportRequest E email a (end_of_day b) c) v"
  have "requests_uniq (rdb_requests (view ?v))" "rq_ID rq \<notin> rq_ID ` set (rdb_requests (view ?v))"
    using assms(1) fresh unfolding new(2) by simp_all
  then obtain rq' where cr: "result (CreateReportRequest E rq) ?v = Inr ()" "request_filled rq rq'"
    "view (after (CreateReportRequest E rq) ?v) = rdb_requests_update (\<lambda>rs. rs @ [rq']) (view ?v)"
    by (rule CreateReportRequest_up)
  have "result (RequestReport E email from to) w = Inr ()"
    "view (after (RequestReport E email from to) w) =
      (view w)\<lparr>rdb_requests := rdb_requests (view w) @ [rq'], rdb_jobs := rdb_jobs (view w) @ [rq]\<rparr>"
    by (simp add: RequestReport_def assms(2,3) new cr(1,3) flip: v_def c_def)
      (cases "view w"; simp add: RequestReport_def assms(2,3) new cr(1,3) v flip: v_def c_def)
  then show thesis using that [OF _ fresh _ _ _ _ cr(2)] by (simp add: rq_def)
qed

end

end
