(* ===== verification/Reporting_Pool.thy ===== *)
theory Reporting_Pool
  imports Reporting "HOL-Library.Multiset"
begin

text \<open>
  The pool of workers of \<open>sms-reporting\<close>: a buffered channel of requests, and goroutines that
  range over it until it is closed and empty. Each atomic action of a goroutine is an operation on
  the state of the pool; their interleavings are the steps of a relation.
\<close>

section \<open>Operations\<close>

text \<open>
  \<open>pl_accepted\<close>, \<open>pl_taken\<close> and \<open>pl_done\<close> record what has happened: the requests sent, those
  received by a worker, and those that \<open>processReport\<close> has returned from. \<open>pl_exited\<close> are the
  workers that have called \<open>wg.Done\<close>.
\<close>

record pool =
  pl_queue :: "ReportRequest list"
  pl_closed :: bool
  pl_busy :: "nat \<Rightarrow> ReportRequest option"
  pl_exited :: "nat list"
  pl_accepted :: "ReportRequest list"
  pl_taken :: "ReportRequest list"
  pl_done :: "ReportRequest list"

text \<open>The number of workers and the capacity of the channel.\<close>

definition NewReportingWorker :: "int \<Rightarrow> int \<Rightarrow> nat \<times> nat" where
  "NewReportingWorker workerCount jobQueueSize =
     (nat (if workerCount \<le> 0 then 5 else workerCount), nat (if jobQueueSize \<le> 0 then 100 else jobQueueSize))"

definition idle_pool :: pool where
  "idle_pool = \<lparr>pl_queue = [], pl_closed = False, pl_busy = (\<lambda>_. None), pl_exited = [], pl_accepted = [], pl_taken = [], pl_done = []\<rparr>"

text \<open>Sending to a full channel blocks, to a closed one panics.\<close>

datatype send = Sent pool | Blocked | Panics

definition EnqueueReport :: "nat \<Rightarrow> ReportRequest \<Rightarrow> pool \<Rightarrow> send" where
  "EnqueueReport cap req s =
     (if pl_closed s then Panics
      else if length (pl_queue s) < cap
      then Sent (s\<lparr>pl_queue := pl_queue s @ [req], pl_accepted := pl_accepted s @ [req]\<rparr>)
      else Blocked)"

text \<open>A turn of the loop of a worker: it receives a request, processes it, or leaves the loop.\<close>

definition receive :: "nat \<Rightarrow> pool \<Rightarrow> pool option" where
  "receive i s =
     (if i \<in> set (pl_exited s) \<or> pl_busy s i \<noteq> None then None
      else case pl_queue s of
        req # q \<Rightarrow> Some (s\<lparr>pl_queue := q, pl_busy := (pl_busy s)(i := Some req), pl_taken := pl_taken s @ [req]\<rparr>)
      | [] \<Rightarrow> None)"

definition finish :: "nat \<Rightarrow> pool \<Rightarrow> pool option" where
  "finish i s =
     (case pl_busy s i of
        Some req \<Rightarrow> Some (s\<lparr>pl_busy := (pl_busy s)(i := None), pl_done := pl_done s @ [req]\<rparr>)
      | None \<Rightarrow> None)"

definition leave :: "nat \<Rightarrow> pool \<Rightarrow> pool option" where
  "leave i s =
     (if i \<notin> set (pl_exited s) \<and> pl_busy s i = None \<and> pl_closed s \<and> pl_queue s = []
      then Some (s\<lparr>pl_exited := i # pl_exited s\<rparr>) else None)"

text \<open>\<open>Stop\<close> closes the channel and waits until all workers have left.\<close>

definition close_jobs :: "pool \<Rightarrow> pool option" where
  "close_jobs s = (if pl_closed s then None else Some (s\<lparr>pl_closed := True\<rparr>))"

definition stop_returned :: "nat \<Rightarrow> pool \<Rightarrow> bool" where
  "stop_returned n s \<longleftrightarrow> pl_closed s \<and> (\<forall>i \<in> set [0..<n]. i \<in> set (pl_exited s))"

inductive pool_step :: "nat \<Rightarrow> nat \<Rightarrow> pool \<Rightarrow> pool \<Rightarrow> bool" for n cap where
  step_enqueue: "EnqueueReport cap req s = Sent s' \<Longrightarrow> pool_step n cap s s'"
| step_receive: "i < n \<Longrightarrow> receive i s = Some s' \<Longrightarrow> pool_step n cap s s'"
| step_finish: "i < n \<Longrightarrow> finish i s = Some s' \<Longrightarrow> pool_step n cap s s'"
| step_leave: "i < n \<Longrightarrow> leave i s = Some s' \<Longrightarrow> pool_step n cap s s'"
| step_close: "close_jobs s = Some s' \<Longrightarrow> pool_step n cap s s'"

inductive_cases pool_stepE: "pool_step n cap s s'"

lemmas pool_ops = EnqueueReport_def receive_def finish_def leave_def close_jobs_def

inductive reachable_pool :: "nat \<Rightarrow> nat \<Rightarrow> pool \<Rightarrow> bool" for n cap where
  start: "reachable_pool n cap idle_pool"
| more: "reachable_pool n cap s \<Longrightarrow> pool_step n cap s s' \<Longrightarrow> reachable_pool n cap s'"

section \<open>Invariant\<close>

definition in_work :: "nat \<Rightarrow> pool \<Rightarrow> ReportRequest multiset" where
  "in_work n s = mset (List.map_filter (pl_busy s) [0..<n])"

lemma map_filter_other: "i \<notin> set xs \<Longrightarrow> List.map_filter (f(i := v)) xs = List.map_filter f xs"
  by (induction xs) (auto simp: List.map_filter_simps split: option.split)

lemma map_filter_update:
  assumes "distinct xs" and "i \<in> set xs" and "f i = None"
  shows "mset (List.map_filter (f(i := Some r)) xs) = add_mset r (mset (List.map_filter f xs))"
  using assms
proof (induction xs)
  case (Cons x xs)
  then show ?case
    by (cases "x = i")
      (auto simp: List.map_filter_simps map_filter_other fun_upd_same fun_upd_other simp del: fun_upd_apply split: option.split)
qed simp

lemma in_work_take: "i < n \<Longrightarrow> pl_busy s i = None \<Longrightarrow>
  mset (List.map_filter ((pl_busy s)(i := Some r)) [0..<n]) = add_mset r (in_work n s)"
  unfolding in_work_def by (rule map_filter_update) auto

lemma in_work_finish:
  assumes "i < n" and "pl_busy s i = Some r"
  shows "in_work n s = add_mset r (mset (List.map_filter ((pl_busy s)(i := None)) [0..<n]))"
proof -
  have "mset (List.map_filter (((pl_busy s)(i := None))(i := Some r)) [0..<n]) =
      add_mset r (mset (List.map_filter ((pl_busy s)(i := None)) [0..<n]))"
    by (rule map_filter_update) (use assms in auto)
  moreover have "((pl_busy s)(i := None))(i := Some r) = pl_busy s" using assms(2) by auto
  ultimately show ?thesis by (simp add: in_work_def)
qed

text \<open>
  What is sent is received in the order of sending; what is received is in the hands of one worker
  or done; the channel holds no more than its capacity; a worker that has left has nothing to do.
\<close>

definition pool_inv :: "nat \<Rightarrow> nat \<Rightarrow> pool \<Rightarrow> bool" where
  "pool_inv n cap s \<longleftrightarrow>
     pl_accepted s = pl_taken s @ pl_queue s \<and> mset (pl_taken s) = mset (pl_done s) + in_work n s \<and>
     length (pl_queue s) \<le> cap \<and> distinct (pl_exited s) \<and>
     (\<forall>i \<in> set (pl_exited s). i < n \<and> pl_busy s i = None \<and> pl_closed s \<and> pl_queue s = [])"

lemma pool_inv_start: "pool_inv n cap idle_pool"
proof -
  have "List.map_filter (\<lambda>_. None) xs = []" for xs :: "nat list"
    by (induction xs) (simp_all add: List.map_filter_simps)
  then show ?thesis by (simp add: pool_inv_def idle_pool_def in_work_def)
qed

lemma pool_inv_step: "pool_step n cap s s' \<Longrightarrow> pool_inv n cap s \<Longrightarrow> pool_inv n cap s'"
proof (induction rule: pool_step.induct)
  case (step_enqueue req s s')
  then show ?case by (auto simp: pool_inv_def EnqueueReport_def in_work_def split: if_splits)
next
  case (step_receive i s s')
  then obtain req q where r: "pl_busy s i = None" "i \<notin> set (pl_exited s)" "pl_queue s = req # q"
    "s' = s\<lparr>pl_queue := q, pl_busy := (pl_busy s)(i := Some req), pl_taken := pl_taken s @ [req]\<rparr>"
    by (auto simp: receive_def split: if_splits list.splits)
  with step_receive in_work_take [OF step_receive(1) r(1), of req] show ?case
    by (auto simp: pool_inv_def in_work_def)
next
  case (step_finish i s s')
  then obtain req where r: "pl_busy s i = Some req"
    "s' = s\<lparr>pl_busy := (pl_busy s)(i := None), pl_done := pl_done s @ [req]\<rparr>"
    by (auto simp: finish_def split: option.splits)
  with step_finish in_work_finish [OF step_finish(1) r(1)] show ?case
    by (auto simp: pool_inv_def) (auto simp: in_work_def)
next
  case (step_leave i s s')
  then show ?case by (auto simp: pool_inv_def leave_def in_work_def split: if_splits)
next
  case (step_close s s')
  then show ?case by (auto simp: pool_inv_def close_jobs_def in_work_def split: if_splits)
qed

lemma reachable_pool_inv: "reachable_pool n cap s \<Longrightarrow> pool_inv n cap s"
  by (induction rule: reachable_pool.induct) (auto intro: pool_inv_start pool_inv_step)

section \<open>Stopping\<close>

text \<open>The work that is left once the channel is closed; every step then does some of it.\<close>

definition work_left :: "nat \<Rightarrow> pool \<Rightarrow> nat" where
  "work_left n s = 2 * length (pl_queue s) + size (in_work n s) + (n - length (pl_exited s))"

lemma pool_step_work:
  assumes "pool_step n cap s s'" and "pool_inv n cap s" and "pl_closed s"
  shows "pl_closed s' \<and> work_left n s' < work_left n s"
  using assms
proof (induction rule: pool_step.induct)
  case (step_receive i s s')
  then obtain req q where r: "pl_busy s i = None" "pl_queue s = req # q"
    "s' = s\<lparr>pl_queue := q, pl_busy := (pl_busy s)(i := Some req), pl_taken := pl_taken s @ [req]\<rparr>"
    by (auto simp: receive_def split: if_splits list.splits)
  with step_receive(4) in_work_take [OF step_receive(1) r(1), of req] show ?case
    by (simp add: work_left_def in_work_def)
next
  case (step_finish i s s')
  then obtain req where r: "pl_busy s i = Some req"
    "s' = s\<lparr>pl_busy := (pl_busy s)(i := None), pl_done := pl_done s @ [req]\<rparr>"
    by (auto simp: finish_def split: option.splits)
  with step_finish(4) in_work_finish [OF step_finish(1) r(1)] show ?case
    by (simp add: work_left_def) (simp add: in_work_def)
next
  case (step_leave i s s')
  then have "i \<notin> set (pl_exited s)" "i < n" "set (pl_exited s) \<subseteq> {..<n}" "distinct (pl_exited s)"
    by (auto simp: leave_def pool_inv_def split: if_splits)
  then have "length (pl_exited s) < n"
    using psubset_card_mono [of "{..<n}" "set (pl_exited s)"] by (auto simp: distinct_card)
  with step_leave show ?case by (auto simp: leave_def work_left_def in_work_def split: if_splits)
qed (auto simp: EnqueueReport_def close_jobs_def split: if_splits)

lemma pool_not_stuck:
  assumes "pl_closed s" and "\<not> stop_returned n s"
  shows "\<exists>s'. pool_step n cap s s'"
proof -
  obtain i where i: "i < n" "i \<notin> set (pl_exited s)" using assms by (auto simp: stop_returned_def)
  show ?thesis
  proof (cases "pl_busy s i")
    case (Some req)
    with i show ?thesis by (auto simp: finish_def intro!: exI step_finish)
  next
    case idle: None
    show ?thesis
    proof (cases "pl_queue s")
      case Nil
      with i idle assms(1) show ?thesis by (auto simp: leave_def intro!: exI step_leave)
    next
      case (Cons req q)
      with i idle show ?thesis by (auto simp: receive_def intro!: exI step_receive)
    qed
  qed
qed

lemma in_work_exited: "pool_inv n cap s \<Longrightarrow> stop_returned n s \<Longrightarrow> in_work n s = {#}"
proof -
  assume "pool_inv n cap s" "stop_returned n s"
  then have "\<forall>i \<in> set [0..<n]. pl_busy s i = None" by (auto simp: pool_inv_def stop_returned_def)
  then have "List.map_filter (pl_busy s) xs = []" if "set xs \<subseteq> set [0..<n]" for xs
    using that by (induction xs) (auto simp: List.map_filter_simps)
  then show ?thesis by (simp add: in_work_def)
qed

end
