(* ===== verification/Reporting_Properties.thy ===== *)
theory Reporting_Properties
  imports Reporting_Runs Reporting_Pool
begin

text \<open>
  The properties of \<open>sms-reporting\<close>, with witnesses in a world of plain data.
\<close>

section \<open>A world of plain data\<close>

definition complete_replica :: "ReportingServer \<Rightarrow> ReportingServer" where
  "complete_replica r = r\<lparr>rsv_Status := (if rsv_Status r = [] then ''UNKNOWN'' else rsv_Status r)\<rparr>"

definition ref_requests :: "(reporting_db world, ReportRequest) table" where
  "ref_requests = mem_table rdb_requests rdb_requests_update requests_uniq (\<lambda>old rs. rs) request_stamp"

definition ref_replica :: "(reporting_db world, ReportingServer) table" where
  "ref_replica = mem_table rdb_servers rdb_servers_update replica_uniq (\<lambda>old rs. map complete_replica rs) replica_stamp"

definition ref_reporting :: "reporting_db world reporting_env" where
  "ref_reporting = \<lparr>rep_requests = ref_requests, rep_servers = ref_replica,
     rep_Upsert = (\<lambda>conflict assign row. State (\<lambda>w.
       (Inr (), w\<lparr>wv := rdb_servers_update (upsert_rows conflict assign (complete_replica row)) (wv w)\<rparr>))),
     rep_Count = Some (\<lambda>ix from to success. ret (Inr (if success then 99 else 100))), rep_esIndex = ''observations'',
     rep_publisher = Some (mem_redis rdb_redis rdb_redis_update), rep_maxLen = 1000, rep_notificationStream = ''notification_events'',
     rep_html = replicate 19 '' '', rep_NewUUID = State (\<lambda>w. (fresh_key (map rq_ID (rdb_requests (wv w))), w)),
     rep_Now = mem_Now, rep_Enqueue = (\<lambda>r. State (\<lambda>w. ((), w\<lparr>wv := rdb_jobs_update (\<lambda>q. q @ [r]) (wv w)\<rparr>)))\<rparr>"

interpretation ref_requests: sql_table_up ref_requests wclock wv rdb_requests rdb_requests_update requests_uniq request_filled request_stamp
  unfolding ref_requests_def
proof (rule mem_table_up)
  fix old rs rs' :: "ReportRequest list"
  show "list_all2 request_filled rs rs" by (simp add: list_all2_refl request_filled_refl)
  assume f: "list_all2 request_filled rs rs'" and u: "requests_uniq (old @ rs')"
  from f have "map rq_ID rs' = map rq_ID rs" by (induction rule: list_all2_induct) (auto simp: request_filled_def)
  with u show "requests_uniq (old @ rs)" by (simp add: requests_uniq_def del: set_map)
qed

interpretation ref_replica: sql_table_up ref_replica wclock wv rdb_servers rdb_servers_update replica_uniq replica_filled replica_stamp
  unfolding ref_replica_def
proof (rule mem_table_up)
  fix old rs rs' :: "ReportingServer list"
  have "replica_filled r (complete_replica r)" for r
    unfolding replica_filled_def complete_replica_def by (intro exI [of _ "rsv_UpdatedAt r"]) simp
  then show "list_all2 replica_filled rs (map complete_replica rs)" by (simp add: list.rel_map list_all2_refl)
  assume f: "list_all2 replica_filled rs rs'" and u: "replica_uniq (old @ rs')"
  from f have "map rsv_ServerID rs' = map rsv_ServerID rs" by (induction rule: list_all2_induct) (auto simp: replica_filled_def)
  moreover have "map rsv_ServerID (map complete_replica rs) = map rsv_ServerID rs" by (simp add: complete_replica_def)
  ultimately show "replica_uniq (old @ map complete_replica rs)" using u by (simp add: replica_uniq_def del: set_map map_map)
qed

interpretation ref_rep: reporting_publisher ref_reporting wclock wv "mem_redis rdb_redis rdb_redis_update"
proof -
  have r: "redis_server_up (mem_redis rdb_redis rdb_redis_update) wclock wv rdb_redis rdb_redis_update" by (rule mem_redis_up)
  have f: "\<exists>row'. replica_filled row row' \<and> rdb_servers_update (upsert_rows c a (complete_replica row)) v = rdb_servers_update (upsert_rows c a row') v"
    for row c a v
    by (intro exI [of _ "complete_replica row"])
      (auto simp: replica_filled_def complete_replica_def intro!: exI [of _ "rsv_UpdatedAt row"])
  show "reporting_publisher ref_reporting wclock wv (mem_redis rdb_redis rdb_redis_update)"
    by (simp add: reporting_publisher_def reporting_publisher_axioms_def reporting_services_up_def reporting_services_def
        reporting_services_axioms_def reporting_services_up_axioms_def ref_reporting_def mem_clock.clock_source_axioms
        ref_requests.sql_table_axioms ref_requests.sql_table_up_axioms ref_replica.sql_table_axioms ref_replica.sql_table_up_axioms
        r [THEN redis_server_up.axioms(1)] State_simps f)
      (use fresh_key_notin [of "map rq_ID rs" for rs] in auto)
qed

text \<open>Three servers, one of them offline, and one request that waits to be processed.\<close>

definition example_report :: ReportRequest where
  "example_report = \<lparr>rq_ID = ''r1'', rq_RequestorEmail = ''ops@example.com'', rq_StartTime = 0, rq_EndTime = end_of_day 0,
     rq_Status = ReportStatusPending, rq_CorrelationID = ''c1'', rq_CreatedAt = 0, rq_UpdatedAt = 0\<rparr>"

definition example_reporting :: "reporting_db world" where
  "example_reporting = \<lparr>wv = \<lparr>rdb_requests = [example_report],
       rdb_servers = [\<lparr>rsv_ServerID = ''s1'', rsv_Name = ''web'', rsv_IPv4 = ''10.1.0.1'', rsv_Status = ''ONLINE'', rsv_UpdatedAt = 0\<rparr>,
         \<lparr>rsv_ServerID = ''s2'', rsv_Name = ''db'', rsv_IPv4 = ''10.1.0.2'', rsv_Status = ''OFFLINE'', rsv_UpdatedAt = 0\<rparr>],
       rdb_redis = empty_redis, rdb_jobs = []\<rparr>, wclock = 738000 * Day + 5\<rparr>"

lemma example_uniq: "requests_uniq (rdb_requests (wv example_reporting))" "replica_uniq (rdb_servers (wv example_reporting))"
  by (simp_all add: requests_uniq_def replica_uniq_def example_reporting_def)

section \<open>Properties\<close>

text \<open>
  C13: a request is processed to an end. The row of the request becomes \<open>COMPLETED\<close>, and then a mail
  to its author has been put into the stream, which states the counts of the replica and the
  uptime of the period; or it becomes \<open>FAILED\<close>. No other request, no server and no job changes.
\<close>

theorem report_ends_with_its_mail:
  assumes "reporting_publisher E clock view R" and "requests_uniq (rdb_requests (view w))"
    and "d' = view (after (processReport E rq) w)"
  shows "rdb_servers d' = rdb_servers (view w) \<and> rdb_jobs d' = rdb_jobs (view w) \<and>
    (\<exists>st u. rdb_requests d' = map (\<lambda>r. if rq_ID r = rq_ID rq then r\<lparr>rq_Status := st, rq_UpdatedAt := u\<rparr> else r) (rdb_requests (view w)) \<and>
      (st = ReportStatusCompleted \<and>
         (\<exists>p. uptime_answer E rq p \<and> mail_requested E rq p (rdb_servers (view w)) (rdb_redis (view w)) (rdb_redis d')) \<or>
       st = ReportStatusFailed \<and>
         (rdb_redis d' = rdb_redis (view w) \<or>
          (\<exists>p. uptime_answer E rq p \<and> mail_requested E rq p (rdb_servers (view w)) (rdb_redis (view w)) (rdb_redis d')))))"
  by (rule reporting_publisher.processReport_outcome [OF assms])
    (simp only: upd_rows_def, blast)

theorem report_ends_with_its_mail_witness:
  "\<exists>st. st \<in> {ReportStatusCompleted, ReportStatusFailed} \<and>
     map rq_Status (rdb_requests (wv (after (processReport ref_reporting example_report) example_reporting))) = [st]"
  using report_ends_with_its_mail [OF ref_rep.reporting_publisher_axioms example_uniq(1) refl, of example_report]
  by (auto simp: example_reporting_def)



text \<open>
  C36: the number of days that a report states. For the days from \<open>start\<close> on, \<open>n\<close> of them, it is \<open>n\<close>
  up to 170 days; from 171 days on the last nanosecond is lost in the sum of \<open>Duration.Hours\<close>, and
  the report states one day more than it covers.
\<close>

theorem report_days:
  assumes "1 \<le> n" and "n \<le> 106751"
  shows "td_PeriodDays (report_data (rq\<lparr>rq_StartTime := start, rq_EndTime := end_of_day (start + (n - 1) * Day)\<rparr>) c u) =
    (if n \<le> 170 then n else n + 1)"
  using assms PeriodDays_short [of n start] PeriodDays_long [of n start]
  by (auto simp: report_data_def split: prod.split)

theorem report_days_witness:
  "td_PeriodDays (report_data (example_report\<lparr>rq_StartTime := 0, rq_EndTime := end_of_day (0 + (171 - 1) * Day)\<rparr>) (0, 0, 0, 0) 0) = 172"
  using report_days [where n = 171 and rq = example_report and start = 0 and c = "(0, 0, 0, 0)" and u = 0] by simp

text \<open>
  C35: the label of the fleet's health, computed in floating point, is the one that the fraction of
  successful checks asks for, thresholds included, for fewer than two to the 43 checks.
\<close>

theorem health_label_is_exact:
  assumes "0 \<le> s" and "s \<le> t" and "0 < t" and "t < 2 ^ 43"
  shows "healthLabel (fl_mul (fl_div (fl_of_int s) (fl_of_int t)) 100) =
    (if 99 * t \<le> 100 * s then ''Healthy'' else if 95 * t \<le> 100 * s then ''Attention Recommended'' else ''Action Required'')"
  using uptime_threshold [OF assms threshold_sums(1)] uptime_threshold [OF assms threshold_sums(2)]
  by (simp add: healthLabel_def uptime_of_def)

theorem health_label_is_exact_witness:
  "healthLabel (fl_mul (fl_div (fl_of_int 198) (fl_of_int 200)) 100) = ''Healthy''"
  using health_label_is_exact [of 198 200] by simp

text \<open>
  C15: \<open>Stop\<close> loses no report. Once the channel is closed every step of the pool leaves less to do
  and some step is possible until all workers have left; then every request that was accepted has
  been processed, once, and the requests were taken in the order in which they were sent.
\<close>

theorem stop_drains_the_queue:
  assumes "NewReportingWorker workerCount jobQueueSize = (n, cap)" and "reachable_pool n cap s"
  shows "(pl_closed s \<longrightarrow> (\<forall>s'. pool_step n cap s s' \<longrightarrow> pl_closed s' \<and> work_left n s' < work_left n s) \<and>
      (stop_returned n s \<or> (\<exists>s'. pool_step n cap s s'))) \<and>
    (stop_returned n s \<longrightarrow> mset (pl_done s) = mset (pl_accepted s) \<and> pl_taken s = pl_accepted s)"
proof -
  have i: "pool_inv n cap s" using assms(2) by (rule reachable_pool_inv)
  have "0 < n" using assms(1) by (auto simp: NewReportingWorker_def split: if_splits)
  then have "stop_returned n s \<Longrightarrow> pl_queue s = []"
    using i by (force simp: pool_inv_def stop_returned_def)
  with i in_work_exited [OF i] pool_step_work [OF _ i] pool_not_stuck [of s n cap] show ?thesis
    by (auto simp: pool_inv_def)
qed

text \<open>A run: one request is sent, taken and processed by the only worker, which leaves when the channel is closed.\<close>

definition example_pool :: pool where
  "example_pool = \<lparr>pl_queue = [], pl_closed = True, pl_busy = (\<lambda>_. None), pl_exited = [0],
     pl_accepted = [example_report], pl_taken = [example_report], pl_done = [example_report]\<rparr>"

lemma example_pool_reachable: "reachable_pool 1 7 example_pool"
proof -
  let ?s1 = "idle_pool\<lparr>pl_queue := [example_report], pl_accepted := [example_report]\<rparr>"
  let ?s2 = "?s1\<lparr>pl_queue := [], pl_busy := (\<lambda>_. None)(0 := Some example_report), pl_taken := [example_report]\<rparr>"
  let ?s3 = "?s2\<lparr>pl_busy := (\<lambda>_. None), pl_done := [example_report]\<rparr>"
  let ?s4 = "?s3\<lparr>pl_closed := True\<rparr>"
  have "pool_step 1 7 idle_pool ?s1"
    by (rule step_enqueue [of _ example_report]) (simp add: EnqueueReport_def idle_pool_def)
  with reachable_pool.start have "reachable_pool 1 7 ?s1" by (rule reachable_pool.more)
  moreover have "pool_step 1 7 ?s1 ?s2" by (rule step_receive [of 0]) (simp_all add: receive_def idle_pool_def)
  ultimately have "reachable_pool 1 7 ?s2" by (rule reachable_pool.more)
  moreover have "pool_step 1 7 ?s2 ?s3" by (rule step_finish [of 0]) (simp_all add: finish_def idle_pool_def)
  ultimately have "reachable_pool 1 7 ?s3" by (rule reachable_pool.more)
  moreover have "pool_step 1 7 ?s3 ?s4" by (rule step_close) (simp add: close_jobs_def idle_pool_def)
  ultimately have "reachable_pool 1 7 ?s4" by (rule reachable_pool.more)
  moreover have "pool_step 1 7 ?s4 example_pool"
    by (rule step_leave [of 0]) (simp_all add: leave_def idle_pool_def example_pool_def)
  ultimately show ?thesis by (rule reachable_pool.more)
qed

theorem stop_drains_the_queue_witness:
  "mset (pl_done example_pool) = mset (pl_accepted example_pool) \<and> pl_taken example_pool = pl_accepted example_pool"
proof -
  have "NewReportingWorker 1 7 = (1, 7)" by code_simp
  moreover have "stop_returned 1 example_pool" by (simp add: stop_returned_def example_pool_def)
  ultimately show ?thesis using stop_drains_the_queue [of 1 7 1 7 example_pool] example_pool_reachable by blast
qed

text \<open>
  The daily job. The one instance of the service that gets the lock puts one request into the
  queue, for the day that has ended: the report will say that it covers two days, and its request
  has no row in the table, so that its status is recorded nowhere.
\<close>

lemma daily_report:
  assumes "reporting_publisher E clock view R" and "result (cmd_SetNX R schedulerLockKey ''locked'' (30 * Second)) w = Inr True"
    and "result (rep_Now E) (after (cmd_SetNX R schedulerLockKey ''locked'' (30 * Second)) w) = t" and "TrimSpace adminEmail \<noteq> []"
    and "d' = view (after (scheduler_job E (Some R) adminEmail) w)"
  shows "rdb_requests d' = rdb_requests (view w) \<and>
    (\<exists>rq. rdb_jobs d' = rdb_jobs (view w) @ [rq] \<and> rq_RequestorEmail rq = adminEmail \<and>
      rq_StartTime rq = (t div Day - 1) * Day \<and> rq_EndTime rq = t div Day * Day \<and>
      td_PeriodDays (report_data rq c u) = 2)"
proof -
  have up: "reporting_services E clock view" and r: "redis_server R clock view rdb_redis rdb_redis_update"
    using assms(1) by (simp_all add: reporting_publisher_def reporting_services_up_def)
  let ?w = "after (cmd_SetNX R schedulerLockKey ''locked'' (30 * Second)) w"
  have v: "rdb_requests (view ?w) = rdb_requests (view w)" "rdb_jobs (view ?w) = rdb_jobs (view w)"
    using redis_server.SetNX_ok [OF r assms(2)] by (auto split: if_splits)
  have "clock_source (rep_Now E) clock view" using up by (simp add: reporting_services_def)
  note n = clock_source.now_view [OF this]
  have p: "PeriodDays ((t div Day - 1) * Day) (t div Day * Day) = 2"
  proof -
    have "t div Day * Day - (t div Day - 1) * Day = Day" by (simp add: algebra_simps)
    then have "PeriodDays ((t div Day - 1) * Day) (t div Day * Day) = PeriodDays 0 Day" by (simp add: PeriodDays_def time_Sub_def)
    also have "\<dots> = 2" by code_simp
    finally show ?thesis .
  qed
  have e: "\<not> t div Day * Day < (t div Day - 1) * Day" "adminEmail \<noteq> []"
    using assms(4) by (auto simp: Day_def duration_defs)
  show ?thesis
    unfolding assms(5)
    by (simp add: scheduler_job_def reporting_AcquireLock_def assms(2-4) scheduler_email_def NewReportRequest_def e p v n
        reporting_services.uuid_view [OF up] reporting_services.enqueue_view [OF up] report_data_def split: prod.split)
qed

lemma daily_report_witness:
  "rdb_requests (wv (after (scheduler_job ref_reporting (Some (mem_redis rdb_redis rdb_redis_update)) ''admin@sms.com'') example_reporting)) =
   rdb_requests (wv example_reporting)"
proof -
  have "result (cmd_SetNX (mem_redis rdb_redis rdb_redis_update) schedulerLockKey ''locked'' (30 * Second)) example_reporting = Inr True"
    by (simp add: mem_redis_defs State_simps live_def example_reporting_def empty_redis_def)
  moreover have "TrimSpace ''admin@sms.com'' \<noteq> []" by code_simp
  ultimately show ?thesis using daily_report [OF ref_rep.reporting_publisher_axioms _ refl _ refl] by blast
qed

end
