(* ===== verification/Replica_Sync.thy ===== *)
theory Replica_Sync
  imports Exchange Reporting_Properties
begin

text \<open>
  The events of \<open>sms-management\<close> and \<open>sms-monitoring\<close> keep the replica of the servers in
  \<open>sms-reporting\<close>: a refinement of a map that the changes of the servers update.
\<close>

section \<open>The replica of the servers\<close>

text \<open>What has happened to the servers, and the message that tells of it.\<close>

datatype server_change = Upserted Server | Removed string | StatusSet string string int

definition carries :: "server_change \<Rightarrow> message \<Rightarrow> bool" where
  "carries c msg \<longleftrightarrow>
     (case c of
        Upserted s \<Rightarrow> portable s \<and> (\<exists>ev. ev_EventType ev \<in> {EventServerCreated, EventServerUpdated} \<and>
          jsonb (server_json s) (ev_Payload ev) \<and> msg_Values msg = outbox_fields ev)
      | Removed i \<Rightarrow> ascii i \<and> escape i = i \<and> (\<exists>ev. ev_EventType ev = EventServerDeleted \<and>
          jsonb (deleted_payload i) (ev_Payload ev) \<and> msg_Values msg = outbox_fields ev)
      | StatusSet i st n \<Rightarrow> ascii i \<and> ascii st \<and> msg_Values msg = status_event i st n)"

text \<open>The two streams have a consumer each.\<close>

definition replica_handler :: "'w reporting_env \<Rightarrow> server_change \<Rightarrow> 'w message_handler" where
  "replica_handler E c = (case c of StatusSet i st n \<Rightarrow> handleStatusEvent E | _ \<Rightarrow> handleServerEvent E)"

primrec replica_handle_all :: "'w reporting_env \<Rightarrow> (server_change \<times> message) list \<Rightarrow> ('w, string + unit) state" where
  "replica_handle_all E [] = ret (Inr ())"
| "replica_handle_all E (x # xs) = and_then (replica_handler E (fst x) (snd x)) (\<lambda>_. replica_handle_all E xs)"

text \<open>The abstract replica: a map from the ids of the servers to name, address and status.\<close>

type_synonym replica_map = "string \<Rightarrow> (string \<times> string \<times> string) option"

fun apply_change :: "server_change \<Rightarrow> replica_map \<Rightarrow> replica_map" where
  "apply_change (Upserted s) m =
     m(srv_ServerID s \<mapsto> (srv_ServerName s, srv_IPv4 s, if srv_CurrentStatus s = [] then ''UNKNOWN'' else srv_CurrentStatus s))"
| "apply_change (Removed i) m = m(i := None)"
| "apply_change (StatusSet i st n) m = (case m i of None \<Rightarrow> m | Some (name, ip, _) \<Rightarrow> m(i \<mapsto> (name, ip, st)))"

lemma name_filter:
  "filter (\<lambda>(k, v). fold_name k = fold_name ''server_name'') (server_members s) = [(''server_name'', JStr (srv_ServerName s))]"
  by (simp add: server_members_def server_names JInt_def del: fold_name.simps)

lemma replica_payload_server:
  assumes "portable s" and "jsonb (server_json s) p"
  shows "replica_payload p = Some (srv_ServerID s, srv_ServerName s, srv_IPv4 s, srv_CurrentStatus s)"
proof -
  have "parse_json (server_json s) = Some (JObj (server_members s))"
    unfolding server_json_def
    by (rule parse_Marshal [OF _ server_members_plain [OF assms(1)]]) (simp add: server_members_def)
  moreover have "distinct (map fst (server_members s))" by (simp add: server_members_def)
  ultimately obtain ms where ms: "parse_json p = Some (JObj ms)" "mset ms = mset (server_members s)"
    using assms(2) by (auto simp: jsonb_def)
  note f = server_filters [THEN filter_mset_single [OF ms(2)]] and n = name_filter [THEN filter_mset_single [OF ms(2)]]
  show ?thesis
    by (simp add: replica_payload_def json_members_def ms(1) f(1-3) [THEN get_string_unique] n [THEN get_string_unique])
qed

lemma json_members_deleted:
  assumes "ascii i" and "escape i = i" and "jsonb (deleted_payload i) p"
  obtains ms where "json_members p = Some ms" and "get_string ms ''server_id'' = Some i"
proof -
  have "parse_json (deleted_payload i) = Some (JObj [(''server_id'', JStr i)])"
    unfolding deleted_payload_json [OF assms(2)] using assms(1) by (intro parse_Marshal) simp_all
  then obtain ms where ms: "parse_json p = Some (JObj ms)" "mset ms = mset [(''server_id'', JStr i)]"
    using assms(3) by (auto simp: jsonb_def)
  then have "ms = [(''server_id'', JStr i)]" by (metis mset_single_iff mset.simps(1,2) add_mset_add_single empty_neutral(1))
  with ms(1) show thesis
    by (intro that [of ms]) (simp_all add: json_members_def get_string_def server_names del: fold_name.simps)
qed

context reporting_services_up
begin

lemma replica_handler_step:
  assumes "carries c msg" and "replica_uniq (rdb_servers (view w))"
  shows "result (replica_handler E c msg) w = Inr () \<and>
    replica_uniq (rdb_servers (view (after (replica_handler E c msg) w))) \<and>
    replica (rdb_servers (view (after (replica_handler E c msg) w))) = apply_change c (replica (rdb_servers (view w)))"
proof (cases c)
  case (Upserted s)
  then obtain ev where ev: "ev_EventType ev \<in> {EventServerCreated, EventServerUpdated}" "jsonb (server_json s) (ev_Payload ev)"
    "msg_Values msg = outbox_fields ev" "portable s" using assms(1) by (auto simp: carries_def)
  let ?row = "replica_row (srv_ServerID s, srv_ServerName s, srv_IPv4 s, srv_CurrentStatus s)"
  have "replica_handler E c msg = do { r \<leftarrow> UpsertReportingServer E ?row; ret (handler_result r) }"
    using ev(1) by (auto simp: Upserted replica_handler_def handleServerEvent_def ev(3) outbox_fields_def event_type_name_def
        replica_payload_server [OF ev(4,2)])
  then show ?thesis
    using Upsert_replica [OF assms(2), of ?row] by (simp add: Upserted handler_result_def replica_row_def)
next
  case (Removed i)
  then obtain ev where ev: "ascii i" "escape i = i" "ev_EventType ev = EventServerDeleted" "jsonb (deleted_payload i) (ev_Payload ev)"
    "msg_Values msg = outbox_fields ev" using assms(1) by (auto simp: carries_def)
  obtain ms where ms: "json_members (ev_Payload ev) = Some ms" "get_string ms ''server_id'' = Some i"
    using ev by (blast elim: json_members_deleted)
  have "replica_handler E c msg = do { r \<leftarrow> DeleteReportingServer E i; ret (handler_result r) }"
    by (simp add: Removed replica_handler_def handleServerEvent_def ev(3,5) outbox_fields_def event_type_name_def ms)
  then show ?thesis using Delete_replica [OF assms(2), of i] by (simp add: Removed handler_result_def)
next
  case (StatusSet i st n)
  then have c: "ascii i" "ascii st" "msg_Values msg = status_event i st n" using assms(1) by (auto simp: carries_def)
  obtain ms where ms: "json_members (status_payload i st n) = Some ms" "get_string ms ''server_id'' = Some i"
    "get_string ms ''status'' = Some st" using status_event_members [OF c(1,2)] by blast
  have "replica_handler E c msg = do { r \<leftarrow> UpdateReportingServerStatus E i st; ret (if r = Inl ErrServerUnknown then Inr () else handler_result r) }"
    by (simp add: StatusSet replica_handler_def handleStatusEvent_def c(3) status_event_def ms)
  then show ?thesis
    using Status_replica [OF assms(2), of i st] by (auto simp: StatusSet handler_result_def split: option.split)
qed

lemma replica_handle_all_up:
  assumes "list_all2 carries cs msgs" and "replica_uniq (rdb_servers (view w))"
  shows "result (replica_handle_all E (zip cs msgs)) w = Inr () \<and>
    replica (rdb_servers (view (after (replica_handle_all E (zip cs msgs)) w))) = fold apply_change cs (replica (rdb_servers (view w)))"
  using assms
proof (induction arbitrary: w rule: list_all2_induct)
  case (Cons c cs msg msgs)
  from replica_handler_step [OF Cons.hyps(1) Cons.prems] Cons.IH [of "after (replica_handler E c msg) w"] show ?case by simp
qed simp

end

text \<open>
  C3: the replica follows. The messages about servers, handled in the order in which they were
  written, all succeed and bring the replica to the state that the changes, applied in this order
  to a map, describe.
\<close>

theorem replica_follows_events:
  assumes "reporting_services_up E clock view" and "list_all2 carries cs msgs" and "replica_uniq (rdb_servers (view w))"
  shows "result (replica_handle_all E (zip cs msgs)) w = Inr () \<and>
    replica (rdb_servers (view (after (replica_handle_all E (zip cs msgs)) w))) = fold apply_change cs (replica (rdb_servers (view w)))"
  using assms by (rule reporting_services_up.replica_handle_all_up)

theorem replica_follows_events_witness:
  "replica (rdb_servers (wv (after (replica_handle_all ref_reporting
      [(StatusSet ''s2'' ''ONLINE'' 0, \<lparr>msg_ID = ''1-0'', msg_Values = status_event ''s2'' ''ONLINE'' 0\<rparr>),
       (Upserted example_server, \<lparr>msg_ID = ''1-1'', msg_Values = outbox_fields example_event\<rparr>)]) example_reporting))) ''s2'' =
   Some (''db'', ''10.1.0.2'', ''ONLINE'')"
proof -
  have "portable example_server" by code_simp
  then have "list_all2 carries [StatusSet ''s2'' ''ONLINE'' 0, Upserted example_server]
      [\<lparr>msg_ID = ''1-0'', msg_Values = status_event ''s2'' ''ONLINE'' 0\<rparr>, \<lparr>msg_ID = ''1-1'', msg_Values = outbox_fields example_event\<rparr>]"
    by (auto simp: carries_def example_event_def intro!: exI [of _ example_event])
  from replica_follows_events [OF ref_rep.reporting_services_up_axioms this example_uniq(2)] show ?thesis
    by (simp add: example_reporting_def example_server_def)
qed

end
