(* ===== verification/Notification.thy ===== *)
theory Notification
  imports Broker Json Go_Time
begin

text \<open>
  The service \<open>sms-notification\<close>: the consumer of notification events and the mailer, which speaks
  SMTP through the package \<open>net/smtp\<close>.
\<close>

section \<open>Messages\<close>

record mail_message =
  mm_To :: string
  mm_Subject :: string
  mm_TextBody :: string
  mm_HTMLBody :: string

record mailer_Config =
  mc_Host :: string
  mc_Port :: string
  mc_UseAuth :: bool
  mc_UseTLS :: bool
  mc_Username :: string
  mc_Password :: string
  mc_From :: string
  mc_FromName :: string

definition mimeHeaderEncode :: "string \<Rightarrow> string" where
  "mimeHeaderEncode s = s"

definition CR :: char where "CR = CHR 0x0D"
definition LF :: char where "LF = CHR 0x0A"
definition dquote :: string where "dquote = [CHR 0x22]"

lemmas line_ends = CR_def LF_def

definition crlf :: string where "crlf = [CR, LF]"

text \<open>\<open>Time.UnixNano\<close>: nanoseconds since 1 January 1970.\<close>

definition UnixNano :: "time \<Rightarrow> int" where
  "UnixNano t = t - 62135596800 * Second"

definition mail_boundary :: "time \<Rightarrow> string" where
  "mail_boundary t = ''portal-boundary-'' @ Itoa (UnixNano t)"

definition mail_headers :: "string \<Rightarrow> string \<Rightarrow> string \<Rightarrow> string \<Rightarrow> string list" where
  "mail_headers from to subject boundary =
     [''From: '' @ from, ''To: '' @ to, ''Subject: '' @ mimeHeaderEncode subject, ''MIME-Version: 1.0'',
      ''Content-Type: multipart/alternative; boundary='' @ dquote @ boundary @ dquote]"

definition mail_part :: "string \<Rightarrow> string \<Rightarrow> string \<Rightarrow> string" where
  "mail_part boundary kind body =
     ''--'' @ boundary @ crlf @ ''Content-Type: text/'' @ kind @ ''; charset='' @ dquote @ ''UTF-8'' @ dquote @ crlf @
     ''Content-Transfer-Encoding: 8bit'' @ crlf @ crlf @ body @ crlf"

definition buildMultipartMessage :: "time \<Rightarrow> string \<Rightarrow> string \<Rightarrow> string \<Rightarrow> string \<Rightarrow> string \<Rightarrow> string" where
  "buildMultipartMessage t from to subject textBody htmlBody =
     (let boundary = mail_boundary t in
      concat (map (\<lambda>h. h @ crlf) (mail_headers from to subject boundary)) @ crlf @
      mail_part boundary ''plain'' textBody @ mail_part boundary ''html'' htmlBody @
      ''--'' @ boundary @ ''--'' @ crlf)"

section \<open>The mailer\<close>

text \<open>
  The conversation with the SMTP server: each action is one command and its answer. \<open>smtp_EndData\<close>
  ends the message that the commands before it have made up: its sender, recipient and text.
\<close>

record 'w smtp =
  smtp_Dial :: "string \<Rightarrow> ('w, string + unit) state"
  smtp_Greeting :: "('w, string + unit) state"
  smtp_StartTLS :: "string \<Rightarrow> ('w, string + unit) state"
  smtp_Auth :: "string \<Rightarrow> string \<Rightarrow> ('w, string + unit) state"
  smtp_Mail :: "string \<Rightarrow> ('w, string + unit) state"
  smtp_Rcpt :: "string \<Rightarrow> ('w, string + unit) state"
  smtp_Data :: "('w, string + unit) state"
  smtp_Write :: "string \<Rightarrow> ('w, string + unit) state"
  smtp_EndData :: "string \<Rightarrow> string \<Rightarrow> string \<Rightarrow> ('w, string + unit) state"
  smtp_Quit :: "('w, string + unit) state"
  smtp_Close :: "('w, string + unit) state"
  smtp_Now :: "('w, time) state"

definition JoinHostPort :: "string \<Rightarrow> string \<Rightarrow> string" where
  "JoinHostPort host port =
     (if CHR '':'' \<in> set host then ''['' @ host @ '']:'' @ port else host @ '':'' @ port)"

text \<open>\<open>net/smtp\<close> does not send a line with a line end in it, nor a password over a connection that is not encrypted.\<close>

definition validateLine :: "string \<Rightarrow> bool" where
  "validateLine s \<longleftrightarrow> CR \<notin> set s \<and> LF \<notin> set s"

definition line_error :: string where
  "line_error = ''smtp: A line must not contain CR or LF''"

definition client_Mail :: "'w smtp \<Rightarrow> string \<Rightarrow> ('w, string + unit) state" where
  "client_Mail S from = (if validateLine from then smtp_Mail S from else ret (Inl line_error))"

definition client_Rcpt :: "'w smtp \<Rightarrow> string \<Rightarrow> ('w, string + unit) state" where
  "client_Rcpt S to = (if validateLine to then smtp_Rcpt S to else ret (Inl line_error))"

definition isLocalhost :: "string \<Rightarrow> bool" where
  "isLocalhost name \<longleftrightarrow> name \<in> {''localhost'', ''127.0.0.1'', ''::1''}"

definition client_Auth :: "'w smtp \<Rightarrow> mailer_Config \<Rightarrow> ('w, string + unit) state" where
  "client_Auth S cfg =
     (if mc_UseTLS cfg \<or> isLocalhost (mc_Host cfg) then smtp_Auth S (mc_Username cfg) (mc_Password cfg)
      else do { smtp_Quit S; ret (Inl ''unencrypted connection'') })"

text \<open>\<open>if err := m; err != nil { return fmt.Errorf(msg + ": %w", err) }\<close>.\<close>

definition orWrap :: "string \<Rightarrow> ('w, string + 'a) state \<Rightarrow> ('w, string + 'a) state" where
  "orWrap msg m = do { r \<leftarrow> m; ret (case r of Inl e \<Rightarrow> Inl (msg @ '': '' @ e) | Inr a \<Rightarrow> Inr a) }"

text \<open>The commands up to \<open>DATA\<close>, and the text of the message; the caller closes the connection if this fails.\<close>

definition handshake :: "'w smtp \<Rightarrow> mailer_Config \<Rightarrow> string \<Rightarrow> ('w, string + unit) state" where
  "handshake S cfg to =
     and_then (if mc_UseTLS cfg then orWrap ''start tls'' (smtp_StartTLS S (mc_Host cfg)) else ret (Inr ())) (\<lambda>_.
     and_then (if mc_UseAuth cfg then orWrap ''smtp auth'' (client_Auth S cfg) else ret (Inr ())) (\<lambda>_.
     and_then (orWrap ''smtp mail from'' (client_Mail S (mc_From cfg))) (\<lambda>_.
     and_then (orWrap ''smtp rcpt to'' (client_Rcpt S to)) (\<lambda>_.
     orWrap ''smtp data'' (smtp_Data S)))))"

definition transmit :: "'w smtp \<Rightarrow> mailer_Config \<Rightarrow> string \<Rightarrow> string \<Rightarrow> ('w, string + unit) state" where
  "transmit S cfg to raw = do {
     r \<leftarrow> smtp_Write S raw;
     case r of
       Inl e \<Rightarrow> do { smtp_EndData S (mc_From cfg) to raw; ret (Inl (''write message: '' @ e)) }
     | Inr _ \<Rightarrow>
         and_then (orWrap ''close message writer'' (smtp_EndData S (mc_From cfg) to raw)) (\<lambda>_.
           orWrap ''smtp quit'' (smtp_Quit S))
   }"

definition converse :: "'w smtp \<Rightarrow> mailer_Config \<Rightarrow> string \<Rightarrow> string \<Rightarrow> ('w, string + unit) state" where
  "converse S cfg to raw = and_then (handshake S cfg to) (\<lambda>_. transmit S cfg to raw)"

definition from_header :: "mailer_Config \<Rightarrow> string" where
  "from_header cfg =
     (if TrimSpace (mc_FromName cfg) \<noteq> [] then mimeHeaderEncode (mc_FromName cfg) @ '' <'' @ mc_From cfg @ ''>''
      else mc_From cfg)"

definition mailer_send :: "'w smtp \<Rightarrow> mailer_Config \<Rightarrow> mail_message \<Rightarrow> ('w, string + unit) state" where
  "mailer_send S cfg msg = do {
     t \<leftarrow> smtp_Now S;
     let raw = buildMultipartMessage t (from_header cfg) (mm_To msg) (mm_Subject msg) (mm_TextBody msg) (mm_HTMLBody msg);
     and_then (orWrap ''dial smtp server'' (smtp_Dial S (JoinHostPort (mc_Host cfg) (mc_Port cfg)))) (\<lambda>_. do {
       c \<leftarrow> smtp_Greeting S;
       case c of
         Inl e \<Rightarrow> do { smtp_Close S; ret (Inl (''create smtp client: '' @ e)) }
       | Inr _ \<Rightarrow> do {
           r \<leftarrow> converse S cfg (mm_To msg) raw;
           (case r of Inl e \<Rightarrow> do { smtp_Close S; ret () } | Inr _ \<Rightarrow> ret ());
           ret r
         }
     })
   }"

definition SendEmail :: "'w smtp \<Rightarrow> mailer_Config \<Rightarrow> string \<Rightarrow> string \<Rightarrow> string \<Rightarrow> ('w, string + unit) state" where
  "SendEmail S cfg toEmail subject htmlBody =
     mailer_send S cfg \<lparr>mm_To = toEmail, mm_Subject = subject, mm_TextBody = [], mm_HTMLBody = htmlBody\<rparr>"

definition smtp_Ping :: "'w smtp \<Rightarrow> string \<Rightarrow> string \<Rightarrow> ('w, string + unit) state" where
  "smtp_Ping S host port =
     and_then (orWrap (''dial smtp server '' @ JoinHostPort host port) (smtp_Dial S (JoinHostPort host port))) (\<lambda>_.
       do { smtp_Close S; ret (Inr ()) })"

section \<open>The consumer\<close>

definition notification_EventNotificationRequested :: string where
  "notification_EventNotificationRequested = ''NotificationRequested''"

text \<open>A notification event as the consumer reads it: to, subject and body.\<close>

definition unmarshal_notification :: "string \<Rightarrow> (string \<times> string \<times> string) option" where
  "unmarshal_notification s =
     (case json_members s of
        None \<Rightarrow> None
      | Some ms \<Rightarrow>
          (case (get_string ms ''to'', get_string ms ''subject'', get_string ms ''body'') of
             (Some to, Some subject, Some body) \<Rightarrow> Some (to, subject, body)
           | _ \<Rightarrow> None))"

definition handleNotificationEvent :: "(string \<Rightarrow> string \<Rightarrow> string \<Rightarrow> ('w, string + unit) state) \<Rightarrow> 'w message_handler" where
  "handleNotificationEvent send msg =
     (case (map_of (msg_Values msg) ''event_type'', map_of (msg_Values msg) ''payload'') of
        (Some eventType, Some payloadStr) \<Rightarrow>
          if eventType = notification_EventNotificationRequested then
            (case unmarshal_notification payloadStr of
               None \<Rightarrow> ret (Inl ''json'')
             | Some (to, subject, body) \<Rightarrow> send to subject body)
          else ret (Inr ())
      | _ \<Rightarrow> ret (Inr ()))"

section \<open>What the mail server promises\<close>

text \<open>
  The mailbox: sender, recipient and text of every message that the server has taken. Only the end
  of a message changes it; if that fails, the server may have taken the message all the same.
\<close>

type_synonym mailbox = "(string \<times> string \<times> string) list"

definition keeps_view :: "('w \<Rightarrow> 'v) \<Rightarrow> ('w, 'a) state \<Rightarrow> bool" where
  "keeps_view view m \<longleftrightarrow> (\<forall>w. view (after m w) = view w)"

lemma keeps_viewD: "keeps_view view m \<Longrightarrow> view (after m w) = view w"
  by (simp add: keeps_view_def)

lemma keeps_view_ret [simp]: "keeps_view view (ret a)"
  by (simp add: keeps_view_def)

lemma keeps_view_bind [intro]: "keeps_view view m \<Longrightarrow> (\<And>x. keeps_view view (k x)) \<Longrightarrow> keeps_view view (m \<bind> k)"
  unfolding keeps_view_def after_bind by metis

lemma keeps_view_and_then [intro]: "keeps_view view m \<Longrightarrow> (\<And>x. keeps_view view (k x)) \<Longrightarrow> keeps_view view (and_then m k)"
  unfolding and_then_def by (rule keeps_view_bind) (auto split: sum.split)

lemma keeps_view_orWrap [intro]: "keeps_view view m \<Longrightarrow> keeps_view view (orWrap msg m)"
  unfolding orWrap_def by (rule keeps_view_bind) auto

text \<open>The text of a message is built at some time \<open>t\<close>, which is in the boundary between its parts.\<close>

definition mail_text :: "mailer_Config \<Rightarrow> string \<Rightarrow> string \<Rightarrow> string \<Rightarrow> time \<Rightarrow> string" where
  "mail_text cfg to subject body t = buildMultipartMessage t (from_header cfg) to subject [] body"

locale smtp_server =
  fixes S :: "'w smtp" and mails :: "'w \<Rightarrow> mailbox"
  assumes quiet [simp]: "keeps_view mails (smtp_Dial S addr)" "keeps_view mails (smtp_Greeting S)" "keeps_view mails (smtp_StartTLS S h)"
      "keeps_view mails (smtp_Auth S u p)" "keeps_view mails (smtp_Mail S from)" "keeps_view mails (smtp_Rcpt S to)"
      "keeps_view mails (smtp_Data S)" "keeps_view mails (smtp_Write S raw)" "keeps_view mails (smtp_Quit S)"
      "keeps_view mails (smtp_Close S)" "keeps_view mails (smtp_Now S)"
    and EndData_ok: "result (smtp_EndData S from to raw) w = Inr x \<Longrightarrow>
      mails (after (smtp_EndData S from to raw) w) = mails w @ [(from, to, raw)]"
    and EndData_err: "result (smtp_EndData S from to raw) w = Inl e \<Longrightarrow>
      mails (after (smtp_EndData S from to raw) w) \<in> {mails w, mails w @ [(from, to, raw)]}"

context smtp_server
begin

lemmas mails_kept [simp] = keeps_viewD [where view = mails]

lemma orWrap_simps [simp]: "after (orWrap msg m) w = after m w"
  "result (orWrap msg m) w = (case result m w of Inl e \<Rightarrow> Inl (msg @ '': '' @ e) | Inr a \<Rightarrow> Inr a)"
  by (simp_all add: orWrap_def)

lemma client_quiet [simp]: "keeps_view mails (client_Mail S from)" "keeps_view mails (client_Rcpt S to)"
  "keeps_view mails (client_Auth S cfg)"
  unfolding client_Mail_def client_Rcpt_def client_Auth_def by (simp_all add: keeps_view_bind)

lemma handshake_quiet [simp]: "keeps_view mails (handshake S cfg to)"
  unfolding handshake_def by (intro keeps_view_and_then keeps_view_orWrap) (simp_all add: keeps_view_orWrap)

lemma handshake_lines:
  "result (handshake S cfg to) w = Inr () \<Longrightarrow> validateLine (mc_From cfg) \<and> validateLine to"
  by (auto simp: handshake_def client_Mail_def client_Rcpt_def split: sum.splits if_splits)

lemma transmit_outcome:
  shows "result (transmit S cfg to raw) w = Inr () \<Longrightarrow> mails (after (transmit S cfg to raw) w) = mails w @ [(mc_From cfg, to, raw)]"
    and "mails (after (transmit S cfg to raw) w) \<in> {mails w, mails w @ [(mc_From cfg, to, raw)]}"
proof -
  have e: "mails (after (smtp_EndData S (mc_From cfg) to raw) u) \<in> {mails u, mails u @ [(mc_From cfg, to, raw)]}" for u
    using EndData_ok EndData_err by (cases "result (smtp_EndData S (mc_From cfg) to raw) u") blast+
  show "result (transmit S cfg to raw) w = Inr () \<Longrightarrow> mails (after (transmit S cfg to raw) w) = mails w @ [(mc_From cfg, to, raw)]"
    by (auto simp: transmit_def EndData_ok split: sum.splits)
  show "mails (after (transmit S cfg to raw) w) \<in> {mails w, mails w @ [(mc_From cfg, to, raw)]}"
    using e [of "after (smtp_Write S raw) w"] by (simp add: transmit_def split: sum.splits)
qed

text \<open>A conversation brings the message into the mailbox once, or not at all; if it succeeds, once.\<close>

lemma converse_outcome:
  shows "result (converse S cfg to raw) w = Inr () \<Longrightarrow> mails (after (converse S cfg to raw) w) = mails w @ [(mc_From cfg, to, raw)]"
    and "mails (after (converse S cfg to raw) w) \<in> {mails w, mails w @ [(mc_From cfg, to, raw)]}"
    and "mails (after (converse S cfg to raw) w) \<noteq> mails w \<Longrightarrow> validateLine (mc_From cfg) \<and> validateLine to"
  using transmit_outcome [of cfg to raw "after (handshake S cfg to) w"] handshake_lines [of cfg to w]
  by (simp_all add: converse_def split: sum.splits)

lemma SendEmail_outcome:
  obtains t where "result (SendEmail S cfg to subject body) w = Inr () \<Longrightarrow>
      mails (after (SendEmail S cfg to subject body) w) = mails w @ [(mc_From cfg, to, mail_text cfg to subject body t)]"
    and "mails (after (SendEmail S cfg to subject body) w) \<in> {mails w, mails w @ [(mc_From cfg, to, mail_text cfg to subject body t)]}"
    and "mails (after (SendEmail S cfg to subject body) w) \<noteq> mails w \<Longrightarrow> validateLine (mc_From cfg) \<and> validateLine to"
proof -
  define t where "t = result (smtp_Now S) w"
  define v where "v = after (smtp_Greeting S) (after (smtp_Dial S (JoinHostPort (mc_Host cfg) (mc_Port cfg))) (after (smtp_Now S) w))"
  have v: "mails v = mails w" by (simp add: v_def)
  note c = converse_outcome [of cfg to "mail_text cfg to subject body t" v]
  show thesis
    by (rule that [of t]; insert c; simp add: SendEmail_def mailer_send_def Let_def split: sum.splits flip: v_def t_def)
      (auto simp: mail_text_def v t_def)
qed

end

end
