(* ===== verification/Mails.thy ===== *)
theory Mails
  imports Reporting_Properties Notification
begin

text \<open>
  The way of a mail: from the work on a report through the stream of notification events and the
  mailer of \<open>sms-notification\<close> to the mail server.
\<close>

section \<open>A report in a notification event\<close>

text \<open>Text without the byte 0, which the template would replace.\<close>

definition plain_text :: "string \<Rightarrow> bool" where
  "plain_text s \<longleftrightarrow> list_all (\<lambda>c. 0 < (of_char c :: nat) \<and> of_char c < (128 :: nat)) s"

lemma plain_text_append [simp]: "plain_text (s @ t) \<longleftrightarrow> plain_text s \<and> plain_text t"
  by (auto simp: plain_text_def)

lemma plain_text_simps [simp]: "plain_text []" "plain_text (c # s) \<longleftrightarrow> 0 < (of_char c :: nat) \<and> of_char c < (128 :: nat) \<and> plain_text s"
  by (auto simp: plain_text_def)

lemma plain_text_digits: "list_all is_digit s \<Longrightarrow> plain_text s"
  by (auto simp: plain_text_def is_digit_def elim!: list.pred_mono_strong)

lemma plain_text_Itoa [simp]: "plain_text (Itoa n)"
  using plain_text_digits [OF nat_digits_all_digit] by (auto simp: Itoa_def)

lemma plain_text_pad [simp]: "plain_text (pad n x)"
  by (auto simp: pad_def plain_text_def [of "replicate k c" for k c]) (simp add: list_all_iff)

lemma plain_text_Date [simp]: "plain_text (Format_Date t)"
  by (simp add: Format_Date_def split: prod.split)

lemma plain_text_Sprintf [simp]: "plain_text (Sprintf_f k x)"
  by (simp add: Sprintf_f_def Let_def)


lemma template_actions_plain: "\<forall>s \<in> set (template_actions (report_data rq c u)). plain_text s"
  by (auto simp: template_actions_def report_data_def healthLabel_def split: prod.split)

lemma ascii_concat: "\<forall>s \<in> set ss. ascii s \<Longrightarrow> ascii (concat ss)"
  by (induction ss) auto

lemma ascii_html_char: "0 < (of_char c :: nat) \<Longrightarrow> of_char c < (128 :: nat) \<Longrightarrow> ascii (html_char c)"
  by (cases "c = CHR 0x00") (simp_all add: html_char_def)

lemma ascii_html_escape: "plain_text s \<Longrightarrow> ascii (html_escape s)"
  unfolding html_escape_def plain_text_def list_all_iff
  by (rule ascii_concat) (auto intro: ascii_html_char)

lemma ascii_render:
  assumes "\<forall>s \<in> set pieces. ascii s"
  shows "ascii (render pieces (report_data rq c u))"
  unfolding render_def
proof (rule ascii_concat, rule ballI)
  fix x assume "x \<in> set (map2 (@) pieces (map html_escape (template_actions (report_data rq c u)) @ [[]]))"
  then obtain p a where x: "x = p @ a"
    and pa: "(p, a) \<in> set (zip pieces (map html_escape (template_actions (report_data rq c u)) @ [[]]))" by auto
  from set_zip_leftD [OF pa] set_zip_rightD [OF pa] assms template_actions_plain [of rq c u]
  show "ascii x" unfolding x by (auto intro: ascii_html_escape)
qed

lemma mail_names:
  "fold_name ''to'' = ''TO''" "fold_name ''subject'' = ''SUBJECT''" "fold_name ''body'' = ''BODY''"
  by code_simp+

lemma unmarshal_report_mail:
  assumes "ascii (rq_RequestorEmail rq)" and "\<forall>s \<in> set (rep_html E). ascii s"
  shows "unmarshal_notification (notification_json (report_mail E rq (report_data rq c u))) =
    Some (rq_RequestorEmail rq, ''Server Status Report'', render (rep_html E) (report_data rq c u))"
proof -
  let ?e = "report_mail E rq (report_data rq c u)"
  have "json_members (notification_json ?e) = Some (notification_members ?e)"
    unfolding notification_json_def
    by (rule json_members_Marshal) (simp_all add: notification_members_def report_mail_def assms(1) ascii_render [OF assms(2)])
  then show ?thesis
    by (simp add: unmarshal_notification_def notification_members_def report_mail_def get_string_def mail_names del: fold_name.simps)
qed

section \<open>The headers of a mail\<close>

text \<open>The lines of a text, and those before the first empty one.\<close>

fun crlf_lines :: "string \<Rightarrow> string list" where
  "crlf_lines [] = [[]]"
| "crlf_lines (c # s) =
     (if c = CR \<and> s \<noteq> [] \<and> hd s = LF then [] # crlf_lines (tl s)
      else case crlf_lines s of l # ls \<Rightarrow> (c # l) # ls | [] \<Rightarrow> [[c]])"

definition header_lines :: "string \<Rightarrow> string list" where
  "header_lines raw = takeWhile (\<lambda>l. l \<noteq> []) (crlf_lines raw)"

lemma crlf_lines_not_Nil [simp]: "crlf_lines s \<noteq> []"
  by (cases s) (auto split: list.split)

lemma crlf_lines_line: "validateLine h \<Longrightarrow> crlf_lines (h @ crlf @ t) = h # crlf_lines t"
  by (induction h) (auto simp: validateLine_def crlf_def line_ends split: list.split)

lemma header_lines_mail:
  assumes "\<forall>h \<in> set hs. validateLine h \<and> h \<noteq> []"
  shows "header_lines (concat (map (\<lambda>h. h @ crlf) hs) @ crlf @ t) = hs"
  using assms
proof (induction hs)
  case Nil
  show ?case using crlf_lines_line [of "[]" t] by (simp add: header_lines_def validateLine_def)
next
  case (Cons h hs)
  then show ?case
    using crlf_lines_line [of h "concat (map (\<lambda>h. h @ crlf) hs) @ crlf @ t"] by (simp add: header_lines_def)
qed

lemma validateLine_append [simp]: "validateLine (s @ t) \<longleftrightarrow> validateLine s \<and> validateLine t"
  by (auto simp: validateLine_def)

lemma validateLine_simps [simp]: "validateLine []" "validateLine (c # s) \<longleftrightarrow> c \<noteq> CHR 0x0D \<and> c \<noteq> CHR 0x0A \<and> validateLine s"
  by (auto simp: validateLine_def line_ends)

lemma validateLine_digits: "list_all is_digit s \<Longrightarrow> validateLine s"
  by (induction s) (auto simp: is_digit_def)

lemma validateLine_Itoa [simp]: "validateLine (Itoa n)"
  using validateLine_digits [OF nat_digits_all_digit] by (simp add: Itoa_def)

lemma mail_text_headers:
  assumes "validateLine to" and "validateLine (from_header cfg)" and "validateLine subject"
  shows "header_lines (mail_text cfg to subject body t) = mail_headers (from_header cfg) to subject (mail_boundary t)"
  unfolding mail_text_def buildMultipartMessage_def Let_def append_assoc
  by (rule header_lines_mail)
    (use assms in \<open>simp add: mail_headers_def mimeHeaderEncode_def mail_boundary_def dquote_def\<close>)

section \<open>Delivery\<close>

text \<open>
  C16: the mail of a report arrives as it was asked for. When the entry that a report has put into
  the stream is handled without an error, the mail server has taken one more message, from the
  configured sender to the author of the request, which carries the rendered report. Whatever
  happens, nothing else is added; and a message that is taken has the five headers of the mailer
  and no others: an address with a line end in it gets nothing.
\<close>

theorem report_mail_is_delivered:
  assumes "smtp_server S mails" and "ascii (rq_RequestorEmail rq)" and "\<forall>s \<in> set (rep_html E). ascii s"
    and "validateLine (from_header cfg)"
    and "msg_Values msg = notification_fields (report_mail E rq (report_data rq c u))"
    and "m = handleNotificationEvent (SendEmail S cfg) msg"
  shows "\<exists>t raw. raw = mail_text cfg (rq_RequestorEmail rq) ''Server Status Report'' (render (rep_html E) (report_data rq c u)) t \<and>
    (result m w = Inr () \<longrightarrow> mails (after m w) = mails w @ [(mc_From cfg, rq_RequestorEmail rq, raw)]) \<and>
    (mails (after m w) = mails w \<or>
      mails (after m w) = mails w @ [(mc_From cfg, rq_RequestorEmail rq, raw)] \<and>
      header_lines raw = mail_headers (from_header cfg) (rq_RequestorEmail rq) ''Server Status Report'' (mail_boundary t))"
proof -
  have m: "m = SendEmail S cfg (rq_RequestorEmail rq) ''Server Status Report'' (render (rep_html E) (report_data rq c u))"
    by (simp add: assms(6) handleNotificationEvent_def assms(5) notification_fields_def EventNotificationRequested_def
        notification_EventNotificationRequested_def unmarshal_report_mail [OF assms(2,3)])
  let ?raw = "mail_text cfg (rq_RequestorEmail rq) ''Server Status Report'' (render (rep_html E) (report_data rq c u))"
  show ?thesis
  proof (rule smtp_server.SendEmail_outcome [OF assms(1), of cfg "rq_RequestorEmail rq" "''Server Status Report''"
        "render (rep_html E) (report_data rq c u)" w, folded m])
    fix t
    assume t: "result m w = Inr () \<Longrightarrow> mails (after m w) = mails w @ [(mc_From cfg, rq_RequestorEmail rq, ?raw t)]"
      "mails (after m w) \<in> {mails w, mails w @ [(mc_From cfg, rq_RequestorEmail rq, ?raw t)]}"
      "mails (after m w) \<noteq> mails w \<Longrightarrow> validateLine (mc_From cfg) \<and> validateLine (rq_RequestorEmail rq)"
    have "mails (after m w) \<noteq> mails w \<Longrightarrow>
        header_lines (?raw t) = mail_headers (from_header cfg) (rq_RequestorEmail rq) ''Server Status Report'' (mail_boundary t)"
      using t(3) by (intro mail_text_headers assms(4)) simp_all
    with t(1,2) show ?thesis by (intro exI [of _ t] exI [of _ "?raw t"]) auto
  qed
qed

text \<open>A mail server that takes every message.\<close>

definition ref_smtp :: "mailbox smtp" where
  "ref_smtp = \<lparr>smtp_Dial = (\<lambda>a. ret (Inr ())), smtp_Greeting = ret (Inr ()), smtp_StartTLS = (\<lambda>h. ret (Inr ())),
     smtp_Auth = (\<lambda>u p. ret (Inr ())), smtp_Mail = (\<lambda>s. ret (Inr ())), smtp_Rcpt = (\<lambda>s. ret (Inr ())), smtp_Data = ret (Inr ()),
     smtp_Write = (\<lambda>s. ret (Inr ())), smtp_EndData = (\<lambda>s r raw. State (\<lambda>w. (Inr (), w @ [(s, r, raw)]))),
     smtp_Quit = ret (Inr ()), smtp_Close = ret (Inr ()), smtp_Now = ret 0\<rparr>"

interpretation ref_smtp: smtp_server ref_smtp id
  by unfold_locales (simp_all add: ref_smtp_def keeps_view_def State_simps)

definition example_mailer :: mailer_Config where
  "example_mailer = \<lparr>mc_Host = ''localhost'', mc_Port = ''1025'', mc_UseAuth = False, mc_UseTLS = False, mc_Username = [],
     mc_Password = [], mc_From = ''noreply@sms.com'', mc_FromName = ''SMS''\<rparr>"

theorem report_mail_is_delivered_witness:
  "\<exists>raw. after (handleNotificationEvent (SendEmail ref_smtp example_mailer)
      \<lparr>msg_ID = ''1-0'', msg_Values = notification_fields (report_mail ref_reporting example_report (report_data example_report (2, 1, 1, 0) 99))\<rparr>) [] =
    [(''noreply@sms.com'', ''ops@example.com'', raw)]"
proof -
  let ?m = "handleNotificationEvent (SendEmail ref_smtp example_mailer)
      \<lparr>msg_ID = ''1-0'', msg_Values = notification_fields (report_mail ref_reporting example_report (report_data example_report (2, 1, 1, 0) 99))\<rparr>"
  have a: "ascii (rq_RequestorEmail example_report)" "validateLine (from_header example_mailer)"
    "validateLine (mc_From example_mailer)" "validateLine (rq_RequestorEmail example_report)" by code_simp+
  have h: "\<forall>s \<in> set (rep_html ref_reporting). ascii s" by (simp add: ref_reporting_def)
  have "unmarshal_notification (notification_json (report_mail ref_reporting example_report (report_data example_report (2, 1, 1, 0) 99))) =
      Some (rq_RequestorEmail example_report, ''Server Status Report'', render (rep_html ref_reporting) (report_data example_report (2, 1, 1, 0) 99))"
    by (rule unmarshal_report_mail [OF a(1) h])
  then have "result ?m [] = Inr ()"
    using a by (simp add: handleNotificationEvent_def notification_fields_def EventNotificationRequested_def
        notification_EventNotificationRequested_def SendEmail_def mailer_send_def converse_def handshake_def transmit_def
        orWrap_def client_Mail_def client_Rcpt_def ref_smtp_def example_mailer_def State_simps Let_def)
  with report_mail_is_delivered [OF ref_smtp.smtp_server_axioms a(1) h a(2) _ refl, where w = "[]" and c = "(2, 1, 1, 0)" and u = 99
      and msg = "\<lparr>msg_ID = ''1-0'', msg_Values = notification_fields (report_mail ref_reporting example_report (report_data example_report (2, 1, 1, 0) 99))\<rparr>"]
  show ?thesis by (auto simp: example_mailer_def example_report_def)
qed

text \<open>
  A mail can be sent twice. If the server takes the message but \<open>QUIT\<close> fails, the mailer reports an
  error: the event stays pending, and when it is handled again the mail is sent again.
\<close>

lemma mail_taken_but_quit_failed:
  assumes "smtp_server S mails" and "result (smtp_Write S raw) w = Inr ()"
    and "result (smtp_EndData S (mc_From cfg) to raw) (after (smtp_Write S raw) w) = Inr ()"
    and "\<And>u. result (smtp_Quit S) u = Inl e"
  shows "result (transmit S cfg to raw) w = Inl (''smtp quit: '' @ e)"
    and "mails (after (transmit S cfg to raw) w) = mails w @ [(mc_From cfg, to, raw)]"
proof -
  note q [simp] = smtp_server.quiet [OF assms(1)] and k [simp] = keeps_viewD [where view = mails]
  show "result (transmit S cfg to raw) w = Inl (''smtp quit: '' @ e)"
    by (simp add: transmit_def assms(2-4) orWrap_def)
  show "mails (after (transmit S cfg to raw) w) = mails w @ [(mc_From cfg, to, raw)]"
    by (simp add: transmit_def assms(2-4) smtp_server.EndData_ok [OF assms(1)] orWrap_def)
qed

end
