(* ===== verification/Observation_Logger.thy ===== *)
theory Observation_Logger
  imports Config Json Go_Time Services "HOL-Library.Sublist"
begin

text \<open>
  The log of observations of \<open>sms-monitoring\<close>: callers put the outcome of every health check into a
  bounded channel without waiting; one goroutine collects batches and sends them to Elasticsearch
  with the bulk API, with retries. Callers, ticks and the goroutine interleave as the steps of a
  relation; what the index holds is a view of the world.
\<close>

section \<open>Observations\<close>

record ObservationLog =
  obl_ServerID :: string
  obl_IsSuccess :: bool
  obl_Timestamp :: time

text \<open>\<open>Time.MarshalJSON\<close> refuses years beyond 9999.\<close>

definition json_year :: "time \<Rightarrow> bool" where
  "json_year t \<longleftrightarrow> (case date_of t of (y, _, _) \<Rightarrow> 0 \<le> y \<and> y \<le> 9999)"

definition observation_json :: "ObservationLog \<Rightarrow> string" where
  "observation_json obs = Marshal (JObj [(''server_id'', JStr (obl_ServerID obs)), (''is_success'', JBool (obl_IsSuccess obs)),
     (''timestamp'', JStr (Format_RFC3339Nano (obl_Timestamp obs)))])"

definition Marshal_observation :: "ObservationLog \<Rightarrow> string option" where
  "Marshal_observation obs = (if json_year (obl_Timestamp obs) then Some (observation_json obs) else None)"

section \<open>The logger\<close>

record 'w bufferedLogger =
  bl_client :: "(string \<Rightarrow> ('w, string + bool) state) option"
  bl_Sleep :: "duration \<Rightarrow> ('w, unit) state"
  bl_index :: string
  bl_chSize :: int
  bl_batchSize :: int
  bl_flushInterval :: duration
  bl_retryMax :: int
  bl_retryDelay :: duration

text \<open>
  \<open>bl_client\<close> is a call of the bulk API with its body; it answers with the field \<open>errors\<close> of the
  response. The constructor starts the flusher; there is no logger if a channel or a slice of negative
  size or a ticker without a positive interval makes one of the two panic.
\<close>

definition NewObservationLogger ::
  "(string \<Rightarrow> ('w, string + bool) state) option \<Rightarrow> (duration \<Rightarrow> ('w, unit) state) \<Rightarrow> string \<Rightarrow>
   ObservationLoggerConfig \<Rightarrow> 'w bufferedLogger option" where
  "NewObservationLogger client Sleep index cfg =
     (let l = \<lparr>bl_client = client, bl_Sleep = Sleep, bl_index = index, bl_chSize = obs_ChannelSize cfg,
          bl_batchSize = obs_BatchSize cfg, bl_flushInterval = wrap64 (obs_FlushMs cfg * Millisecond),
          bl_retryMax = obs_RetryMax cfg, bl_retryDelay = wrap64 (obs_RetryDelayMs cfg * Millisecond)\<rparr>
      in if bl_chSize l < 0 \<or> bl_flushInterval l \<le> 0 \<or> bl_batchSize l < 0 then None else Some l)"

text \<open>The body of a bulk request: two lines for each observation.\<close>

definition bulk_action :: "string \<Rightarrow> string" where
  "bulk_action index = ''{'' @ [quote] @ ''index'' @ [quote] @ '':{'' @ [quote] @ ''_index'' @ [quote] @ '':'' @ [quote] @ index @ [quote] @ ''}}''"

definition bulk_body :: "string \<Rightarrow> ObservationLog list \<Rightarrow> string" where
  "bulk_body index batch = concat (map (\<lambda>obs. bulk_action index @ [CHR 0x0A] @
     (case Marshal_observation obs of None \<Rightarrow> [] | Some doc \<Rightarrow> doc @ [CHR 0x0A])) batch)"

text \<open>The loop over the attempts; the result is whether one of them has been acknowledged.\<close>

primrec bulk_retry :: "(string \<Rightarrow> ('w, string + bool) state) \<Rightarrow> ('w, unit) state \<Rightarrow> string \<Rightarrow> nat \<Rightarrow> ('w, bool) state" where
  "bulk_retry Bulk Delay body 0 = ret False"
| "bulk_retry Bulk Delay body (Suc n) = do {
     resp \<leftarrow> Bulk body;
     if resp = Inr False then ret True else do { Delay; bulk_retry Bulk Delay body n }
   }"

definition flush :: "'w bufferedLogger \<Rightarrow> ObservationLog list \<Rightarrow> ('w, bool) state" where
  "flush l batch =
     (case bl_client l of
        None \<Rightarrow> ret False
      | Some Bulk \<Rightarrow> bulk_retry Bulk (bl_Sleep l (bl_retryDelay l)) (bulk_body (bl_index l) batch) (nat (bl_retryMax l)))"

section \<open>Callers and flusher\<close>

text \<open>
  The channel (of at least one place), the slice of the flusher, and whether the flusher has called
  \<open>wg.Done\<close>. \<open>lg_accepted\<close> and \<open>lg_flushed\<close> record what was sent to the channel and to \<open>flush\<close>.
\<close>

record log_state =
  lg_ch :: "ObservationLog list"
  lg_closed :: bool
  lg_batch :: "ObservationLog list"
  lg_done :: bool
  lg_accepted :: "ObservationLog list"
  lg_flushed :: "ObservationLog list list"

definition new_log :: log_state where
  "new_log = \<lparr>lg_ch = [], lg_closed = False, lg_batch = [], lg_done = False, lg_accepted = [], lg_flushed = []\<rparr>"

text \<open>A full channel drops the observation; a send on a closed channel panics, in a \<open>select\<close> too.\<close>

datatype logged = Logged log_state | LogPanics

definition LogObservation :: "'w bufferedLogger \<Rightarrow> string \<Rightarrow> bool \<Rightarrow> time \<Rightarrow> log_state \<Rightarrow> logged" where
  "LogObservation l serverID isSuccess now s =
     (let obs = \<lparr>obl_ServerID = serverID, obl_IsSuccess = isSuccess, obl_Timestamp = now\<rparr> in
      if lg_closed s then LogPanics
      else if int (length (lg_ch s)) < bl_chSize l
      then Logged (s\<lparr>lg_ch := lg_ch s @ [obs], lg_accepted := lg_accepted s @ [obs]\<rparr>)
      else Logged s)"

text \<open>\<open>Shutdown\<close> closes the channel, once, and returns when the flusher is done.\<close>

definition close_log :: "log_state \<Rightarrow> log_state" where
  "close_log s = s\<lparr>lg_closed := True\<rparr>"

definition Shutdown_returned :: "log_state \<Rightarrow> bool" where
  "Shutdown_returned s \<longleftrightarrow> lg_closed s \<and> lg_done s"

text \<open>One turn of the loop of the flusher, by the case that \<open>select\<close> takes; \<open>None\<close> if it is not ready.\<close>

datatype ready = Channel | Ticker

definition flushed :: "log_state \<Rightarrow> ObservationLog list \<Rightarrow> log_state" where
  "flushed s batch = s\<lparr>lg_batch := [], lg_flushed := lg_flushed s @ [batch]\<rparr>"

definition flusher :: "'w bufferedLogger \<Rightarrow> ready \<Rightarrow> log_state \<Rightarrow> ('w, log_state option) state" where
  "flusher l r s =
     (if lg_done s then ret None
      else case r of
        Channel \<Rightarrow>
          (case lg_ch s of
             obs # ch \<Rightarrow>
               let batch = lg_batch s @ [obs] in
               if bl_batchSize l \<le> int (length batch)
               then do { flush l batch; ret (Some (flushed (s\<lparr>lg_ch := ch\<rparr>) batch)) }
               else ret (Some (s\<lparr>lg_ch := ch, lg_batch := batch\<rparr>))
           | [] \<Rightarrow>
               if \<not> lg_closed s then ret None
               else if lg_batch s = [] then ret (Some (s\<lparr>lg_done := True\<rparr>))
               else do { flush l (lg_batch s); ret (Some (flushed (s\<lparr>lg_done := True\<rparr>) (lg_batch s))) })
      | Ticker \<Rightarrow>
          if lg_batch s = [] then ret (Some s)
          else do { flush l (lg_batch s); ret (Some (flushed s (lg_batch s))) })"

text \<open>
  The steps: a call, a turn of the flusher, \<open>Shutdown\<close>, and whatever else the program does, which
  does not write to the index \<open>idx\<close>.
\<close>

inductive log_step ::
  "'w bufferedLogger \<Rightarrow> ('w \<Rightarrow> 'i) \<Rightarrow> log_state \<times> 'w \<Rightarrow> log_state \<times> 'w \<Rightarrow> bool" for l idx where
  step_log: "LogObservation l i b t s = Logged s' \<Longrightarrow> log_step l idx (s, w) (s', w)"
| step_flusher: "result (flusher l r s) w = Some s' \<Longrightarrow> log_step l idx (s, w) (s', after (flusher l r s) w)"
| step_shutdown: "log_step l idx (s, w) (close_log s, w)"
| step_other: "idx w' = idx w \<Longrightarrow> log_step l idx (s, w) (s, w')"

inductive reachable_log ::
  "'w bufferedLogger \<Rightarrow> ('w \<Rightarrow> 'i) \<Rightarrow> 'w \<Rightarrow> log_state \<times> 'w \<Rightarrow> bool" for l idx w0 where
  start_log: "reachable_log l idx w0 (new_log, w0)"
| more_log: "reachable_log l idx w0 c \<Longrightarrow> log_step l idx c c' \<Longrightarrow> reachable_log l idx w0 c'"

section \<open>Invariant\<close>

text \<open>
  What was accepted has been flushed, is in the slice or in the channel, in this order; batches are
  never empty and never longer than the setting says; the flusher leaves nothing behind.
\<close>

definition batch_fits :: "'w bufferedLogger \<Rightarrow> ObservationLog list \<Rightarrow> bool" where
  "batch_fits l b \<longleftrightarrow> b \<noteq> [] \<and> (length b = 1 \<or> int (length b) \<le> bl_batchSize l)"

definition log_inv :: "'w bufferedLogger \<Rightarrow> log_state \<Rightarrow> bool" where
  "log_inv l s \<longleftrightarrow>
     lg_accepted s = concat (lg_flushed s) @ lg_batch s @ lg_ch s \<and>
     int (length (lg_ch s)) \<le> max 0 (bl_chSize l) \<and>
     (lg_batch s \<noteq> [] \<longrightarrow> int (length (lg_batch s)) < bl_batchSize l) \<and>
     (\<forall>b \<in> set (lg_flushed s). batch_fits l b) \<and>
     (lg_done s \<longrightarrow> lg_closed s \<and> lg_ch s = [] \<and> lg_batch s = [])"

lemma not_done [simp]: "\<not> lg_done s \<Longrightarrow> s\<lparr>lg_done := False\<rparr> = s"
  by (cases s) simp

text \<open>What a turn can do.\<close>

lemma flusher_cases:
  assumes "result (flusher l r s) w = Some s'"
  obtains (keep) obs ch where "\<not> lg_done s" "lg_ch s = obs # ch" "int (length (lg_batch s @ [obs])) < bl_batchSize l"
      "s' = s\<lparr>lg_ch := ch, lg_batch := lg_batch s @ [obs]\<rparr>" "after (flusher l r s) w = w"
  | (full) obs ch where "\<not> lg_done s" "lg_ch s = obs # ch" "bl_batchSize l \<le> int (length (lg_batch s @ [obs]))"
      "s' = flushed (s\<lparr>lg_ch := ch\<rparr>) (lg_batch s @ [obs])" "after (flusher l r s) w = after (flush l (lg_batch s @ [obs])) w"
  | (rest) d where "\<not> lg_done s" "lg_batch s \<noteq> []" "d = (r = Channel)" "d \<longrightarrow> lg_closed s \<and> lg_ch s = []"
      "s' = flushed (s\<lparr>lg_done := d\<rparr>) (lg_batch s)" "after (flusher l r s) w = after (flush l (lg_batch s)) w"
  | (none) d where "\<not> lg_done s" "lg_batch s = []" "d = (r = Channel)" "d \<longrightarrow> lg_closed s \<and> lg_ch s = []"
      "s' = s\<lparr>lg_done := d\<rparr>" "after (flusher l r s) w = w"
proof (cases "lg_done s")
  case True
  with assms show thesis by (simp add: flusher_def)
next
  case False
  show thesis
  proof (cases r)
    case Ticker
    show thesis
    proof (cases "lg_batch s = []")
      case True
      with assms False Ticker have "s' = s" "after (flusher l r s) w = w" by (simp_all add: flusher_def)
      with True False Ticker show thesis by (intro none [of False]) simp_all
    next
      case ne: False
      with assms False Ticker have "s' = flushed s (lg_batch s)" "after (flusher l r s) w = after (flush l (lg_batch s)) w"
        by (simp_all add: flusher_def)
      with ne False Ticker show thesis by (intro rest [of False]) simp_all
    qed
  next
    case Channel
    show thesis
    proof (cases "lg_ch s")
      case Nil
      with assms False Channel have c: "lg_closed s" by (simp add: flusher_def split: if_splits)
      show thesis
      proof (cases "lg_batch s = []")
        case True
        with c assms False Channel Nil have "s' = s\<lparr>lg_done := True\<rparr>" "after (flusher l r s) w = w"
          by (simp_all add: flusher_def)
        with True c False Channel Nil show thesis by (intro none [of True]) simp_all
      next
        case ne: False
        with c assms False Channel Nil have "s' = flushed (s\<lparr>lg_done := True\<rparr>) (lg_batch s)"
          "after (flusher l r s) w = after (flush l (lg_batch s)) w"
          by (simp_all add: flusher_def)
        with ne c False Channel Nil show thesis by (intro rest [of True]) simp_all
      qed
    next
      case (Cons obs ch)
      show thesis
      proof (cases "bl_batchSize l \<le> int (length (lg_batch s @ [obs]))")
        case True
        with assms False Channel Cons show thesis by (intro full [of obs ch]) (simp_all add: flusher_def Let_def)
      next
        case le: False
        with assms False Channel Cons show thesis by (intro keep [of obs ch]) (simp_all add: flusher_def Let_def)
      qed
    qed
  qed
qed

lemma log_inv_new: "log_inv l new_log"
  by (simp add: log_inv_def new_log_def)

lemma log_inv_LogObservation: "LogObservation l i b t s = Logged s' \<Longrightarrow> log_inv l s \<Longrightarrow> log_inv l s'"
proof -
  assume a: "LogObservation l i b t s = Logged s'" and inv: "log_inv l s"
  then consider "s' = s" | obs where "\<not> lg_closed s" "int (length (lg_ch s)) < bl_chSize l"
      "s' = s\<lparr>lg_ch := lg_ch s @ [obs], lg_accepted := lg_accepted s @ [obs]\<rparr>"
    unfolding LogObservation_def Let_def by (metis logged.distinct(1) logged.inject)
  then show "log_inv l s'"
  proof cases
    case (2 obs)
    with inv show ?thesis unfolding log_inv_def by simp
  qed (simp add: inv)
qed

lemma log_inv_flusher:
  assumes "result (flusher l r s) w = Some s'" and inv: "log_inv l s"
  shows "log_inv l s'"
  using assms(1)
proof (cases rule: flusher_cases)
  case (full obs ch)
  have "batch_fits l (lg_batch s @ [obs])"
    using inv by (cases "lg_batch s = []") (simp_all add: log_inv_def batch_fits_def)
  with full inv show ?thesis unfolding log_inv_def flushed_def by simp
next
  case (keep obs ch)
  with inv show ?thesis unfolding log_inv_def by simp
next
  case (rest d)
  then have "batch_fits l (lg_batch s)" using inv by (simp add: log_inv_def batch_fits_def)
  with rest inv show ?thesis unfolding log_inv_def flushed_def by simp
next
  case (none d)
  with inv show ?thesis unfolding log_inv_def by simp
qed

lemma log_inv_close: "log_inv l s \<Longrightarrow> log_inv l (close_log s)"
  by (simp add: close_log_def log_inv_def)

lemma log_inv_step: "log_step l idx c c' \<Longrightarrow> log_inv l (fst c) \<Longrightarrow> log_inv l (fst c')"
  by (erule log_step.cases) (simp_all add: log_inv_LogObservation log_inv_flusher log_inv_close)

lemma reachable_log_inv: "reachable_log l idx w0 c \<Longrightarrow> log_inv l (fst c)"
  by (induction rule: reachable_log.induct) (auto intro: log_inv_new log_inv_step)

section \<open>Settings\<close>

text \<open>
  \<open>LoadObservationLoggerConfig\<close> drops the errors of its settings. An interval that does not parse
  counts as 0 and the ticker of the flusher panics; a number of attempts that does not parse counts
  as 0 and every batch is dropped without an attempt.
\<close>

lemma bad_flush_interval_panics:
  assumes "getEnv env ''ES_OBSERVATION_FLUSH_MS'' \<noteq> []" and "Atoi (getEnv env ''ES_OBSERVATION_FLUSH_MS'') = (0, Some ErrSyntax)"
  shows "NewObservationLogger client Sleep index (LoadObservationLoggerConfig env) = None"
  using assms by (simp add: NewObservationLogger_def LoadObservationLoggerConfig_def GetEnvInt_def Let_def wrap64_def)

lemma bad_retry_setting_drops:
  assumes "getEnv env ''ES_OBSERVATION_RETRY_MAX'' \<noteq> []" and "Atoi (getEnv env ''ES_OBSERVATION_RETRY_MAX'') = (0, Some ErrSyntax)"
    and "NewObservationLogger client Sleep index (LoadObservationLoggerConfig env) = Some l"
  shows "after (flush l batch) w = w"
proof -
  have "bl_retryMax l = 0"
    using assms by (auto simp: NewObservationLogger_def LoadObservationLoggerConfig_def GetEnvInt_def Let_def split: if_splits)
  then show ?thesis by (simp add: flush_def split: option.split)
qed

end
