(* ===== verification/Observation_Index.thy ===== *)
theory Observation_Index
  imports Observation_Logger Reference_World
begin

text \<open>
  What reaches the index of Elasticsearch: the bulk API as a parameter with its laws, the runs of
  the logger under them, and a reference index on which the laws are proved.
\<close>

section \<open>The bulk API\<close>

text \<open>
  A bulk request is a text of lines, an action and a document in turn. The index is the list of the
  pairs that have been carried out.
\<close>

type_synonym bulk_entry = "string \<times> string"

fun line_pairs :: "string list \<Rightarrow> bulk_entry list" where
  "line_pairs (a # d # r) = (a, d) # line_pairs r"
| "line_pairs _ = []"

definition bulk_docs :: "string \<Rightarrow> bulk_entry list" where
  "bulk_docs body = line_pairs (Split body (CHR 0x0A))"

definition entry_of :: "'w bufferedLogger \<Rightarrow> ObservationLog \<Rightarrow> bulk_entry" where
  "entry_of l obs = (bulk_action (bl_index l), observation_json obs)"

text \<open>
  A request that is not acknowledged, or whose response has errors, may have carried out some of its
  entries; a response without errors says that all are in the index.
\<close>

locale bulk_index =
  fixes l :: "'w bufferedLogger" and idx :: "'w \<Rightarrow> bulk_entry list"
  assumes bulk_some: "bl_client l = Some B \<Longrightarrow> \<exists>ds. subseq ds (bulk_docs body) \<and> idx (after (B body) w) = idx w @ ds"
    and bulk_all: "bl_client l = Some B \<Longrightarrow> result (B body) w = Inr False \<Longrightarrow> idx (after (B body) w) = idx w @ bulk_docs body"
    and sleep_idx [simp]: "idx (after (bl_Sleep l d) w) = idx w"

text \<open>The service accepts every entry.\<close>

locale bulk_index_up = bulk_index +
  assumes bulk_up: "\<exists>B. bl_client l = Some B \<and> (\<forall>body w. result (B body) w = Inr False)"

section \<open>The body is read as it is written\<close>

lemma observation_json_line: "CHR 0x0A \<notin> set (observation_json obs)"
proof -
  have "CHR 0x0A \<noteq> quote" by simp
  then show ?thesis
    using quoted_no_newline by (auto simp: observation_json_def)
qed

lemma Split_lines: "CHR 0x0A \<notin> set a \<Longrightarrow> Split (a @ CHR 0x0A # t) (CHR 0x0A) = a # Split t (CHR 0x0A)"
  by (rule Split_app)

lemma bulk_docs_body:
  assumes "CHR 0x0A \<notin> set (bl_index l)" and "\<forall>obs \<in> set batch. json_year (obl_Timestamp obs)"
  shows "bulk_docs (bulk_body (bl_index l) batch) = map (entry_of l) batch"
proof -
  have a: "CHR 0x0A \<notin> set (bulk_action (bl_index l))" using assms(1) by (auto simp: bulk_action_def)
  from assms(2) show ?thesis
  proof (induction batch)
    case (Cons obs batch)
    then have "Split (bulk_body (bl_index l) (obs # batch)) (CHR 0x0A) =
        bulk_action (bl_index l) # observation_json obs # Split (bulk_body (bl_index l) batch) (CHR 0x0A)"
      using Split_app [OF a] Split_app [OF observation_json_line]
      by (simp add: bulk_body_def Marshal_observation_def)
    with Cons show ?case by (simp add: bulk_docs_def entry_of_def)
  qed (simp add: bulk_docs_def bulk_body_def)
qed

section \<open>Attempts\<close>

text \<open>Every entry at most once for each attempt; all of them when an attempt is acknowledged.\<close>

definition copies_bounded :: "nat \<Rightarrow> bulk_entry list \<Rightarrow> bulk_entry list \<Rightarrow> bool" where
  "copies_bounded n ds extra \<longleftrightarrow> set extra \<subseteq> set ds \<and> mset extra \<subseteq># repeat_mset n (mset ds)"

lemma subseq_mset: "subseq xs ys \<Longrightarrow> mset xs \<subseteq># mset ys"
  by (induction rule: list_emb.induct) (auto intro: subset_mset.order_trans)

lemma subseq_subset: "subseq xs ys \<Longrightarrow> set xs \<subseteq> set ys"
  by (metis subseq_mset mset_subset_eqD set_mset_mset subsetI)

lemma copies_bounded_Nil [simp]: "copies_bounded n ds []"
  by (simp add: copies_bounded_def)

lemma copies_bounded_step:
  assumes "subseq xs ds" and "copies_bounded n ds ys"
  shows "copies_bounded (Suc n) ds (xs @ ys)"
proof -
  have "mset xs \<subseteq># mset ds" using assms(1) by (rule subseq_mset)
  moreover have "set xs \<subseteq> set ds" using assms(1) by (rule subseq_subset)
  ultimately show ?thesis
    using assms(2) by (simp add: copies_bounded_def subset_mset.add_mono)
qed

context bulk_index
begin

lemma bulk_retry_idx:
  assumes "bl_client l = Some B"
  shows "\<exists>extra. idx (after (bulk_retry B (bl_Sleep l d) body n) w) = idx w @ extra \<and>
    copies_bounded n (bulk_docs body) extra \<and>
    (result (bulk_retry B (bl_Sleep l d) body n) w \<longrightarrow> mset (bulk_docs body) \<subseteq># mset extra)"
proof (induction n arbitrary: w)
  case 0
  then show ?case by (auto simp: copies_bounded_def)
next
  case (Suc n)
  show ?case
  proof (cases "result (B body) w = Inr False")
    case True
    then have i: "idx (after (B body) w) = idx w @ bulk_docs body" by (rule bulk_all [OF assms])
    have "copies_bounded (Suc n) (bulk_docs body) (bulk_docs body)"
      using copies_bounded_step [of "bulk_docs body" "bulk_docs body" n "[]"] by simp
    with True i show ?thesis by (intro exI [of _ "bulk_docs body"]) simp
  next
    case False
    obtain ds where ds: "subseq ds (bulk_docs body)" "idx (after (B body) w) = idx w @ ds"
      using bulk_some [OF assms] by blast
    let ?w = "after (bl_Sleep l d) (after (B body) w)"
    obtain extra where e: "idx (after (bulk_retry B (bl_Sleep l d) body n) ?w) = idx ?w @ extra"
      "copies_bounded n (bulk_docs body) extra"
      "result (bulk_retry B (bl_Sleep l d) body n) ?w \<longrightarrow> mset (bulk_docs body) \<subseteq># mset extra"
      using Suc.IH by blast
    have "copies_bounded (Suc n) (bulk_docs body) (ds @ extra)" using ds(1) e(2) by (rule copies_bounded_step)
    with False ds(2) e(1,3) show ?thesis
      by (intro exI [of _ "ds @ extra"]) (auto intro: subset_mset.order_trans)
  qed
qed

end

context bulk_index_up
begin

text \<open>A service that is up takes every batch at the first attempt, provided that one is made.\<close>

lemma flush_up:
  assumes "CHR 0x0A \<notin> set (bl_index l)" and "\<forall>obs \<in> set batch. json_year (obl_Timestamp obs)" and "0 < bl_retryMax l"
  shows "idx (after (flush l batch) w) = idx w @ map (entry_of l) batch" and "result (flush l batch) w"
proof -
  obtain B where B: "bl_client l = Some B" "\<forall>body w. result (B body) w = Inr False" using bulk_up by blast
  obtain n where n: "nat (bl_retryMax l) = Suc n" using assms(3) by (cases "nat (bl_retryMax l)") auto
  show "idx (after (flush l batch) w) = idx w @ map (entry_of l) batch" "result (flush l batch) w"
    using B bulk_all [OF B(1), of "bulk_body (bl_index l) batch" w] bulk_docs_body [OF assms(1,2)]
    by (simp_all add: flush_def n)
qed

lemma reachable_log_idx:
  assumes "reachable_log l idx w0 c" and "CHR 0x0A \<notin> set (bl_index l)" and "0 < bl_retryMax l"
    and "\<forall>obs \<in> set (lg_accepted (fst c)). json_year (obl_Timestamp obs)"
  shows "idx (snd c) = idx w0 @ map (entry_of l) (concat (lg_flushed (fst c)))"
  using assms(1,4)
proof (induction rule: reachable_log.induct)
  case start_log
  then show ?case by (simp add: new_log_def)
next
  case (more_log c c')
  from more_log.hyps(2) show ?case
  proof (cases rule: log_step.cases)
    case (step_log i b t s s' w)
    then have "lg_flushed s' = lg_flushed s" "set (lg_accepted s) \<subseteq> set (lg_accepted s')"
      by (auto simp: LogObservation_def Let_def split: if_splits)
    with step_log more_log.IH more_log.prems show ?thesis by auto
  next
    case (step_flusher r s w s')
    have inv: "lg_accepted s = concat (lg_flushed s) @ lg_batch s @ lg_ch s"
      using reachable_log_inv [OF more_log.hyps(1)] step_flusher(1) by (simp add: log_inv_def)
    have acc: "lg_accepted s' = lg_accepted s"
      using step_flusher(3) by (cases rule: flusher_cases) (simp_all add: flushed_def)
    with more_log step_flusher have ih: "idx w = idx w0 @ map (entry_of l) (concat (lg_flushed s))"
      and ok: "\<forall>obs \<in> set (lg_batch s) \<union> set (lg_ch s). json_year (obl_Timestamp obs)"
      by (simp_all add: inv)
    have fl: "idx (after (flush l b) w) = idx w @ map (entry_of l) b" if "set b \<subseteq> set (lg_batch s) \<union> set (lg_ch s)" for b
      using ok that by (intro flush_up assms(2,3)) auto
    from step_flusher(3) have "idx (after (flusher l r s) w) = idx w0 @ map (entry_of l) (concat (lg_flushed s'))"
    proof (cases rule: flusher_cases)
      case (full obs ch)
      then show ?thesis using fl [of "lg_batch s @ [obs]"] ih by (auto simp: flushed_def)
    next
      case (rest d)
      then show ?thesis using fl [of "lg_batch s"] ih by (simp add: flushed_def)
    qed (simp_all add: ih)
    with step_flusher show ?thesis by simp
  next
    case (step_shutdown s w)
    with more_log show ?thesis by (simp add: close_log_def)
  next
    case (step_other w' w s)
    with more_log show ?thesis by simp
  qed
qed

end

section \<open>Shutting down\<close>

text \<open>What is left to do for the flusher once the channel is closed.\<close>

definition log_left :: "log_state \<Rightarrow> nat" where
  "log_left s = length (lg_ch s) + (if lg_done s then 0 else 1)"

lemma flusher_progress:
  assumes "lg_closed s" and "\<not> lg_done s"
  shows "\<exists>s'. result (flusher l Channel s) w = Some s' \<and> log_left s' < log_left s"
  using assms by (cases "lg_ch s") (auto simp: flusher_def log_left_def flushed_def Let_def)

lemma log_left_step:
  assumes "log_step l idx (s, w) (s', w')" and "lg_closed s"
  shows "lg_closed s' \<and> log_left s' \<le> log_left s"
  using assms(1)
proof (cases rule: log_step.cases)
  case (step_log i b t)
  with assms(2) show ?thesis by (simp add: LogObservation_def Let_def)
next
  case (step_flusher r)
  from step_flusher(2) show ?thesis
    by (cases rule: flusher_cases) (simp_all add: log_left_def flushed_def assms(2))
qed (simp_all add: close_log_def assms(2) log_left_def)

section \<open>A reference index\<close>

text \<open>
  An index of plain data. The first client carries every request out; the second reads from a script
  how many entries of each request it manages, and carries out everything once the script is over.
\<close>

definition mem_Bulk :: "string \<Rightarrow> (bulk_entry list world, string + bool) state" where
  "mem_Bulk body = State (\<lambda>w. (Inr False, w\<lparr>wv := wv w @ bulk_docs body\<rparr>))"

definition flaky_Bulk :: "string \<Rightarrow> ((bulk_entry list \<times> nat list) world, string + bool) state" where
  "flaky_Bulk body = State (\<lambda>w. (case wv w of
     (es, []) \<Rightarrow> (Inr False, w\<lparr>wv := (es @ bulk_docs body, [])\<rparr>)
   | (es, k # ks) \<Rightarrow> (Inr True, w\<lparr>wv := (es @ take k (bulk_docs body), ks)\<rparr>)))"

definition small_config :: ObservationLoggerConfig where
  "small_config = \<lparr>obs_ChannelSize = 3, obs_BatchSize = 2, obs_FlushMs = 2000, obs_RetryMax = 3, obs_RetryDelayMs = 500\<rparr>"

definition ref_logger :: "bulk_entry list world bufferedLogger" where
  "ref_logger = the (NewObservationLogger (Some mem_Bulk) (\<lambda>d. ret ()) ''logs'' small_config)"

definition flaky_logger :: "(bulk_entry list \<times> nat list) world bufferedLogger" where
  "flaky_logger = the (NewObservationLogger (Some flaky_Bulk) (\<lambda>d. ret ()) ''logs'' small_config)"

lemma small_loggers:
  "ref_logger = \<lparr>bl_client = Some mem_Bulk, bl_Sleep = (\<lambda>d. ret ()), bl_index = ''logs'', bl_chSize = 3, bl_batchSize = 2,
     bl_flushInterval = 2000 * Millisecond, bl_retryMax = 3, bl_retryDelay = 500 * Millisecond\<rparr>"
  "flaky_logger = \<lparr>bl_client = Some flaky_Bulk, bl_Sleep = (\<lambda>d. ret ()), bl_index = ''logs'', bl_chSize = 3, bl_batchSize = 2,
     bl_flushInterval = 2000 * Millisecond, bl_retryMax = 3, bl_retryDelay = 500 * Millisecond\<rparr>"
  by (simp_all add: ref_logger_def flaky_logger_def NewObservationLogger_def small_config_def wrap64_def Millisecond_def Let_def)

interpretation ref_log: bulk_index_up ref_logger wv
  by unfold_locales (auto simp: small_loggers mem_Bulk_def State_simps)

interpretation flaky_log: bulk_index flaky_logger "\<lambda>w. fst (wv w)"
proof unfold_locales
  fix B body and w :: "(bulk_entry list \<times> nat list) world"
  assume "bl_client flaky_logger = Some B"
  then have B: "B = flaky_Bulk" by (simp add: small_loggers)
  show "\<exists>ds. subseq ds (bulk_docs body) \<and> fst (wv (after (B body) w)) = fst (wv w) @ ds"
    by (cases "wv w"; cases "snd (wv w)") (auto simp: B flaky_Bulk_def State_simps intro: prefix_imp_subseq take_is_prefix)
next
  fix B body and w :: "(bulk_entry list \<times> nat list) world"
  assume "bl_client flaky_logger = Some B" "result (B body) w = Inr False"
  then show "fst (wv (after (B body) w)) = fst (wv w) @ bulk_docs body"
    by (auto simp: small_loggers flaky_Bulk_def State_simps split: prod.splits list.splits)
qed (simp add: small_loggers)

section \<open>Properties\<close>

text \<open>
  C21: the log loses nothing that it has accepted. Whatever the interleaving of the calls, the ticks
  and the flusher, the index of a service that is up holds the flushed observations, each once and in
  the order of the calls; the others are in the slice or the channel. After \<open>Shutdown\<close> has closed the
  channel the flusher is never stuck and gets closer to its end with every turn, no other step takes
  it back, and when \<open>Shutdown\<close> returns every accepted observation is in the index.
\<close>

theorem observations_reach_index:
  assumes "bulk_index_up l idx" and "reachable_log l idx w0 (s, w)"
    and "CHR 0x0A \<notin> set (bl_index l)" and "0 < bl_retryMax l"
    and "\<forall>obs \<in> set (lg_accepted s). json_year (obl_Timestamp obs)"
  shows "lg_accepted s = concat (lg_flushed s) @ lg_batch s @ lg_ch s \<and>
    idx w = idx w0 @ map (entry_of l) (concat (lg_flushed s)) \<and>
    (Shutdown_returned s \<longrightarrow> idx w = idx w0 @ map (entry_of l) (lg_accepted s)) \<and>
    (lg_closed s \<and> \<not> lg_done s \<longrightarrow> (\<exists>s'. result (flusher l Channel s) w = Some s' \<and> log_left s' < log_left s)) \<and>
    (\<forall>s' w'. lg_closed s \<and> log_step l idx (s, w) (s', w') \<longrightarrow> lg_closed s' \<and> log_left s' \<le> log_left s)"
proof -
  have inv: "log_inv l s" using reachable_log_inv [OF assms(2)] by simp
  have i: "idx w = idx w0 @ map (entry_of l) (concat (lg_flushed s))"
    using bulk_index_up.reachable_log_idx [OF assms(1,2,3,4)] assms(5) by simp
  from inv have a: "lg_accepted s = concat (lg_flushed s) @ lg_batch s @ lg_ch s"
    and d: "lg_done s \<Longrightarrow> lg_ch s = [] \<and> lg_batch s = []" by (simp_all add: log_inv_def)
  have "Shutdown_returned s \<longrightarrow> idx w = idx w0 @ map (entry_of l) (lg_accepted s)"
    using d i by (auto simp: Shutdown_returned_def a)
  with a i show ?thesis
    using flusher_progress [of s l w] log_left_step [of l idx s w] by blast
qed

definition example_obs :: "bool \<Rightarrow> ObservationLog" where
  "example_obs b = \<lparr>obl_ServerID = ''s1'', obl_IsSuccess = b, obl_Timestamp = 63850000000 * Second\<rparr>"

definition example_log :: log_state where
  "example_log = \<lparr>lg_ch = [], lg_closed = True, lg_batch = [], lg_done = True,
     lg_accepted = [example_obs True, example_obs False, example_obs True],
     lg_flushed = [[example_obs True, example_obs False], [example_obs True]]\<rparr>"

text \<open>Three calls, two turns that flush a batch, the closing of the channel, and two more turns.\<close>

lemma example_log_run: "\<exists>w. reachable_log ref_logger wv \<lparr>wv = [], wclock = 0\<rparr> (example_log, w)"
proof -
  let ?t = "63850000000 * Second"
  let ?o = "[example_obs True, example_obs False, example_obs True]"
  let ?s = "\<lambda>ch closed batch done acc fl. \<lparr>lg_ch = ch, lg_closed = closed, lg_batch = batch, lg_done = done, lg_accepted = acc, lg_flushed = fl\<rparr>"
  let ?R = "reachable_log ref_logger wv \<lparr>wv = [], wclock = 0\<rparr>"
  have log: "LogObservation ref_logger ''s1'' b ?t (?s ch False [] False acc fl) =
      Logged (?s (ch @ [example_obs b]) False [] False (acc @ [example_obs b]) fl)" if "length ch < 3" for ch b acc fl
    using that by (simp add: LogObservation_def small_loggers example_obs_def Let_def)
  note more = more_log [of ref_logger wv "\<lparr>wv = [], wclock = 0\<rparr>"]
  have "?R (?s [] False [] False [] [], \<lparr>wv = [], wclock = 0\<rparr>)" using start_log by (simp add: new_log_def)
  from more [OF this step_log [OF log]] have "?R (?s (take 1 ?o) False [] False (take 1 ?o) [], \<lparr>wv = [], wclock = 0\<rparr>)" by simp
  from more [OF this step_log [OF log]] have "?R (?s (take 2 ?o) False [] False (take 2 ?o) [], \<lparr>wv = [], wclock = 0\<rparr>)" by simp
  from more [OF this step_log [OF log]] have "?R (?s ?o False [] False ?o [], \<lparr>wv = [], wclock = 0\<rparr>)" by simp
  from more [OF this step_flusher [where r = Channel]]
  have "?R (?s (tl ?o) False (take 1 ?o) False ?o [], \<lparr>wv = [], wclock = 0\<rparr>)"
    by (simp add: flusher_def small_loggers Let_def)
  from more [OF this step_flusher [where r = Channel]]
  obtain w where "?R (?s (drop 2 ?o) False [] False ?o [take 2 ?o], w)"
    by (auto simp: flusher_def small_loggers flushed_def Let_def)
  from more [OF this step_shutdown] have "?R (?s (drop 2 ?o) True [] False ?o [take 2 ?o], w)" by (simp add: close_log_def)
  from more [OF this step_flusher [where r = Channel]]
  have "?R (?s [] True (drop 2 ?o) False ?o [take 2 ?o], w)" by (simp add: flusher_def small_loggers Let_def)
  from more [OF this step_flusher [where r = Channel]]
  show ?thesis by (auto simp: flusher_def small_loggers flushed_def Let_def example_log_def)
qed

theorem observations_reach_index_witness:
  "\<exists>w :: bulk_entry list world. wv w = map (entry_of ref_logger) [example_obs True, example_obs False, example_obs True]"
proof -
  obtain w where w: "reachable_log ref_logger wv \<lparr>wv = [], wclock = 0\<rparr> (example_log, w)" using example_log_run by blast
  have y: "json_year (63850000000 * Second)" by code_simp
  have "wv w = wv (\<lparr>wv = [], wclock = 0\<rparr> :: bulk_entry list world) @ map (entry_of ref_logger) (lg_accepted example_log)"
    using observations_reach_index [OF ref_log.bulk_index_up_axioms w] y
    by (simp add: small_loggers example_log_def example_obs_def Shutdown_returned_def)
  then show ?thesis by (intro exI [of _ w]) (simp add: example_log_def)
qed

text \<open>
  A batch is written at least once or given up, never silently halved: if an attempt is
  acknowledged without errors, every observation of the batch is in the index; each attempt adds an
  observation at most once, so none is there more often than there are attempts, and nothing else is
  written. Observations can be there several times: a request that was carried out in part is sent
  again as a whole.
\<close>

lemma flush_is_at_least_once:
  assumes "bulk_index l idx" and "CHR 0x0A \<notin> set (bl_index l)"
    and "\<forall>obs \<in> set batch. json_year (obl_Timestamp obs)"
  shows "\<exists>extra. idx (after (flush l batch) w) = idx w @ extra \<and>
    copies_bounded (nat (bl_retryMax l)) (map (entry_of l) batch) extra \<and>
    (result (flush l batch) w \<longrightarrow> mset (map (entry_of l) batch) \<subseteq># mset extra)"
proof (cases "bl_client l")
  case None
  then show ?thesis by (auto simp: flush_def)
next
  case (Some B)
  with bulk_index.bulk_retry_idx [OF assms(1) Some, of "bl_retryDelay l" "bulk_body (bl_index l) batch" "nat (bl_retryMax l)" w]
  show ?thesis by (simp add: flush_def bulk_docs_body [OF assms(2,3)])
qed

lemma flush_is_at_least_once_witness:
  "let w = \<lparr>wv = ([], [1]), wclock = 0\<rparr>; batch = [example_obs True, example_obs False]; w' = after (flush flaky_logger batch) w in
   fst (wv w') = map (entry_of flaky_logger) (example_obs True # batch) \<and>
   copies_bounded 3 (map (entry_of flaky_logger) batch) (fst (wv w'))"
proof -
  let ?b = "[example_obs True, example_obs False]"
  have y: "json_year (63850000000 * Second)" by code_simp
  then have b: "bulk_docs (bulk_body ''logs'' ?b) = map (entry_of flaky_logger) ?b"
    using bulk_docs_body [of flaky_logger ?b] by (simp add: small_loggers example_obs_def)
  have "fst (wv (after (flush flaky_logger ?b) \<lparr>wv = ([], [1]), wclock = 0\<rparr>)) = map (entry_of flaky_logger) (example_obs True # ?b)"
    by (simp add: flush_def small_loggers(2) [THEN arg_cong, of bl_client] small_loggers(2) [THEN arg_cong, of bl_index]
        small_loggers(2) [THEN arg_cong, of bl_retryMax] small_loggers(2) [THEN arg_cong, of bl_Sleep] b eval_nat_numeral flaky_Bulk_def State_simps)
  then show ?thesis
    using flush_is_at_least_once [OF flaky_log.bulk_index_axioms, of ?b "\<lparr>wv = ([], [1]), wclock = 0\<rparr>"] y
    by (auto simp: Let_def small_loggers example_obs_def)
qed

end
