(* ===== verification/Http.thy ===== *)
theory Http
  imports Go_Strings
begin

text \<open>
  The parts of the package \<open>net/http\<close> that the handlers use: requests with their headers,
  cookies as they are written and read, and the responses. A request with several thousand
  cookies, which the package refuses, is not considered.
\<close>

section \<open>Requests and responses\<close>

text \<open>Header fields by their canonical name, in the order in which they came.\<close>

record http_request =
  req_Method :: string
  req_Header :: "string \<Rightarrow> string list"

definition Header_Get :: "http_request \<Rightarrow> string \<Rightarrow> string" where
  "Header_Get r k = (case req_Header r k of [] \<Rightarrow> [] | v # _ \<Rightarrow> v)"

record http_response =
  resp_Status :: int
  resp_Header :: "(string \<times> string) list"
  resp_Body :: string

text \<open>\<open>http.Error\<close>: the message and a newline, as plain text.\<close>

definition http_Error :: "string \<Rightarrow> int \<Rightarrow> http_response" where
  "http_Error msg c =
     \<lparr>resp_Status = c,
      resp_Header = [(''Content-Type'', ''text/plain; charset=utf-8''), (''X-Content-Type-Options'', ''nosniff'')],
      resp_Body = msg @ [CHR 0x0A]\<rparr>"

definition StatusOK :: int where "StatusOK = 200"
definition StatusBadRequest :: int where "StatusBadRequest = 400"
definition StatusUnauthorized :: int where "StatusUnauthorized = 401"
definition StatusForbidden :: int where "StatusForbidden = 403"

lemmas http_status = StatusOK_def StatusBadRequest_def StatusUnauthorized_def StatusForbidden_def

section \<open>Cookies\<close>

definition token_chars :: string where
  "token_chars =
     ''!#$%&*+-.^_|~0123456789ABCDEFGHIJKLMNOPQRSTUVWXYZabcdefghijklmnopqrstuvwxyz'' @ [CHR 0x27, CHR 0x60]"

definition isToken :: "string \<Rightarrow> bool" where
  "isToken s \<longleftrightarrow> s \<noteq> [] \<and> list_all (\<lambda>c. c \<in> set token_chars) s"

definition validCookieValueByte :: "char \<Rightarrow> bool" where
  "validCookieValueByte c \<longleftrightarrow>
     32 \<le> (of_char c :: nat) \<and> (of_char c :: nat) < 127 \<and> c \<noteq> CHR 0x22 \<and> c \<noteq> CHR '';'' \<and> c \<noteq> CHR 0x5C"

definition sanitizeCookieValue :: "string \<Rightarrow> string" where
  "sanitizeCookieValue v =
     (let v' = filter validCookieValueByte v in
      if v' = [] then v'
      else if CHR '' '' \<in> set v' \<or> CHR '','' \<in> set v' then [CHR 0x22] @ v' @ [CHR 0x22] else v')"

text \<open>A cookie for the path \<open>/\<close> with \<open>SameSite=Lax\<close>, no domain and no expiry date.\<close>

definition Cookie_String :: "string \<Rightarrow> string \<Rightarrow> int \<Rightarrow> bool \<Rightarrow> string" where
  "Cookie_String name v maxAge httpOnly =
     (if \<not> isToken name then []
      else name @ ''='' @ sanitizeCookieValue v @ ''; Path=/'' @
        (if maxAge > 0 then ''; Max-Age='' @ Itoa maxAge else if maxAge < 0 then ''; Max-Age=0'' else []) @
        (if httpOnly then ''; HttpOnly'' else []) @ ''; SameSite=Lax'')"

definition http_space :: "char \<Rightarrow> bool" where
  "http_space c \<longleftrightarrow> c \<in> {CHR '' '', CHR 0x09, CHR 0x0A, CHR 0x0D}"

definition TrimString :: "string \<Rightarrow> string" where
  "TrimString s = rev (dropWhile http_space (rev (dropWhile http_space s)))"

definition parseCookieValue :: "string \<Rightarrow> string option" where
  "parseCookieValue raw =
     (let v = (if 1 < length raw \<and> hd raw = CHR 0x22 \<and> last raw = CHR 0x22 then butlast (tl raw) else raw)
      in if list_all validCookieValueByte v then Some v else None)"

text \<open>\<open>strings.Cut(s, "=")\<close>.\<close>

definition cut_eq :: "string \<Rightarrow> string \<times> string" where
  "cut_eq s = (case Split2 s CHR ''='' of [a, b] \<Rightarrow> (a, b) | _ \<Rightarrow> (s, []))"

definition cookie_of_part :: "string \<Rightarrow> string \<Rightarrow> string option" where
  "cookie_of_part name part =
     (let p = TrimString part; (n, v) = cut_eq p; n' = TrimString n in
      if p = [] \<or> \<not> isToken n' \<or> n' \<noteq> name then None else parseCookieValue v)"

text \<open>\<open>Request.Cookie(name)\<close>: the first cookie of this name, if there is one.\<close>

definition Cookie :: "http_request \<Rightarrow> string \<Rightarrow> string option" where
  "Cookie r name =
     (case List.map_filter (cookie_of_part name)
        (concat (map (\<lambda>line. Split (TrimString line) CHR '';'') (req_Header r ''Cookie''))) of
        [] \<Rightarrow> None
      | v # _ \<Rightarrow> Some v)"

text \<open>
  A cookie is found only under a part that has the letters of its name before the first equals
  sign; trimming never brings new letters there.
\<close>

definition name_part :: "string \<Rightarrow> string" where
  "name_part s = takeWhile (\<lambda>c. c \<noteq> CHR ''='') s"

lemma fst_cut_eq: "fst (cut_eq s) = name_part s"
proof (cases "CHR ''='' \<in> set s")
  case True
  then obtain a b where s: "s = a @ CHR ''='' # b" and a: "CHR ''='' \<notin> set a"
    using split_list_first by fast
  then have "cut_eq s = (a, b)" by (simp add: cut_eq_def Split2_app)
  moreover have "name_part s = a"
    unfolding s name_part_def using a by (induction a) auto
  ultimately show ?thesis by simp
next
  case False
  then have "name_part s = s" unfolding name_part_def by (induction s) auto
  then show ?thesis using False by (simp add: cut_eq_def Split2_no_sep)
qed

lemma set_name_part_take: "set (name_part (take n s)) \<subseteq> set (name_part s)"
proof (induction s arbitrary: n)
  case (Cons c s)
  then show ?case by (cases n) (auto simp: name_part_def)
qed (simp add: name_part_def)

lemma set_name_part_drop: "set (name_part (dropWhile http_space s)) \<subseteq> set (name_part s)"
proof (induction s)
  case (Cons c s)
  then show ?case by (cases "c = CHR ''=''") (auto simp: name_part_def http_space_def)
qed simp

lemma TrimString_take: "\<exists>n. TrimString s = take n (dropWhile http_space s)"
proof -
  let ?t = "dropWhile http_space s"
  have "?t = TrimString s @ rev (takeWhile http_space (rev ?t))"
    by (metis TrimString_def rev_append rev_rev_ident takeWhile_dropWhile_id)
  then have "TrimString s = take (length (TrimString s)) ?t" by (metis append_eq_conv_conj)
  then show ?thesis ..
qed

lemma set_TrimString: "set (TrimString s) \<subseteq> set s"
  using TrimString_take [of s] by (metis set_dropWhileD set_take_subset subsetD subsetI)

lemma cookie_of_part_letters: "cookie_of_part name part = Some v \<Longrightarrow> set name \<subseteq> set (name_part part)"
proof -
  assume c: "cookie_of_part name part = Some v"
  let ?p = "TrimString part"
  have "TrimString (name_part ?p) = name"
    using c fst_cut_eq [of ?p] by (auto simp: cookie_of_part_def Let_def split: prod.splits if_splits)
  then have "set name \<subseteq> set (name_part ?p)" using set_TrimString by metis
  also obtain n where "?p = take n (dropWhile http_space part)" using TrimString_take by blast
  then have "set (name_part ?p) \<subseteq> set (name_part part)"
    using set_name_part_take set_name_part_drop by (metis subset_trans)
  finally show ?thesis .
qed

text \<open>Trimming a line that starts with no space cuts it behind its last byte that is no space.\<close>

lemma dropWhile_rev_keep:
  assumes "\<not> P x"
  obtains c' where "rev (dropWhile P (rev (s @ x # c))) = s @ x # c'" and "set c' \<subseteq> set c"
proof -
  have "rev (dropWhile P (rev (s @ x # c))) = s @ x # rev (dropWhile P (rev c))"
  proof (cases "\<forall>y \<in> set (rev c). P y")
    case True
    then have "dropWhile P (rev c @ x # rev s) = x # rev s" "dropWhile P (rev c) = []"
      using assms dropWhile_append2 [of "rev c" P "x # rev s"] by auto
    then show ?thesis by simp
  next
    case False
    then obtain y where "y \<in> set (rev c)" "\<not> P y" by blast
    then show ?thesis by (simp add: dropWhile_append1)
  qed
  then show thesis using that by (metis set_dropWhileD set_rev subsetI)
qed

lemma TrimString_keep:
  assumes "\<not> http_space a" and "\<not> http_space x"
  obtains c' where "TrimString (a # s @ x # c) = a # s @ x # c'" and "set c' \<subseteq> set c"
proof -
  obtain c' where "rev (dropWhile http_space (rev ((a # s) @ x # c))) = (a # s) @ x # c'" "set c' \<subseteq> set c"
    using dropWhile_rev_keep [where P = http_space and x = x] assms(2) .
  then show thesis using assms(1) by (intro that) (simp_all add: TrimString_def)
qed

lemma http_space_letters: "\<not> http_space CHR ''a''" "\<not> http_space CHR ''=''"
  by (simp_all add: http_space_def)

lemma map_filter_None: "(\<And>x. x \<in> set xs \<Longrightarrow> f x = None) \<Longrightarrow> List.map_filter f xs = []"
  by (induction xs) (simp_all add: map_filter_simps)

text \<open>
  What a browser sends back for the cookies it was given: the part of each before the first
  semicolon.
\<close>

definition browser_cookies :: "string list \<Rightarrow> string" where
  "browser_cookies setCookies =
     (case map (takeWhile (\<lambda>c. c \<noteq> CHR '';'')) setCookies of
        [] \<Rightarrow> []
      | p # ps \<Rightarrow> p @ concat (map (\<lambda>q. ''; '' @ q) ps))"

lemma sanitize_no_semicolon: "CHR '';'' \<notin> set (sanitizeCookieValue v)"
  by (auto simp: sanitizeCookieValue_def Let_def validCookieValueByte_def)

lemma Cookie_String_pair:
  assumes "isToken name"
  shows "takeWhile (\<lambda>c. c \<noteq> CHR '';'') (Cookie_String name v maxAge httpOnly) = name @ ''='' @ sanitizeCookieValue v"
proof -
  have "CHR '';'' \<notin> set token_chars" by (simp add: token_chars_def)
  with assms have "CHR '';'' \<notin> set name" by (auto simp: isToken_def list_all_iff)
  then have "\<forall>c \<in> set (name @ ''='' @ sanitizeCookieValue v). c \<noteq> CHR '';''"
    using sanitize_no_semicolon by auto
  moreover have "\<exists>r. Cookie_String name v maxAge httpOnly = (name @ ''='' @ sanitizeCookieValue v) @ CHR '';'' # r"
    using assms by (intro exI) (simp add: Cookie_String_def)
  ultimately obtain r where "\<forall>c \<in> set (name @ ''='' @ sanitizeCookieValue v). c \<noteq> CHR '';''"
    and e: "Cookie_String name v maxAge httpOnly = (name @ ''='' @ sanitizeCookieValue v) @ CHR '';'' # r" by blast
  then show ?thesis unfolding e by (subst takeWhile_append2) auto
qed

end
