(* ===== verification/Agent_Handler.thy ===== *)
theory Agent_Handler
  imports Services Json Http
begin

text \<open>
  The service \<open>sms-agent-handler\<close>: the endpoint to which agents on the servers send their
  heartbeats, behind a shared key.
\<close>

section \<open>The key\<close>

record 'w agent_env =
  ag_redis :: "'w redis"
  ag_Now :: "('w, time) state"

type_synonym 'w http_handler = "http_request \<Rightarrow> string \<Rightarrow> ('w, http_response) state"

definition NewMasterKeyAuthMiddleware :: "string \<Rightarrow> string" where
  "NewMasterKeyAuthMiddleware expectedKey = TrimSpace expectedKey"

definition MasterKey_Middleware :: "string \<Rightarrow> 'w http_handler \<Rightarrow> 'w http_handler" where
  "MasterKey_Middleware expectedKey handler r body =
     (let providedKey = Header_Get r ''X-Master-Key'' in
      if providedKey = [] \<or> providedKey \<noteq> expectedKey
      then ret (http_Error ''Unauthorized: Invalid or missing X-Master-Key'' StatusUnauthorized)
      else handler r body)"

section \<open>Heartbeats\<close>

text \<open>\<open>Decoder.Decode\<close> reads one value and leaves what follows it alone.\<close>

definition decode_members :: "string \<Rightarrow> (string \<times> json) list option" where
  "decode_members s =
     (case p_value (Suc (length s)) s of
        Some (JObj ms, t) \<Rightarrow> Some ms
      | Some (JNull, t) \<Rightarrow> Some []
      | _ \<Rightarrow> None)"

definition heartbeat_zset :: string where "heartbeat_zset = ''monitoring:agent:heartbeats''"
definition heartbeat_stream :: string where "heartbeat_stream = ''sms.events.heartbeat''"

definition agent_StatusInternalServerError :: int where "agent_StatusInternalServerError = 500"

definition heartbeat_ok :: http_response where
  "heartbeat_ok = \<lparr>resp_Status = StatusOK, resp_Header = [(''Content-Type'', ''application/json'')],
     resp_Body = ''{'' @ [CHR 0x22] @ ''status'' @ [CHR 0x22] @ '': '' @ [CHR 0x22] @ ''ok'' @ [CHR 0x22] @ ''}''\<rparr>"

definition HandleHeartbeat :: "'w agent_env \<Rightarrow> 'w http_handler" where
  "HandleHeartbeat A r body =
     (case decode_members body of
        None \<Rightarrow> ret (http_Error ''Invalid payload'' StatusBadRequest)
      | Some ms \<Rightarrow>
          (case get_string ms ''server_id'' of
             None \<Rightarrow> ret (http_Error ''Invalid payload'' StatusBadRequest)
           | Some serverID \<Rightarrow>
               if serverID = [] then ret (http_Error ''server_id is required'' StatusBadRequest)
               else do {
                 t \<leftarrow> ag_Now A;
                 z \<leftarrow> cmd_ZAdd (ag_redis A) heartbeat_zset serverID (Unix t);
                 case z of
                   Inl e \<Rightarrow> ret (http_Error ''Internal server error'' agent_StatusInternalServerError)
                 | Inr _ \<Rightarrow> do {
                     cmd_XAdd (ag_redis A) heartbeat_stream 0 [(''server_id'', serverID)];
                     ret heartbeat_ok
                   }
               }))"

text \<open>The routes: \<open>POST\<close> on one path, of a subrouter whose middleware runs first.\<close>

definition agent_chain :: "'w agent_env \<Rightarrow> string \<Rightarrow> 'w http_handler" where
  "agent_chain A masterKey = MasterKey_Middleware (NewMasterKeyAuthMiddleware masterKey) (HandleHeartbeat A)"

end
