(* ===== verification/Simulator.thy ===== *)
theory Simulator
  imports Services Json Http Go_Time Agent_Handler Float64 Config
begin

text \<open>
  The service \<open>sms-simulator\<close>: thousands of servers on one network interface. Those that are down
  are the elements of a set of nftables, whose packets the kernel drops; an HTTP interface and a
  timer change the set, a worker sends heartbeats for the simulated agents, a program fills the
  databases with the servers.
\<close>

section \<open>The set of the servers that are down\<close>

text \<open>
  \<open>sim_Run args\<close> runs a command: its standard output, its standard error, and the error of the run
  if it fails. \<open>sim_Perm n\<close> is \<open>Rand.Perm\<close>.
\<close>

record 'w simulator_env =
  sim_Run :: "string list \<Rightarrow> ('w, string \<times> string \<times> string option) state"
  sim_Perm :: "nat \<Rightarrow> ('w, nat list) state"

text \<open>\<open>cmd.CombinedOutput\<close>; how the two outputs interleave does not matter, they are only logged.\<close>

definition CombinedOutput :: "'w simulator_env \<Rightarrow> string list \<Rightarrow> ('w, string \<times> string option) state" where
  "CombinedOutput S args = do { (out, errout, err) \<leftarrow> sim_Run S args; ret (out @ errout, err) }"

definition FlushDownIPs :: "'w simulator_env \<Rightarrow> ('w, string \<times> string option) state" where
  "FlushDownIPs S = CombinedOutput S [''nft'', ''flush'', ''set'', ''inet'', ''sim'', ''down_ips'']"

definition AddDownIP :: "'w simulator_env \<Rightarrow> string \<Rightarrow> ('w, string \<times> string option) state" where
  "AddDownIP S ip = CombinedOutput S [''nft'', ''add'', ''element'', ''inet'', ''sim'', ''down_ips'', ''{'', ip, ''}'']"

definition DeleteDownIP :: "'w simulator_env \<Rightarrow> string \<Rightarrow> ('w, string \<times> string option) state" where
  "DeleteDownIP S ip = CombinedOutput S [''nft'', ''delete'', ''element'', ''inet'', ''sim'', ''down_ips'', ''{'', ip, ''}'']"

text \<open>What follows the first occurrence of a text, as the sources cut it with \<open>strings.Index\<close>.\<close>

fun cut_after :: "string \<Rightarrow> string \<Rightarrow> string option" where
  "cut_after p [] = (if p = [] then Some [] else None)"
| "cut_after p (c # s) = (if HasPrefix (c # s) p then Some (drop (length p) (c # s)) else cut_after p s)"

text \<open>The map from addresses to \<open>true\<close> is the list of its keys.\<close>

definition parse_elements :: "string \<Rightarrow> string list" where
  "parse_elements output =
     (case cut_after ''elements = {'' output of
        None \<Rightarrow> []
      | Some rest \<Rightarrow>
          if CHR ''}'' \<notin> set rest then []
          else let elements = TrimSpace (takeWhile (\<lambda>c. c \<noteq> CHR ''}'') rest) in
            if elements = [] then []
            else remdups (filter (\<lambda>ip. ip \<noteq> []) (map TrimSpace (Split elements (CHR '','')))))"

definition ListDownIPs :: "'w simulator_env \<Rightarrow> ('w, string + string list) state" where
  "ListDownIPs S = do {
     (out, errout, err) \<leftarrow> sim_Run S [''nft'', ''list'', ''set'', ''inet'', ''sim'', ''down_ips''];
     ret (case err of Some e \<Rightarrow> Inl e | None \<Rightarrow> Inr (parse_elements out))
   }"

section \<open>The HTTP interface\<close>

definition StatusMethodNotAllowed :: int where "StatusMethodNotAllowed = 405"

definition nft_error :: http_response where
  "nft_error = http_Error ''nft error'' agent_StatusInternalServerError"

definition method_not_allowed :: http_response where
  "method_not_allowed = http_Error ''method not allowed'' StatusMethodNotAllowed"

text \<open>A status and a JSON value with the newline of \<open>Encoder.Encode\<close>.\<close>

definition json_response :: "json \<Rightarrow> http_response" where
  "json_response v = \<lparr>resp_Status = StatusOK, resp_Header = [], resp_Body = Marshal v @ [CHR 0x0A]\<rparr>"

definition ok_response :: http_response where
  "ok_response = json_response (JObj [(''status'', JStr ''ok'')])"

definition handleHealth :: "'w http_handler" where
  "handleHealth r body = ret \<lparr>resp_Status = StatusOK, resp_Header = [],
     resp_Body = ''{'' @ [quote] @ ''status'' @ [quote] @ '': '' @ [quote] @ ''ok'' @ [quote] @ ''}''\<rparr>"

definition handleReset :: "'w simulator_env \<Rightarrow> 'w http_handler" where
  "handleReset S r body =
     (if req_Method r \<noteq> ''POST'' then ret method_not_allowed
      else do {
        (out, err) \<leftarrow> FlushDownIPs S;
        ret (if err \<noteq> None then nft_error else ok_response)
      })"

text \<open>A list of strings as \<open>Decode\<close> reads it: \<open>null\<close> leaves the empty string, other values are errors.\<close>

fun json_strings :: "json list \<Rightarrow> string list option" where
  "json_strings [] = Some []"
| "json_strings (v # vs) =
     (case (v, json_strings vs) of
        (JStr s, Some ss) \<Rightarrow> Some (s # ss)
      | (JNull, Some ss) \<Rightarrow> Some ([] # ss)
      | _ \<Rightarrow> None)"

definition toggleRequest :: "string \<Rightarrow> string list option" where
  "toggleRequest body =
     (case decode_members body of
        None \<Rightarrow> None
      | Some ms \<Rightarrow>
          fold (\<lambda>(k, v) acc. if fold_name k \<noteq> fold_name ''ips'' then acc
            else case acc of None \<Rightarrow> None
            | Some _ \<Rightarrow> (case v of JArr vs \<Rightarrow> json_strings vs | JNull \<Rightarrow> Some [] | _ \<Rightarrow> None)) ms (Some []))"

definition cleanIPs :: "string list \<Rightarrow> string list" where
  "cleanIPs ips = filter (\<lambda>ip. ip \<noteq> []) (map TrimSpace ips)"

text \<open>The loop of \<open>handleDown\<close> stops at the first command that fails; the loop of \<open>handleUp\<close> does not.\<close>

primrec down_all :: "'w simulator_env \<Rightarrow> string list \<Rightarrow> ('w, http_response) state" where
  "down_all S [] = ret ok_response"
| "down_all S (ip # ips) = do {
     (out, err) \<leftarrow> AddDownIP S ip;
     if err \<noteq> None then ret nft_error else down_all S ips
   }"

definition handleDown :: "'w simulator_env \<Rightarrow> 'w http_handler" where
  "handleDown S r body =
     (if req_Method r \<noteq> ''POST'' then ret method_not_allowed
      else case toggleRequest body of
        None \<Rightarrow> ret (http_Error ''invalid json'' StatusBadRequest)
      | Some ips \<Rightarrow> down_all S (cleanIPs ips))"

definition handleUp :: "'w simulator_env \<Rightarrow> 'w http_handler" where
  "handleUp S r body =
     (if req_Method r \<noteq> ''POST'' then ret method_not_allowed
      else case toggleRequest body of
        None \<Rightarrow> ret (http_Error ''invalid json'' StatusBadRequest)
      | Some ips \<Rightarrow> do {
          for_each (cleanIPs ips) (\<lambda>ip. do { DeleteDownIP S ip; ret () });
          ret ok_response
        })"

definition handleStatus :: "'w simulator_env \<Rightarrow> int \<Rightarrow> 'w http_handler" where
  "handleStatus S TotalIPs r body = do {
     d \<leftarrow> ListDownIPs S;
     ret (case d of
        Inl e \<Rightarrow> nft_error
      | Inr downSet \<Rightarrow> json_response (JObj [(''total'', JInt TotalIPs), (''down'', JInt (int (length downSet)))]))
   }"

text \<open>The routes, on any method.\<close>

definition SetupMux :: "'w simulator_env \<Rightarrow> int \<Rightarrow> string \<Rightarrow> 'w http_handler option" where
  "SetupMux S TotalIPs path =
     (if path = ''/up'' then Some (handleUp S)
      else if path = ''/down'' then Some (handleDown S)
      else if path = ''/status'' then Some (handleStatus S TotalIPs)
      else if path = ''/reset'' then Some (handleReset S)
      else if path = ''/health'' then Some handleHealth
      else None)"

section \<open>Addresses\<close>

text \<open>The two counters of the loop; a negative capacity of a slice panics.\<close>

fun ip_loop :: "nat \<Rightarrow> string \<Rightarrow> int \<Rightarrow> int \<Rightarrow> string list" where
  "ip_loop 0 subnet octet3 octet4 = []"
| "ip_loop (Suc n) subnet octet3 octet4 =
     (subnet @ ''.'' @ Itoa octet3 @ ''.'' @ Itoa octet4) #
       (if octet4 + 1 > 254 then ip_loop n subnet (octet3 + 1) 1 else ip_loop n subnet octet3 (octet4 + 1))"

definition generateIPs :: "int \<Rightarrow> string \<Rightarrow> string list option" where
  "generateIPs cnt subnet = (if cnt < 0 then None else Some (ip_loop (nat cnt) subnet 0 1))"

section \<open>Flapping\<close>

definition pickRandom :: "'w simulator_env \<Rightarrow> string list \<Rightarrow> int \<Rightarrow> ('w, string list) state" where
  "pickRandom S ips n =
     (let n = (if n > int (length ips) then int (length ips) else n) in
      if n \<le> 0 then ret []
      else do {
        perm \<leftarrow> sim_Perm S (length ips);
        ret (map (\<lambda>i. ips ! (perm ! i)) [0..<nat n])
      })"

text \<open>The counters \<open>toDown\<close> and \<open>toUp\<close> and the size of the set at the end, as they are logged.\<close>

primrec flap_all ::
  "'w simulator_env \<Rightarrow> string list \<Rightarrow> string list \<Rightarrow> nat \<Rightarrow> nat \<Rightarrow> ('w, string + nat \<times> nat \<times> nat) state" where
  "flap_all S [] downSet toDown toUp = ret (Inr (toDown, toUp, length downSet))"
| "flap_all S (ip # selected) downSet toDown toUp =
     (if ip \<in> set downSet then do {
        (out, err) \<leftarrow> DeleteDownIP S ip;
        case err of Some e \<Rightarrow> ret (Inl e) | None \<Rightarrow> flap_all S selected (removeAll ip downSet) toDown (Suc toUp)
      } else do {
        (out, err) \<leftarrow> AddDownIP S ip;
        case err of Some e \<Rightarrow> ret (Inl e) | None \<Rightarrow> flap_all S selected (ip # downSet) (Suc toDown) toUp
      })"

definition flapOnce :: "'w simulator_env \<Rightarrow> string list \<Rightarrow> int \<Rightarrow> ('w, string + nat \<times> nat \<times> nat) state" where
  "flapOnce S ips flipCount = do {
     d \<leftarrow> ListDownIPs S;
     case d of
       Inl e \<Rightarrow> ret (Inl e)
     | Inr downSet \<Rightarrow> do {
         selected \<leftarrow> pickRandom S ips flipCount;
         flap_all S selected downSet 0 0
       }
   }"

text \<open>
  The settings of the flapper. A \<open>float64\<close> is a rational number or one of the special values; the
  conversion of a value that is not in the range of \<open>int\<close> is up to the implementation, \<open>ToInt\<close>.
\<close>

datatype go_float = Finite rat | PosInf | NegInf | NaN

definition envFloat :: "os_state \<Rightarrow> (string \<Rightarrow> go_float option) \<Rightarrow> string \<Rightarrow> go_float \<Rightarrow> go_float" where
  "envFloat env ParseFloat key defaultVal =
     (let v = Getenv env key in
      if v = [] then defaultVal else (case ParseFloat v of Some f \<Rightarrow> f | None \<Rightarrow> defaultVal))"

definition envDuration :: "os_state \<Rightarrow> string \<Rightarrow> duration \<Rightarrow> duration" where
  "envDuration env key defaultVal =
     (let v = Getenv env key in
      if v = [] then defaultVal
      else (case os_ParseDuration env v of
         (d, None) \<Rightarrow> d
       | _ \<Rightarrow> (case Atoi v of (seconds, None) \<Rightarrow> wrap64 (seconds * Second) | _ \<Rightarrow> defaultVal)))"

definition envStr :: "os_state \<Rightarrow> string \<Rightarrow> string \<Rightarrow> string" where
  "envStr env key defaultVal = (let v = Getenv env key in if v \<noteq> [] then v else defaultVal)"

definition envBool :: "os_state \<Rightarrow> string \<Rightarrow> bool \<Rightarrow> bool" where
  "envBool env key defaultVal =
     (let v = Getenv env key in
      if v \<noteq> [] then (case ParseBool v of Some b \<Rightarrow> b | None \<Rightarrow> defaultVal) else defaultVal)"

definition flip_count :: "(go_float \<Rightarrow> int) \<Rightarrow> int \<Rightarrow> go_float \<Rightarrow> int" where
  "flip_count ToInt TotalIPs percent =
     (let product = (case percent of
            Finite p \<Rightarrow> (let x = fl_div (fl_mul (fl_of_int TotalIPs) p) 100 in
              if \<bar>fl_trunc x\<bar> < 2 ^ 63 then fl_trunc x else ToInt (Finite x))
          | f \<Rightarrow> ToInt f);
          flipCount = (if product < 1 \<and> TotalIPs > 0 then 1 else product)
      in if flipCount > TotalIPs then TotalIPs else flipCount)"

text \<open>The flapper is off, or there is a panic, or it starts: interval, addresses and number of flips.\<close>

datatype flapper = FlapperOff | FlapperPanics | Flapper duration "string list" int

definition StartAutoFlapper ::
  "os_state \<Rightarrow> (string \<Rightarrow> go_float option) \<Rightarrow> (go_float \<Rightarrow> int) \<Rightarrow> int \<Rightarrow> string \<Rightarrow> flapper" where
  "StartAutoFlapper env ParseFloat ToInt TotalIPs Subnet =
     (let interval = envDuration env ''SIMULATOR_FLAP_INTERVAL'' (60 * Second);
          percent = envFloat env ParseFloat ''SIMULATOR_FLAP_PERCENT'' (Finite 5)
      in if interval \<le> 0 \<or> (case percent of Finite p \<Rightarrow> p \<le> 0 | NegInf \<Rightarrow> True | _ \<Rightarrow> False) then FlapperOff
         else case generateIPs TotalIPs Subnet of
           None \<Rightarrow> FlapperPanics
         | Some ips \<Rightarrow> Flapper interval ips (flip_count ToInt TotalIPs percent))"

end
