(* ===== verification/Simulator_Laws.thy ===== *)
theory Simulator_Laws
  imports Simulator Reference_World
begin

text \<open>
  The addresses of the simulated servers, the set of nftables as a parameter with its laws, and what
  the operations of the simulator do to it.
\<close>

section \<open>Addresses\<close>

definition is_addr :: "string \<Rightarrow> bool" where
  "is_addr ip \<longleftrightarrow> parseIPv4 ip \<noteq> None"

text \<open>Address number \<open>j\<close>, counted from \<open>x.y.0.1\<close>.\<close>

definition nth_addr :: "string \<Rightarrow> nat \<Rightarrow> string" where
  "nth_addr subnet j = subnet @ ''.'' @ Itoa (int (j div 254)) @ ''.'' @ Itoa (int (j mod 254 + 1))"

lemma length_ip_loop [simp]: "length (ip_loop n subnet a b) = n"
  by (induction n arbitrary: a b) auto

lemma ip_loop_addr: "ip_loop n subnet (int (j div 254)) (int (j mod 254 + 1)) = map (nth_addr subnet) [j..<j + n]"
proof (induction n arbitrary: j)
  case (Suc n)
  have next': "ip_loop n subnet (int (Suc j div 254)) (int (Suc j mod 254 + 1)) = map (nth_addr subnet) [Suc j..<Suc j + n]"
    by (rule Suc.IH)
  have "(if int (j mod 254 + 1) + 1 > 254 then ip_loop n subnet (int (j div 254) + 1) 1
      else ip_loop n subnet (int (j div 254)) (int (j mod 254 + 1) + 1)) =
      ip_loop n subnet (int (Suc j div 254)) (int (Suc j mod 254 + 1))"
  proof (cases "j mod 254 = 253")
    case True
    then have "Suc j mod 254 = 0" "Suc j div 254 = Suc (j div 254)" by (simp_all add: mod_Suc div_Suc)
    with True show ?thesis by (simp add: add.commute)
  next
    case False
    then have "Suc j mod 254 = Suc (j mod 254)" "Suc j div 254 = j div 254" by (simp_all add: mod_Suc div_Suc)
    moreover have "j mod 254 < 253" using False mod_less_divisor [of 254 j] by linarith
    ultimately show ?thesis by (simp add: add.commute)
  qed
  with next' have "ip_loop (Suc n) subnet (int (j div 254)) (int (j mod 254 + 1)) =
      nth_addr subnet j # map (nth_addr subnet) [Suc j..<Suc j + n]"
    by (simp only: ip_loop.simps nth_addr_def)
  also have "\<dots> = map (nth_addr subnet) [j..<j + Suc n]"
    by (simp add: upt_rec [of j])
  finally show ?case .
qed simp

lemma generateIPs_addr:
  "0 \<le> cnt \<Longrightarrow> generateIPs cnt subnet = Some (map (nth_addr subnet) [0..<nat cnt])"
  using ip_loop_addr [of "nat cnt" subnet 0] by (simp add: generateIPs_def)

lemma dot_notin_Itoa: "CHR ''.'' \<notin> set (Itoa n)"
proof -
  have "CHR ''.'' \<notin> set (nat_digits k)" for k
    using nat_digits_all_digit [of k] by (auto simp: list_all_iff is_digit_def)
  then show ?thesis by (simp add: Itoa_def)
qed

lemma append_sep_inject:
  assumes "c \<notin> set a" and "c \<notin> set a'" and "a @ c # b = a' @ c # b'"
  shows "a = a' \<and> b = b'"
  using assms by (induction a arbitrary: a') (auto simp: Cons_eq_append_conv)

lemma nth_addr_inject: "nth_addr subnet i = nth_addr subnet j \<longleftrightarrow> i = j"
proof
  assume "nth_addr subnet i = nth_addr subnet j"
  then have "Itoa (int (i div 254)) @ CHR ''.'' # Itoa (int (i mod 254 + 1)) =
      Itoa (int (j div 254)) @ CHR ''.'' # Itoa (int (j mod 254 + 1))" by (simp add: nth_addr_def)
  from append_sep_inject [OF dot_notin_Itoa dot_notin_Itoa this]
  have "i div 254 = j div 254" "i mod 254 = j mod 254" by (simp_all add: Itoa_inject)
  then show "i = j" by (metis div_mult_mod_eq)
qed simp

text \<open>Short numbers are fields of an address.\<close>

lemma v4_field_Itoa: "v4_field (Itoa (int n)) = (if n < 256 then Some n else None)"
proof -
  have d: "list_all is_digit (nat_digits n)" by (rule nat_digits_all_digit)
  have len: "length (nat_digits n) \<le> 3" if "n < 256"
    using that by (subst nat_digits.simps, subst nat_digits.simps, subst nat_digits.simps) auto
  have z: "\<not> (1 < length (nat_digits n) \<and> hd (nat_digits n) = CHR ''0'')"
  proof
    assume a: "1 < length (nat_digits n) \<and> hd (nat_digits n) = CHR ''0''"
    then have "HasPrefix (nat_digits n) ''0''" by (cases "nat_digits n") auto
    then have "n = 0" by (rule nat_digits_zero)
    with a show False by (simp add: nat_digits_0)
  qed
  show ?thesis using d len z by (auto simp: v4_field_def Itoa_def)
qed

lemma parseIPv4_nth_addr:
  assumes "Split subnet (CHR ''.'') = [x, y]" and "v4_field x = Some a" and "v4_field y = Some b"
  shows "parseIPv4 (nth_addr subnet j) = (if j < 65024 then Some [a, b, j div 254, j mod 254 + 1] else None)"
proof -
  have app: "Split (s @ CHR ''.'' # t) (CHR ''.'') = Split s (CHR ''.'') @ Split t (CHR ''.'')" for s t
    by (induction s) (auto split: list.split)
  have "Split (nth_addr subnet j) (CHR ''.'') = [x, y, Itoa (int (j div 254)), Itoa (int (j mod 254 + 1))]"
    by (simp add: nth_addr_def app assms(1) Split_no_sep dot_notin_Itoa)
  moreover have "j mod 254 + 1 < 256" using mod_less_divisor [of 254 j] by linarith
  moreover have "j div 254 < 256 \<longleftrightarrow> j < 65024" by (simp add: div_less_iff_less_mult)
  ultimately show ?thesis
    using assms(2,3) v4_field_Itoa [of "j div 254"] v4_field_Itoa [of "j mod 254 + 1"] by (simp add: parseIPv4_def)
qed

section \<open>The listing of nftables\<close>

text \<open>\<open>nft list set\<close> prints the elements on one or more lines; \<open>ws\<close> is the white space after each comma.\<close>

fun nft_items :: "string list \<Rightarrow> string list \<Rightarrow> string" where
  "nft_items ws [] = []"
| "nft_items ws [ip] = ip"
| "nft_items [] (ip # ips) = ip @ '', '' @ nft_items [] ips"
| "nft_items (w # ws) (ip # ips) = ip @ '','' @ w @ nft_items ws ips"

definition nft_listing :: "string list \<Rightarrow> string list \<Rightarrow> string" where
  "nft_listing ws ips =
     ''table inet sim {'' @ [CHR 0x0A, CHR 0x09] @ ''set down_ips {'' @ [CHR 0x0A, CHR 0x09, CHR 0x09] @ ''type ipv4_addr'' @ [CHR 0x0A] @
     (if ips = [] then [] else [CHR 0x09, CHR 0x09] @ ''elements = { '' @ nft_items ws ips @ '' }'' @ [CHR 0x0A]) @
     [CHR 0x09] @ ''}'' @ [CHR 0x0A] @ ''}'' @ [CHR 0x0A]"

definition all_space :: "string \<Rightarrow> bool" where
  "all_space w \<longleftrightarrow> list_all (\<lambda>c. c \<in> set ascii_spaces) w"

text \<open>Text of printable ASCII characters is what trimming leaves alone.\<close>

definition solid :: "char \<Rightarrow> bool" where
  "solid c \<longleftrightarrow> of_char c < (128 :: nat) \<and> c \<notin> set ascii_spaces"

lemma space_len_solid: "solid c \<Longrightarrow> \<forall>q \<in> set seqs. q \<noteq> [] \<and> 128 \<le> (of_char (hd q) :: nat) \<Longrightarrow> space_len seqs (c # s) = 0"
  by (cases s; cases "tl s") (auto simp: space_len_def solid_def take_Cons')

lemma wide_heads:
  "\<forall>q \<in> set wide_spaces. q \<noteq> [] \<and> 128 \<le> (of_char (hd q) :: nat)"
  "\<forall>q \<in> set (map rev wide_spaces). q \<noteq> [] \<and> 128 \<le> (of_char (hd q) :: nat)"
  by (simp_all add: wide_spaces_def)

lemma strip_spaces: "all_space w \<Longrightarrow> strip seqs (w @ s) = strip seqs s"
proof (induction w)
  case (Cons c w)
  then have "space_len seqs (c # w @ s) = 1" by (simp add: all_space_def space_len_def)
  then have "strip seqs (c # w @ s) = strip seqs (w @ s)" by (subst strip.simps) simp
  with Cons show ?case by (simp add: all_space_def)
qed simp

lemma TrimSpace_solid:
  assumes "all_space w" and "all_space w'" and "s \<noteq> []" and "solid (hd s)" and "solid (last s)"
  shows "TrimSpace (w @ s @ w') = s"
proof -
  obtain c r where s: "s = c # r" using assms(3) by (cases s) auto
  have "strip wide_spaces (w @ s @ w') = s @ w'"
    using strip_spaces [OF assms(1)] space_len_solid [OF _ wide_heads(1), of c "r @ w'"] assms(4) by (simp add: s)
  moreover have "all_space (rev w')" using assms(2) by (simp add: all_space_def list_all_iff)
  moreover obtain r' where r': "rev s = last s # r'" using assms(3) by (cases "rev s") (auto simp: hd_rev [symmetric])
  then have "space_len (map rev wide_spaces) (rev s) = 0"
    using space_len_solid [OF assms(5) wide_heads(2), of r'] by metis
  then have "strip (map rev wide_spaces) (rev s) = rev s" by (rule strip_idem)
  ultimately show ?thesis
    using strip_spaces [of "rev w'" "map rev wide_spaces" "rev s"] by (simp add: TrimSpace_def)
qed

text \<open>The characters of an address.\<close>

lemma v4_field_digits: "v4_field s \<noteq> None \<Longrightarrow> s \<noteq> [] \<and> list_all is_digit s"
  by (auto simp: v4_field_def split: if_splits)

lemma all_some_None: "all_some xs \<noteq> None \<Longrightarrow> x \<in> set xs \<Longrightarrow> x \<noteq> None"
  by (induction xs) (auto split: option.splits)

lemma set_Split: "set s \<subseteq> insert c (\<Union>p \<in> set (Split s c). set p)"
proof (induction s)
  case (Cons x s)
  then show ?case by (cases "Split s c") auto
qed simp

lemma addr_chars:
  assumes "is_addr ip" and "c \<in> set ip"
  shows "is_digit c \<or> c = CHR ''.''"
proof -
  have "all_some (map v4_field (Split ip (CHR ''.''))) \<noteq> None"
    using assms(1) by (auto simp: is_addr_def parseIPv4_def split: option.splits)
  then have "list_all is_digit p" if "p \<in> set (Split ip (CHR ''.''))" for p
    using that all_some_None [of "map v4_field (Split ip (CHR ''.''))" "v4_field p"] v4_field_digits [of p] by auto
  with assms(2) set_Split [of ip "CHR ''.''"] show ?thesis by (auto simp: list_all_iff)
qed

lemma addr_solid: "is_addr ip \<Longrightarrow> c \<in> set ip \<Longrightarrow> solid c \<and> c \<noteq> CHR '','' \<and> c \<noteq> CHR ''}''"
  using addr_chars [of ip c] by (auto simp: solid_def is_digit_def ascii_spaces_def)

lemma addr_nonempty: "is_addr ip \<Longrightarrow> ip \<noteq> []"
  by (auto simp: is_addr_def parseIPv4_def v4_field_def)

lemma TrimSpace_addr: "is_addr ip \<Longrightarrow> all_space w \<Longrightarrow> TrimSpace (w @ ip) = ip"
  using TrimSpace_solid [of w "[]" ip] addr_nonempty [of ip] addr_solid [of ip "hd ip"] addr_solid [of ip "last ip"]
  by (simp add: all_space_def)

lemma nft_items_ends:
  assumes "ips \<noteq> []" and "\<forall>ip \<in> set ips. is_addr ip"
  shows "nft_items ws ips \<noteq> [] \<and> solid (hd (nft_items ws ips)) \<and> solid (last (nft_items ws ips))"
  using assms
proof (induction ws ips rule: nft_items.induct)
  case (2 ws ip)
  then show ?case using addr_nonempty [of ip] addr_solid [of ip "hd ip"] addr_solid [of ip "last ip"] by simp
next
  case (3 ip v va)
  then show ?case using addr_nonempty [of ip] addr_solid [of ip "hd ip"] by simp
next
  case (4 w ws ip v va)
  then show ?case using addr_nonempty [of ip] addr_solid [of ip "hd ip"] by simp
qed simp

lemma not_in_space: "all_space w \<Longrightarrow> c \<notin> set ascii_spaces \<Longrightarrow> c \<notin> set w"
  unfolding all_space_def list_all_iff by blast

lemma not_space: "CHR ''}'' \<notin> set ascii_spaces" "CHR '','' \<notin> set ascii_spaces"
  by (simp_all add: ascii_spaces_def)

lemma no_brace: "all_space w \<Longrightarrow> CHR ''}'' \<notin> set w" "is_addr ip \<Longrightarrow> CHR ''}'' \<notin> set ip"
  using not_in_space not_space(1) addr_solid by blast+

lemma no_comma: "all_space w \<Longrightarrow> CHR '','' \<notin> set w" "is_addr ip \<Longrightarrow> CHR '','' \<notin> set ip"
  using not_in_space not_space(2) addr_solid by blast+

lemma nft_items_chars:
  assumes "\<forall>ip \<in> set ips. is_addr ip" and "\<forall>w \<in> set ws. all_space w"
  shows "CHR ''}'' \<notin> set (nft_items ws ips)"
  using assms
proof (induction ws ips rule: nft_items.induct)
  case (2 ws ip)
  then show ?case using no_brace(2) [of ip] by simp
next
  case (3 ip v va)
  then show ?case using no_brace(2) [of ip] by simp
next
  case (4 w ws ip v va)
  then show ?case using no_brace(2) [of ip] no_brace(1) [of w] by simp
qed simp

lemma trimmed_items:
  assumes "\<forall>ip \<in> set ips. is_addr ip" and "\<forall>w \<in> set ws. all_space w" and "ips \<noteq> []" and "all_space v"
  shows "map TrimSpace (Split (v @ nft_items ws ips) (CHR '','')) = ips"
proof -
  have sp: "all_space '' ''" by (simp add: all_space_def ascii_spaces_def)
  have app: "Split (v @ ip @ CHR '','' # t) (CHR '','') = (v @ ip) # Split t (CHR '','')" if "all_space v" "is_addr ip" for v ip t
    using Split_app [of "CHR '',''" "v @ ip" t] no_comma(1) [OF that(1)] no_comma(2) [OF that(2)] by simp
  from assms show ?thesis
  proof (induction ws ips arbitrary: v rule: nft_items.induct)
    case (2 ws ip)
    then show ?case using no_comma(1) [of v] no_comma(2) [of ip] by (simp add: Split_no_sep TrimSpace_addr)
  next
    case (3 ip v' va)
    then show ?case using "3.IH" [of "'' ''"] sp by (simp add: app TrimSpace_addr)
  next
    case (4 w ws ip v' va)
    then show ?case using "4.IH" [of w] by (simp add: app TrimSpace_addr)
  qed simp
qed

text \<open>The parser of \<open>ListDownIPs\<close> reads back what the tool prints.\<close>

lemma parse_listing:
  assumes "\<forall>ip \<in> set ips. is_addr ip" and "distinct ips" and "\<forall>w \<in> set ws. all_space w"
  shows "parse_elements (nft_listing ws ips) = ips"
proof (cases "ips = []")
  case True
  have "parse_elements (nft_listing [] []) = []" by code_simp
  with True show ?thesis by (simp add: nft_listing_def)
next
  case False
  let ?i = "nft_items ws ips"
  obtain rest where rest: "cut_after ''elements = {'' (nft_listing ws ips) = Some (CHR '' '' # ?i @ CHR '' '' # CHR ''}'' # rest)"
    using False by (simp add: nft_listing_def)
  have "takeWhile (\<lambda>c. c \<noteq> CHR ''}'') (CHR '' '' # ?i @ CHR '' '' # CHR ''}'' # rest) = '' '' @ ?i @ '' ''"
    using nft_items_chars [OF assms(1,3)] by (simp add: takeWhile_append)
  moreover have "TrimSpace ('' '' @ ?i @ '' '') = ?i"
    using nft_items_ends [OF False assms(1), of ws] by (intro TrimSpace_solid) (simp_all add: all_space_def ascii_spaces_def)
  moreover have "map TrimSpace (Split ?i (CHR '','')) = ips"
    using trimmed_items [OF assms(1,3) False, of "[]"] by (simp add: all_space_def)
  moreover have "filter (\<lambda>ip. ip \<noteq> []) ips = ips" using assms(1) addr_nonempty by (intro filter_True) blast
  moreover have "?i \<noteq> []" using nft_items_ends [OF False assms(1), of ws] by simp
  ultimately show ?thesis
    unfolding parse_elements_def rest by (simp add: Let_def distinct_remdups_id assms(2))
qed

section \<open>The tool\<close>

definition nft_element :: "string \<Rightarrow> string \<Rightarrow> string list" where
  "nft_element verb ip = [''nft'', verb, ''element'', ''inet'', ''sim'', ''down_ips'', ''{'', ip, ''}'']"

definition nft_set :: "string \<Rightarrow> string list" where
  "nft_set verb = [''nft'', verb, ''set'', ''inet'', ''sim'', ''down_ips'']"

definition run_failed :: "'w simulator_env \<Rightarrow> string list \<Rightarrow> 'w \<Rightarrow> bool" where
  "run_failed S args w \<longleftrightarrow> snd (snd (result (sim_Run S args) w)) \<noteq> None"

text \<open>
  The commands on the set \<open>down\<close>, a set of addresses: a command that fails changes nothing; nothing
  is said of elements that are not written as an address. \<open>Rand.Perm\<close> gives a permutation.
\<close>

locale nft_tool =
  fixes S :: "'w simulator_env" and down :: "'w \<Rightarrow> string list"
  assumes down_addrs: "\<forall>ip \<in> set (down w). is_addr ip" and down_distinct: "distinct (down w)"
    and add_down: "is_addr ip \<Longrightarrow> set (down (after (sim_Run S (nft_element ''add'' ip)) w)) =
      (if run_failed S (nft_element ''add'' ip) w then set (down w) else insert ip (set (down w)))"
    and delete_down: "is_addr ip \<Longrightarrow> set (down (after (sim_Run S (nft_element ''delete'' ip)) w)) =
      (if run_failed S (nft_element ''delete'' ip) w then set (down w) else set (down w) - {ip})"
    and flush_down: "down (after (sim_Run S (nft_set ''flush'')) w) = (if run_failed S (nft_set ''flush'') w then down w else [])"
    and list_down: "down (after (sim_Run S (nft_set ''list'')) w) = down w"
    and list_out: "\<not> run_failed S (nft_set ''list'') w \<Longrightarrow>
      \<exists>ws. (\<forall>x \<in> set ws. all_space x) \<and> fst (result (sim_Run S (nft_set ''list'')) w) = nft_listing ws (down w)"
    and perm_down: "down (after (sim_Perm S n) w) = down w"
    and perm_perm: "mset (result (sim_Perm S n) w) = mset [0..<n]"

text \<open>The tool works: only the deletion of what is not there is an error.\<close>

locale nft_tool_up = nft_tool +
  assumes add_up: "is_addr ip \<Longrightarrow> \<not> run_failed S (nft_element ''add'' ip) w"
    and delete_up: "is_addr ip \<Longrightarrow> run_failed S (nft_element ''delete'' ip) w \<longleftrightarrow> ip \<notin> set (down w)"
    and flush_up: "\<not> run_failed S (nft_set ''flush'') w"
    and list_up: "\<not> run_failed S (nft_set ''list'') w"

lemma CombinedOutput_run:
  "after (CombinedOutput S args) w = after (sim_Run S args) w"
  "snd (result (CombinedOutput S args) w) = snd (snd (result (sim_Run S args) w))"
  by (simp_all add: CombinedOutput_def split: prod.split)

lemma nft_commands:
  "AddDownIP S ip = CombinedOutput S (nft_element ''add'' ip)" "DeleteDownIP S ip = CombinedOutput S (nft_element ''delete'' ip)"
  "FlushDownIPs S = CombinedOutput S (nft_set ''flush'')"
  by (simp_all add: AddDownIP_def DeleteDownIP_def FlushDownIPs_def nft_element_def nft_set_def)

context nft_tool
begin

lemma ListDownIPs_after [simp]: "down (after (ListDownIPs S) w) = down w"
  using list_down [of w] by (simp add: ListDownIPs_def nft_set_def split: prod.split)

lemma ListDownIPs_result:
  "result (ListDownIPs S) w = Inr ds \<Longrightarrow> ds = down w"
proof -
  assume r: "result (ListDownIPs S) w = Inr ds"
  let ?run = "result (sim_Run S (nft_set ''list'')) w"
  from r have n: "snd (snd ?run) = None" and d: "ds = parse_elements (fst ?run)"
    by (auto simp: ListDownIPs_def nft_set_def split: prod.splits option.splits)
  from n list_out [of w] obtain ws where "\<forall>x \<in> set ws. all_space x" "fst ?run = nft_listing ws (down w)"
    by (auto simp: run_failed_def)
  with d parse_listing [OF down_addrs down_distinct] show ?thesis by metis
qed

end

context nft_tool_up
begin

lemma ListDownIPs_up: "result (ListDownIPs S) w = Inr (down w)"
proof -
  obtain ds where "result (ListDownIPs S) w = Inr ds"
    using list_up [of w] by (auto simp: run_failed_def ListDownIPs_def nft_set_def case_prod_beta)
  with ListDownIPs_result show ?thesis by blast
qed

lemma AddDownIP_up:
  assumes "is_addr ip"
  shows "snd (result (AddDownIP S ip) w) = None" and "set (down (after (AddDownIP S ip) w)) = insert ip (set (down w))"
  using add_up [OF assms, of w] add_down [OF assms, of w] by (simp_all add: nft_commands CombinedOutput_run run_failed_def)

lemma DeleteDownIP_up:
  assumes "is_addr ip"
  shows "snd (result (DeleteDownIP S ip) w) = None \<longleftrightarrow> ip \<in> set (down w)"
    and "set (down (after (DeleteDownIP S ip) w)) = set (down w) - {ip}"
  using delete_up [OF assms, of w] delete_down [OF assms, of w] by (auto simp: nft_commands CombinedOutput_run run_failed_def)

lemma FlushDownIPs_up: "snd (result (FlushDownIPs S) w) = None" "down (after (FlushDownIPs S) w) = []"
  using flush_up [of w] flush_down [of w] by (simp_all add: nft_commands CombinedOutput_run run_failed_def)

lemma down_all_up:
  "\<forall>ip \<in> set ips. is_addr ip \<Longrightarrow> result (down_all S ips) w = ok_response \<and>
    set (down (after (down_all S ips) w)) = set (down w) \<union> set ips"
proof (induction ips arbitrary: w)
  case (Cons ip ips)
  obtain out where "result (AddDownIP S ip) w = (out, None)"
    using AddDownIP_up(1) [of ip w] Cons.prems by (cases "result (AddDownIP S ip) w") auto
  with Cons AddDownIP_up(2) [of ip w] show ?case by simp
qed simp

lemma delete_all_up:
  "\<forall>ip \<in> set ips. is_addr ip \<Longrightarrow>
    set (down (after (for_each ips (\<lambda>ip. do { DeleteDownIP S ip; ret () })) w)) = set (down w) - set ips"
proof (induction ips arbitrary: w)
  case (Cons ip ips)
  then show ?case using DeleteDownIP_up(2) [of ip w] by auto
qed simp

text \<open>The loop of \<open>flapOnce\<close>: \<open>downSet\<close> is what the set holds at every turn.\<close>

lemma flap_all_up:
  assumes "\<forall>ip \<in> set sel. is_addr ip" and "distinct sel" and "distinct ds" and "set ds = set (down w)"
  shows "result (flap_all S sel ds a b) w =
      Inr (a + length (filter (\<lambda>ip. ip \<notin> set (down w)) sel), b + length (filter (\<lambda>ip. ip \<in> set (down w)) sel),
        length (down (after (flap_all S sel ds a b) w))) \<and>
    set (down (after (flap_all S sel ds a b) w)) = (set (down w) - set sel) \<union> (set sel - set (down w))"
  using assms
proof (induction sel arbitrary: ds a b w)
  case Nil
  then have "length ds = length (down w)" by (metis distinct_card down_distinct)
  with Nil show ?case by simp
next
  case (Cons ip sel)
  show ?case
  proof (cases "ip \<in> set ds")
    case True
    let ?w = "after (DeleteDownIP S ip) w"
    obtain out where r: "result (DeleteDownIP S ip) w = (out, None)"
      using DeleteDownIP_up(1) [of ip w] Cons.prems True by (cases "result (DeleteDownIP S ip) w") auto
    have d: "set (down ?w) = set (down w) - {ip}" using Cons.prems by (intro DeleteDownIP_up(2)) simp
    then have f: "filter (\<lambda>x. x \<in> set (down ?w)) sel = filter (\<lambda>x. x \<in> set (down w)) sel"
      "filter (\<lambda>x. x \<notin> set (down ?w)) sel = filter (\<lambda>x. x \<notin> set (down w)) sel"
      using Cons.prems by (auto intro!: filter_cong)
    from Cons.IH [of "removeAll ip ds" ?w a "Suc b"] Cons.prems d True r f show ?thesis
      by (auto simp: distinct_removeAll)
  next
    case False
    let ?w = "after (AddDownIP S ip) w"
    obtain out where r: "result (AddDownIP S ip) w = (out, None)"
      using AddDownIP_up(1) [of ip w] Cons.prems by (cases "result (AddDownIP S ip) w") auto
    have d: "set (down ?w) = insert ip (set (down w))" using Cons.prems by (intro AddDownIP_up(2)) simp
    then have f: "filter (\<lambda>x. x \<in> set (down ?w)) sel = filter (\<lambda>x. x \<in> set (down w)) sel"
      "filter (\<lambda>x. x \<notin> set (down ?w)) sel = filter (\<lambda>x. x \<notin> set (down w)) sel"
      using Cons.prems by (auto intro!: filter_cong)
    from Cons.IH [of "ip # ds" ?w "Suc a" b] Cons.prems d False r f show ?thesis by auto
  qed
qed

text \<open>A sample without repetition.\<close>

lemma pickRandom_up:
  assumes "distinct ips" and "0 \<le> n"
  shows "set (result (pickRandom S ips n) w) \<subseteq> set ips" and "distinct (result (pickRandom S ips n) w)"
    and "length (result (pickRandom S ips n) w) = min (nat n) (length ips)"
    and "down (after (pickRandom S ips n) w) = down w"
proof -
  let ?m = "min (nat n) (length ips)" and ?p = "result (sim_Perm S (length ips)) w"
  have p: "mset ?p = mset [0..<length ips]" by (rule perm_perm)
  then have len: "length ?p = length ips" by (metis size_mset length_upt minus_nat.diff_0)
  have dist: "distinct ?p" and st: "set ?p = {0..<length ips}"
    using p by (metis distinct_upt mset_eq_imp_distinct_iff, metis set_mset_mset set_upt)
  have r: "result (pickRandom S ips n) w = map (\<lambda>i. ips ! (?p ! i)) [0..<?m]"
    using assms(2) by (auto simp: pickRandom_def Let_def min_def nat_le_iff le_nat_iff)
  have i: "?p ! i < length ips" if "i < ?m" for i using that st nth_mem [of i ?p] by (auto simp: len)
  show "set (result (pickRandom S ips n) w) \<subseteq> set ips" using i by (auto simp: r)
  have "inj_on (\<lambda>i. ips ! (?p ! i)) {0..<?m}"
  proof (rule inj_onI)
    fix x y assume xy: "x \<in> {0..<?m}" "y \<in> {0..<?m}" "ips ! (?p ! x) = ips ! (?p ! y)"
    then have "?p ! x = ?p ! y" using i assms(1) by (auto simp: nth_eq_iff_index_eq)
    with xy dist show "x = y" by (auto simp: nth_eq_iff_index_eq len)
  qed
  then show "distinct (result (pickRandom S ips n) w)" by (simp add: r distinct_map)
  show "length (result (pickRandom S ips n) w) = ?m" by (simp add: r)
  show "down (after (pickRandom S ips n) w) = down w" by (simp add: pickRandom_def Let_def perm_down)
qed

end

end
