(* ===== verification/Simulator_Properties.thy ===== *)
theory Simulator_Properties
  imports Simulator_Laws
begin

text \<open>What \<open>sms-simulator\<close> does to the set of the servers that are down, and a set of plain data.\<close>

section \<open>A reference set\<close>

text \<open>
  The world is a list, the set its different addresses. Commands on other elements fail; the
  permutation is the reversal.
\<close>

definition mem_down :: "string list \<Rightarrow> string list" where
  "mem_down d = remdups (filter is_addr d)"

definition mem_Run :: "string list \<Rightarrow> (string list, string \<times> string \<times> string option) state" where
  "mem_Run args = State (\<lambda>d.
     let ip = args ! 7; failed = (([], ''Error'', Some ''exit status 1''), d) in
     if args = nft_set ''list'' then ((nft_listing [] (mem_down d), [], None), d)
     else if args = nft_set ''flush'' then (([], [], None), [])
     else if args = nft_element ''add'' ip then (if is_addr ip then (([], [], None), ip # d) else failed)
     else if args = nft_element ''delete'' ip then (if ip \<in> set (mem_down d) then (([], [], None), removeAll ip d) else failed)
     else failed)"

definition ref_nft :: "string list simulator_env" where
  "ref_nft = \<lparr>sim_Run = mem_Run, sim_Perm = (\<lambda>n. ret (rev [0..<n]))\<rparr>"

lemma mem_args: "nft_element verb ip ! 7 = ip" "nft_element verb ip \<noteq> nft_set verb'"
  "nft_element verb ip = nft_element verb' ip' \<longleftrightarrow> verb = verb' \<and> ip = ip'" "nft_set verb = nft_set verb' \<longleftrightarrow> verb = verb'"
  "nft_set verb \<noteq> nft_element verb' ip"
  by (simp_all add: nft_element_def nft_set_def)

lemma mem_Run_cases:
  "run_state (mem_Run (nft_set ''list'')) d = ((nft_listing [] (mem_down d), [], None), d)"
  "run_state (mem_Run (nft_set ''flush'')) d = (([], [], None), [])"
  "run_state (mem_Run (nft_element ''add'' ip)) d =
     (if is_addr ip then (([], [], None), ip # d) else (([], ''Error'', Some ''exit status 1''), d))"
  "run_state (mem_Run (nft_element ''delete'' ip)) d =
     (if ip \<in> set (mem_down d) then (([], [], None), removeAll ip d) else (([], ''Error'', Some ''exit status 1''), d))"
  by (simp_all add: mem_Run_def mem_args Let_def)

interpretation ref_nft: nft_tool_up ref_nft mem_down
proof unfold_locales
  fix d
  show "\<not> run_failed ref_nft (nft_set ''list'') d \<Longrightarrow>
      \<exists>ws. (\<forall>x \<in> set ws. all_space x) \<and> fst (result (sim_Run ref_nft (nft_set ''list'')) d) = nft_listing ws (mem_down d)"
    by (intro exI [of _ "[]"]) (simp add: ref_nft_def result_def mem_Run_cases)
qed (auto simp: ref_nft_def mem_down_def run_failed_def result_def after_def mem_Run_cases)

section \<open>Properties\<close>

text \<open>
  C40: the simulated servers have addresses. The list has the length that was asked for, its entries
  are pairwise different, and for a prefix of two parts entry number \<open>j\<close> is the IPv4 address with the
  parts \<open>j div 254\<close> and \<open>j mod 254 + 1\<close>, up to 65024 entries; the entries beyond are no addresses.
  Only a negative count panics.
\<close>

theorem generated_addresses:
  assumes "Split subnet (CHR ''.'') = [x, y]" and "v4_field x = Some a" and "v4_field y = Some b"
  shows "(generateIPs cnt subnet = None \<longleftrightarrow> cnt < 0) \<and>
    (\<forall>ips. generateIPs cnt subnet = Some ips \<longrightarrow> int (length ips) = cnt \<and> distinct ips \<and>
      (\<forall>j < length ips. parseIPv4 (ips ! j) = (if j < 65024 then Some [a, b, j div 254, j mod 254 + 1] else None)))"
proof (cases "cnt < 0")
  case True
  then show ?thesis by (simp add: generateIPs_def)
next
  case False
  then have g: "generateIPs cnt subnet = Some (map (nth_addr subnet) [0..<nat cnt])" by (simp add: generateIPs_addr)
  have "distinct (map (nth_addr subnet) [0..<nat cnt])" by (simp add: distinct_map inj_on_def nth_addr_inject)
  with False parseIPv4_nth_addr [OF assms] show ?thesis by (auto simp: g)
qed

theorem generated_addresses_witness:
  "\<exists>ips. generateIPs 300 ''10.1'' = Some ips \<and> parseIPv4 (ips ! 299) = Some [10, 1, 1, 46]"
proof -
  have s: "Split ''10.1'' (CHR ''.'') = [''10'', ''1'']" "v4_field ''10'' = Some 10" "v4_field ''1'' = Some 1" by code_simp+
  obtain ips where "generateIPs 300 ''10.1'' = Some ips" by (simp add: generateIPs_def)
  with generated_addresses [OF s, of 300] show ?thesis by auto
qed

text \<open>
  Flapping flips. With a working tool one round of the flapper chooses as many different
  servers as it is told, or all if there are fewer; those among them that were down come up and the
  others go down, every other server stays as it is, and the numbers that are logged are right.
\<close>

lemma flapOnce_flips:
  assumes "nft_tool_up S down" and "distinct ips" and "\<forall>ip \<in> set ips. is_addr ip" and "0 \<le> flipCount"
    and "w' = after (flapOnce S ips flipCount) w"
  shows "\<exists>sel. distinct sel \<and> set sel \<subseteq> set ips \<and> length sel = min (nat flipCount) (length ips) \<and>
    (\<forall>ip. ip \<in> set (down w') \<longleftrightarrow> (if ip \<in> set sel then ip \<notin> set (down w) else ip \<in> set (down w))) \<and>
    result (flapOnce S ips flipCount) w =
      Inr (card (set sel - set (down w)), card (set sel \<inter> set (down w)), card (set (down w')))"
proof -
  let ?w = "after (ListDownIPs S) w"
  let ?sel = "result (pickRandom S ips flipCount) ?w"
  let ?v = "after (pickRandom S ips flipCount) ?w"
  have tool: "nft_tool S down" using assms(1) by (simp add: nft_tool_up_def)
  note pick = nft_tool_up.pickRandom_up [OF assms(1,2,4), of ?w]
  have v: "down ?v = down w" using pick(4) nft_tool.ListDownIPs_after [OF tool] by simp
  have l: "result (ListDownIPs S) w = Inr (down w)" by (rule nft_tool_up.ListDownIPs_up [OF assms(1)])
  have e: "result (flapOnce S ips flipCount) w = result (flap_all S ?sel (down w) 0 0) ?v"
    "w' = after (flap_all S ?sel (down w) 0 0) ?v" by (simp_all add: assms(5) flapOnce_def l)
  have "\<forall>ip \<in> set ?sel. is_addr ip" using pick(1) assms(3) by blast
  from nft_tool_up.flap_all_up [OF assms(1) this pick(2) nft_tool.down_distinct [OF tool], of w ?v 0 0]
  have f: "result (flap_all S ?sel (down w) 0 0) ?v = Inr (length (filter (\<lambda>ip. ip \<notin> set (down w)) ?sel),
      length (filter (\<lambda>ip. ip \<in> set (down w)) ?sel), length (down w'))"
    "set (down w') = (set (down w) - set ?sel) \<union> (set ?sel - set (down w))" by (simp_all add: v e(2))
  have n: "length (filter P ?sel) = card {x \<in> set ?sel. P x}" for P
    using distinct_card [OF distinct_filter [OF pick(2)], of P] by simp
  have c: "{x \<in> set ?sel. x \<notin> set (down w)} = set ?sel - set (down w)" "{x \<in> set ?sel. x \<in> set (down w)} = set ?sel \<inter> set (down w)"
    by blast+
  have "length (down w') = card (set (down w'))" using nft_tool.down_distinct [OF tool] by (simp add: distinct_card)
  then have r: "result (flapOnce S ips flipCount) w =
      Inr (card (set ?sel - set (down w)), card (set ?sel \<inter> set (down w)), card (set (down w')))"
    by (simp add: e(1) f(1) n c)
  have "\<forall>ip. ip \<in> set (down w') \<longleftrightarrow> (if ip \<in> set ?sel then ip \<notin> set (down w) else ip \<in> set (down w))"
    using f(2) by auto
  with pick(1,2,3) r show ?thesis by blast
qed

lemma flapOnce_flips_witness:
  "mem_down (after (flapOnce ref_nft [''10.1.0.1'', ''10.1.0.2'', ''10.1.0.3''] 2) [''10.1.0.3'']) = [''10.1.0.2''] \<and>
   (\<exists>sel. length sel = 2 \<and> set sel \<subseteq> {''10.1.0.1'', ''10.1.0.2'', ''10.1.0.3''})"
proof -
  have a: "is_addr ''10.1.0.1''" "is_addr ''10.1.0.2''" "is_addr ''10.1.0.3''" by code_simp+
  have "mem_down (after (flapOnce ref_nft [''10.1.0.1'', ''10.1.0.2'', ''10.1.0.3''] 2) [''10.1.0.3'']) = [''10.1.0.2'']"
    by code_simp
  with flapOnce_flips [OF ref_nft.nft_tool_up_axioms _ _ _ refl, of "[''10.1.0.1'', ''10.1.0.2'', ''10.1.0.3'']" 2 "[''10.1.0.3'']"] a
  show ?thesis by auto
qed

text \<open>
  The interface of the simulator. With a working tool, for a \<open>POST\<close> whose list consists of addresses
  once blanks and empty entries are removed, \<open>/down\<close> adds them to the set, \<open>/up\<close> takes them out of
  it whether they were there or not, \<open>/reset\<close> empties it, and all three answer 200; \<open>/status\<close> reports the
  size of the set on any method. Another method is answered with 405, a body that is no list with 400, and
  neither changes the set.
\<close>

lemma simulator_interface:
  assumes "nft_tool_up S down"
  shows "result (handleStatus S TotalIPs r body) w = json_response (JObj [(''total'', JInt TotalIPs), (''down'', JInt (int (card (set (down w)))))]) \<and>
    (if req_Method r \<noteq> ''POST'' then
       (\<forall>h \<in> {handleUp S, handleDown S, handleReset S}. result (h r body) w = method_not_allowed \<and> after (h r body) w = w)
     else result (handleReset S r body) w = ok_response \<and> down (after (handleReset S r body) w) = [] \<and>
       (case toggleRequest body of
          None \<Rightarrow> \<forall>h \<in> {handleUp S, handleDown S}. resp_Status (result (h r body) w) = 400 \<and> after (h r body) w = w
        | Some ips \<Rightarrow> list_all is_addr (cleanIPs ips) \<longrightarrow>
            result (handleDown S r body) w = ok_response \<and> result (handleUp S r body) w = ok_response \<and>
            set (down (after (handleDown S r body) w)) = set (down w) \<union> set (cleanIPs ips) \<and>
            set (down (after (handleUp S r body) w)) = set (down w) - set (cleanIPs ips)))"
proof -
  have tool: "nft_tool S down" using assms by (simp add: nft_tool_up_def)
  have "length (down w) = card (set (down w))" using nft_tool.down_distinct [OF tool] by (simp add: distinct_card)
  then have status: "result (handleStatus S TotalIPs r body) w =
      json_response (JObj [(''total'', JInt TotalIPs), (''down'', JInt (int (card (set (down w)))))])"
    by (simp add: handleStatus_def nft_tool_up.ListDownIPs_up [OF assms])
  show ?thesis
  proof (cases "req_Method r \<noteq> ''POST''")
    case True
    with status show ?thesis by (auto simp: handleUp_def handleDown_def handleReset_def)
  next
    case post: False
    obtain out where "result (FlushDownIPs S) w = (out, None)"
      using nft_tool_up.FlushDownIPs_up(1) [OF assms, of w] by (cases "result (FlushDownIPs S) w") auto
    with post have reset: "result (handleReset S r body) w = ok_response" "down (after (handleReset S r body) w) = []"
      using nft_tool_up.FlushDownIPs_up(2) [OF assms] by (simp_all add: handleReset_def)
    show ?thesis
    proof (cases "toggleRequest body")
      case None
      with post status reset show ?thesis by (auto simp: handleUp_def handleDown_def http_Error_def StatusBadRequest_def)
    next
      case (Some ips)
      have "result (handleDown S r body) w = ok_response \<and> result (handleUp S r body) w = ok_response \<and>
          set (down (after (handleDown S r body) w)) = set (down w) \<union> set (cleanIPs ips) \<and>
          set (down (after (handleUp S r body) w)) = set (down w) - set (cleanIPs ips)" if "list_all is_addr (cleanIPs ips)"
        using that post Some nft_tool_up.down_all_up [OF assms, of "cleanIPs ips" w] nft_tool_up.delete_all_up [OF assms, of "cleanIPs ips" w]
        by (simp add: handleUp_def handleDown_def list_all_iff)
      with post status reset Some show ?thesis by simp
    qed
  qed
qed

definition example_post :: http_request where
  "example_post = \<lparr>req_Method = ''POST'', req_Header = (\<lambda>_. [])\<rparr>"

definition example_ips :: string where
  "example_ips = ''{'' @ [quote] @ ''ips'' @ [quote] @ '':['' @ [quote] @ '' 10.1.0.7'' @ [quote] @ '', '' @ [quote, quote] @ '',null]}''"

lemma simulator_interface_witness:
  "set (mem_down (after (handleDown ref_nft example_post example_ips) [''10.1.0.3''])) = {''10.1.0.3'', ''10.1.0.7''}"
proof -
  have "toggleRequest example_ips = Some ['' 10.1.0.7'', [], []]" "cleanIPs ['' 10.1.0.7'', [], []] = [''10.1.0.7'']"
    "is_addr ''10.1.0.7''" "mem_down [''10.1.0.3''] = [''10.1.0.3'']" by code_simp+
  with simulator_interface [OF ref_nft.nft_tool_up_axioms, of 1 example_post example_ips "[''10.1.0.3'']"]
  show ?thesis by (auto simp: example_post_def)
qed

end
