(* ===== verification/Simulator_Seeding.thy ===== *)
theory Simulator_Seeding
  imports Simulator_Seed Simulator_Laws Monitoring_Laws
begin

text \<open>
  What a run of the program \<open>seed\<close> leaves in the two databases and in Redis: the rows of one are the
  rows of the other, in the order of the addresses, and the cache holds what \<open>sms-monitoring\<close> reads.
\<close>

section \<open>The services\<close>

record seed_db =
  sdb_servers :: "seed_Server list"
  sdb_reporting :: "seed_ReportingServer list"
  sdb_redis :: redis_db

text \<open>The view of a table is its rows, cut down to the columns that the program writes.\<close>

locale seed_services =
  srv: sql_table "sd_servers D" clock view sdb_servers sdb_servers_update uniq "(=)" "\<lambda>u r. r" +
  rep: sql_table "sd_reporting D" clock view sdb_reporting sdb_reporting_update runiq "(=)" "\<lambda>u r. r" +
  rds: redis_server_up "sd_redis D" clock view sdb_redis sdb_redis_update
  for D :: "'w seed_env" and clock :: "'w \<Rightarrow> time" and view :: "'w \<Rightarrow> seed_db" and uniq runiq +
  assumes keys: "uniq rs \<Longrightarrow> distinct (map ssv_ServerID rs)"
    and sources_view [simp]: "view (after (sd_NewUUID D) w) = view w" "view (after (sd_Intn D n) w) = view w"
      "view (after (sd_Now D) w) = view w"

section \<open>One batch\<close>

text \<open>The two rows of a server agree; the name is that of a simulated server.\<close>

definition seed_pair :: "seed_Server \<Rightarrow> seed_ReportingServer \<Rightarrow> bool" where
  "seed_pair s r \<longleftrightarrow> srs_ServerID r = ssv_ServerID s \<and> srs_Name r = ssv_ServerName s \<and> srs_IPv4 r = ssv_IPv4 s \<and>
     ssv_CurrentStatus s = ''UNKNOWN'' \<and> srs_Status r = ''UNKNOWN'' \<and> is_sim (ssv_ServerName s)"

definition seed_row_commands :: "string \<Rightarrow> seed_Server \<Rightarrow> time \<Rightarrow> redis_command list" where
  "seed_row_commands host s t = seed_commands (ssv_ServerID s) (ssv_IPv4 s) (ssv_HealthCheckMethod s) host t"

definition seed_row_list :: "string \<Rightarrow> seed_Server list \<Rightarrow> redis_command list \<Rightarrow> bool" where
  "seed_row_list host ss cs \<longleftrightarrow> (\<exists>ts. length ts = length ss \<and> cs = concat (map2 (seed_row_commands host) ss ts))"

lemma seed_row_list_Nil: "seed_row_list host [] []"
  by (simp add: seed_row_list_def)

lemma seed_row_list_Cons: "seed_row_list host ss cs \<Longrightarrow> seed_row_list host (s # ss) (seed_row_commands host s t @ cs)"
  unfolding seed_row_list_def by (elim exE, rule_tac x = "t # ts" in exI) simp

lemma ip_loop_next:
  "ip_loop (Suc n) ''10.1'' (fst o34) (snd o34) =
    seed_ip o34 # ip_loop n ''10.1'' (fst (next_octets o34)) (snd (next_octets o34))"
  by (cases o34) (simp add: seed_ip_def next_octets_def)

context seed_services
begin

lemma seed_one_view [simp]: "view (after (seed_one D host o34) w) = view w"
  by (simp add: seed_one_def Let_def)

lemma seed_one_rows:
  assumes "result (seed_one D host o34) w = (s, r, cs)"
  shows "seed_pair s r" and "ssv_IPv4 s = seed_ip o34" and "\<exists>t. cs = seed_row_commands host s t"
  using assms by (auto simp: seed_one_def Let_def seed_pair_def is_sim_def seed_row_commands_def)

lemma seed_batch_view [simp]: "view (after (seed_batch D host n o34) w) = view w"
  by (induction n arbitrary: o34 w) (simp_all split: prod.split)

lemma seed_batch_rows:
  assumes "result (seed_batch D host n o34) w = (ss, rs, cs, o34')"
  shows "list_all2 seed_pair ss rs \<and> map ssv_IPv4 ss = ip_loop n ''10.1'' (fst o34) (snd o34) \<and>
    seed_row_list host ss cs \<and> o34' = (next_octets ^^ n) o34"
  using assms
proof (induction n arbitrary: o34 w ss rs cs)
  case 0
  then show ?case by (simp add: seed_row_list_Nil)
next
  case (Suc n)
  obtain s r c where one: "result (seed_one D host o34) w = (s, r, c)" by (cases "result (seed_one D host o34) w")
  let ?w = "after (seed_one D host o34) w"
  obtain ss' rs' cs' where more: "result (seed_batch D host n (next_octets o34)) ?w = (ss', rs', cs', o34')"
    and eq: "ss = s # ss'" "rs = r # rs'" "cs = c @ cs'"
    using Suc.prems one by (auto split: prod.splits)
  obtain t where "c = seed_row_commands host s t" using seed_one_rows(3) [OF one] by blast
  with Suc.IH [OF more] seed_one_rows(1,2) [OF one] seed_row_list_Cons show ?case
    by (simp add: eq ip_loop_next funpow_swap1 del: ip_loop.simps)
qed

end

lemma ip_loop_append:
  "ip_loop (m + n) ''10.1'' (fst o34) (snd o34) =
    ip_loop m ''10.1'' (fst o34) (snd o34) @
    ip_loop n ''10.1'' (fst ((next_octets ^^ m) o34)) (snd ((next_octets ^^ m) o34))"
proof (induction m arbitrary: o34)
  case (Suc m)
  then show ?case using ip_loop_next by (simp add: funpow_swap1 del: ip_loop.simps)
qed simp

section \<open>The cache\<close>

fun exec_command :: "redis_command \<Rightarrow> redis_db \<Rightarrow> redis_db" where
  "exec_command (ZAdd k m s) = do_ZAdd k m s"
| "exec_command (HSet k fvs) = do_HSet k fvs"
| "exec_command (SAdd k m) = do_SAdd k m"

definition seeded :: "string \<Rightarrow> redis_db \<Rightarrow> seed_Server \<Rightarrow> bool" where
  "seeded host d s \<longleftrightarrow>
     (\<forall>(f, x) \<in> set (seed_info (ssv_ServerID s) (ssv_IPv4 s) (ssv_HealthCheckMethod s) host).
        map_of (rd_hashes d (server_info_key (ssv_ServerID s))) f = Some x) \<and>
     ssv_ServerID s \<in> set (rd_sets d ServerAllIDsKey) \<and>
     (ssv_HealthCheckMethod s = ''AGENT_PUSH'' \<longrightarrow> map_of (rd_zsets d AgentHeartbeatZSetKey) (ssv_ServerID s) \<noteq> None)"

lemma seed_info_distinct: "distinct (map fst (seed_info sid ip meth host))"
  by (auto simp: seed_info_def)

lemma seed_row_commands_keys:
  "seed_row_commands host s t =
     (if ssv_HealthCheckMethod s = ''AGENT_PUSH'' then [ZAdd AgentHeartbeatZSetKey (ssv_ServerID s) (Unix t)] else []) @
     [HSet (server_info_key (ssv_ServerID s)) (seed_info (ssv_ServerID s) (ssv_IPv4 s) (ssv_HealthCheckMethod s) host),
      SAdd ServerAllIDsKey (ssv_ServerID s)]"
  by (simp add: seed_row_commands_def seed_commands_def server_info_key_def ServerAllIDsKey_def AgentHeartbeatZSetKey_def)

lemma redis_parts [simp]:
  "rd_hashes (do_SAdd k m d) = rd_hashes d" "rd_zsets (do_SAdd k m d) = rd_zsets d"
  "rd_hashes (do_ZAdd k m x d) = rd_hashes d" "rd_sets (do_ZAdd k m x d) = rd_sets d"
  "rd_sets (do_HSet k fvs d) = rd_sets d" "rd_zsets (do_HSet k fvs d) = rd_zsets d"
  by (simp_all add: do_SAdd_def do_ZAdd_def do_HSet_def)

lemma redis_members [simp]:
  "set (rd_sets (do_SAdd k m d) k') = (if k' = k then insert m (set (rd_sets d k')) else set (rd_sets d k'))"
  "map_of (rd_zsets (do_ZAdd k m x d) k') = (if k' = k then (map_of (rd_zsets d k'))(m \<mapsto> x) else map_of (rd_zsets d k'))"
  by (simp_all add: do_SAdd_def do_ZAdd_def update_conv')

lemma map_of_seed_info:
  assumes "(f, x) \<in> set (seed_info sid ip meth host)"
  shows "map_of (fold (\<lambda>(f, x). AList.update f x) (seed_info sid ip meth host) l) f = Some x"
proof -
  have "distinct (map fst (rev (seed_info sid ip meth host)))" using seed_info_distinct by (simp flip: rev_map)
  then have "map_of (rev (seed_info sid ip meth host)) f = Some x" using assms by (simp add: map_of_eq_Some_iff)
  then show ?thesis by (simp add: map_of_fold_update)
qed

lemma seeded_after: "seeded host (fold exec_command (seed_row_commands host s t) d) s"
  unfolding seeded_def seed_row_commands_keys by (auto intro: map_of_seed_info simp del: fold_update_Nil)

lemma seeded_kept:
  assumes "seeded host d s" and "ssv_ServerID s' \<noteq> ssv_ServerID s"
  shows "seeded host (fold exec_command (seed_row_commands host s' t) d) s"
  using assms unfolding seeded_def seed_row_commands_keys by auto

lemma seeded_all:
  assumes "distinct (map ssv_ServerID ss)" and "length ts = length ss"
  shows "\<forall>s \<in> set ss. seeded host (fold exec_command (concat (map2 (seed_row_commands host) ss ts)) d) s"
    and "\<forall>s. ssv_ServerID s \<notin> ssv_ServerID ` set ss \<longrightarrow> seeded host d s \<longrightarrow>
      seeded host (fold exec_command (concat (map2 (seed_row_commands host) ss ts)) d) s"
  using assms
proof (induction ss arbitrary: ts d)
  case (Cons s ss)
  {
    case 1
    then obtain t ts' where ts: "ts = t # ts'" "length ts' = length ss" by (cases ts) auto
    let ?d = "fold exec_command (seed_row_commands host s t) d"
    from 1 ts Cons.IH(1) [of ts' ?d] Cons.IH(2) [of ts' ?d] seeded_after [of host s t d] show ?case by (auto simp: ts(1))
  next
    case 2
    then obtain t ts' where ts: "ts = t # ts'" "length ts' = length ss" by (cases ts) auto
    let ?d = "fold exec_command (seed_row_commands host s t) d"
    from 2 ts Cons.IH(2) [of ts' ?d] seeded_kept [of host d _ s t] show ?case by (auto simp: ts(1))
  }
qed simp_all

text \<open>To \<open>sms-monitoring\<close> a seeded server is one that was not seen yet.\<close>

lemma seeded_health: "seeded host d s \<Longrightarrow> server_health d (ssv_ServerID s) = Some NotSeen"
proof -
  assume s: "seeded host d s"
  let ?vals = "rd_hashes d (server_info_key (ssv_ServerID s))"
  have "map_of ?vals ''status'' = Some ''UNKNOWN''" "map_of ?vals ''retry_count'' = Some (Itoa 0)"
    using s by (auto simp: seeded_def seed_info_def)
  moreover from this have "?vals \<noteq> []" by auto
  ultimately show ?thesis
    using Atoi_Itoa [of 0] by (simp add: server_health_def lookup_def health_of_def ServerStatusUnknown_def ServerStatusOnline_def ServerStatusOffline_def)
qed

section \<open>The whole run\<close>

context seed_services
begin

lemma run_command_view: "view (after (run_command (sd_redis D) c) w) = sdb_redis_update (exec_command c) (view w)"
  by (cases c) (simp_all add: attempt_def rds.redis_writes_up)

lemma run_commands_view:
  "view (after (for_each cs (run_command (sd_redis D))) w) = sdb_redis_update (fold exec_command cs) (view w)"
proof (induction cs arbitrary: w)
  case (Cons c cs)
  then show ?case by (simp add: run_command_view o_def)
qed simp

lemma attempts_view:
  "sdb_servers (view (after (for_each ids (\<lambda>i. attempt (cmd_SRem (sd_redis D) k i))) w)) = sdb_servers (view w)"
  "sdb_reporting (view (after (for_each ids (\<lambda>i. attempt (cmd_SRem (sd_redis D) k i))) w)) = sdb_reporting (view w)"
  "sdb_servers (view (after (for_each ids (\<lambda>i. attempt (cmd_Del (sd_redis D) (g i)))) w)) = sdb_servers (view w)"
  "sdb_reporting (view (after (for_each ids (\<lambda>i. attempt (cmd_Del (sd_redis D) (g i)))) w)) = sdb_reporting (view w)"
  by (induction ids arbitrary: w) (simp_all add: attempt_def rds.redis_writes_up)

lemma seed_loop_step:
  assumes "\<not> cnt \<le> i" and "e = (if i + 500 > cnt then cnt else i + 500)"
  shows "seed_loop D host cnt i o34 = do {
        (batch, reportingBatch, pipeline, o34') \<leftarrow> seed_batch D host (nat (e - i)) o34;
        c \<leftarrow> tbl_Create (sd_servers D) batch;
        case c of
          Inl err \<Rightarrow> ret (Inl (BatchCreate i err))
        | Inr _ \<Rightarrow> do {
            c \<leftarrow> tbl_Create (sd_reporting D) reportingBatch;
            case c of
              Inl err \<Rightarrow> ret (Inl (ReportingBatchCreate i err))
            | Inr _ \<Rightarrow> do {
                for_each pipeline (run_command (sd_redis D));
                seed_loop D host cnt (i + 500) o34'
              }
          }
      }"
  using assms by (subst seed_loop.simps) (simp add: Let_def)

text \<open>The loop from offset \<open>i\<close> on.\<close>

lemma seed_loop_run:
  assumes "result (seed_loop D host cnt i o34) w = Inr ()"
  shows "\<exists>ss rs. sdb_servers (view (after (seed_loop D host cnt i o34) w)) = sdb_servers (view w) @ ss \<and>
    sdb_reporting (view (after (seed_loop D host cnt i o34) w)) = sdb_reporting (view w) @ rs \<and>
    list_all2 seed_pair ss rs \<and> map ssv_IPv4 ss = ip_loop (nat (cnt - i)) ''10.1'' (fst o34) (snd o34) \<and>
    (ss \<noteq> [] \<longrightarrow> distinct (map ssv_ServerID (sdb_servers (view w) @ ss))) \<and>
    (\<exists>ts. length ts = length ss \<and> sdb_redis (view (after (seed_loop D host cnt i o34) w)) =
      fold exec_command (concat (map2 (seed_row_commands host) ss ts)) (sdb_redis (view w)))"
  using assms
proof (induction "nat (cnt - i)" arbitrary: i o34 w rule: less_induct)
  case less
  show ?case
  proof (cases "cnt \<le> i")
    case True
    then show ?thesis by (subst (1 2 3) seed_loop.simps) simp
  next
    case False
    define e where "e = (if i + 500 > cnt then cnt else i + 500)"
    note step = seed_loop_step [OF False e_def]
    obtain b r p o' where batch: "result (seed_batch D host (nat (e - i)) o34) w = (b, r, p, o')"
      by (cases "result (seed_batch D host (nat (e - i)) o34) w") auto
    define w1 where "w1 = after (seed_batch D host (nat (e - i)) o34) w"
    note rows = seed_batch_rows [OF batch]
    obtain b' where c1: "result (tbl_Create (sd_servers D) b) w1 = Inr b'"
      using less.prems batch by (auto simp: step w1_def split: sum.splits)
    define w2 where "w2 = after (tbl_Create (sd_servers D) b) w1"
    obtain r' where c2: "result (tbl_Create (sd_reporting D) r) w2 = Inr r'"
      using less.prems batch c1 by (auto simp: step w1_def w2_def split: sum.splits)
    define w3 where "w3 = after (tbl_Create (sd_reporting D) r) w2"
    define w4 where "w4 = after (for_each p (run_command (sd_redis D))) w3"
    have eq: "result (seed_loop D host cnt i o34) w = result (seed_loop D host cnt (i + 500) o') w4"
      "after (seed_loop D host cnt i o34) w = after (seed_loop D host cnt (i + 500) o') w4"
      using batch c1 c2 by (simp_all add: step w1_def w2_def w3_def w4_def)
    have b': "b' = b" "uniq (sdb_servers (view w) @ b)" "view w2 = sdb_servers_update (\<lambda>old. old @ b) (view w)"
    proof -
      have v1: "view w1 = view w" unfolding w1_def by (rule seed_batch_view)
      note ok = srv.Create_ok [OF c1, folded w2_def]
      show "b' = b" using ok by (simp add: list.rel_eq)
      then show "uniq (sdb_servers (view w) @ b)" "view w2 = sdb_servers_update (\<lambda>old. old @ b) (view w)"
        using ok unfolding v1 by blast+
    qed
    have r': "r' = r" "view w3 = sdb_reporting_update (\<lambda>old. old @ r) (view w2)"
      using rep.Create_ok [OF c2, folded w3_def] unfolding list.rel_eq by blast+
    have v4: "view w4 = sdb_redis_update (fold exec_command p) (view w3)" unfolding w4_def by (rule run_commands_view)
    have "nat (cnt - (i + 500)) < nat (cnt - i)" using False by simp
    from less.hyps [OF this] less.prems obtain ss rs ts where
      ih: "sdb_servers (view (after (seed_loop D host cnt (i + 500) o') w4)) = sdb_servers (view w4) @ ss"
        "sdb_reporting (view (after (seed_loop D host cnt (i + 500) o') w4)) = sdb_reporting (view w4) @ rs"
        "list_all2 seed_pair ss rs" "map ssv_IPv4 ss = ip_loop (nat (cnt - (i + 500))) ''10.1'' (fst o') (snd o')"
        "ss \<noteq> [] \<longrightarrow> distinct (map ssv_ServerID (sdb_servers (view w4) @ ss))"
        "length ts = length ss" "sdb_redis (view (after (seed_loop D host cnt (i + 500) o') w4)) =
          fold exec_command (concat (map2 (seed_row_commands host) ss ts)) (sdb_redis (view w4))"
      unfolding eq by blast
    obtain tb where tb: "length tb = length b" "p = concat (map2 (seed_row_commands host) b tb)"
      using rows by (auto simp: seed_row_list_def)
    have n: "nat (cnt - i) = nat (e - i) + nat (cnt - (i + 500))" using False by (auto simp: e_def)
    have ips: "map ssv_IPv4 (b @ ss) = ip_loop (nat (cnt - i)) ''10.1'' (fst o34) (snd o34)"
      unfolding n ip_loop_append using rows ih(4) by simp
    have d: "distinct (map ssv_ServerID (sdb_servers (view w) @ b @ ss))"
    proof (cases "ss = []")
      case True
      with keys [OF b'(2)] show ?thesis by simp
    next
      case ne: False
      with ih(5) show ?thesis by (simp add: v4 r'(2) b'(3))
    qed
    have z: "map2 (seed_row_commands host) (b @ ss) (tb @ ts) = map2 (seed_row_commands host) b tb @ map2 (seed_row_commands host) ss ts"
      by (simp add: zip_append tb(1) ih(6))
    show ?thesis
      unfolding eq
      by (intro exI [of _ "b @ ss"] exI [of _ "r @ rs"] conjI exI [of _ "tb @ ts"] impI)
        (use rows ih ips d z tb in \<open>simp_all add: v4 r'(2) b'(3) list_all2_appendI\<close>)
  qed
qed

end

section \<open>A reference world\<close>

text \<open>The clock counts the identifiers that have been given out; every tenth number is below 10.\<close>

definition ref_seed :: "seed_db world seed_env" where
  "ref_seed = \<lparr>sd_servers = mem_table sdb_servers sdb_servers_update (\<lambda>rs. distinct (map ssv_ServerID rs)) (\<lambda>old rs. rs) (\<lambda>u r. r),
     sd_reporting = mem_table sdb_reporting sdb_reporting_update (\<lambda>rs. distinct (map srs_ServerID rs)) (\<lambda>old rs. rs) (\<lambda>u r. r),
     sd_redis = mem_redis sdb_redis sdb_redis_update,
     sd_NewUUID = State (\<lambda>w. (''u'' @ Itoa (wclock w), w\<lparr>wclock := wclock w + 1\<rparr>)),
     sd_Intn = (\<lambda>n. State (\<lambda>w. (10 * wclock w mod n, w))), sd_Now = mem_Now\<rparr>"

interpretation ref_seed: seed_services ref_seed wclock wv "\<lambda>rs. distinct (map ssv_ServerID rs)" "\<lambda>rs. distinct (map srs_ServerID rs)"
proof -
  have s: "sql_table_up (sd_servers ref_seed) wclock wv sdb_servers sdb_servers_update (\<lambda>rs. distinct (map ssv_ServerID rs)) (=) (\<lambda>u r. r)"
    unfolding ref_seed_def seed_env.simps by (rule mem_table_up) (simp_all add: list.rel_eq)
  have r: "sql_table_up (sd_reporting ref_seed) wclock wv sdb_reporting sdb_reporting_update (\<lambda>rs. distinct (map srs_ServerID rs)) (=) (\<lambda>u r. r)"
    unfolding ref_seed_def seed_env.simps by (rule mem_table_up) (simp_all add: list.rel_eq)
  have d: "redis_server_up (sd_redis ref_seed) wclock wv sdb_redis sdb_redis_update"
    unfolding ref_seed_def seed_env.simps by (rule mem_redis_up)
  show "seed_services ref_seed wclock wv (\<lambda>rs. distinct (map ssv_ServerID rs)) (\<lambda>rs. distinct (map srs_ServerID rs))"
    using s r d unfolding seed_services_def seed_services_axioms_def sql_table_up_def
    by (simp add: ref_seed_def mem_Now_def State_simps)
qed

definition seed_start :: "seed_db world" where
  "seed_start = \<lparr>wv = \<lparr>sdb_servers = [], sdb_reporting = [], sdb_redis = empty_redis\<rparr>, wclock = 0\<rparr>"

section \<open>Property\<close>



end
