(* ===== verification/Heartbeats.thy ===== *)
theory Heartbeats
  imports Monitoring_Properties Agent_Handler
begin

text \<open>
  The way of a heartbeat: from the agent through \<open>sms-agent-handler\<close> into Redis, and from the stream
  to the evaluation in \<open>sms-monitoring\<close>.
\<close>

lemma decode_members_json: "json_members s = Some ms \<Longrightarrow> decode_members s = Some ms"
  by (auto simp: json_members_def parse_json_def decode_members_def split: option.splits prod.splits if_splits json.splits)

text \<open>The handler uses the same keys as the service that watches the agents.\<close>

lemma heartbeat_keys: "heartbeat_zset = AgentHeartbeatZSetKey"
  by (simp add: heartbeat_zset_def AgentHeartbeatZSetKey_def)

definition agent_of :: "'w monitoring_env \<Rightarrow> 'w agent_env" where
  "agent_of E = \<lparr>ag_redis = mon_redis E, ag_Now = mon_Now E\<rparr>"

definition heartbeat_body :: "string \<Rightarrow> string" where
  "heartbeat_body i = Marshal (JObj [(''server_id'', JStr i)])"

lemma heartbeat_members: "ascii i \<Longrightarrow> decode_members (heartbeat_body i) = Some [(''server_id'', JStr i)]"
  unfolding heartbeat_body_def by (intro decode_members_json json_members_Marshal) simp_all

lemma zset_hash [simp]: "rd_hashes (do_ZAdd k m s d) = rd_hashes d" "rd_streams (do_ZAdd k m s d) = rd_streams d"
  by (simp_all add: do_ZAdd_def)

context monitoring_services_up
begin

text \<open>Any body with an identifier will do.\<close>

lemma HandleHeartbeat_body:
  assumes "decode_members body = Some ms" and "get_string ms ''server_id'' = Some i" and "i \<noteq> []"
  shows "result (HandleHeartbeat (agent_of E) r body) w = heartbeat_ok"
    and "view (after (HandleHeartbeat (agent_of E) r body) w) =
      do_XAdd 0 heartbeat_stream [(''server_id'', i)] (do_ZAdd AgentHeartbeatZSetKey i (Unix (clock w)) (view w))"
    and "clock w \<le> clock (after (HandleHeartbeat (agent_of E) r body) w)"
proof -
  let ?z = "cmd_ZAdd (mon_redis E) AgentHeartbeatZSetKey i (Unix (clock w))"
  let ?w = "after (mon_Now E) w"
  let ?x = "cmd_XAdd (mon_redis E) heartbeat_stream 0 [(''server_id'', i)]"
  have "\<exists>u. result ?z ?w = Inr u" using rds.redis_up(10) unfolding answers_def by blast
  then obtain u where u: "result ?z ?w = Inr u" ..
  obtain n where n: "trims 0 (length (rd_streams (view (after ?z ?w)) heartbeat_stream)) n"
    "view (after ?x (after ?z ?w)) = do_XAdd n heartbeat_stream [(''server_id'', i)] (view (after ?z ?w))"
    using rds.XAdd_up [of 0 "after ?z ?w" heartbeat_stream "[(''server_id'', i)]"] by auto
  then have "n = 0" by (simp add: trims_def)
  with n u assms(3) show "result (HandleHeartbeat (agent_of E) r body) w = heartbeat_ok"
    "view (after (HandleHeartbeat (agent_of E) r body) w) =
      do_XAdd 0 heartbeat_stream [(''server_id'', i)] (do_ZAdd AgentHeartbeatZSetKey i (Unix (clock w)) (view w))"
    using rds.redis_writes_up(5) [of AgentHeartbeatZSetKey i "Unix (clock w)" ?w]
    by (simp_all add: HandleHeartbeat_def assms(1,2) agent_of_def heartbeat_keys clk.now_reads clk.now_view)
  have "clock w \<le> clock ?w" by (rule clk.now_mono)
  also have "\<dots> \<le> clock (after ?z ?w)" using rds.ZAdd_writes by (rule writes_clock)
  also have "\<dots> \<le> clock (after ?x (after ?z ?w))" by (rule rds.XAdd_clock)
  finally show "clock w \<le> clock (after (HandleHeartbeat (agent_of E) r body) w)"
    using u assms(3) by (simp add: HandleHeartbeat_def assms(1,2) agent_of_def heartbeat_keys clk.now_reads)
qed

lemma HandleHeartbeat_up:
  assumes "ascii i" and "i \<noteq> []"
  shows "result (HandleHeartbeat (agent_of E) r (heartbeat_body i)) w = heartbeat_ok"
    and "view (after (HandleHeartbeat (agent_of E) r (heartbeat_body i)) w) =
      do_XAdd 0 heartbeat_stream [(''server_id'', i)] (do_ZAdd AgentHeartbeatZSetKey i (Unix (clock w)) (view w))"
  using HandleHeartbeat_body(1,2) [OF heartbeat_members [OF assms(1)] _ assms(2)] by (simp_all add: get_string_def)

end

text \<open>
  C32: a heartbeat counts. A request with the right key whose body names a watched server is
  answered with 200, stores the time for the sweeper and adds one entry to the stream; when
  \<open>sms-monitoring\<close> handles the entry, the server is up with no failures. Without the key the
  answer is 401 and nothing changes.
\<close>

theorem heartbeat_brings_server_up:
  assumes "monitoring_services_up E clock view" and "server_health (view w) i = Some h" and "ascii i" and "i \<noteq> []"
    and "msg_Values msg = [(''server_id'', i)]"
    and "m = agent_chain (agent_of E) masterKey r (heartbeat_body i)"
  shows "if Header_Get r ''X-Master-Key'' \<noteq> [] \<and> Header_Get r ''X-Master-Key'' = TrimSpace masterKey
    then result m w = heartbeat_ok \<and>
      map_of (rd_zsets (view (after m w)) AgentHeartbeatZSetKey) i = Some (Unix (clock w)) \<and>
      rd_streams (view (after m w)) heartbeat_stream = rd_streams (view w) heartbeat_stream @ [[(''server_id'', i)]] \<and>
      result (heartbeat_processMessage E msg) (after m w) = Inr () \<and>
      server_health (view (after (heartbeat_processMessage E msg) (after m w))) i = Some (Up 0)
    else resp_Status (result m w) = 401 \<and> after m w = w"
proof (cases "Header_Get r ''X-Master-Key'' \<noteq> [] \<and> Header_Get r ''X-Master-Key'' = TrimSpace masterKey")
  case True
  note up = monitoring_services_up.HandleHeartbeat_up [OF assms(1,3,4)]
  have m: "m = HandleHeartbeat (agent_of E) r (heartbeat_body i)"
    using True by (auto simp: assms(6) agent_chain_def MasterKey_Middleware_def NewMasterKeyAuthMiddleware_def Let_def)
  let ?w = "after m w" and ?ip = "result (cached_ipv4 (mon_redis E) i) (after m w)"
  let ?v = "after (cached_ipv4 (mon_redis E) i) ?w"
  have v: "view ?v = view ?w"
    by (rule monitoring_services_up.cached_ipv4_view [OF assms(1)])
  have h: "server_health (view ?v) i = Some h"
    unfolding v using assms(2) by (simp add: m up(2) server_health_def do_XAdd_def)
  have e: "result (Evaluate E i ?ip True) ?v = Inr ()" "server_health (view (after (Evaluate E i ?ip True) ?v)) i = Some (Up 0)"
    using monitoring_services_up.Evaluate_up [OF assms(1) h, of ?ip True] by (auto simp: evaluated_def)
  have p: "result (heartbeat_processMessage E msg) ?w = Inr ()"
    "after (heartbeat_processMessage E msg) ?w = after (Evaluate E i ?ip True) ?v"
    using assms(4) e(1) by (simp_all add: heartbeat_processMessage_def assms(5) lookup_def)
  have "map_of (rd_zsets (view ?w) AgentHeartbeatZSetKey) i = Some (Unix (clock w))"
    "rd_streams (view ?w) heartbeat_stream = rd_streams (view w) heartbeat_stream @ [[(''server_id'', i)]]"
    by (simp_all add: m up(2) do_XAdd_def do_ZAdd_def update_conv')
  with p e(2) have "result m w = heartbeat_ok \<and> map_of (rd_zsets (view ?w) AgentHeartbeatZSetKey) i = Some (Unix (clock w)) \<and>
      rd_streams (view ?w) heartbeat_stream = rd_streams (view w) heartbeat_stream @ [[(''server_id'', i)]] \<and>
      result (heartbeat_processMessage E msg) ?w = Inr () \<and>
      server_health (view (after (heartbeat_processMessage E msg) ?w)) i = Some (Up 0)"
    using up(1) by (simp add: m)
  then show ?thesis by (subst if_P [OF True])
next
  case False
  then show ?thesis
    by (auto simp: assms(6) agent_chain_def MasterKey_Middleware_def NewMasterKeyAuthMiddleware_def Let_def
        http_Error_def http_status)
qed

definition example_heartbeat :: http_request where
  "example_heartbeat = \<lparr>req_Method = ''POST'', req_Header = (\<lambda>k. if k = ''X-Master-Key'' then [''k3y''] else [])\<rparr>"

theorem heartbeat_brings_server_up_witness:
  "server_health (wv (after (heartbeat_processMessage ref_monitoring \<lparr>msg_ID = ''1-0'', msg_Values = [(''server_id'', ''s2'')]\<rparr>)
     (after (agent_chain (agent_of ref_monitoring) ''k3y '' example_heartbeat (heartbeat_body ''s2'')) example_cache))) ''s2'' = Some (Up 0)"
proof -
  have "TrimSpace ''k3y '' = ''k3y''" "ascii ''s2''" by code_simp+
  with heartbeat_brings_server_up [OF ref_mon.monitoring_services_up_axioms example_health(2) _ _ _ refl,
      where msg = "\<lparr>msg_ID = ''1-0'', msg_Values = [(''server_id'', ''s2'')]\<rparr>" and masterKey = "''k3y ''" and r = example_heartbeat]
  show ?thesis by (simp add: example_heartbeat_def Header_Get_def)
qed

end
