(* ===== verification/Simulated_Agents.thy ===== *)
theory Simulated_Agents
  imports Simulator_Seeding Heartbeats
begin

text \<open>
  The worker of \<open>sms-simulator\<close> that sends heartbeats, the agent handler that receives them, and the
  sorted set that \<open>sms-monitoring\<close> sweeps.
\<close>

section \<open>The interface\<close>

text \<open>
  A request of the worker reaches the agent handler, whose key agrees up to white space; the tool and
  the worker see the same Redis and the same clock as the other services.
\<close>

locale simulated_agents = monitoring_services_up E clock view
  for E :: "'w monitoring_env" and clock :: "'w \<Rightarrow> time" and view :: "'w \<Rightarrow> redis_db" +
  fixes P :: "'w push_env" and endpoint masterKey handlerKey :: string
  assumes same_services: "ps_redis P = mon_redis E" "ps_Now P = mon_Now E"
    and endpoint_ok: "ps_NewRequest P endpoint"
    and delivered: "ps_Do P endpoint r body = do { agent_chain (agent_of E) handlerKey r body; ret () }"
    and keys_agree: "masterKey \<noteq> []" "masterKey = TrimSpace handlerKey"
    and tool_view: "view (after (sim_Run (ps_sim P) args) w) = view w" "clock w \<le> clock (after (sim_Run (ps_sim P) args) w)"

text \<open>The field of the cache, or the empty string.\<close>

definition info_of :: "redis_db \<Rightarrow> string \<Rightarrow> string \<Rightarrow> string" where
  "info_of d i f = lookup (rd_hashes d (server_info_key i)) f"

lemma push_payload_members:
  "ascii i \<Longrightarrow> decode_members (push_payload i t) = Some [(''server_id'', JStr i), (''timestamp'', JInt (Unix t))]"
  unfolding push_payload_def by (intro decode_members_json json_members_Marshal) simp_all

text \<open>What one pass over the servers leaves in Redis, from \<open>d\<close> between the times \<open>a\<close> and \<open>b\<close>.\<close>

definition beats :: "string list \<Rightarrow> string list \<Rightarrow> time \<Rightarrow> time \<Rightarrow> redis_db \<Rightarrow> redis_db \<Rightarrow> bool" where
  "beats downSet ids a b d d' \<longleftrightarrow> rd_hashes d' = rd_hashes d \<and> rd_sets d' = rd_sets d \<and>
     (\<forall>i. if i \<in> set ids \<and> info_of d i ''ipv4'' \<notin> set downSet
        then \<exists>x. map_of (rd_zsets d' AgentHeartbeatZSetKey) i = Some x \<and> Unix a \<le> x \<and> x \<le> Unix b
        else map_of (rd_zsets d' AgentHeartbeatZSetKey) i = map_of (rd_zsets d AgentHeartbeatZSetKey) i)"

lemma beats_Nil: "beats downSet [] a b d d"
  by (simp add: beats_def)

lemma Unix_mono: "s \<le> t \<Longrightarrow> Unix s \<le> Unix t"
  by (simp add: Unix_def Second_def zdiv_mono1)

lemma XAdd_parts [simp]:
  "rd_hashes (do_XAdd n k e d) = rd_hashes d" "rd_sets (do_XAdd n k e d) = rd_sets d" "rd_zsets (do_XAdd n k e d) = rd_zsets d"
  by (simp_all add: do_XAdd_def)

lemma beats_skip:
  assumes "beats downSet ids a b d d'" and "info_of d i ''ipv4'' \<in> set downSet"
  shows "beats downSet (i # ids) a b d d'"
  using assms by (auto simp: beats_def)

lemma beats_beat:
  assumes "beats downSet ids t b (do_XAdd 0 k e (do_ZAdd AgentHeartbeatZSetKey i (Unix s) d)) d'"
    and "info_of d i ''ipv4'' \<notin> set downSet" and "a \<le> s" and "s \<le> t" and "t \<le> b"
  shows "beats downSet (i # ids) a b d d'"
proof -
  let ?d = "do_XAdd 0 k e (do_ZAdd AgentHeartbeatZSetKey i (Unix s) d)"
  have io: "info_of ?d j f = info_of d j f" for j f by (simp add: info_of_def)
  have u: "Unix a \<le> Unix s" "Unix a \<le> Unix t" "Unix s \<le> Unix b" using assms(3-5) by (auto intro: Unix_mono)
  have "if j \<in> set (i # ids) \<and> info_of d j ''ipv4'' \<notin> set downSet
      then \<exists>x. map_of (rd_zsets d' AgentHeartbeatZSetKey) j = Some x \<and> Unix a \<le> x \<and> x \<le> Unix b
      else map_of (rd_zsets d' AgentHeartbeatZSetKey) j = map_of (rd_zsets d AgentHeartbeatZSetKey) j" for j
  proof (cases "j \<in> set ids \<and> info_of d j ''ipv4'' \<notin> set downSet")
    case True
    with assms(1) io have "\<exists>x. map_of (rd_zsets d' AgentHeartbeatZSetKey) j = Some x \<and> Unix t \<le> x \<and> x \<le> Unix b"
      by (auto simp: beats_def)
    with True u(2) show ?thesis by force
  next
    case False
    with assms(1) io have "map_of (rd_zsets d' AgentHeartbeatZSetKey) j = map_of (rd_zsets ?d AgentHeartbeatZSetKey) j"
      by (auto simp: beats_def)
    with False u assms(2) show ?thesis by (auto simp: do_ZAdd_def update_conv')
  qed
  with assms(1) show ?thesis by (simp add: beats_def)
qed

context simulated_agents
begin

lemma info_field_up: "result (info_field (ps_redis P) i f) w = info_of (view w) i f" "view (after (info_field (ps_redis P) i f) w) = view w"
  "clock w \<le> clock (after (info_field (ps_redis P) i f) w)"
  using rds.HGet_up_iff [of "server_info_key i" f w] reads_clock [OF rds.HGet_reads [of "server_info_key i" f], of w]
  by (auto simp: info_field_def same_services info_of_def lookup_def server_info_key_def split: option.splits)

text \<open>One heartbeat: its time is stored under the identifier of the server.\<close>

lemma push_one:
  assumes "ascii i" and "i \<noteq> []"
  shows "view (after (ps_Do P endpoint (push_request masterKey) (push_payload i t)) w) =
      do_XAdd 0 heartbeat_stream [(''server_id'', i)] (do_ZAdd AgentHeartbeatZSetKey i (Unix (clock w)) (view w))"
    and "clock w \<le> clock (after (ps_Do P endpoint (push_request masterKey) (push_payload i t)) w)"
proof -
  have "Header_Get (push_request masterKey) ''X-Master-Key'' = masterKey"
    by (simp add: Header_Get_def push_request_def)
  then have c: "agent_chain (agent_of E) handlerKey (push_request masterKey) = HandleHeartbeat (agent_of E) (push_request masterKey)"
    using keys_agree by (auto simp: agent_chain_def MasterKey_Middleware_def NewMasterKeyAuthMiddleware_def Let_def fun_eq_iff)
  have "get_string [(''server_id'', JStr i), (''timestamp'', JInt (Unix t))] ''server_id'' = Some i"
    by (simp add: get_string_def) code_simp
  from HandleHeartbeat_body [OF push_payload_members [OF assms(1)] this assms(2)]
  show "view (after (ps_Do P endpoint (push_request masterKey) (push_payload i t)) w) =
      do_XAdd 0 heartbeat_stream [(''server_id'', i)] (do_ZAdd AgentHeartbeatZSetKey i (Unix (clock w)) (view w))"
    "clock w \<le> clock (after (ps_Do P endpoint (push_request masterKey) (push_payload i t)) w)"
    by (simp_all add: delivered c)
qed

lemma push_all_up:
  assumes "\<forall>i \<in> set ids. ascii i \<and> i \<noteq> []" and "w' = after (push_all P endpoint masterKey downSet ids) w"
  shows "result (push_all P endpoint masterKey downSet ids) w \<and> clock w \<le> clock w' \<and>
    beats downSet ids (clock w) (clock w') (view w) (view w')"
  using assms
proof (induction ids arbitrary: w w')
  case Nil
  then show ?case by (simp add: beats_Nil)
next
  case (Cons i ids)
  define w1 where "w1 = after (info_field (ps_redis P) i ''ipv4'') w"
  note f = info_field_up [where i = i and f = "''ipv4''" and w = w, folded w1_def]
  show ?case
  proof (cases "info_of (view w) i ''ipv4'' \<in> set downSet")
    case True
    with Cons.prems f have eq: "w' = after (push_all P endpoint masterKey downSet ids) w1"
      "result (push_all P endpoint masterKey downSet (i # ids)) w = result (push_all P endpoint masterKey downSet ids) w1"
      by (simp_all add: w1_def)
    have ih: "result (push_all P endpoint masterKey downSet ids) w1 \<and> clock w1 \<le> clock w' \<and>
        beats downSet ids (clock w1) (clock w') (view w1) (view w')"
      using Cons.prems(1) eq(1) by (intro Cons.IH) auto
    have b: "beats downSet ids (clock w) (clock w') (view w) (view w')"
      using ih f Unix_mono [OF f(3)] by (auto simp: beats_def) (meson order_trans)
    with ih True f(3) show ?thesis unfolding eq(2) by (auto intro: beats_skip)
  next
    case False
    define w2 where "w2 = after (mon_Now E) w1"
    let ?t = "result (mon_Now E) w1"
    define w3 where "w3 = after (ps_Do P endpoint (push_request masterKey) (push_payload i ?t)) w2"
    from Cons.prems(1) have "ascii i" "i \<noteq> []" by simp_all
    note one = push_one [OF this, where t = ?t and w = w2, folded w3_def]
    have eq: "w' = after (push_all P endpoint masterKey downSet ids) w3"
      "result (push_all P endpoint masterKey downSet (i # ids)) w = result (push_all P endpoint masterKey downSet ids) w3"
      using Cons.prems(2) False f endpoint_ok by (simp_all add: w1_def w2_def w3_def same_services)
    have v2: "view w2 = view w" using f(2) clk.now_view by (simp add: w2_def)
    have c2: "clock w \<le> clock w2" using f(3) clk.now_mono [of w1] by (simp add: w2_def)
    have ih: "result (push_all P endpoint masterKey downSet ids) w3 \<and> clock w3 \<le> clock w' \<and>
        beats downSet ids (clock w3) (clock w') (view w3) (view w')"
      using Cons.prems(1) eq(1) by (intro Cons.IH) auto
    then have "beats downSet (i # ids) (clock w) (clock w') (view w) (view w')"
      using False c2 one(2) by (intro beats_beat [where t = "clock w3" and s = "clock w2"]) (auto simp: one(1) v2)
    with ih c2 one(2) show ?thesis unfolding eq(2) by simp
  qed
qed

lemma push_servers_up:
  "result (push_servers (ps_redis P) ids) w = filter (\<lambda>i. info_of (view w) i ''health_check_method'' = ''AGENT_PUSH'') ids \<and>
    view (after (push_servers (ps_redis P) ids) w) = view w \<and> clock w \<le> clock (after (push_servers (ps_redis P) ids) w)"
proof (induction ids arbitrary: w)
  case (Cons i ids)
  note f = info_field_up [where i = i and f = "''health_check_method''" and w = w]
  from Cons [of "after (info_field (ps_redis P) i ''health_check_method'') w"] f show ?case by auto
qed simp

lemma refreshServers_up:
  "mset (result (refreshServers P old) w) =
      mset (filter (\<lambda>i. info_of (view w) i ''health_check_method'' = ''AGENT_PUSH'') (rd_sets (view w) ServerAllIDsKey)) \<and>
    view (after (refreshServers P old) w) = view w \<and> clock w \<le> clock (after (refreshServers P old) w)"
proof -
  obtain ms where ms: "result (cmd_SMembers (mon_redis E) ServerAllIDsKey) w = Inr ms" "mset ms = mset (rd_sets (view w) ServerAllIDsKey)"
    using reads_answer [OF rds.SMembers_reads rds.redis_up(9)] by auto
  let ?w = "after (cmd_SMembers (mon_redis E) ServerAllIDsKey) w"
  have v: "view ?w = view w" and c: "clock w \<le> clock ?w"
    using reads_view [OF rds.SMembers_reads] reads_clock [OF rds.SMembers_reads] by auto
  have k: "''server:all_ids'' = ServerAllIDsKey" by (simp add: ServerAllIDsKey_def)
  show ?thesis
    using push_servers_up [of ms ?w] ms v c
    by (simp add: refreshServers_def k same_services mset_filter)
qed

lemma ListDownIPs_view: "view (after (ListDownIPs (ps_sim P)) w) = view w" "clock w \<le> clock (after (ListDownIPs (ps_sim P)) w)"
  using tool_view by (simp_all add: ListDownIPs_def split: prod.split)

end

section \<open>Property\<close>

text \<open>The simulator of the example: \<open>10.1.0.9\<close> is down.\<close>

definition ref_push :: "redis_db world push_env" where
  "ref_push = \<lparr>ps_redis = mon_redis ref_monitoring,
     ps_sim = \<lparr>sim_Run = (\<lambda>args. ret (nft_listing [] [''10.1.0.9''], [], None)), sim_Perm = (\<lambda>n. ret [0..<n])\<rparr>,
     ps_Now = mem_Now, ps_NewRequest = (\<lambda>e. True),
     ps_Do = (\<lambda>e r body. do { agent_chain (agent_of ref_monitoring) ''k3y '' r body; ret () })\<rparr>"

interpretation ref_agents: simulated_agents ref_monitoring wclock wv ref_push "''http://agent''" "''k3y''" "''k3y ''"
proof -
  have k: "TrimSpace ''k3y '' = ''k3y''" by code_simp
  show "simulated_agents ref_monitoring wclock wv ref_push ''http://agent'' ''k3y'' ''k3y ''"
    using ref_mon.monitoring_services_up_axioms k
    by (simp add: simulated_agents_def simulated_agents_axioms_def ref_push_def ref_monitoring_def)
qed

text \<open>
  The simulated agents are alive. One tick of the worker stores a heartbeat in the sorted set that
  \<open>sms-monitoring\<close> sweeps, not older than the tick, for exactly those servers of its list whose
  address is not down; every other entry of the set, and the cache, stay as they were, and the worker does not
  panic. On every sixth tick its list is first replaced by the servers of the cache whose method is \<open>AGENT_PUSH\<close>.
\<close>

lemma simulated_agents_beat:
  assumes "simulated_agents E clock view P endpoint masterKey handlerKey"
    and "\<And>v. result (ListDownIPs (ps_sim P)) v = Inr downSet"
    and "w' = after (push_tick P endpoint masterKey tickCount ids) w"
    and "result (push_tick P endpoint masterKey tickCount ids) w = (ids', ok)"
    and "\<forall>i \<in> set ids'. ascii i \<and> i \<noteq> []"
  shows "ok \<and> beats downSet ids' (clock w) (clock w') (view w) (view w') \<and>
    (if tickCount mod 6 = 0 then
       mset ids' = mset (filter (\<lambda>i. info_of (view w) i ''health_check_method'' = ''AGENT_PUSH'') (rd_sets (view w) ServerAllIDsKey))
     else ids' = ids)"
proof -
  define m where "m = (if tickCount mod 6 = 0 then refreshServers P ids else ret ids)"
  define w1 where "w1 = after m w"
  define w2 where "w2 = after (ListDownIPs (ps_sim P)) w1"
  have r: "ids' = result m w" "ok = result (push_all P endpoint masterKey downSet ids') w2"
    "w' = after (push_all P endpoint masterKey downSet ids') w2"
    using assms(3,4) by (auto simp: push_tick_def m_def [symmetric] w1_def [symmetric] w2_def [symmetric] assms(2))
  have v1: "view w1 = view w" "clock w \<le> clock w1"
    using simulated_agents.refreshServers_up [OF assms(1), of ids w] by (auto simp: w1_def m_def)
  have v2: "view w2 = view w1" "clock w1 \<le> clock w2"
    unfolding w2_def by (rule simulated_agents.ListDownIPs_view [OF assms(1)])+
  have p: "ok \<and> clock w2 \<le> clock w' \<and> beats downSet ids' (clock w2) (clock w') (view w) (view w')"
    using simulated_agents.push_all_up [OF assms(1,5) r(3)] by (simp add: r(2) v1 v2)
  have "Unix (clock w) \<le> Unix (clock w2)" using v1 v2 by (intro Unix_mono) simp
  then have b: "beats downSet ids' (clock w) (clock w') (view w) (view w')"
    using p unfolding beats_def by (meson order_trans)
  have "if tickCount mod 6 = 0 then
       mset ids' = mset (filter (\<lambda>i. info_of (view w) i ''health_check_method'' = ''AGENT_PUSH'') (rd_sets (view w) ServerAllIDsKey))
     else ids' = ids"
    using simulated_agents.refreshServers_up [OF assms(1), of ids w] by (simp add: r(1) m_def)
  with p b show ?thesis by blast
qed

lemma simulated_agents_beat_witness:
  "map_of (rd_zsets (wv (after (push_tick ref_push ''http://agent'' ''k3y'' 6 []) example_cache)) AgentHeartbeatZSetKey) ''s2'' = Some 200"
proof -
  have d: "result (ListDownIPs (ps_sim ref_push)) v = Inr [''10.1.0.9'']" for v
  proof -
    have "parse_elements (nft_listing [] [''10.1.0.9'']) = [''10.1.0.9'']" by code_simp
    then show ?thesis by (simp add: ListDownIPs_def ref_push_def)
  qed
  have t: "result (push_tick ref_push ''http://agent'' ''k3y'' 6 []) example_cache = ([''s2''], True)"
    "wclock (after (push_tick ref_push ''http://agent'' ''k3y'' 6 []) example_cache) = (62135596800 + 200) * Second" by code_simp+
  have i: "info_of (wv example_cache) ''s2'' ''ipv4'' = ''10.1.0.2''" "ascii ''s2''" "wclock example_cache = (62135596800 + 200) * Second"
    "Unix ((62135596800 + 200) * Second) = 200" by code_simp+
  let ?w = "after (push_tick ref_push ''http://agent'' ''k3y'' 6 []) example_cache"
  have "beats [''10.1.0.9''] [''s2''] (wclock example_cache) (wclock ?w) (wv example_cache) (wv ?w)"
    using simulated_agents_beat [OF ref_agents.simulated_agents_axioms d refl t(1)] i(2) by simp
  then have "\<exists>x. map_of (rd_zsets (wv ?w) AgentHeartbeatZSetKey) ''s2'' = Some x \<and> Unix (wclock example_cache) \<le> x \<and> x \<le> Unix (wclock ?w)"
    using i(1) unfolding beats_def by (auto dest: spec [of _ "''s2''"])
  with i(3,4) t(2) show ?thesis by auto
qed

end
