(* ===== verification/Identity.thy ===== *)
theory Identity
  imports Services
begin

text \<open>
  The service \<open>sms-identity\<close>: its domain types, its repositories over PostgreSQL and Redis, the
  token manager and the authentication service (\<open>Login\<close>, \<open>Refresh\<close>, \<open>Logout\<close>, \<open>LogoutAll\<close>).
  Every operation is an action over the world; the tables, Redis, the clock, bcrypt, SHA-256,
  the JWT library and the UUID library are fields of the environment. The laws that the proofs
  use are in the locale \<open>identity_services\<close>.
\<close>

section \<open>Domain types\<close>

text \<open>A UUID is its sixteen bytes.\<close>

type_synonym uuid = string

definition uuid_Nil :: uuid where
  "uuid_Nil = replicate 16 (CHR 0x00)"

definition RoleCodeAdmin :: string where "RoleCodeAdmin = ''ADMIN''"
definition RoleCodeUser :: string where "RoleCodeUser = ''USER''"

record User =
  user_ID :: nat
  user_CreatedAt :: time
  user_UpdatedAt :: time
  user_DeletedAt :: "time option"
  user_Email :: string
  user_Password :: string
  user_RoleCode :: string

record AuthSession =
  sess_ID :: uuid
  sess_UserID :: nat
  sess_ExpiresAt :: time
  sess_LastUsedAt :: "time option"
  sess_RevokedAt :: "time option"
  sess_IPAddress :: string
  sess_UserAgent :: string
  sess_CreatedAt :: time
  sess_UpdatedAt :: time

record RefreshToken =
  tok_ID :: uuid
  tok_SessionID :: uuid
  tok_UserID :: nat
  tok_TokenHash :: string
  tok_ExpiresAt :: time
  tok_RevokedAt :: "time option"
  tok_ReplacedBy :: "uuid option"
  tok_CreatedAt :: time
  tok_UpdatedAt :: time

section \<open>The environment\<close>

text \<open>
  A claim of a JWT is a string or a number. \<open>env_ParseWithClaims token secret methods now\<close> is the
  parser of the JWT library with the list of accepted algorithms: it returns the claims of a
  token that is well formed, signed with the secret by one of these algorithms and valid now.
  \<open>env_rand_Read n\<close> fills a buffer of \<open>n\<close> bytes from the random source.
\<close>

datatype claim = ClaimString string | ClaimNumber int

record claims =
  clm_UserID :: string
  clm_SessionID :: string
  clm_Username :: string
  clm_Email :: string
  clm_RoleID :: string
  clm_RoleCode :: string

record 'w auth_env =
  env_users :: "('w, User) table"
  env_sessions :: "('w, AuthSession) table"
  env_tokens :: "('w, RefreshToken) table"
  env_redis :: "'w redis"
  env_Now :: "('w, time) state"
  env_uuid_New :: "('w, uuid) state"
  env_uuid_String :: "uuid \<Rightarrow> string"
  env_uuid_Parse :: "string \<Rightarrow> uuid option"
  env_CompareHashAndPassword :: "string \<Rightarrow> string \<Rightarrow> bool"
  env_Sum256 :: "string \<Rightarrow> string"
  env_SignedString :: "(string \<times> claim) list \<Rightarrow> string \<Rightarrow> string option"
  env_ParseWithClaims :: "string \<Rightarrow> string \<Rightarrow> string list \<Rightarrow> time \<Rightarrow> claims option"
  env_jwtSecret :: string
  env_rand_Read :: "nat \<Rightarrow> ('w, string option) state"

section \<open>Repositories\<close>

text \<open>\<open>gorm.Model\<close> makes every query on users skip the rows that are soft-deleted.\<close>

definition user_FindByEmail :: "'w auth_env \<Rightarrow> string \<Rightarrow> ('w, db_error + User option) state" where
  "user_FindByEmail E email = do {
     r \<leftarrow> tbl_First (env_users E) (\<lambda>u. user_Email u = email \<and> user_DeletedAt u = None);
     ret (case r of
        Inl e \<Rightarrow> if e = ErrRecordNotFound then Inr None else Inl e
      | Inr u \<Rightarrow> Inr (Some u))
   }"

definition user_FindByID :: "'w auth_env \<Rightarrow> nat \<Rightarrow> ('w, db_error + User option) state" where
  "user_FindByID E i = do {
     r \<leftarrow> tbl_First (env_users E) (\<lambda>u. user_ID u = i \<and> user_DeletedAt u = None);
     ret (case r of
        Inl e \<Rightarrow> if e = ErrRecordNotFound then Inr None else Inl e
      | Inr u \<Rightarrow> Inr (Some u))
   }"

text \<open>
  \<open>Create\<close> completes the record it is given: on success the session that the caller holds has
  the columns that the database filled in, on an error it is as it was.
\<close>

definition session_Create :: "'w auth_env \<Rightarrow> AuthSession \<Rightarrow> ('w, db_error + AuthSession) state" where
  "session_Create E s = do {
     r \<leftarrow> tbl_Create (env_sessions E) [s];
     ret (case r of Inl e \<Rightarrow> Inl e | Inr rs \<Rightarrow> Inr (hd rs))
   }"

definition session_FindActiveByID :: "'w auth_env \<Rightarrow> uuid \<Rightarrow> ('w, db_error + AuthSession) state" where
  "session_FindActiveByID E i = do {
     now \<leftarrow> env_Now E;
     tbl_First (env_sessions E)
       (\<lambda>s. sess_ID s = i \<and> sess_RevokedAt s = None \<and> now < sess_ExpiresAt s)
   }"

definition session_ListActiveByUserID :: "'w auth_env \<Rightarrow> nat \<Rightarrow> ('w, db_error + AuthSession list) state" where
  "session_ListActiveByUserID E uid = do {
     now \<leftarrow> env_Now E;
     tbl_Find (env_sessions E)
       (\<lambda>s. sess_UserID s = uid \<and> sess_RevokedAt s = None \<and> now < sess_ExpiresAt s)
   }"

definition session_RevokeByID :: "'w auth_env \<Rightarrow> uuid \<Rightarrow> ('w, db_error + int) state" where
  "session_RevokeByID E i = do {
     now \<leftarrow> env_Now E;
     tbl_Updates (env_sessions E) (\<lambda>s. sess_ID s = i) (sess_RevokedAt_update (\<lambda>_. Some now))
   }"

definition session_RevokeAllByUserID :: "'w auth_env \<Rightarrow> nat \<Rightarrow> ('w, db_error + int) state" where
  "session_RevokeAllByUserID E uid = do {
     now \<leftarrow> env_Now E;
     tbl_Updates (env_sessions E) (\<lambda>s. sess_UserID s = uid \<and> sess_RevokedAt s = None)
       (sess_RevokedAt_update (\<lambda>_. Some now))
   }"

definition token_Create :: "'w auth_env \<Rightarrow> RefreshToken \<Rightarrow> ('w, db_error + RefreshToken) state" where
  "token_Create E t = do {
     r \<leftarrow> tbl_Create (env_tokens E) [t];
     ret (case r of Inl e \<Rightarrow> Inl e | Inr rs \<Rightarrow> Inr (hd rs))
   }"

definition token_FindByTokenHash :: "'w auth_env \<Rightarrow> string \<Rightarrow> ('w, db_error + RefreshToken) state" where
  "token_FindByTokenHash E h = tbl_First (env_tokens E) (\<lambda>t. tok_TokenHash t = h)"

definition token_RevokeByID :: "'w auth_env \<Rightarrow> uuid \<Rightarrow> ('w, db_error + int) state" where
  "token_RevokeByID E i = do {
     now \<leftarrow> env_Now E;
     tbl_Updates (env_tokens E) (\<lambda>t. tok_ID t = i) (tok_RevokedAt_update (\<lambda>_. Some now))
   }"

definition token_RevokeBySessionID :: "'w auth_env \<Rightarrow> uuid \<Rightarrow> ('w, db_error + int) state" where
  "token_RevokeBySessionID E sid = do {
     now \<leftarrow> env_Now E;
     tbl_Updates (env_tokens E) (\<lambda>t. tok_SessionID t = sid \<and> tok_RevokedAt t = None)
       (tok_RevokedAt_update (\<lambda>_. Some now))
   }"

definition token_RevokeByUserID :: "'w auth_env \<Rightarrow> nat \<Rightarrow> ('w, db_error + int) state" where
  "token_RevokeByUserID E uid = do {
     now \<leftarrow> env_Now E;
     tbl_Updates (env_tokens E) (\<lambda>t. tok_UserID t = uid \<and> tok_RevokedAt t = None)
       (tok_RevokedAt_update (\<lambda>_. Some now))
   }"

definition token_MarkReplacement :: "'w auth_env \<Rightarrow> uuid \<Rightarrow> uuid \<Rightarrow> ('w, db_error + int) state" where
  "token_MarkReplacement E oldTokenID newTokenID = do {
     now \<leftarrow> env_Now E;
     tbl_Updates (env_tokens E) (\<lambda>t. tok_ID t = oldTokenID)
       (\<lambda>t. t\<lparr>tok_RevokedAt := Some now, tok_ReplacedBy := Some newTokenID\<rparr>)
   }"

text \<open>The key under which Redis holds the mark of a session that was revoked.\<close>

definition revoked_key :: "string \<Rightarrow> string" where
  "revoked_key sid = ''revoked_session:'' @ sid"

definition MarkRevoked :: "'w auth_env \<Rightarrow> uuid \<Rightarrow> time \<Rightarrow> ('w, redis_error + unit) state" where
  "MarkRevoked E sid expiresAt = do {
     now \<leftarrow> env_Now E;
     (let ttl = dur_Round (expiresAt - now) Second in
      if ttl \<le> 0 then ret (Inr ())
      else cmd_Set (env_redis E) (revoked_key (env_uuid_String E sid)) ''revoked'' ttl)
   }"

section \<open>The token manager\<close>

definition HashToken :: "'w auth_env \<Rightarrow> string \<Rightarrow> string" where
  "HashToken E token = hex_EncodeToString (env_Sum256 E token)"

definition access_claims :: "'w auth_env \<Rightarrow> nat \<Rightarrow> string \<Rightarrow> uuid \<Rightarrow> int \<Rightarrow> int \<Rightarrow> (string \<times> claim) list" where
  "access_claims E uid role sid exp iat =
     [(''user_id'', ClaimString (Itoa (int uid))),
      (''role_code'', ClaimString role),
      (''session_id'', ClaimString (env_uuid_String E sid)),
      (''exp'', ClaimNumber exp),
      (''iat'', ClaimNumber iat)]"

definition GenerateAccessToken :: "'w auth_env \<Rightarrow> nat \<Rightarrow> string \<Rightarrow> uuid \<Rightarrow> ('w, string option) state" where
  "GenerateAccessToken E uid role sid = do {
     t1 \<leftarrow> env_Now E;
     t2 \<leftarrow> env_Now E;
     ret (env_SignedString E (access_claims E uid role sid (Unix (t1 + 15 * Minute)) (Unix t2))
            (env_jwtSecret E))
   }"

definition GenerateRefreshToken :: "'w auth_env \<Rightarrow> ('w, string) state" where
  "GenerateRefreshToken E = do { u \<leftarrow> env_uuid_New E; ret (env_uuid_String E u) }"

section \<open>The authentication service\<close>

datatype auth_error =
    ErrInvalidCredentials
  | ErrInvalidRefreshToken
  | ErrUserNotFound
  | ErrUnauthorized
  | ErrWrapped string db_error
  | ErrSigning string
  | ErrDB db_error

record LoginResult =
  lr_AccessToken :: string
  lr_RefreshToken :: string
  lr_ExpiresIn :: int
  lr_User :: User

record RefreshResult =
  rr_AccessToken :: string
  rr_RefreshToken :: string
  rr_ExpiresIn :: int

definition new_session :: "nat \<Rightarrow> time \<Rightarrow> time \<Rightarrow> string \<Rightarrow> string \<Rightarrow> AuthSession" where
  "new_session uid expiresAt now ip agent =
     \<lparr>sess_ID = uuid_Nil, sess_UserID = uid, sess_ExpiresAt = expiresAt,
      sess_LastUsedAt = Some now, sess_RevokedAt = None, sess_IPAddress = ip,
      sess_UserAgent = agent, sess_CreatedAt = 0, sess_UpdatedAt = 0\<rparr>"

definition new_token :: "uuid \<Rightarrow> nat \<Rightarrow> string \<Rightarrow> time \<Rightarrow> RefreshToken" where
  "new_token sid uid h expiresAt =
     \<lparr>tok_ID = uuid_Nil, tok_SessionID = sid, tok_UserID = uid, tok_TokenHash = h,
      tok_ExpiresAt = expiresAt, tok_RevokedAt = None, tok_ReplacedBy = None,
      tok_CreatedAt = 0, tok_UpdatedAt = 0\<rparr>"

definition Login ::
  "'w auth_env \<Rightarrow> string \<Rightarrow> string \<Rightarrow> string \<Rightarrow> string \<Rightarrow> ('w, auth_error + LoginResult) state" where
  "Login E email password ipAddress userAgent = do {
     found \<leftarrow> user_FindByEmail E email;
     case found of
       Inl e \<Rightarrow> ret (Inl (ErrWrapped ''failed to find user: '' e))
     | Inr None \<Rightarrow> ret (Inl ErrInvalidCredentials)
     | Inr (Some user) \<Rightarrow>
         if \<not> env_CompareHashAndPassword E (user_Password user) password
         then ret (Inl ErrInvalidCredentials)
         else do {
           now \<leftarrow> env_Now E;
           (let refreshExpiresAt = now + 7 * 24 * Hour in do {
             rawRefreshToken \<leftarrow> GenerateRefreshToken E;
             created \<leftarrow> session_Create E (new_session (user_ID user) refreshExpiresAt now ipAddress userAgent);
             case created of
               Inl e \<Rightarrow> ret (Inl (ErrWrapped ''failed to create session: '' e))
             | Inr session \<Rightarrow> do {
                 tok \<leftarrow> token_Create E (new_token (sess_ID session) (user_ID user)
                          (HashToken E rawRefreshToken) refreshExpiresAt);
                 case tok of
                   Inl e \<Rightarrow> ret (Inl (ErrWrapped ''failed to create refresh token: '' e))
                 | Inr _ \<Rightarrow> do {
                     signed \<leftarrow> GenerateAccessToken E (user_ID user) (user_RoleCode user) (sess_ID session);
                     case signed of
                       None \<Rightarrow> ret (Inl (ErrSigning ''failed to sign access token: ''))
                     | Some accessToken \<Rightarrow>
                         ret (Inr \<lparr>lr_AccessToken = accessToken, lr_RefreshToken = rawRefreshToken,
                                  lr_ExpiresIn = 15 * 60, lr_User = user\<rparr>)
                   }
               }
           })
         }
   }"

definition LogoutAll :: "'w auth_env \<Rightarrow> nat \<Rightarrow> ('w, auth_error + unit) state" where
  "LogoutAll E uid = do {
     listed \<leftarrow> session_ListActiveByUserID E uid;
     case listed of
       Inl e \<Rightarrow> ret (Inl (ErrDB e))
     | Inr sessions \<Rightarrow> do {
         session_RevokeAllByUserID E uid;
         token_RevokeByUserID E uid;
         for_each sessions (\<lambda>s. do { MarkRevoked E (sess_ID s) (sess_ExpiresAt s); ret () });
         ret (Inr ())
       }
   }"

definition Logout :: "'w auth_env \<Rightarrow> string \<Rightarrow> ('w, auth_error + unit) state" where
  "Logout E sessionIDStr =
     (case env_uuid_Parse E sessionIDStr of
        None \<Rightarrow> ret (Inl ErrInvalidRefreshToken)
      | Some sessionID \<Rightarrow> do {
          found \<leftarrow> session_FindActiveByID E sessionID;
          case found of
            Inl e \<Rightarrow> ret (Inr ())
          | Inr session \<Rightarrow> do {
              session_RevokeByID E sessionID;
              token_RevokeBySessionID E sessionID;
              MarkRevoked E (sess_ID session) (sess_ExpiresAt session);
              ret (Inr ())
            }
        })"

text \<open>The second half of \<open>Refresh\<close>, once the token, its session and its user are known.\<close>

definition refresh_expiry :: "AuthSession \<Rightarrow> time \<Rightarrow> time" where
  "refresh_expiry session now =
     (let newRefreshExpiresAt = now + 7 * 24 * Hour
      in if sess_ExpiresAt session < newRefreshExpiresAt then sess_ExpiresAt session
         else newRefreshExpiresAt)"

definition Refresh_rotate ::
  "'w auth_env \<Rightarrow> RefreshToken \<Rightarrow> AuthSession \<Rightarrow> User \<Rightarrow> ('w, auth_error + RefreshResult) state" where
  "Refresh_rotate E foundToken session user = do {
     rawRefreshToken \<leftarrow> GenerateRefreshToken E;
     now \<leftarrow> env_Now E;
     (let model = new_token (sess_ID session) (user_ID user)
                    (HashToken E rawRefreshToken) (refresh_expiry session now)
      in do {
        token_RevokeByID E (tok_ID foundToken);
        created \<leftarrow> token_Create E model;
        token_MarkReplacement E (tok_ID foundToken)
          (case created of Inl e \<Rightarrow> tok_ID model | Inr t' \<Rightarrow> tok_ID t');
        signed \<leftarrow> GenerateAccessToken E (user_ID user) (user_RoleCode user) (sess_ID session);
        case signed of
          None \<Rightarrow> ret (Inl (ErrSigning ''failed to generate new access token: ''))
        | Some accessToken \<Rightarrow>
            ret (Inr \<lparr>rr_AccessToken = accessToken, rr_RefreshToken = rawRefreshToken,
                     rr_ExpiresIn = 15 * 60\<rparr>)
      })
   }"

definition Refresh :: "'w auth_env \<Rightarrow> string \<Rightarrow> ('w, auth_error + RefreshResult) state" where
  "Refresh E refreshToken =
     (if refreshToken = [] then ret (Inl ErrInvalidRefreshToken)
      else do {
        found \<leftarrow> token_FindByTokenHash E (HashToken E refreshToken);
        case found of
          Inl e \<Rightarrow> ret (Inl ErrInvalidRefreshToken)
        | Inr foundToken \<Rightarrow>
            if tok_RevokedAt foundToken \<noteq> None then do {
              LogoutAll E (tok_UserID foundToken);
              ret (Inl ErrInvalidRefreshToken)
            } else do {
              t \<leftarrow> env_Now E;
              if tok_ExpiresAt foundToken < t then ret (Inl ErrInvalidRefreshToken)
              else do {
                active \<leftarrow> session_FindActiveByID E (tok_SessionID foundToken);
                case active of
                  Inl e \<Rightarrow> ret (Inl ErrInvalidRefreshToken)
                | Inr session \<Rightarrow> do {
                    u \<leftarrow> user_FindByID E (sess_UserID session);
                    case u of
                      Inl e \<Rightarrow> ret (Inl ErrUserNotFound)
                    | Inr None \<Rightarrow> ret (Inl ErrUserNotFound)
                    | Inr (Some user) \<Rightarrow> Refresh_rotate E foundToken session user
                  }
              }
            }
      })"

end
