(* ===== verification/Identity_Laws.thy ===== *)
theory Identity_Laws
  imports Identity Reference_World
begin

text \<open>
  What the authentication service relies on, the rows that its requests may write, and the
  invariant of its database. \<open>auth_step\<close> has one step for each statement that the service sends
  to PostgreSQL or Redis; every request is a sequence of such steps, whatever calls fail on the
  way, and the invariants are proved once, for the steps.
\<close>

section \<open>The database\<close>

record identity_db =
  idb_users :: "User list"
  idb_sessions :: "AuthSession list"
  idb_tokens :: "RefreshToken list"
  idb_redis :: redis_db

definition users_uniq :: "User list \<Rightarrow> bool" where
  "users_uniq us \<longleftrightarrow> distinct (map user_ID us) \<and> distinct (map user_Email us)"

definition sessions_uniq :: "AuthSession list \<Rightarrow> bool" where
  "sessions_uniq ss \<longleftrightarrow> distinct (map sess_ID ss)"

definition tokens_uniq :: "RefreshToken list \<Rightarrow> bool" where
  "tokens_uniq ts \<longleftrightarrow> distinct (map tok_ID ts) \<and> distinct (map tok_TokenHash ts)"

text \<open>What an \<open>INSERT\<close> fills in: a key where there is none, and the times.\<close>

definition user_filled :: "User \<Rightarrow> User \<Rightarrow> bool" where
  "user_filled r r' \<longleftrightarrow>
     (\<exists>i c u. r' = r\<lparr>user_ID := i, user_CreatedAt := c, user_UpdatedAt := u\<rparr> \<and> (user_ID r \<noteq> 0 \<longrightarrow> i = user_ID r))"

definition session_filled :: "AuthSession \<Rightarrow> AuthSession \<Rightarrow> bool" where
  "session_filled r r' \<longleftrightarrow>
     (\<exists>i c u. r' = r\<lparr>sess_ID := i, sess_CreatedAt := c, sess_UpdatedAt := u\<rparr> \<and> (sess_ID r \<noteq> uuid_Nil \<longrightarrow> i = sess_ID r))"

definition token_filled :: "RefreshToken \<Rightarrow> RefreshToken \<Rightarrow> bool" where
  "token_filled r r' \<longleftrightarrow>
     (\<exists>i c u. r' = r\<lparr>tok_ID := i, tok_CreatedAt := c, tok_UpdatedAt := u\<rparr> \<and> (tok_ID r \<noteq> uuid_Nil \<longrightarrow> i = tok_ID r))"

definition user_stamp :: "time \<Rightarrow> User \<Rightarrow> User" where "user_stamp u r = r\<lparr>user_UpdatedAt := u\<rparr>"
definition session_stamp :: "time \<Rightarrow> AuthSession \<Rightarrow> AuthSession" where "session_stamp u r = r\<lparr>sess_UpdatedAt := u\<rparr>"
definition token_stamp :: "time \<Rightarrow> RefreshToken \<Rightarrow> RefreshToken" where "token_stamp u r = r\<lparr>tok_UpdatedAt := u\<rparr>"

locale identity_services =
  clk: clock_source "env_Now E" clock view +
  usr: sql_table "env_users E" clock view idb_users idb_users_update users_uniq user_filled user_stamp +
  ses: sql_table "env_sessions E" clock view idb_sessions idb_sessions_update
    sessions_uniq session_filled session_stamp +
  tok: sql_table "env_tokens E" clock view idb_tokens idb_tokens_update
    tokens_uniq token_filled token_stamp +
  rds: redis_server "env_redis E" clock view idb_redis idb_redis_update
  for E :: "'w auth_env" and clock :: "'w \<Rightarrow> time" and view :: "'w \<Rightarrow> identity_db" +
  assumes uuid_New_view [simp]: "view (after (env_uuid_New E) w) = view w"
    and uuid_New_clock: "clock w \<le> clock (after (env_uuid_New E) w)"
    and uuid_roundtrip: "env_uuid_Parse E (env_uuid_String E i) = Some i"

text \<open>
  The services answer, and the tokens that \<open>uuid.New\<close> makes are new: their hash is not in the
  table yet.
\<close>

locale identity_services_up = identity_services +
  usr: sql_table_up "env_users E" clock view idb_users idb_users_update users_uniq user_filled user_stamp +
  ses: sql_table_up "env_sessions E" clock view idb_sessions idb_sessions_update
    sessions_uniq session_filled session_stamp +
  tok: sql_table_up "env_tokens E" clock view idb_tokens idb_tokens_update
    tokens_uniq token_filled token_stamp +
  rds: redis_server_up "env_redis E" clock view idb_redis idb_redis_update +
  assumes uuid_New_fresh:
    "HashToken E (env_uuid_String E (result (env_uuid_New E) w)) \<notin> tok_TokenHash ` set (idb_tokens (view w))"

section \<open>Steps and invariant\<close>

text \<open>
  \<open>revoke_session\<close> and \<open>revoke_token\<close> are what an \<open>UPDATE\<close> makes of a row it selects.
\<close>

definition revoke_session :: "time \<Rightarrow> time \<Rightarrow> AuthSession \<Rightarrow> AuthSession" where
  "revoke_session now u s = s\<lparr>sess_RevokedAt := Some now, sess_UpdatedAt := u\<rparr>"

definition revoke_token :: "time \<Rightarrow> uuid option \<Rightarrow> time \<Rightarrow> RefreshToken \<Rightarrow> RefreshToken" where
  "revoke_token now repl u t =
     t\<lparr>tok_RevokedAt := Some now, tok_ReplacedBy := (case repl of None \<Rightarrow> tok_ReplacedBy t | Some i \<Rightarrow> Some i),
       tok_UpdatedAt := u\<rparr>"

definition belongs :: "RefreshToken \<Rightarrow> AuthSession \<Rightarrow> bool" where
  "belongs t s \<longleftrightarrow> tok_SessionID t = sess_ID s \<and> tok_UserID t = sess_UserID s \<and> tok_ExpiresAt t \<le> sess_ExpiresAt s"

inductive auth_step :: "identity_db \<Rightarrow> identity_db \<Rightarrow> bool" where
  insert_session:
    "sessions_uniq (idb_sessions d @ [s]) \<Longrightarrow> sess_RevokedAt s = None \<Longrightarrow>
     auth_step d (idb_sessions_update (\<lambda>ss. ss @ [s]) d)"
| insert_token:
    "tokens_uniq (idb_tokens d @ [t]) \<Longrightarrow> tok_RevokedAt t = None \<Longrightarrow> tok_ReplacedBy t = None \<Longrightarrow>
     s \<in> set (idb_sessions d) \<Longrightarrow> belongs t s \<Longrightarrow>
     auth_step d (idb_tokens_update (\<lambda>ts. ts @ [t]) d)"
| revoke_sessions:
    "auth_step d (idb_sessions_update (upd_rows P (revoke_session now u)) d)"
| revoke_tokens:
    "auth_step d (idb_tokens_update (upd_rows Q (revoke_token now repl u)) d)"
| mark_session:
    "auth_step d (idb_redis_update (do_Set (revoked_key k) ''revoked'' deadline) d)"

inductive_cases auth_stepE: "auth_step d d'"

text \<open>
  The invariant: the keys are unique, every refresh token belongs to a session of the same user
  that does not end before it, and a token that was replaced is revoked.
\<close>

definition auth_inv :: "identity_db \<Rightarrow> bool" where
  "auth_inv d \<longleftrightarrow>
     users_uniq (idb_users d) \<and> sessions_uniq (idb_sessions d) \<and> tokens_uniq (idb_tokens d) \<and>
     (\<forall>t \<in> set (idb_tokens d). \<exists>s \<in> set (idb_sessions d). belongs t s) \<and>
     (\<forall>t \<in> set (idb_tokens d). tok_ReplacedBy t \<noteq> None \<longrightarrow> tok_RevokedAt t \<noteq> None)"

lemma revoke_session_sel [simp]:
  "sess_ID (revoke_session now u s) = sess_ID s" "sess_UserID (revoke_session now u s) = sess_UserID s"
  "sess_ExpiresAt (revoke_session now u s) = sess_ExpiresAt s"
  "sess_RevokedAt (revoke_session now u s) = Some now"
  by (simp_all add: revoke_session_def)

lemma revoke_token_sel [simp]:
  "tok_ID (revoke_token now repl u t) = tok_ID t" "tok_UserID (revoke_token now repl u t) = tok_UserID t"
  "tok_SessionID (revoke_token now repl u t) = tok_SessionID t"
  "tok_TokenHash (revoke_token now repl u t) = tok_TokenHash t"
  "tok_ExpiresAt (revoke_token now repl u t) = tok_ExpiresAt t"
  "tok_RevokedAt (revoke_token now repl u t) = Some now"
  by (simp_all add: revoke_token_def)

lemma belongs_revoke [simp]:
  "belongs (revoke_token now repl u t) s = belongs t s" "belongs t (revoke_session now u s) = belongs t s"
  by (simp_all add: belongs_def)

lemma sessions_uniq_revoke [simp]:
  "sessions_uniq (upd_rows P (revoke_session now u) ss) = sessions_uniq ss"
  by (simp add: sessions_uniq_def map_upd_rows)

lemma tokens_uniq_revoke [simp]:
  "tokens_uniq (upd_rows Q (revoke_token now repl u) ts) = tokens_uniq ts"
  by (simp add: tokens_uniq_def map_upd_rows)

lemma bex_upd_rows:
  assumes "\<And>r. Q (g r) = Q r"
  shows "(\<exists>r \<in> set (upd_rows P g rs). Q r) \<longleftrightarrow> (\<exists>r \<in> set rs. Q r)"
  using assms by (auto simp: upd_rows_def)

lemma bex_upd_rows_mono:
  assumes "\<exists>r \<in> set rs. Q r" and "\<And>r. Q r \<Longrightarrow> Q (g r)"
  shows "\<exists>r \<in> set (upd_rows P g rs). Q r"
proof -
  from assms(1) obtain r where "r \<in> set rs" "Q r" by blast
  then have "(if P r then g r else r) \<in> set (upd_rows P g rs)" and "Q (if P r then g r else r)"
    using assms(2) by (auto simp: upd_rows_def)
  then show ?thesis by blast
qed

lemma auth_step_inv: "auth_step d d' \<Longrightarrow> auth_inv d \<Longrightarrow> auth_inv d'"
proof (induction rule: auth_step.induct)
  case (insert_session d s)
  then show ?case by (auto simp: auth_inv_def)
next
  case (insert_token d t s)
  then show ?case by (auto simp: auth_inv_def)
next
  case (revoke_sessions d P now u)
  then show ?case by (auto simp: auth_inv_def bex_upd_rows)
next
  case (revoke_tokens d Q now repl u)
  then show ?case by (auto simp: auth_inv_def set_upd_rows)
next
  case (mark_session d k deadline)
  then show ?case by (auto simp: auth_inv_def)
qed

lemma auth_steps_inv: "auth_step\<^sup>*\<^sup>* d d' \<Longrightarrow> auth_inv d \<Longrightarrow> auth_inv d'"
  by (induction rule: rtranclp_induct) (auto intro: auth_step_inv)

text \<open>A session, and a token, is never taken back: it stays in its table, and revoked.\<close>

definition dead_session :: "identity_db \<Rightarrow> uuid \<Rightarrow> bool" where
  "dead_session d i \<longleftrightarrow> (\<exists>s \<in> set (idb_sessions d). sess_ID s = i \<and> sess_RevokedAt s \<noteq> None)"

definition dead_token :: "identity_db \<Rightarrow> string \<Rightarrow> bool" where
  "dead_token d h \<longleftrightarrow> (\<exists>t \<in> set (idb_tokens d). tok_TokenHash t = h \<and> tok_RevokedAt t \<noteq> None)"

lemma auth_step_dead:
  assumes "auth_step d d'"
  shows "dead_session d i \<Longrightarrow> dead_session d' i" and "dead_token d h \<Longrightarrow> dead_token d' h"
  using assms
  by (induction rule: auth_step.induct)
    (auto simp: dead_session_def dead_token_def intro!: bex_upd_rows_mono)

lemma auth_steps_dead:
  assumes "auth_step\<^sup>*\<^sup>* d d'"
  shows "dead_session d i \<Longrightarrow> dead_session d' i" and "dead_token d h \<Longrightarrow> dead_token d' h"
  using assms by (induction rule: rtranclp_induct) (auto intro: auth_step_dead)

end
