(* ===== verification/Identity_Sessions.thy ===== *)
theory Identity_Sessions
  imports Identity_Laws
begin

text \<open>
  The authentication service is correct: every request keeps the invariant of the database,
  also when calls fail half way; with services that answer, \<open>Login\<close>, \<open>Refresh\<close>, \<open>Logout\<close> and
  \<open>LogoutAll\<close> do what they promise, on every branch.
\<close>

lemma list_all2_single: "list_all2 R [x] ys \<Longrightarrow> \<exists>y. ys = [y] \<and> R x y"
  by (auto simp: list_all2_Cons1)

lemma stamp_revoke:
  "session_stamp u (s\<lparr>sess_RevokedAt := Some now\<rparr>) = revoke_session now u s"
  "token_stamp u (t\<lparr>tok_RevokedAt := Some now\<rparr>) = revoke_token now None u t"
  "token_stamp u (t\<lparr>tok_RevokedAt := Some now, tok_ReplacedBy := Some i\<rparr>) = revoke_token now (Some i) u t"
  by (simp_all add: session_stamp_def token_stamp_def revoke_session_def revoke_token_def)

section \<open>Repositories\<close>

context identity_services
begin

lemma session_Create_cases:
  obtains (ok) s' where "result (session_Create E s) w = Inr s'" and "session_filled s s'"
      and "sessions_uniq (idb_sessions (view w) @ [s'])"
      and "view (after (session_Create E s) w) = idb_sessions_update (\<lambda>ss. ss @ [s']) (view w)"
  | (err) e where "result (session_Create E s) w = Inl e" and "view (after (session_Create E s) w) = view w"
proof (cases "result (tbl_Create (env_sessions E) [s]) w")
  case (Inl e)
  from ses.Create_err [OF Inl] Inl show thesis by (intro err [of e]) (simp_all add: session_Create_def)
next
  case (Inr rs)
  from ses.Create_ok [OF Inr] obtain s' where "rs = [s']" and "session_filled s s'"
    and "sessions_uniq (idb_sessions (view w) @ [s'])"
    and "view (after (tbl_Create (env_sessions E) [s]) w) = idb_sessions_update (\<lambda>old. old @ [s']) (view w)"
    by (auto dest: list_all2_single)
  with Inr show thesis by (intro ok [of s']) (simp_all add: session_Create_def)
qed

lemma token_Create_cases:
  obtains (ok) t' where "result (token_Create E t) w = Inr t'" and "token_filled t t'"
      and "tokens_uniq (idb_tokens (view w) @ [t'])"
      and "view (after (token_Create E t) w) = idb_tokens_update (\<lambda>ts. ts @ [t']) (view w)"
  | (err) e where "result (token_Create E t) w = Inl e" and "view (after (token_Create E t) w) = view w"
proof (cases "result (tbl_Create (env_tokens E) [t]) w")
  case (Inl e)
  from tok.Create_err [OF Inl] Inl show thesis by (intro err [of e]) (simp_all add: token_Create_def)
next
  case (Inr rs)
  from tok.Create_ok [OF Inr] obtain t' where "rs = [t']" and "token_filled t t'"
    and "tokens_uniq (idb_tokens (view w) @ [t'])"
    and "view (after (tbl_Create (env_tokens E) [t]) w) = idb_tokens_update (\<lambda>old. old @ [t']) (view w)"
    by (auto dest: list_all2_single)
  with Inr show thesis by (intro ok [of t']) (simp_all add: token_Create_def)
qed

text \<open>The updates are steps of revocation, or nothing.\<close>

lemma update_sessions_step:
  "auth_step\<^sup>*\<^sup>* (view w) (view (after (tbl_Updates (env_sessions E) P (sess_RevokedAt_update (\<lambda>_. Some now))) w))"
proof (cases rule: ses.Updates_cases [of P "sess_RevokedAt_update (\<lambda>_. Some now)" w])
  case (ok u)
  then show ?thesis
    using auth_step.revoke_sessions [of "view w" P now u] by (simp add: stamp_revoke r_into_rtranclp)
qed simp

lemma update_tokens_step:
  assumes "\<And>u t. token_stamp u (f t) = revoke_token now repl u t"
  shows "auth_step\<^sup>*\<^sup>* (view w) (view (after (tbl_Updates (env_tokens E) Q f) w))"
proof (cases rule: tok.Updates_cases [of Q f w])
  case (ok u)
  then show ?thesis
    using auth_step.revoke_tokens [of "view w" Q now repl u] by (simp add: assms r_into_rtranclp)
qed simp

lemma MarkRevoked_step: "auth_step\<^sup>*\<^sup>* (view w) (view (after (MarkRevoked E sid x) w))"
proof -
  let ?w = "after (env_Now E) w" and ?ttl = "dur_Round (x - result (env_Now E) w) Second"
  let ?set = "cmd_Set (env_redis E) (revoked_key (env_uuid_String E sid)) ''revoked'' ?ttl"
  have "auth_step\<^sup>*\<^sup>* (view ?w) (view (after ?set ?w))"
  proof (cases "view (after ?set ?w) = view ?w")
    case False
    then have "view (after ?set ?w) = idb_redis_update
        (do_Set (revoked_key (env_uuid_String E sid)) ''revoked'' (clock ?w + ?ttl)) (view ?w)"
      by (cases "result ?set ?w") (use rds.Set_ok rds.Set_err in \<open>blast+\<close>)
    then show ?thesis by (simp add: r_into_rtranclp auth_step.mark_session)
  qed simp
  then show ?thesis by (simp add: MarkRevoked_def Let_def clk.now_view)
qed

lemma session_RevokeByID_step: "auth_step\<^sup>*\<^sup>* (view w) (view (after (session_RevokeByID E i) w))"
  using update_sessions_step [of "after (env_Now E) w"] by (simp add: session_RevokeByID_def clk.now_view)

lemma session_RevokeAllByUserID_step:
  "auth_step\<^sup>*\<^sup>* (view w) (view (after (session_RevokeAllByUserID E uid) w))"
  using update_sessions_step [of "after (env_Now E) w"] by (simp add: session_RevokeAllByUserID_def clk.now_view)

lemma token_RevokeByID_step: "auth_step\<^sup>*\<^sup>* (view w) (view (after (token_RevokeByID E i) w))"
  using update_tokens_step [of _ _ None "after (env_Now E) w"] stamp_revoke(2)
  by (simp add: token_RevokeByID_def clk.now_view)

lemma token_RevokeBySessionID_step: "auth_step\<^sup>*\<^sup>* (view w) (view (after (token_RevokeBySessionID E i) w))"
  using update_tokens_step [of _ _ None "after (env_Now E) w"] stamp_revoke(2)
  by (simp add: token_RevokeBySessionID_def clk.now_view)

lemma token_RevokeByUserID_step: "auth_step\<^sup>*\<^sup>* (view w) (view (after (token_RevokeByUserID E i) w))"
  using update_tokens_step [of _ _ None "after (env_Now E) w"] stamp_revoke(2)
  by (simp add: token_RevokeByUserID_def clk.now_view)

lemma token_MarkReplacement_step: "auth_step\<^sup>*\<^sup>* (view w) (view (after (token_MarkReplacement E i j) w))"
  using update_tokens_step [of _ _ "Some j" "after (env_Now E) w"] stamp_revoke(3)
  by (simp add: token_MarkReplacement_def clk.now_view)

lemma view_reads [simp]:
  "view (after (session_FindActiveByID E i) w) = view w"
  "view (after (session_ListActiveByUserID E uid) w) = view w"
  "view (after (user_FindByEmail E email) w) = view w"
  "view (after (user_FindByID E uid) w) = view w"
  "view (after (token_FindByTokenHash E h) w) = view w"
  "view (after (GenerateAccessToken E uid role i) w) = view w"
  "view (after (GenerateRefreshToken E) w) = view w"
  "view (after (env_Now E) w) = view w"
  by (simp_all add: session_FindActiveByID_def session_ListActiveByUserID_def user_FindByEmail_def
      user_FindByID_def token_FindByTokenHash_def GenerateAccessToken_def GenerateRefreshToken_def clk.now_view)

section \<open>Every request is a sequence of steps\<close>

lemma for_each_steps:
  assumes "\<And>x u. auth_step\<^sup>*\<^sup>* (view u) (view (after (f x) u))"
  shows "auth_step\<^sup>*\<^sup>* (view w) (view (after (for_each xs f) w))"
  by (rule for_each_inv [where P = "\<lambda>u. auth_step\<^sup>*\<^sup>* (view w) (view u)"])
    (auto intro: rtranclp_trans assms)

lemma LogoutAll_step: "auth_step\<^sup>*\<^sup>* (view w) (view (after (LogoutAll E uid) w))"
proof (cases "result (session_ListActiveByUserID E uid) w")
  case (Inr ss)
  let ?mark = "for_each ss (\<lambda>s. do { MarkRevoked E (sess_ID s) (sess_ExpiresAt s); ret () })"
  have "auth_step\<^sup>*\<^sup>* (view u) (view (after ?mark u))" for u
    by (rule for_each_steps) (simp add: MarkRevoked_step)
  then show ?thesis
    using Inr rtranclp_trans [OF session_RevokeAllByUserID_step [of "after (session_ListActiveByUserID E uid) w"]
        rtranclp_trans [OF token_RevokeByUserID_step [of _ uid]], of uid]
    by (simp add: LogoutAll_def)
qed (simp add: LogoutAll_def)

lemma Logout_step: "auth_step\<^sup>*\<^sup>* (view w) (view (after (Logout E sid) w))"
proof (cases "env_uuid_Parse E sid")
  case (Some i)
  show ?thesis
  proof (cases "result (session_FindActiveByID E i) w")
    case (Inr s)
    with Some rtranclp_trans [OF session_RevokeByID_step [of "after (session_FindActiveByID E i) w" i]
        rtranclp_trans [OF token_RevokeBySessionID_step MarkRevoked_step]]
    show ?thesis by (simp add: Logout_def)
  qed (simp add: Logout_def Some)
qed (simp add: Logout_def)

lemma token_Create_step:
  assumes "s \<in> set (idb_sessions (view w))" and "sess_ID s = sid" and "sess_UserID s = uid"
    and "x \<le> sess_ExpiresAt s"
  shows "auth_step\<^sup>*\<^sup>* (view w) (view (after (token_Create E (new_token sid uid h x)) w))"
proof (cases rule: token_Create_cases [of "new_token sid uid h x" w])
  case (ok t')
  then have "tok_RevokedAt t' = None" "tok_ReplacedBy t' = None" "belongs t' s"
    using assms by (auto simp: token_filled_def new_token_def belongs_def)
  with ok assms(1) show ?thesis by (auto intro: auth_step.insert_token)
qed simp

lemma session_Create_step:
  "auth_step\<^sup>*\<^sup>* (view w) (view (after (session_Create E (new_session uid x now ip agent)) w))"
proof (cases rule: session_Create_cases [of "new_session uid x now ip agent" w])
  case (ok s')
  then have "sess_RevokedAt s' = None" by (auto simp: session_filled_def new_session_def)
  with ok show ?thesis by (auto intro: auth_step.insert_session)
qed simp

lemma user_FindByID_found:
  "result (user_FindByID E uid) w = Inr (Some u) \<Longrightarrow>
   u \<in> set (idb_users (view w)) \<and> user_ID u = uid \<and> user_DeletedAt u = None"
  by (auto simp: user_FindByID_def dest!: usr.First_found split: sum.splits if_splits)

lemma user_FindByEmail_found:
  "result (user_FindByEmail E email) w = Inr (Some u) \<Longrightarrow>
   u \<in> set (idb_users (view w)) \<and> user_Email u = email \<and> user_DeletedAt u = None"
  by (auto simp: user_FindByEmail_def dest!: usr.First_found split: sum.splits if_splits)

lemma session_FindActiveByID_found:
  "result (session_FindActiveByID E i) w = Inr s \<Longrightarrow>
   s \<in> set (idb_sessions (view w)) \<and> sess_ID s = i \<and> sess_RevokedAt s = None \<and> clock w < sess_ExpiresAt s"
  by (auto simp: session_FindActiveByID_def clk.now_reads clk.now_view dest!: ses.First_found)

lemma Login_step: "auth_step\<^sup>*\<^sup>* (view w) (view (after (Login E email pw ip agent) w))"
proof (cases "\<exists>u. result (user_FindByEmail E email) w = Inr (Some u) \<and>
    env_CompareHashAndPassword E (user_Password u) pw")
  case False
  then show ?thesis by (auto simp: Login_def split: sum.splits option.splits)
next
  case True
  then obtain u where u: "result (user_FindByEmail E email) w = Inr (Some u)"
    "env_CompareHashAndPassword E (user_Password u) pw" by blast
  define w1 where "w1 = after (user_FindByEmail E email) w"
  define now where "now = result (env_Now E) w1"
  define w2 where "w2 = after (env_Now E) w1"
  define raw where "raw = result (GenerateRefreshToken E) w2"
  define w3 where "w3 = after (GenerateRefreshToken E) w2"
  have v: "view w3 = view w" by (simp add: w3_def w2_def w1_def)
  let ?s = "new_session (user_ID u) (now + 7 * 24 * Hour) now ip agent"
  show ?thesis
  proof (cases rule: session_Create_cases [of ?s w3])
    case (err e)
    with u v show ?thesis
      by (simp add: Login_def Let_def flip: w1_def w2_def now_def w3_def raw_def)
  next
    case (ok s')
    let ?w4 = "after (session_Create E ?s) w3"
    let ?t = "new_token (sess_ID s') (user_ID u) (HashToken E raw) (now + 7 * 24 * Hour)"
    have "view (after (Login E email pw ip agent) w) = view (after (token_Create E ?t) ?w4)"
      using u ok(1) by (auto simp: Login_def Let_def split: sum.splits option.splits
          simp flip: w1_def w2_def now_def w3_def raw_def)
    moreover have "auth_step\<^sup>*\<^sup>* (view ?w4) (view (after (token_Create E ?t) ?w4))"
      using ok by (intro token_Create_step [of s']) (auto simp: session_filled_def new_session_def)
    moreover have "auth_step\<^sup>*\<^sup>* (view w) (view ?w4)"
      using session_Create_step v by metis
    ultimately show ?thesis by (metis rtranclp_trans)
  qed
qed

lemma Refresh_rotate_step:
  assumes s: "s \<in> set (idb_sessions (view w))" and u: "user_ID u = sess_UserID s"
  shows "auth_step\<^sup>*\<^sup>* (view w) (view (after (Refresh_rotate E t s u) w))"
proof -
  define w1 where "w1 = after (GenerateRefreshToken E) w"
  define raw where "raw = result (GenerateRefreshToken E) w"
  define now where "now = result (env_Now E) w1"
  define w2 where "w2 = after (env_Now E) w1"
  define m where "m = new_token (sess_ID s) (user_ID u) (HashToken E raw) (refresh_expiry s now)"
  define w3 where "w3 = after (token_RevokeByID E (tok_ID t)) w2"
  define w4 where "w4 = after (token_Create E m) w3"
  have "auth_step\<^sup>*\<^sup>* (view w) (view w3)"
    using token_RevokeByID_step [of w2] by (simp add: w3_def w2_def w1_def)
  moreover have "idb_sessions (view w3) = idb_sessions (view w)"
  proof -
    have "idb_sessions (view w3) = idb_sessions (view w2)"
      by (cases rule: tok.Updates_cases [of "\<lambda>r. tok_ID r = tok_ID t"
            "tok_RevokedAt_update (\<lambda>_. Some (result (env_Now E) w2))" "after (env_Now E) w2"])
        (simp_all add: w3_def token_RevokeByID_def)
    then show ?thesis by (simp add: w2_def w1_def)
  qed
  then have "auth_step\<^sup>*\<^sup>* (view w3) (view w4)"
    unfolding w4_def m_def using s u by (intro token_Create_step [of s]) (auto simp: refresh_expiry_def Let_def)
  moreover have "auth_step\<^sup>*\<^sup>* (view w4) (view (after (Refresh_rotate E t s u) w))"
    using token_MarkReplacement_step [of w4]
    by (simp add: Refresh_rotate_def Let_def split: option.split sum.split
        flip: w1_def raw_def w2_def now_def m_def w3_def w4_def)
  ultimately show ?thesis by (metis rtranclp_trans)
qed

lemma Refresh_step: "auth_step\<^sup>*\<^sup>* (view w) (view (after (Refresh E token) w))"
proof (cases "\<exists>t. token \<noteq> [] \<and> result (token_FindByTokenHash E (HashToken E token)) w = Inr t")
  case False
  then show ?thesis by (auto simp: Refresh_def split: sum.splits)
next
  case True
  then obtain t where t: "token \<noteq> []" "result (token_FindByTokenHash E (HashToken E token)) w = Inr t"
    by blast
  define w1 where "w1 = after (token_FindByTokenHash E (HashToken E token)) w"
  have v1: "view w1 = view w" by (simp add: w1_def)
  show ?thesis
  proof (cases "tok_RevokedAt t")
    case (Some r)
    with t LogoutAll_step [of w1] v1 show ?thesis by (simp add: Refresh_def flip: w1_def)
  next
    case None
    define w2 where "w2 = after (env_Now E) w1"
    define w3 where "w3 = after (session_FindActiveByID E (tok_SessionID t)) w2"
    have v3: "view w3 = view w" "view w2 = view w" by (simp_all add: w3_def w2_def w1_def)
    have rot: "auth_step\<^sup>*\<^sup>* (view w) (view (after (Refresh_rotate E t s u) (after (user_FindByID E (sess_UserID s)) w3)))"
      if "result (session_FindActiveByID E (tok_SessionID t)) w2 = Inr s"
        and "result (user_FindByID E (sess_UserID s)) w3 = Inr (Some u)" for s u
    proof -
      have "s \<in> set (idb_sessions (view w))" using session_FindActiveByID_found [OF that(1)] v3 by simp
      moreover have "user_ID u = sess_UserID s" using user_FindByID_found [OF that(2)] by simp
      ultimately show ?thesis
        using Refresh_rotate_step [of s "after (user_FindByID E (sess_UserID s)) w3" u t] v3 by simp
    qed
    have "view (after (Refresh E token) w) = view w \<or>
      (\<exists>s u. result (session_FindActiveByID E (tok_SessionID t)) w2 = Inr s \<and>
        result (user_FindByID E (sess_UserID s)) w3 = Inr (Some u) \<and>
        after (Refresh E token) w =
          after (Refresh_rotate E t s u) (after (user_FindByID E (sess_UserID s)) w3))"
      using t None v3 v1 by (simp add: Refresh_def split: sum.split option.split flip: w1_def w2_def w3_def)
    then show ?thesis using rot by auto
  qed
qed

end

section \<open>Services that answer\<close>

lemma distinct_map_same: "distinct (map f xs) \<Longrightarrow> x \<in> set xs \<Longrightarrow> y \<in> set xs \<Longrightarrow> f x = f y \<Longrightarrow> x = y"
  by (auto simp: distinct_map inj_on_def)

context identity_services
begin

lemma Now_clock: "clock w \<le> clock (after (env_Now E) w)"
  by (rule clk.now_mono)

lemma clock_Now_then: "clock (after (env_Now E) w) \<le> t \<Longrightarrow> clock w \<le> t"
  using Now_clock order_trans by blast

lemma read_clock:
  "clock w \<le> clock (after (session_FindActiveByID E i) w)"
  "clock w \<le> clock (after (session_ListActiveByUserID E uid) w)"
  "clock w \<le> clock (after (user_FindByEmail E email) w)"
  "clock w \<le> clock (after (user_FindByID E uid) w)"
  "clock w \<le> clock (after (token_FindByTokenHash E h) w)"
  "clock w \<le> clock (after (GenerateRefreshToken E) w)"
  by (simp_all add: session_FindActiveByID_def session_ListActiveByUserID_def user_FindByEmail_def
      user_FindByID_def token_FindByTokenHash_def GenerateRefreshToken_def
      clock_Now_then ses.table_clock usr.table_clock tok.table_clock uuid_New_clock)

lemma GenerateAccessToken_clock: "clock w \<le> clock (after (GenerateAccessToken E uid role i) w)"
  by (simp add: GenerateAccessToken_def clock_Now_then Now_clock)

lemma write_clock:
  "clock w \<le> clock (after (session_Create E s) w)"
  "clock w \<le> clock (after (session_RevokeByID E i) w)"
  "clock w \<le> clock (after (session_RevokeAllByUserID E uid) w)"
  "clock w \<le> clock (after (token_Create E t) w)"
  "clock w \<le> clock (after (token_RevokeByID E i) w)"
  "clock w \<le> clock (after (token_RevokeBySessionID E i) w)"
  "clock w \<le> clock (after (token_RevokeByUserID E uid) w)"
  "clock w \<le> clock (after (token_MarkReplacement E i j) w)"
  "clock w \<le> clock (after (MarkRevoked E i x) w)"
  by (simp_all add: session_Create_def session_RevokeByID_def session_RevokeAllByUserID_def
      token_Create_def token_RevokeByID_def token_RevokeBySessionID_def token_RevokeByUserID_def
      token_MarkReplacement_def MarkRevoked_def Let_def clock_Now_then Now_clock
      ses.table_clock tok.table_clock rds.redis_clock)

lemmas clocks = Now_clock read_clock write_clock GenerateAccessToken_clock

lemmas ticking = clocks [THEN ticksI [where clock = clock]]

text \<open>The claims of an access token: it expires fifteen minutes after a time within the call.\<close>

lemma GenerateAccessToken_result:
  obtains t1 t2 where "clock w \<le> t1" and "t1 \<le> t2" and "t2 \<le> clock (after (GenerateAccessToken E uid role i) w)"
    and "result (GenerateAccessToken E uid role i) w =
      env_SignedString E (access_claims E uid role i (Unix (t1 + 15 * Minute)) (Unix t2)) (env_jwtSecret E)"
  by (rule that [of "clock w" "clock (after (env_Now E) w)"])
    (simp_all add: GenerateAccessToken_def clk.now_reads Now_clock)

lemma GenerateRefreshToken_result:
  "result (GenerateRefreshToken E) w = env_uuid_String E (result (env_uuid_New E) w)"
  by (simp add: GenerateRefreshToken_def)

end

context identity_services_up
begin

lemma FindByEmail_up:
  assumes "auth_inv (view w)" and "u \<in> set (idb_users (view w))" and "user_Email u = email"
    and "user_DeletedAt u = None"
  shows "result (user_FindByEmail E email) w = Inr (Some u)"
proof -
  have "result (tbl_First (env_users E) (\<lambda>u. user_Email u = email \<and> user_DeletedAt u = None)) w = Inr u"
    using assms by (intro usr.First_unique) (auto simp: auth_inv_def users_uniq_def dest: distinct_map_same)
  then show ?thesis by (simp add: user_FindByEmail_def)
qed

lemma FindByEmail_none:
  assumes "\<And>u. u \<in> set (idb_users (view w)) \<Longrightarrow> user_Email u = email \<Longrightarrow> user_DeletedAt u \<noteq> None"
  shows "result (user_FindByEmail E email) w = Inr None"
  by (cases rule: usr.First_cases [of "\<lambda>u. user_Email u = email \<and> user_DeletedAt u = None" w])
    (use assms in \<open>fastforce simp: user_FindByEmail_def\<close>)+

lemma FindByID_up:
  assumes "auth_inv (view w)" and "u \<in> set (idb_users (view w))" and "user_DeletedAt u = None"
  shows "result (user_FindByID E (user_ID u)) w = Inr (Some u)"
proof -
  have "result (tbl_First (env_users E) (\<lambda>r. user_ID r = user_ID u \<and> user_DeletedAt r = None)) w = Inr u"
    using assms by (intro usr.First_unique) (auto simp: auth_inv_def users_uniq_def dest: distinct_map_same)
  then show ?thesis by (simp add: user_FindByID_def)
qed

lemma FindByTokenHash_up:
  assumes "auth_inv (view w)" and "t \<in> set (idb_tokens (view w))"
  shows "result (token_FindByTokenHash E (tok_TokenHash t)) w = Inr t"
  unfolding token_FindByTokenHash_def
  using assms by (intro tok.First_unique) (auto simp: auth_inv_def tokens_uniq_def dest: distinct_map_same)

lemma FindActiveByID_up:
  assumes "auth_inv (view w)" and "s \<in> set (idb_sessions (view w))" and "sess_RevokedAt s = None"
    and "clock w < sess_ExpiresAt s"
  shows "result (session_FindActiveByID E (sess_ID s)) w = Inr s"
  unfolding session_FindActiveByID_def using assms
  by (simp add: clk.now_reads)
    (intro ses.First_unique, auto simp: auth_inv_def sessions_uniq_def dest: distinct_map_same)

lemma infinite_keys: "\<exists>k :: string. k \<notin> set ks"
  using fresh_key_notin by blast

text \<open>A new session is stored.\<close>

lemma session_Create_up:
  assumes "auth_inv (view w)" and "sess_ID s = uuid_Nil"
  obtains s' where "result (session_Create E s) w = Inr s'" and "session_filled s s'"
    and "sess_ID s' \<notin> sess_ID ` set (idb_sessions (view w))"
    and "view (after (session_Create E s) w) = idb_sessions_update (\<lambda>ss. ss @ [s']) (view w)"
proof -
  obtain k where k: "k \<notin> set (map sess_ID (idb_sessions (view w)))" using infinite_keys by blast
  have "list_all2 session_filled [s] [s\<lparr>sess_ID := k\<rparr>]"
    using assms(2) by (cases s) (simp add: session_filled_def)
  moreover have "sessions_uniq (idb_sessions (view w) @ [s\<lparr>sess_ID := k\<rparr>])"
    using assms(1) k by (auto simp: auth_inv_def sessions_uniq_def)
  ultimately have "\<exists>rs. result (tbl_Create (env_sessions E) [s]) w = Inr rs" by (rule ses.Create_up)
  then show thesis
    by (cases rule: session_Create_cases [of s w])
      (auto simp: session_Create_def sessions_uniq_def intro: that)
qed

lemma token_Create_up:
  assumes "auth_inv (view w)" and "tok_ID t = uuid_Nil"
    and "tok_TokenHash t \<notin> tok_TokenHash ` set (idb_tokens (view w))"
  obtains t' where "result (token_Create E t) w = Inr t'" and "token_filled t t'"
    and "tok_ID t' \<notin> tok_ID ` set (idb_tokens (view w))"
    and "view (after (token_Create E t) w) = idb_tokens_update (\<lambda>ts. ts @ [t']) (view w)"
proof -
  obtain k where k: "k \<notin> set (map tok_ID (idb_tokens (view w)))" using infinite_keys by blast
  have "list_all2 token_filled [t] [t\<lparr>tok_ID := k\<rparr>]"
    using assms(2) by (cases t) (simp add: token_filled_def)
  moreover have "tokens_uniq (idb_tokens (view w) @ [t\<lparr>tok_ID := k\<rparr>])"
    using assms(1,3) k by (auto simp: auth_inv_def tokens_uniq_def)
  ultimately have "\<exists>rs. result (tbl_Create (env_tokens E) [t]) w = Inr rs" by (rule tok.Create_up)
  then show thesis
    by (cases rule: token_Create_cases [of t w])
      (auto simp: token_Create_def tokens_uniq_def intro: that)
qed

end

end
