(* ===== verification/Identity_Requests.thy ===== *)
theory Identity_Requests
  imports Identity_Sessions
begin

text \<open>
  What the requests of the authentication service do when the services answer: which rows they
  add, which they revoke, which they leave alone, and what they return.
\<close>

section \<open>Updates that answer\<close>

context identity_services_up
begin

lemma revoke_sessions_up:
  assumes "auth_inv (view w)"
  obtains u where "view (after (tbl_Updates (env_sessions E) P (sess_RevokedAt_update (\<lambda>_. Some now))) w) =
    idb_sessions_update (upd_rows P (revoke_session now u)) (view w)"
proof -
  have "sessions_uniq (upd_rows P (\<lambda>s. session_stamp u (s\<lparr>sess_RevokedAt := Some now\<rparr>)) (idb_sessions (view w)))" for u
    using assms by (simp add: stamp_revoke auth_inv_def)
  then show thesis by (rule ses.Updates_put) (rule that, simp add: stamp_revoke)
qed

lemma revoke_tokens_up:
  assumes "auth_inv (view w)" and f: "\<And>u t. token_stamp u (f t) = revoke_token now repl u t"
  obtains u where "view (after (tbl_Updates (env_tokens E) Q f) w) =
    idb_tokens_update (upd_rows Q (revoke_token now repl u)) (view w)"
proof -
  have "tokens_uniq (upd_rows Q (\<lambda>t. token_stamp u (f t)) (idb_tokens (view w)))" for u
    using assms by (simp add: auth_inv_def)
  then show thesis by (rule tok.Updates_put) (rule that, simp add: f)
qed

lemma session_RevokeByID_up:
  assumes "auth_inv (view w)"
  obtains now u where "view (after (session_RevokeByID E i) w) =
    idb_sessions_update (upd_rows (\<lambda>s. sess_ID s = i) (revoke_session now u)) (view w)"
  by (rule revoke_sessions_up [of "after (env_Now E) w"])
    (simp add: assms, rule that, simp add: session_RevokeByID_def)

lemma session_RevokeAllByUserID_up:
  assumes "auth_inv (view w)"
  obtains now u where "view (after (session_RevokeAllByUserID E uid) w) =
    idb_sessions_update (upd_rows (\<lambda>s. sess_UserID s = uid \<and> sess_RevokedAt s = None) (revoke_session now u)) (view w)"
  by (rule revoke_sessions_up [of "after (env_Now E) w"])
    (simp add: assms, rule that, simp add: session_RevokeAllByUserID_def)

lemma token_RevokeByID_up:
  assumes "auth_inv (view w)"
  obtains now u where "view (after (token_RevokeByID E i) w) =
    idb_tokens_update (upd_rows (\<lambda>t. tok_ID t = i) (revoke_token now None u)) (view w)"
  by (rule revoke_tokens_up [OF _ stamp_revoke(2), of "after (env_Now E) w"])
    (simp add: assms, rule that, simp add: token_RevokeByID_def)

lemma token_RevokeBySessionID_up:
  assumes "auth_inv (view w)"
  obtains now u where "view (after (token_RevokeBySessionID E i) w) =
    idb_tokens_update (upd_rows (\<lambda>t. tok_SessionID t = i \<and> tok_RevokedAt t = None) (revoke_token now None u)) (view w)"
  by (rule revoke_tokens_up [OF _ stamp_revoke(2), of "after (env_Now E) w"])
    (simp add: assms, rule that, simp add: token_RevokeBySessionID_def)

lemma token_RevokeByUserID_up:
  assumes "auth_inv (view w)"
  obtains now u where "view (after (token_RevokeByUserID E uid) w) =
    idb_tokens_update (upd_rows (\<lambda>t. tok_UserID t = uid \<and> tok_RevokedAt t = None) (revoke_token now None u)) (view w)"
  by (rule revoke_tokens_up [OF _ stamp_revoke(2), of "after (env_Now E) w"])
    (simp add: assms, rule that, simp add: token_RevokeByUserID_def)

lemma token_MarkReplacement_up:
  assumes "auth_inv (view w)"
  obtains now u where "view (after (token_MarkReplacement E i j) w) =
    idb_tokens_update (upd_rows (\<lambda>t. tok_ID t = i) (revoke_token now (Some j) u)) (view w)"
  by (rule revoke_tokens_up [OF _ stamp_revoke(3), of "after (env_Now E) w"])
    (simp add: assms, rule that, simp add: token_MarkReplacement_def)

end

section \<open>Marks in Redis\<close>

text \<open>
  \<open>marked d sid t\<close>: Redis holds the mark of the session, and keeps it until \<open>t\<close> or longer.
\<close>

definition marked :: "identity_db \<Rightarrow> string \<Rightarrow> time \<Rightarrow> bool" where
  "marked d sid t \<longleftrightarrow>
     (\<exists>deadline \<ge> t. rd_strings (idb_redis d) (revoked_key sid) = Some (''revoked'', Some deadline))"

lemma revoked_key_inject [simp]: "revoked_key a = revoked_key b \<longleftrightarrow> a = b"
  by (simp add: revoked_key_def)

context identity_services_up
begin

lemma uuid_String_inject: "env_uuid_String E i = env_uuid_String E j \<longleftrightarrow> i = j"
  by (metis option.inject uuid_roundtrip)

text \<open>
  A session that lives for another half second is marked, until half a second before its end or
  longer, because the time to live is rounded to a whole second. The tables and the marks of
  other sessions are as before.
\<close>

lemma MarkRevoked_up:
  assumes "2 * (x - clock w) \<ge> Second"
  shows "marked (view (after (MarkRevoked E i x) w)) (env_uuid_String E i) (x - Second div 2)"
proof -
  let ?w = "after (env_Now E) w" and ?ttl = "dur_Round (x - clock w) Second"
  have pos: "0 < ?ttl" using assms dur_Round_pos_iff [of Second "x - clock w"] by (simp add: duration_defs)
  then have "view (after (MarkRevoked E i x) w) =
      idb_redis_update (do_Set (revoked_key (env_uuid_String E i)) ''revoked'' (clock ?w + ?ttl)) (view w)"
    by (simp add: MarkRevoked_def Let_def clk.now_reads rds.Set_up)
  moreover have "x - Second div 2 \<le> clock ?w + ?ttl"
    using dur_Round_close [of Second "x - clock w"] Now_clock [of w] by (simp add: duration_defs abs_le_iff)
  ultimately show ?thesis by (simp add: marked_def do_Set_def)
qed

lemma MarkRevoked_frame:
  "idb_users (view (after (MarkRevoked E i x) w)) = idb_users (view w)"
  "idb_sessions (view (after (MarkRevoked E i x) w)) = idb_sessions (view w)"
  "idb_tokens (view (after (MarkRevoked E i x) w)) = idb_tokens (view w)"
  "j \<noteq> i \<Longrightarrow> rd_strings (idb_redis (view (after (MarkRevoked E i x) w))) (revoked_key (env_uuid_String E j)) =
     rd_strings (idb_redis (view w)) (revoked_key (env_uuid_String E j))"
  by (simp_all add: MarkRevoked_def Let_def clk.now_reads rds.Set_up do_Set_def uuid_String_inject)

lemma mark_all_frame:
  fixes ss :: "AuthSession list"
  defines "m \<equiv> for_each ss (\<lambda>s. do { MarkRevoked E (sess_ID s) (sess_ExpiresAt s); ret () })"
  shows "idb_users (view (after m w)) = idb_users (view w) \<and>
    idb_sessions (view (after m w)) = idb_sessions (view w) \<and>
    idb_tokens (view (after m w)) = idb_tokens (view w) \<and>
    (\<forall>j. j \<notin> sess_ID ` set ss \<longrightarrow>
      rd_strings (idb_redis (view (after m w))) (revoked_key (env_uuid_String E j)) =
      rd_strings (idb_redis (view w)) (revoked_key (env_uuid_String E j)))"
  unfolding m_def by (rule for_each_inv) (auto simp: image_iff MarkRevoked_frame(1-3) intro!: trans [OF MarkRevoked_frame(4)])

lemma mark_all_clock:
  "clock w \<le> clock (after (for_each ss (\<lambda>s. do { MarkRevoked E (sess_ID s) (sess_ExpiresAt s); ret () })) w)"
  by (rule for_each_inv [where P = "\<lambda>u. clock w \<le> clock u"]) (auto intro: order_trans write_clock)

lemma mark_all_marks:
  fixes ss :: "AuthSession list"
  assumes "distinct (map sess_ID ss)" and "s \<in> set ss"
  defines "m \<equiv> for_each ss (\<lambda>s. do { MarkRevoked E (sess_ID s) (sess_ExpiresAt s); ret () })"
  shows "2 * (sess_ExpiresAt s - clock (after m w)) \<ge> Second \<Longrightarrow>
    marked (view (after m w)) (env_uuid_String E (sess_ID s)) (sess_ExpiresAt s - Second div 2)"
  using assms(1,2) unfolding m_def
proof (induction ss arbitrary: w)
  case (Cons a ss)
  let ?w = "after (MarkRevoked E (sess_ID a) (sess_ExpiresAt a)) w"
  let ?m = "for_each ss (\<lambda>s. do { MarkRevoked E (sess_ID s) (sess_ExpiresAt s); ret () })"
  show ?case
  proof (cases "s = a")
    case True
    have "clock w \<le> clock (after ?m ?w)" using write_clock(9) mark_all_clock order_trans by blast
    then have "2 * (sess_ExpiresAt s - clock w) \<ge> Second" using Cons.prems(1) by simp
    then have "marked (view ?w) (env_uuid_String E (sess_ID s)) (sess_ExpiresAt s - Second div 2)"
      unfolding True by (rule MarkRevoked_up)
    moreover have "sess_ID s \<notin> sess_ID ` set ss" using True Cons.prems(2) by simp
    ultimately show ?thesis using mark_all_frame [of ss ?w] by (simp add: marked_def)
  next
    case False
    with Cons show ?thesis by simp
  qed
qed simp

end

section \<open>Ending all sessions of a user\<close>

definition user_revoked :: "nat \<Rightarrow> identity_db \<Rightarrow> bool" where
  "user_revoked uid d \<longleftrightarrow>
     (\<forall>s \<in> set (idb_sessions d). sess_UserID s = uid \<longrightarrow> sess_RevokedAt s \<noteq> None) \<and>
     (\<forall>t \<in> set (idb_tokens d). tok_UserID t = uid \<longrightarrow> tok_RevokedAt t \<noteq> None)"

definition same_other_users :: "nat \<Rightarrow> identity_db \<Rightarrow> identity_db \<Rightarrow> bool" where
  "same_other_users uid d d' \<longleftrightarrow>
     idb_users d' = idb_users d \<and>
     filter (\<lambda>s. sess_UserID s \<noteq> uid) (idb_sessions d') = filter (\<lambda>s. sess_UserID s \<noteq> uid) (idb_sessions d) \<and>
     filter (\<lambda>t. tok_UserID t \<noteq> uid) (idb_tokens d') = filter (\<lambda>t. tok_UserID t \<noteq> uid) (idb_tokens d)"

lemma filter_upd_rows:
  assumes "\<And>r. P r \<Longrightarrow> \<not> Q r \<and> \<not> Q (g r)"
  shows "filter Q (upd_rows P g rs) = filter Q rs"
  using assms by (induction rs) (auto simp: upd_rows_def)

lemma mset_filter_sessions:
  assumes "mset ss = mset (filter P rs)" and "sessions_uniq rs"
  shows "distinct (map sess_ID ss)" and "set ss = {s \<in> set rs. P s}"
proof -
  have "mset (map sess_ID ss) = mset (map sess_ID (filter P rs))" using assms(1) by simp
  moreover have "distinct (map sess_ID (filter P rs))"
    using assms(2) by (auto simp: sessions_uniq_def distinct_map inj_on_def)
  ultimately show "distinct (map sess_ID ss)" using mset_eq_imp_distinct_iff by blast
  show "set ss = {s \<in> set rs. P s}" using assms(1) by (metis mset_eq_setD set_filter)
qed

context identity_services
begin

lemma LogoutAll_ticks: "ticks clock (LogoutAll E uid)"
  unfolding LogoutAll_def by (auto intro!: ticking split: sum.split)

lemma Logout_ticks: "ticks clock (Logout E sid)"
  unfolding Logout_def by (auto intro!: ticking split: sum.split option.split)

end

context identity_services_up
begin

lemma ListActive_up:
  assumes "auth_inv (view w)"
  obtains ss where "result (session_ListActiveByUserID E uid) w = Inr ss" and "distinct (map sess_ID ss)"
    and "set ss = {s \<in> set (idb_sessions (view w)).
      sess_UserID s = uid \<and> sess_RevokedAt s = None \<and> clock w < sess_ExpiresAt s}"
proof -
  let ?P = "\<lambda>s. sess_UserID s = uid \<and> sess_RevokedAt s = None \<and> clock w < sess_ExpiresAt s"
  obtain ss where r: "result (tbl_Find (env_sessions E) ?P) (after (env_Now E) w) = Inr ss"
    using ses.Find_up [of ?P] unfolding answers_def by blast
  from ses.Find_found [OF r] have "mset ss = mset (filter ?P (idb_sessions (view w)))" by simp
  moreover have "sessions_uniq (idb_sessions (view w))" using assms by (simp add: auth_inv_def)
  ultimately show thesis
    using r mset_filter_sessions [of ss ?P "idb_sessions (view w)"]
    by (intro that [of ss]) (simp_all add: session_ListActiveByUserID_def clk.now_reads)
qed

lemma LogoutAll_up:
  fixes w uid
  assumes inv: "auth_inv (view w)"
  defines "w' \<equiv> after (LogoutAll E uid) w"
  shows "result (LogoutAll E uid) w = Inr () \<and> user_revoked uid (view w') \<and>
    same_other_users uid (view w) (view w') \<and>
    (\<forall>s \<in> set (idb_sessions (view w)).
      sess_UserID s = uid \<and> sess_RevokedAt s = None \<and> Second \<le> 2 * (sess_ExpiresAt s - clock w') \<longrightarrow>
      marked (view w') (env_uuid_String E (sess_ID s)) (sess_ExpiresAt s - Second div 2))"
proof -
  obtain ss where ss: "result (session_ListActiveByUserID E uid) w = Inr ss" "distinct (map sess_ID ss)"
    "set ss = {s \<in> set (idb_sessions (view w)).
      sess_UserID s = uid \<and> sess_RevokedAt s = None \<and> clock w < sess_ExpiresAt s}"
    using ListActive_up [OF inv] .
  define w1 where "w1 = after (session_ListActiveByUserID E uid) w"
  define w2 where "w2 = after (session_RevokeAllByUserID E uid) w1"
  define w3 where "w3 = after (token_RevokeByUserID E uid) w2"
  let ?m = "for_each ss (\<lambda>s. do { MarkRevoked E (sess_ID s) (sess_ExpiresAt s); ret () })"
  have w': "w' = after ?m w3" and res: "result (LogoutAll E uid) w = Inr ()"
    using ss(1) by (simp_all add: w'_def LogoutAll_def w3_def w2_def w1_def)
  have inv1: "auth_inv (view w1)" using inv by (simp add: w1_def)
  then have inv2: "auth_inv (view w2)"
    unfolding w2_def using session_RevokeAllByUserID_step auth_steps_inv by blast
  obtain a b where v2: "view w2 = idb_sessions_update
      (upd_rows (\<lambda>s. sess_UserID s = uid \<and> sess_RevokedAt s = None) (revoke_session a b)) (view w)"
    using session_RevokeAllByUserID_up [OF inv1, of uid] by (auto simp: w2_def w1_def)
  obtain c d where v3: "view w3 = idb_tokens_update
      (upd_rows (\<lambda>t. tok_UserID t = uid \<and> tok_RevokedAt t = None) (revoke_token c None d)) (view w2)"
    using token_RevokeByUserID_up [OF inv2, of uid] by (auto simp: w3_def)
  have fr: "idb_users (view w') = idb_users (view w3)" "idb_sessions (view w') = idb_sessions (view w3)"
    "idb_tokens (view w') = idb_tokens (view w3)"
    using mark_all_frame [of ss w3] by (simp_all add: w')
  have "user_revoked uid (view w')"
    unfolding user_revoked_def fr v3 v2 by (simp add: set_upd_rows ball_Un)
  moreover have "same_other_users uid (view w) (view w')"
    unfolding same_other_users_def fr v3 v2 by (simp, intro conjI; rule filter_upd_rows, simp)
  moreover have "marked (view w') (env_uuid_String E (sess_ID s)) (sess_ExpiresAt s - Second div 2)"
    if s: "s \<in> set (idb_sessions (view w))" "sess_UserID s = uid" "sess_RevokedAt s = None"
      "Second \<le> 2 * (sess_ExpiresAt s - clock w')" for s
  proof -
    have "clock w \<le> clock w'" unfolding w'_def by (rule ticksD [OF LogoutAll_ticks])
    then have "s \<in> set ss" using s by (simp add: ss(3) duration_defs)
    with mark_all_marks [OF ss(2), of s w3] s(4) show ?thesis by (simp add: w')
  qed
  ultimately show ?thesis using res by blast
qed

lemma Logout_up:
  fixes w s
  assumes inv: "auth_inv (view w)" and s: "s \<in> set (idb_sessions (view w))" "sess_RevokedAt s = None"
    and w': "w' = after (Logout E (env_uuid_String E (sess_ID s))) w"
    and alive: "Second \<le> 2 * (sess_ExpiresAt s - clock w')"
  shows "result (Logout E (env_uuid_String E (sess_ID s))) w = Inr ()" (is ?res)
    and "dead_session (view w') (sess_ID s)"
    and "t \<in> set (idb_tokens (view w')) \<Longrightarrow> tok_SessionID t = sess_ID s \<Longrightarrow> tok_RevokedAt t \<noteq> None"
    and "marked (view w') (env_uuid_String E (sess_ID s)) (sess_ExpiresAt s - Second div 2)"
    and "filter (\<lambda>r. sess_ID r \<noteq> sess_ID s) (idb_sessions (view w')) =
      filter (\<lambda>r. sess_ID r \<noteq> sess_ID s) (idb_sessions (view w))"
    and "filter (\<lambda>r. tok_SessionID r \<noteq> sess_ID s) (idb_tokens (view w')) =
      filter (\<lambda>r. tok_SessionID r \<noteq> sess_ID s) (idb_tokens (view w))"
proof -
  let ?i = "sess_ID s"
  define w1 where "w1 = after (session_FindActiveByID E ?i) w"
  define w2 where "w2 = after (session_RevokeByID E ?i) w1"
  define w3 where "w3 = after (token_RevokeBySessionID E ?i) w2"
  have mono: "clock w3 \<le> clock (after (MarkRevoked E ?i (sess_ExpiresAt s)) w3)" by (rule write_clock)
  have "clock w \<le> clock w'" unfolding w' by (rule ticksD [OF Logout_ticks])
  then have "clock w < sess_ExpiresAt s" using alive by (simp add: duration_defs)
  with inv s have found: "result (session_FindActiveByID E ?i) w = Inr s" by (intro FindActiveByID_up)
  have e: "w' = after (MarkRevoked E ?i (sess_ExpiresAt s)) w3" and ?res
    using found by (simp_all add: w' Logout_def uuid_roundtrip w3_def w2_def w1_def)
  from \<open>?res\<close> show ?res .
  have inv1: "auth_inv (view w1)" using inv by (simp add: w1_def)
  then have inv2: "auth_inv (view w2)" unfolding w2_def using session_RevokeByID_step auth_steps_inv by blast
  obtain a b where v2: "view w2 = idb_sessions_update (upd_rows (\<lambda>s. sess_ID s = ?i) (revoke_session a b)) (view w)"
    using session_RevokeByID_up [OF inv1, of ?i] by (auto simp: w2_def w1_def)
  obtain c d where v3: "view w3 = idb_tokens_update
      (upd_rows (\<lambda>t. tok_SessionID t = ?i \<and> tok_RevokedAt t = None) (revoke_token c None d)) (view w2)"
    using token_RevokeBySessionID_up [OF inv2, of ?i] by (auto simp: w3_def)
  show "dead_session (view w') ?i"
  proof -
    have "revoke_session a b s \<in> set (idb_sessions (view w'))"
      using s(1) by (simp add: e MarkRevoked_frame v3 v2 set_upd_rows)
    then show ?thesis unfolding dead_session_def by (rule rev_bexI) simp
  qed
  show "t \<in> set (idb_tokens (view w')) \<Longrightarrow> tok_SessionID t = ?i \<Longrightarrow> tok_RevokedAt t \<noteq> None"
    using v2 v3 by (auto simp: e MarkRevoked_frame set_upd_rows)
  show "marked (view w') (env_uuid_String E ?i) (sess_ExpiresAt s - Second div 2)"
    unfolding e using alive mono e by (intro MarkRevoked_up) simp
  show "filter (\<lambda>r. sess_ID r \<noteq> ?i) (idb_sessions (view w')) = filter (\<lambda>r. sess_ID r \<noteq> ?i) (idb_sessions (view w))"
    "filter (\<lambda>r. tok_SessionID r \<noteq> ?i) (idb_tokens (view w')) = filter (\<lambda>r. tok_SessionID r \<noteq> ?i) (idb_tokens (view w))"
    unfolding e MarkRevoked_frame v3 v2 by (simp_all, (rule filter_upd_rows, simp)+)
qed

end

text \<open>The mark of a logout does not outlive the session by more than the call took, and rounding.\<close>

context identity_services_up
begin

lemma MarkRevoked_deadline:
  assumes "2 * (x - clock w) \<ge> Second"
  shows "rd_strings (idb_redis (view (after (MarkRevoked E i x) w))) (revoked_key (env_uuid_String E i)) =
    Some (''revoked'', Some (clock (after (env_Now E) w) + dur_Round (x - clock w) Second))"
  using assms dur_Round_pos_iff [of Second "x - clock w"]
  by (simp add: MarkRevoked_def Let_def clk.now_reads rds.Set_up do_Set_def duration_defs)

lemma Logout_mark_deadline:
  assumes inv: "auth_inv (view w)" and s: "s \<in> set (idb_sessions (view w))" "sess_RevokedAt s = None"
    and w': "w' = after (Logout E (env_uuid_String E (sess_ID s))) w"
    and alive: "Second \<le> 2 * (sess_ExpiresAt s - clock w')"
  obtains t where "rd_strings (idb_redis (view w')) (revoked_key (env_uuid_String E (sess_ID s))) =
      Some (''revoked'', Some t)" and "t \<le> sess_ExpiresAt s + (clock w' - clock w) + Second"
proof -
  let ?i = "sess_ID s" and ?x = "sess_ExpiresAt s"
  define w3 where "w3 = after (token_RevokeBySessionID E ?i)
    (after (session_RevokeByID E ?i) (after (session_FindActiveByID E ?i) w))"
  have mono: "clock w \<le> clock w3"
    unfolding w3_def by (rule order_trans [OF read_clock(1) order_trans [OF write_clock(2) write_clock(6)]])
  have "clock w \<le> clock w'" unfolding w' by (rule ticksD [OF Logout_ticks])
  then have "clock w < ?x" using alive by (simp add: duration_defs)
  with inv s have "result (session_FindActiveByID E ?i) w = Inr s" by (intro FindActiveByID_up)
  then have e: "w' = after (MarkRevoked E ?i ?x) w3" by (simp add: w' Logout_def uuid_roundtrip w3_def)
  have ge: "clock (after (env_Now E) w3) \<le> clock w'"
    unfolding e MarkRevoked_def by (simp add: Let_def rds.redis_clock)
  have "Second \<le> 2 * (?x - clock w3)" using alive ge Now_clock [of w3] by simp
  have "\<bar>2 * (dur_Round (?x - clock w3) Second - (?x - clock w3))\<bar> \<le> Second"
    by (rule dur_Round_close) (simp add: duration_defs)
  with ge mono have "clock (after (env_Now E) w3) + dur_Round (?x - clock w3) Second
      \<le> ?x + (clock w' - clock w) + Second" by (simp add: duration_defs)
  with MarkRevoked_deadline [OF \<open>Second \<le> 2 * (?x - clock w3)\<close>, of ?i] show thesis
    by (intro that) (simp_all add: e)
qed

end

section \<open>Logging in\<close>

text \<open>
  What \<open>Login\<close> leaves behind for a user: one session and one refresh token that ends with it.
\<close>

definition logged_in ::
  "'w auth_env \<Rightarrow> User \<Rightarrow> string \<Rightarrow> string \<Rightarrow> string \<Rightarrow> time \<Rightarrow> identity_db \<Rightarrow> identity_db \<Rightarrow> AuthSession \<Rightarrow> bool" where
  "logged_in E u ip agent raw now d d' s \<longleftrightarrow>
     sess_ID s \<notin> sess_ID ` set (idb_sessions d) \<and> sess_UserID s = user_ID u \<and>
     sess_RevokedAt s = None \<and> sess_ExpiresAt s = now + 7 * 24 * Hour \<and>
     sess_IPAddress s = ip \<and> sess_UserAgent s = agent \<and>
     (\<exists>t. tok_TokenHash t = HashToken E raw \<and> tok_SessionID t = sess_ID s \<and> tok_UserID t = user_ID u \<and>
        tok_ExpiresAt t = sess_ExpiresAt s \<and> tok_RevokedAt t = None \<and>
        tok_ID t \<notin> tok_ID ` set (idb_tokens d) \<and>
        d' = idb_tokens_update (\<lambda>ts. ts @ [t]) (idb_sessions_update (\<lambda>ss. ss @ [s]) d))"

context identity_services
begin

lemma Login_ticks: "ticks clock (Login E email pw ip agent)"
  unfolding Login_def Let_def by (auto intro!: ticking split: sum.split option.split)

end

context identity_services_up
begin

lemma Login_rejects:
  assumes inv: "auth_inv (view w)"
    and bad: "\<And>u. u \<in> set (idb_users (view w)) \<Longrightarrow> user_Email u = email \<Longrightarrow> user_DeletedAt u = None \<Longrightarrow>
      \<not> env_CompareHashAndPassword E (user_Password u) pw"
  shows "result (Login E email pw ip agent) w = Inl ErrInvalidCredentials"
    and "view (after (Login E email pw ip agent) w) = view w"
proof -
  have "result (user_FindByEmail E email) w = Inr None \<or>
    (\<exists>u. result (user_FindByEmail E email) w = Inr (Some u) \<and> \<not> env_CompareHashAndPassword E (user_Password u) pw)"
  proof (cases "\<exists>u \<in> set (idb_users (view w)). user_Email u = email \<and> user_DeletedAt u = None")
    case True
    then show ?thesis using FindByEmail_up [OF inv] bad by blast
  next
    case False
    then have "result (user_FindByEmail E email) w = Inr None" by (intro FindByEmail_none) auto
    then show ?thesis ..
  qed
  then show "result (Login E email pw ip agent) w = Inl ErrInvalidCredentials"
    and "view (after (Login E email pw ip agent) w) = view w"
    by (auto simp: Login_def)
qed

lemma Login_accepts:
  assumes inv: "auth_inv (view w)" and u: "u \<in> set (idb_users (view w))" "user_Email u = email" "user_DeletedAt u = None"
    and pw: "env_CompareHashAndPassword E (user_Password u) pw"
  obtains s raw now t1 t2 where "clock w \<le> now" and "now \<le> t1" and "t1 \<le> t2"
    and "t2 \<le> clock (after (Login E email pw ip agent) w)"
    and "logged_in E u ip agent raw now (view w) (view (after (Login E email pw ip agent) w)) s"
    and "result (Login E email pw ip agent) w =
      (case env_SignedString E (access_claims E (user_ID u) (user_RoleCode u) (sess_ID s)
              (Unix (t1 + 15 * Minute)) (Unix t2)) (env_jwtSecret E) of
         None \<Rightarrow> Inl (ErrSigning ''failed to sign access token: '')
       | Some a \<Rightarrow> Inr \<lparr>lr_AccessToken = a, lr_RefreshToken = raw, lr_ExpiresIn = 15 * 60, lr_User = u\<rparr>)"
proof -
  have f: "result (user_FindByEmail E email) w = Inr (Some u)" using FindByEmail_up inv u by blast
  define w1 where "w1 = after (user_FindByEmail E email) w"
  define now where "now = result (env_Now E) w1"
  define w2 where "w2 = after (env_Now E) w1"
  define raw where "raw = result (GenerateRefreshToken E) w2"
  define w3 where "w3 = after (GenerateRefreshToken E) w2"
  define m where "m = new_session (user_ID u) (now + 168 * Hour) now ip agent"
  have v3: "view w3 = view w" "view w2 = view w" by (simp_all add: w3_def w2_def w1_def)
  obtain s where s: "result (session_Create E m) w3 = Inr s" "session_filled m s"
    "sess_ID s \<notin> sess_ID ` set (idb_sessions (view w))"
    "view (after (session_Create E m) w3) = idb_sessions_update (\<lambda>ss. ss @ [s]) (view w)"
    using session_Create_up [of w3 m] inv v3 by (auto simp: m_def new_session_def)
  define w4 where "w4 = after (session_Create E m) w3"
  define n where "n = new_token (sess_ID s) (user_ID u) (HashToken E raw) (now + 168 * Hour)"
  have inv4: "auth_inv (view w4)"
    using session_Create_step [of w3] auth_steps_inv inv v3 unfolding w4_def m_def by metis
  have fresh: "HashToken E raw \<notin> tok_TokenHash ` set (idb_tokens (view w4))"
    using uuid_New_fresh [of w2] v3 by (simp add: raw_def GenerateRefreshToken_result w4_def s(4))
  obtain t where t: "result (token_Create E n) w4 = Inr t" "token_filled n t"
    "tok_ID t \<notin> tok_ID ` set (idb_tokens (view w4))"
    "view (after (token_Create E n) w4) = idb_tokens_update (\<lambda>ts. ts @ [t]) (view w4)"
    using token_Create_up [of w4 n] inv4 fresh by (auto simp: n_def new_token_def)
  define w5 where "w5 = after (token_Create E n) w4"
  obtain t1 t2 where g: "clock w5 \<le> t1" "t1 \<le> t2"
    "t2 \<le> clock (after (GenerateAccessToken E (user_ID u) (user_RoleCode u) (sess_ID s)) w5)"
    "result (GenerateAccessToken E (user_ID u) (user_RoleCode u) (sess_ID s)) w5 =
      env_SignedString E (access_claims E (user_ID u) (user_RoleCode u) (sess_ID s)
        (Unix (t1 + 15 * Minute)) (Unix t2)) (env_jwtSecret E)"
    by (rule GenerateAccessToken_result)
  have w': "after (Login E email pw ip agent) w =
      after (GenerateAccessToken E (user_ID u) (user_RoleCode u) (sess_ID s)) w5"
    and res: "result (Login E email pw ip agent) w =
      (case result (GenerateAccessToken E (user_ID u) (user_RoleCode u) (sess_ID s)) w5 of
         None \<Rightarrow> Inl (ErrSigning ''failed to sign access token: '')
       | Some a \<Rightarrow> Inr \<lparr>lr_AccessToken = a, lr_RefreshToken = raw, lr_ExpiresIn = 15 * 60, lr_User = u\<rparr>)"
    using f pw s(1) t(1)
    by (simp_all add: Login_def Let_def split: option.split
        flip: w1_def now_def w2_def raw_def w3_def m_def w4_def n_def w5_def)
  have "clock w \<le> now" using read_clock(3) by (simp add: now_def clk.now_reads w1_def)
  moreover have "now \<le> clock w5"
  proof -
    have "clock w1 \<le> clock w2" "clock w2 \<le> clock w3" "clock w3 \<le> clock w4" "clock w4 \<le> clock w5"
      unfolding w5_def w4_def w3_def w2_def by (rule clocks)+
    then show ?thesis by (simp add: now_def clk.now_reads)
  qed
  moreover have "logged_in E u ip agent raw now (view w) (view (after (Login E email pw ip agent) w)) s"
  proof -
    have "sess_UserID s = user_ID u" "sess_RevokedAt s = None" "sess_ExpiresAt s = now + 7 * 24 * Hour"
      "sess_IPAddress s = ip" "sess_UserAgent s = agent"
      using s(2) by (auto simp: session_filled_def m_def new_session_def)
    moreover have "tok_TokenHash t = HashToken E raw" "tok_SessionID t = sess_ID s" "tok_UserID t = user_ID u"
      "tok_ExpiresAt t = now + 7 * 24 * Hour" "tok_RevokedAt t = None"
      using t(2) by (auto simp: token_filled_def n_def new_token_def)
    moreover have "view (after (Login E email pw ip agent) w) =
        idb_tokens_update (\<lambda>ts. ts @ [t]) (idb_sessions_update (\<lambda>ss. ss @ [s]) (view w))"
      using t(4) s(4) by (simp add: w' w5_def w4_def)
    ultimately show ?thesis using s(3) t(3) by (auto simp: logged_in_def w4_def s(4))
  qed
  ultimately show thesis using that [of now t1 t2 raw s] g w' res by simp
qed

end

section \<open>Rotating a refresh token\<close>

text \<open>
  \<open>rotated E t s raw now d d' t'\<close>: the token \<open>t\<close> of the session \<open>s\<close> is revoked and points to the
  new token \<open>t'\<close>, which is the only other change.
\<close>

definition rotated ::
  "'w auth_env \<Rightarrow> RefreshToken \<Rightarrow> AuthSession \<Rightarrow> string \<Rightarrow> time \<Rightarrow> identity_db \<Rightarrow> identity_db \<Rightarrow> RefreshToken \<Rightarrow> bool" where
  "rotated E t s raw now d d' t' \<longleftrightarrow>
     tok_TokenHash t' = HashToken E raw \<and> tok_SessionID t' = sess_ID s \<and> tok_UserID t' = sess_UserID s \<and>
     tok_RevokedAt t' = None \<and> tok_ExpiresAt t' = min (sess_ExpiresAt s) (now + 7 * 24 * Hour) \<and>
     tok_ID t' \<notin> tok_ID ` set (idb_tokens d) \<and>
     (\<exists>a b. d' = idb_tokens_update
        (\<lambda>ts. upd_rows (\<lambda>r. tok_ID r = tok_ID t) (revoke_token a (Some (tok_ID t')) b) ts @ [t']) d)"

lemma upd_rows_append: "upd_rows P g (xs @ ys) = upd_rows P g xs @ upd_rows P g ys"
  by (simp add: upd_rows_def)

lemma revoke_twice:
  "upd_rows (\<lambda>r. tok_ID r = i) (revoke_token a (Some j) b) (upd_rows (\<lambda>r. tok_ID r = i) (revoke_token c None d) ts) =
   upd_rows (\<lambda>r. tok_ID r = i) (revoke_token a (Some j) b) ts"
  by (simp add: upd_rows_def revoke_token_def)

lemma refresh_expiry_min: "refresh_expiry s now = min (sess_ExpiresAt s) (now + 7 * 24 * Hour)"
  by (simp add: refresh_expiry_def Let_def min_def)

context identity_services
begin

lemma Refresh_rotate_ticks: "ticks clock (Refresh_rotate E t s u)"
  unfolding Refresh_rotate_def Let_def by (auto intro!: ticking split: sum.split option.split)

lemma Refresh_ticks: "ticks clock (Refresh E token)"
  unfolding Refresh_def
  by (auto intro!: ticking LogoutAll_ticks Refresh_rotate_ticks split: sum.split option.split)

end

context identity_services_up
begin

lemma Refresh_rotate_up:
  assumes inv: "auth_inv (view w)" and t: "t \<in> set (idb_tokens (view w))"
    and s: "s \<in> set (idb_sessions (view w))" and u: "user_ID u = sess_UserID s"
  obtains t' raw now t1 t2 where "clock w \<le> now" and "now \<le> t1" and "t1 \<le> t2"
    and "t2 \<le> clock (after (Refresh_rotate E t s u) w)"
    and "rotated E t s raw now (view w) (view (after (Refresh_rotate E t s u) w)) t'"
    and "result (Refresh_rotate E t s u) w =
      (case env_SignedString E (access_claims E (user_ID u) (user_RoleCode u) (sess_ID s)
              (Unix (t1 + 15 * Minute)) (Unix t2)) (env_jwtSecret E) of
         None \<Rightarrow> Inl (ErrSigning ''failed to generate new access token: '')
       | Some a \<Rightarrow> Inr \<lparr>rr_AccessToken = a, rr_RefreshToken = raw, rr_ExpiresIn = 15 * 60\<rparr>)"
proof -
  define raw where "raw = result (GenerateRefreshToken E) w"
  define w1 where "w1 = after (GenerateRefreshToken E) w"
  define now where "now = result (env_Now E) w1"
  define w2 where "w2 = after (env_Now E) w1"
  define m where "m = new_token (sess_ID s) (user_ID u) (HashToken E raw) (refresh_expiry s now)"
  define w3 where "w3 = after (token_RevokeByID E (tok_ID t)) w2"
  have v2: "view w2 = view w" by (simp add: w2_def w1_def)
  then have inv2: "auth_inv (view w2)" using inv by simp
  then have inv3: "auth_inv (view w3)" unfolding w3_def using token_RevokeByID_step auth_steps_inv by blast
  obtain a b where v3: "view w3 = idb_tokens_update (upd_rows (\<lambda>r. tok_ID r = tok_ID t) (revoke_token a None b)) (view w)"
    using token_RevokeByID_up [OF inv2, of "tok_ID t"] v2 by (auto simp: w3_def)
  have ids: "map tok_ID (idb_tokens (view w3)) = map tok_ID (idb_tokens (view w))"
    and hs: "map tok_TokenHash (idb_tokens (view w3)) = map tok_TokenHash (idb_tokens (view w))"
    by (simp_all add: v3 map_upd_rows)
  have "HashToken E raw \<notin> tok_TokenHash ` set (idb_tokens (view w3))"
    using uuid_New_fresh [of w] hs by (metis GenerateRefreshToken_result image_set raw_def)
  then obtain t' where t': "result (token_Create E m) w3 = Inr t'" "token_filled m t'"
    "tok_ID t' \<notin> tok_ID ` set (idb_tokens (view w3))"
    "view (after (token_Create E m) w3) = idb_tokens_update (\<lambda>ts. ts @ [t']) (view w3)"
    using token_Create_up [of w3 m] inv3 by (auto simp: m_def new_token_def)
  have new: "tok_ID t' \<notin> tok_ID ` set (idb_tokens (view w))" using t'(3) ids by (metis image_set)
  then have neq: "tok_ID t' \<noteq> tok_ID t" using t by auto
  define w4 where "w4 = after (token_Create E m) w3"
  have s3: "s \<in> set (idb_sessions (view w3))" using s by (simp add: v3)
  have "auth_step\<^sup>*\<^sup>* (view w3) (view w4)"
    unfolding w4_def m_def
    by (rule token_Create_step [OF s3]) (simp_all add: u refresh_expiry_min)
  then have inv4: "auth_inv (view w4)" using inv3 auth_steps_inv by blast
  define w5 where "w5 = after (token_MarkReplacement E (tok_ID t) (tok_ID t')) w4"
  obtain c d where "view w5 = idb_tokens_update
      (upd_rows (\<lambda>r. tok_ID r = tok_ID t) (revoke_token c (Some (tok_ID t')) d)) (view w4)"
    using token_MarkReplacement_up [OF inv4, of "tok_ID t" "tok_ID t'"] by (auto simp: w5_def)
  then have v5: "view w5 = idb_tokens_update (\<lambda>ts. upd_rows (\<lambda>r. tok_ID r = tok_ID t)
      (revoke_token c (Some (tok_ID t')) d) ts @ [t']) (view w)"
    using t'(4) neq by (simp add: w4_def v3 upd_rows_append comp_def revoke_twice) (simp add: upd_rows_def)
  obtain t1 t2 where g: "clock w5 \<le> t1" "t1 \<le> t2"
    "t2 \<le> clock (after (GenerateAccessToken E (user_ID u) (user_RoleCode u) (sess_ID s)) w5)"
    "result (GenerateAccessToken E (user_ID u) (user_RoleCode u) (sess_ID s)) w5 =
      env_SignedString E (access_claims E (user_ID u) (user_RoleCode u) (sess_ID s)
        (Unix (t1 + 15 * Minute)) (Unix t2)) (env_jwtSecret E)"
    by (rule GenerateAccessToken_result)
  have w': "after (Refresh_rotate E t s u) w =
      after (GenerateAccessToken E (user_ID u) (user_RoleCode u) (sess_ID s)) w5"
    and res: "result (Refresh_rotate E t s u) w =
      (case result (GenerateAccessToken E (user_ID u) (user_RoleCode u) (sess_ID s)) w5 of
         None \<Rightarrow> Inl (ErrSigning ''failed to generate new access token: '')
       | Some a \<Rightarrow> Inr \<lparr>rr_AccessToken = a, rr_RefreshToken = raw, rr_ExpiresIn = 15 * 60\<rparr>)"
    using t'(1) by (simp_all add: Refresh_rotate_def Let_def split: option.split
        flip: w1_def now_def w2_def raw_def w3_def m_def w4_def w5_def)
  have "clock w \<le> now" using read_clock(6) by (simp add: now_def clk.now_reads w1_def)
  moreover have "now \<le> clock w5"
  proof -
    have "clock w1 \<le> clock w2" "clock w2 \<le> clock w3" "clock w3 \<le> clock w4" "clock w4 \<le> clock w5"
      unfolding w5_def w4_def w3_def w2_def by (rule clocks)+
    then show ?thesis by (simp add: now_def clk.now_reads)
  qed
  moreover have "rotated E t s raw now (view w) (view (after (Refresh_rotate E t s u) w)) t'"
    using t'(2) new v5 by (auto simp: rotated_def w' token_filled_def m_def new_token_def u refresh_expiry_min)
  ultimately show thesis using that [of now t1 t2 raw t'] g w' res by simp
qed

lemma Refresh_accepts:
  assumes inv: "auth_inv (view w)" and t: "t \<in> set (idb_tokens (view w))" "tok_RevokedAt t = None"
    "tok_TokenHash t = HashToken E token" "token \<noteq> []"
    and s: "s \<in> set (idb_sessions (view w))" "sess_ID s = tok_SessionID t" "sess_RevokedAt s = None"
    and u: "u \<in> set (idb_users (view w))" "user_ID u = sess_UserID s" "user_DeletedAt u = None"
    and alive: "clock (after (Refresh E token) w) < tok_ExpiresAt t"
  obtains w1 where "after (Refresh E token) w = after (Refresh_rotate E t s u) w1"
    and "result (Refresh E token) w = result (Refresh_rotate E t s u) w1"
    and "view w1 = view w" and "clock w \<le> clock w1"
proof -
  define w1 where "w1 = after (token_FindByTokenHash E (HashToken E token)) w"
  define w2 where "w2 = after (env_Now E) w1"
  define w3 where "w3 = after (session_FindActiveByID E (sess_ID s)) w2"
  define w4 where "w4 = after (user_FindByID E (user_ID u)) w3"
  have v: "view w1 = view w" "view w2 = view w" "view w3 = view w" "view w4 = view w"
    by (simp_all add: w4_def w3_def w2_def w1_def)
  have mono: "clock w \<le> clock w1" "clock w1 \<le> clock w2" "clock w2 \<le> clock w3" "clock w3 \<le> clock w4"
    unfolding w4_def w3_def w2_def w1_def by (rule clocks)+
  have f: "result (token_FindByTokenHash E (HashToken E token)) w = Inr t"
    using FindByTokenHash_up [OF inv t(1)] t(3) by simp
  have le: "tok_ExpiresAt t \<le> sess_ExpiresAt s"
  proof -
    obtain s' where "s' \<in> set (idb_sessions (view w))" "belongs t s'" using inv t(1) by (auto simp: auth_inv_def)
    moreover from this have "s' = s"
      using inv s(1,2) by (auto simp: auth_inv_def sessions_uniq_def belongs_def dest: distinct_map_same)
    ultimately show ?thesis by (simp add: belongs_def)
  qed
  have now: "result (env_Now E) w1 = clock w1" by (rule clk.now_reads)
  have lt1: "\<not> tok_ExpiresAt t < clock w1"
  proof
    assume "tok_ExpiresAt t < clock w1"
    then have "after (Refresh E token) w = w2"
      using f t by (simp add: Refresh_def now flip: w1_def w2_def)
    with alive mono \<open>tok_ExpiresAt t < clock w1\<close> show False by simp
  qed
  have lt2: "clock w2 < sess_ExpiresAt s"
  proof (rule ccontr)
    assume late: "\<not> clock w2 < sess_ExpiresAt s"
    let ?k = "do {
        active \<leftarrow> session_FindActiveByID E (tok_SessionID t);
        case active of
          Inl e \<Rightarrow> ret (Inl ErrInvalidRefreshToken)
        | Inr session \<Rightarrow> do {
            u \<leftarrow> user_FindByID E (sess_UserID session);
            case u of
              Inl e \<Rightarrow> ret (Inl ErrUserNotFound)
            | Inr None \<Rightarrow> ret (Inl ErrUserNotFound)
            | Inr (Some user) \<Rightarrow> Refresh_rotate E t session user
          }
      }"
    have "ticks clock ?k"
      by (auto intro!: ticking Refresh_rotate_ticks split: sum.split option.split)
    moreover have "after (Refresh E token) w = after ?k w2"
      using f t lt1 by (simp add: Refresh_def now flip: w1_def w2_def)
    ultimately have "clock w2 \<le> clock (after (Refresh E token) w)" by (simp only: ticksD)
    with alive le late show False by simp
  qed
  have f2: "result (session_FindActiveByID E (sess_ID s)) w2 = Inr s"
    using FindActiveByID_up [of w2 s] inv s(1,3) lt2 v by simp
  have f3: "result (user_FindByID E (user_ID u)) w3 = Inr (Some u)"
    using FindByID_up [of w3 u] inv u v by simp
  have "run_state (Refresh E token) w = run_state (Refresh_rotate E t s u) w4"
    using f t lt1 f2 f3 by (simp add: run_state_result_after Refresh_def now s(2) [symmetric] u(2) [symmetric]
        flip: w1_def w2_def w3_def w4_def)
  then show thesis using v mono by (intro that [of w4]) (simp_all add: run_state_result_after)
qed

lemma Refresh_reuse:
  assumes inv: "auth_inv (view w)" and t: "t \<in> set (idb_tokens (view w))" "tok_RevokedAt t \<noteq> None"
    "tok_TokenHash t = HashToken E token" "token \<noteq> []"
  obtains w1 where "after (Refresh E token) w = after (LogoutAll E (tok_UserID t)) w1"
    and "result (Refresh E token) w = Inl ErrInvalidRefreshToken" and "view w1 = view w" and "clock w \<le> clock w1"
proof -
  define w1 where "w1 = after (token_FindByTokenHash E (HashToken E token)) w"
  have "result (token_FindByTokenHash E (HashToken E token)) w = Inr t"
    using FindByTokenHash_up [OF inv t(1)] t(3) by simp
  with t show thesis using read_clock
    by (intro that [of w1]) (auto simp: Refresh_def w1_def)
qed

lemma Refresh_unknown:
  assumes "\<And>t. t \<in> set (idb_tokens (view w)) \<Longrightarrow> tok_TokenHash t \<noteq> HashToken E token"
  shows "result (Refresh E token) w = Inl ErrInvalidRefreshToken"
    and "view (after (Refresh E token) w) = view w"
proof -
  have "\<exists>e. result (token_FindByTokenHash E (HashToken E token)) w = Inl e"
    by (cases "result (token_FindByTokenHash E (HashToken E token)) w")
      (use assms in \<open>auto simp: token_FindByTokenHash_def dest!: tok.First_found\<close>)
  then show "result (Refresh E token) w = Inl ErrInvalidRefreshToken"
    and "view (after (Refresh E token) w) = view w"
    by (auto simp: Refresh_def)
qed

end

end
