(* ===== verification/Identity_Security.thy ===== *)
theory Identity_Security
  imports Identity Grpc Http
begin

text \<open>
  The security layer of \<open>sms-identity\<close>: the authenticator, the CSRF check, the interceptors of
  the gRPC server, the endpoint that Traefik asks before it forwards a request, and the gRPC
  handlers over the authentication service.
\<close>

section \<open>Authenticator\<close>

datatype authn_error = ErrInvalidToken | ErrSessionRevoked

definition authn_message :: "authn_error \<Rightarrow> string" where
  "authn_message e = (case e of ErrInvalidToken \<Rightarrow> ''invalid token'' | ErrSessionRevoked \<Rightarrow> ''session is already revoked'')"

text \<open>
  The parser returns the claims it was given to fill, so the type assertion on them cannot
  fail. \<open>redisClient\<close> is nil when Redis is switched off.
\<close>

definition principal_of :: "claims \<Rightarrow> Principal" where
  "principal_of c =
     \<lparr>pr_UserID = clm_UserID c, pr_Username = clm_Username c, pr_Email = clm_Email c,
      pr_RoleID = clm_RoleID c, pr_RoleCode = clm_RoleCode c, pr_SessionID = clm_SessionID c\<rparr>"

definition Authenticate :: "'w auth_env \<Rightarrow> 'w redis option \<Rightarrow> string \<Rightarrow> ('w, authn_error + Principal) state" where
  "Authenticate E redisClient tokenString = do {
     now \<leftarrow> env_Now E;
     case env_ParseWithClaims E tokenString (env_jwtSecret E) [''HS256''] now of
       None \<Rightarrow> ret (Inl ErrInvalidToken)
     | Some parsedClaims \<Rightarrow>
         (case redisClient of
            Some R \<Rightarrow>
              if clm_SessionID parsedClaims \<noteq> [] then do {
                isRevoked \<leftarrow> cmd_Exists R (''revoked_session:'' @ clm_SessionID parsedClaims);
                ret (case isRevoked of
                       Inr n \<Rightarrow> if 0 < n then Inl ErrSessionRevoked else Inr (principal_of parsedClaims)
                     | Inl e \<Rightarrow> Inr (principal_of parsedClaims))
              } else ret (Inr (principal_of parsedClaims))
          | None \<Rightarrow> ret (Inr (principal_of parsedClaims)))
   }"

section \<open>CSRF\<close>

datatype csrf_error = ErrMissingCSRF | ErrCSRFMismatch

definition csrf_message :: "csrf_error \<Rightarrow> string" where
  "csrf_message e = (case e of ErrMissingCSRF \<Rightarrow> ''missing CSRF token'' | ErrCSRFMismatch \<Rightarrow> ''CSRF token mismatch'')"

definition GenerateCSRFToken :: "'w auth_env \<Rightarrow> ('w, string option) state" where
  "GenerateCSRFToken E = do {
     b \<leftarrow> env_rand_Read E 32;
     ret (map_option hex_EncodeToString b)
   }"

definition ValidateCSRFToken :: "'w auth_env \<Rightarrow> string \<Rightarrow> string \<Rightarrow> csrf_error option" where
  "ValidateCSRFToken E cookieValue headerValue =
     (if cookieValue = [] \<or> headerValue = [] then Some ErrMissingCSRF
      else if env_Sum256 E cookieValue \<noteq> env_Sum256 E headerValue then Some ErrCSRFMismatch
      else None)"

section \<open>Interceptors\<close>

definition extractBearerTokenFromMetadata :: "grpc_ctx \<Rightarrow> string + string" where
  "extractBearerTokenFromMetadata ctx =
     (case ctx_Metadata ctx of
        None \<Rightarrow> Inl ''missing token''
      | Some md \<Rightarrow>
          (case md ''authorization'' of
             [] \<Rightarrow> Inl ''missing token''
           | v # _ \<Rightarrow>
               (case Split2 (TrimSpace v) CHR '' '' of
                  [a, b] \<Rightarrow> if a \<noteq> ''Bearer'' \<or> TrimSpace b = [] then Inl ''invalid token'' else Inr (TrimSpace b)
                | _ \<Rightarrow> Inl ''invalid token'')))"

definition AuthenticationInterceptor ::
  "'w auth_env \<Rightarrow> 'w redis option \<Rightarrow> (string \<Rightarrow> bool option) \<Rightarrow> ('w, 'a, 'b) interceptor" where
  "AuthenticationInterceptor E redisClient publicMethods method h ctx req =
     (if map_bool publicMethods method then h ctx req
      else case extractBearerTokenFromMetadata ctx of
        Inl e \<Rightarrow> ret (Inl (Status Unauthenticated e))
      | Inr tokenString \<Rightarrow> do {
          r \<leftarrow> Authenticate E redisClient tokenString;
          case r of
            Inl e \<Rightarrow> ret (Inl (Status Unauthenticated ''invalid authorize format''))
          | Inr p \<Rightarrow> h (SetPrincipal ctx p) req
        })"

definition stateChangingMethods :: "string \<Rightarrow> bool option" where
  "stateChangingMethods =
     [''/portal.auth.v1.AuthService/Login'' \<mapsto> True,
      ''/portal.auth.v1.AuthService/Logout'' \<mapsto> True,
      ''/portal.auth.v1.AuthService/LogoutAll'' \<mapsto> True]"

definition CSRFInterceptor :: "'w auth_env \<Rightarrow> ('w, 'a, 'b) interceptor" where
  "CSRFInterceptor E method h ctx req =
     (if \<not> map_bool stateChangingMethods method then h ctx req
      else case ctx_Metadata ctx of
        None \<Rightarrow> h ctx req
      | Some md \<Rightarrow>
          let cookieToken = TrimSpace (first_value md ''cookie-csrf-token'');
              headerToken = TrimSpace (first_value md ''x-csrf-token'')
          in if cookieToken = [] \<and> headerToken = [] then h ctx req
             else case ValidateCSRFToken E cookieToken headerToken of
               Some e \<Rightarrow> ret (Inl (Status PermissionDenied (''CSRF validation failed: '' @ csrf_message e)))
             | None \<Rightarrow> h ctx req)"

section \<open>The endpoint of Traefik\<close>

definition extractToken :: "http_request \<Rightarrow> string" where
  "extractToken r =
     (let authHeader = Header_Get r ''Authorization'' in
      if HasPrefix authHeader ''Bearer '' then TrimPrefix authHeader ''Bearer ''
      else case Cookie r ''jwt_token'' of Some v \<Rightarrow> v | None \<Rightarrow> [])"

text \<open>The last part \<open>csrf_token=...\<close> of the last such \<open>Cookie\<close> header wins.\<close>

definition csrf_cookie :: "string list \<Rightarrow> string" where
  "csrf_cookie cookieValues =
     fold (\<lambda>cookieStr tok.
         if Contains cookieStr ''csrf_token='' then
           fold (\<lambda>part tok.
               let p = TrimSpace part in
               if HasPrefix p ''csrf_token='' then TrimPrefix p ''csrf_token='' else tok)
             (Split cookieStr CHR '';'') tok
         else tok)
       cookieValues []"

definition validateCSRF :: "'w auth_env \<Rightarrow> http_request \<Rightarrow> csrf_error option" where
  "validateCSRF E r =
     (let method = ToUpper (Header_Get r ''X-Forwarded-Method'') in
      if method \<noteq> ''POST'' \<and> method \<noteq> ''PUT'' \<and> method \<noteq> ''DELETE'' \<and> method \<noteq> ''PATCH'' then None
      else ValidateCSRFToken E (csrf_cookie (req_Header r ''Cookie'')) (Header_Get r ''X-Csrf-Token''))"

definition Verify :: "'w auth_env \<Rightarrow> 'w redis option \<Rightarrow> http_request \<Rightarrow> ('w, http_response) state" where
  "Verify E redisClient r =
     (let token = extractToken r in
      if token = [] then ret (http_Error ''Unauthorized: No token provided'' StatusUnauthorized)
      else do {
        a \<leftarrow> Authenticate E redisClient token;
        case a of
          Inl e \<Rightarrow> ret (http_Error (''Unauthorized: '' @ authn_message e) StatusUnauthorized)
        | Inr p \<Rightarrow>
            ret (case (if Header_Get r ''Authorization'' = [] then validateCSRF E r else None) of
                   Some e \<Rightarrow> http_Error (''Forbidden: CSRF validation failed - '' @ csrf_message e) StatusForbidden
                 | None \<Rightarrow>
                     \<lparr>resp_Status = StatusOK,
                      resp_Header = [(''X-User-Id'', pr_UserID p), (''X-User-Role'', pr_RoleCode p),
                        (''X-User-Email'', pr_Email p), (''X-User-Name'', pr_Username p)],
                      resp_Body = []\<rparr>)
      })"

section \<open>The gRPC handlers\<close>

definition authCookie :: "string \<Rightarrow> string \<Rightarrow> int \<Rightarrow> bool \<Rightarrow> string" where
  "authCookie name v maxAge httpOnly = Cookie_String name v maxAge httpOnly"

definition clearCookie :: "string \<Rightarrow> string" where
  "clearCookie name = Cookie_String name [] (- 1) (name \<noteq> ''csrf_token'')"

definition getClientIP :: "grpc_ctx \<Rightarrow> string" where
  "getClientIP ctx = (case ctx_Peer ctx of Some a \<Rightarrow> a | None \<Rightarrow> [])"

definition getUserAgent :: "grpc_ctx \<Rightarrow> string" where
  "getUserAgent ctx =
     (case ctx_Metadata ctx of
        Some md \<Rightarrow>
          (case md ''grpcgateway-user-agent'' of
             a # _ \<Rightarrow> a
           | [] \<Rightarrow> (case md ''user-agent'' of a # _ \<Rightarrow> a | [] \<Rightarrow> []))
      | None \<Rightarrow> [])"

text \<open>A reply with the headers that the handler set (\<open>grpc.SetHeader\<close> puts the keys in lower case).\<close>

record tokens_reply =
  tr_AccessToken :: string
  tr_RefreshToken :: string
  tr_TokenType :: string
  tr_ExpiresIn :: int
  tr_Header :: "(string \<times> string) list"

record message_reply =
  mr_Message :: string
  mr_Header :: "(string \<times> string) list"

definition token_headers :: "string option \<Rightarrow> string \<Rightarrow> string \<Rightarrow> int \<Rightarrow> (string \<times> string) list" where
  "token_headers csrfToken access refresh expiresIn =
     (case csrfToken of
        None \<Rightarrow> []
      | Some csrf \<Rightarrow>
          [(''set-cookie-access-token'', authCookie ''access_token'' access expiresIn True),
           (''set-cookie-refresh-token'', authCookie ''refresh_token'' refresh 604800 True),
           (''set-cookie-csrf-token'', authCookie ''csrf_token'' csrf 86400 False)])"

definition clear_headers :: "(string \<times> string) list" where
  "clear_headers =
     [(''clear-cookie'', clearCookie ''access_token''),
      (''clear-cookie'', clearCookie ''refresh_token''),
      (''clear-cookie'', clearCookie ''csrf_token'')]"

definition AuthServer_Login :: "'w auth_env \<Rightarrow> ('w, string \<times> string, tokens_reply) handler" where
  "AuthServer_Login E ctx req =
     (let (identifier, password) = req in
      if identifier = [] \<or> password = []
      then ret (Inl (Status InvalidArgument ''identifier and password are required''))
      else do {
        r \<leftarrow> Login E identifier password (getClientIP ctx) (getUserAgent ctx);
        case r of
          Inl e \<Rightarrow>
            ret (Inl (if e = ErrInvalidCredentials then Status Unauthenticated ''invalid credentials''
                      else Status Internal ''failed to login''))
        | Inr res \<Rightarrow> do {
            csrfToken \<leftarrow> GenerateCSRFToken E;
            ret (Inr \<lparr>tr_AccessToken = lr_AccessToken res, tr_RefreshToken = lr_RefreshToken res,
                     tr_TokenType = ''Bearer'', tr_ExpiresIn = lr_ExpiresIn res,
                     tr_Header = token_headers csrfToken (lr_AccessToken res) (lr_RefreshToken res) (lr_ExpiresIn res)\<rparr>)
          }
      })"

definition AuthServer_Logout :: "'w auth_env \<Rightarrow> ('w, unit, message_reply) handler" where
  "AuthServer_Logout E ctx req = do {
     (case GetPrincipal ctx of
        Some p \<Rightarrow>
          if pr_SessionID p \<noteq> [] then do { Logout E (pr_SessionID p); ret () } else ret ()
      | None \<Rightarrow> ret ());
     ret (Inr \<lparr>mr_Message = ''Logout successful'', mr_Header = clear_headers\<rparr>)
   }"

definition AuthServer_RefreshToken :: "'w auth_env \<Rightarrow> ('w, string, tokens_reply) handler" where
  "AuthServer_RefreshToken E ctx refreshToken =
     (if refreshToken = [] then ret (Inl (Status InvalidArgument ''refresh token is required''))
      else do {
        r \<leftarrow> Refresh E refreshToken;
        case r of
          Inl e \<Rightarrow>
            ret (Inl (if e = ErrInvalidRefreshToken then Status Unauthenticated ''invalid refresh token''
                      else Status Internal ''failed to refresh token''))
        | Inr res \<Rightarrow> do {
            csrfToken \<leftarrow> GenerateCSRFToken E;
            ret (Inr \<lparr>tr_AccessToken = rr_AccessToken res, tr_RefreshToken = rr_RefreshToken res,
                     tr_TokenType = ''Bearer'', tr_ExpiresIn = rr_ExpiresIn res,
                     tr_Header = token_headers csrfToken (rr_AccessToken res) (rr_RefreshToken res) (rr_ExpiresIn res)\<rparr>)
          }
      })"

text \<open>An error that carries no status is reported to the client with the code \<open>Unknown\<close>.\<close>

definition AuthServer_LogoutAll :: "'w auth_env \<Rightarrow> ('w, unit, message_reply) handler" where
  "AuthServer_LogoutAll E ctx req =
     (let done = ret (Inr \<lparr>mr_Message = ''Logout all successful'', mr_Header = clear_headers\<rparr>) in
      case GetPrincipal ctx of
        Some p \<Rightarrow>
          if pr_UserID p \<noteq> [] then
            (case Sscanf_uint (pr_UserID p) of
               None \<Rightarrow> ret (Inl (Status Unknown ''invalid user id format in token: ''))
             | Some userID \<Rightarrow>
                 if 0 < userID then do { LogoutAll E userID; done } else done)
          else done
      | None \<Rightarrow> done)"

text \<open>
  The server that \<open>Run\<close> starts has one interceptor, and the gateway in front of it turns the
  headers \<open>set-cookie-*\<close> into \<open>Set-Cookie\<close>. \<open>DefaultHeaderMatcher\<close> is the matcher of the gateway
  library for all other headers.
\<close>

definition identity_interceptor :: "'w auth_env \<Rightarrow> ('w, 'a, 'b) interceptor" where
  "identity_interceptor E = CSRFInterceptor E"

definition outgoing_header :: "(string \<Rightarrow> string option) \<Rightarrow> string \<Rightarrow> string option" where
  "outgoing_header DefaultHeaderMatcher key =
     (if HasPrefix key ''set-cookie-'' then Some ''Set-Cookie'' else DefaultHeaderMatcher key)"

section \<open>Seeding users\<close>

text \<open>
  \<open>GenerateFromPassword\<close> is bcrypt; when it fails the hash is empty. The count ignores users
  that are soft-deleted, and a failed count reads as zero.
\<close>

definition seedSingleUser ::
  "'w auth_env \<Rightarrow> (string \<Rightarrow> ('w, string option) state) \<Rightarrow> string \<Rightarrow> string \<Rightarrow> string \<Rightarrow> ('w, unit) state" where
  "seedSingleUser E GenerateFromPassword email password role = do {
     c \<leftarrow> tbl_Count (env_users E) (\<lambda>u. user_Email u = email \<and> user_DeletedAt u = None);
     if (case c of Inl e \<Rightarrow> 0 | Inr n \<Rightarrow> n) = 0 then do {
       hash \<leftarrow> GenerateFromPassword password;
       tbl_Create (env_users E)
         [\<lparr>user_ID = 0, user_CreatedAt = 0, user_UpdatedAt = 0, user_DeletedAt = None, user_Email = email,
           user_Password = (case hash of None \<Rightarrow> [] | Some h \<Rightarrow> h), user_RoleCode = role\<rparr>];
       ret ()
     } else ret ()
   }"

definition SeedUsers ::
  "'w auth_env \<Rightarrow> (string \<Rightarrow> ('w, string option) state) \<Rightarrow> string \<Rightarrow> string \<Rightarrow> string \<Rightarrow> string \<Rightarrow> ('w, unit) state" where
  "SeedUsers E gen adminEmail adminPassword userEmail userPassword = do {
     (if adminEmail = [] \<or> adminPassword = [] then ret ()
      else seedSingleUser E gen adminEmail adminPassword RoleCodeAdmin);
     (if userEmail = [] \<or> userPassword = [] then ret ()
      else seedSingleUser E gen userEmail userPassword RoleCodeUser)
   }"

end
