(* ===== verification/Identity_World.thy ===== *)
theory Identity_World
  imports Identity_Requests Identity_Security
begin

text \<open>
  The laws of the JWT library, and a reference environment for the identity service: the tables
  and the keys of Redis as data, for which all laws are proved.
\<close>

section \<open>The JWT library\<close>

definition string_claim :: "(string \<times> claim) list \<Rightarrow> string \<Rightarrow> string" where
  "string_claim cs k = (case map_of cs k of Some (ClaimString s) \<Rightarrow> s | _ \<Rightarrow> [])"

definition claims_of :: "(string \<times> claim) list \<Rightarrow> claims" where
  "claims_of cs =
     \<lparr>clm_UserID = string_claim cs ''user_id'', clm_SessionID = string_claim cs ''session_id'',
      clm_Username = string_claim cs ''username'', clm_Email = string_claim cs ''email'',
      clm_RoleID = string_claim cs ''role_id'', clm_RoleCode = string_claim cs ''role_code''\<rparr>"

text \<open>
  A token that was signed with HS256 and a secret is accepted with this secret until the second
  in its claim \<open>exp\<close>, and its claims come back. The claims travel as JSON, so their strings must
  be text and their numbers exact in a double.
\<close>

locale jwt_library =
  fixes SignedString :: "(string \<times> claim) list \<Rightarrow> string \<Rightarrow> string option"
    and ParseWithClaims :: "string \<Rightarrow> string \<Rightarrow> string list \<Rightarrow> time \<Rightarrow> claims option"
  assumes jwt_roundtrip:
    "SignedString cs secret = Some t \<Longrightarrow> map_of cs ''exp'' = Some (ClaimNumber x) \<Longrightarrow>
     0 \<le> x \<Longrightarrow> x < 2 ^ 53 \<Longrightarrow> (\<And>k s. (k, ClaimString s) \<in> set cs \<Longrightarrow> ascii s) \<Longrightarrow>
     ParseWithClaims t secret [''HS256''] now =
       (if now < (x + 62135596800) * Second then Some (claims_of cs) else None)"

locale identity_platform = identity_services_up +
  jwt_library "env_SignedString E" "env_ParseWithClaims E" +
  assumes uuid_ascii: "ascii (env_uuid_String E i)" and uuid_nonempty: "env_uuid_String E i \<noteq> []"
    and rand_view [simp]: "view (after (env_rand_Read E n) w) = view w"

section \<open>A reference environment\<close>

text \<open>Strings written one after the other, each with its length in unary.\<close>

definition enc :: "string \<Rightarrow> string" where
  "enc s = replicate (length s) (CHR ''a'') @ CHR ''b'' # s"

definition dec :: "string \<Rightarrow> (string \<times> string)" where
  "dec t = (let n = length (takeWhile (\<lambda>c. c = CHR ''a'') t); r = drop (n + 1) t in (take n r, drop n r))"

lemma dec_enc [simp]: "dec (enc s @ t) = (s, t)"
proof -
  have "takeWhile (\<lambda>c. c = CHR ''a'') (enc s @ t) = replicate (length s) (CHR ''a'')"
    by (simp add: enc_def takeWhile_append)
  then show ?thesis by (simp add: dec_def enc_def Let_def)
qed

lemma dec_enc_end [simp]: "dec (enc s) = (s, [])"
  using dec_enc [of s "[]"] by simp

definition claim_fields :: "string list" where
  "claim_fields = [''user_id'', ''session_id'', ''username'', ''email'', ''role_id'', ''role_code'']"

definition ref_SignedString :: "(string \<times> claim) list \<Rightarrow> string \<Rightarrow> string option" where
  "ref_SignedString cs secret =
     Some (enc secret @ enc (case map_of cs ''exp'' of Some (ClaimNumber x) \<Rightarrow> Itoa x | _ \<Rightarrow> []) @
       concat (map (\<lambda>k. enc (string_claim cs k)) claim_fields))"

definition ref_ParseWithClaims :: "string \<Rightarrow> string \<Rightarrow> string list \<Rightarrow> time \<Rightarrow> claims option" where
  "ref_ParseWithClaims t secret methods now =
     (let (s, t) = dec t; (e, t) = dec t; (u, t) = dec t; (i, t) = dec t; (n, t) = dec t;
          (m, t) = dec t; (r, t) = dec t; (c, t) = dec t
      in if s = secret \<and> now < (fst (Atoi e) + 62135596800) * Second
         then Some \<lparr>clm_UserID = u, clm_SessionID = i, clm_Username = n, clm_Email = m, clm_RoleID = r, clm_RoleCode = c\<rparr>
         else None)"

interpretation ref_jwt: jwt_library ref_SignedString ref_ParseWithClaims
proof
  fix cs secret t x now
  assume "ref_SignedString cs secret = Some t" and "map_of cs ''exp'' = Some (ClaimNumber x)"
    and "(0 :: int) \<le> x" and "x < 2 ^ 53"
  then show "ref_ParseWithClaims t secret [''HS256''] now =
      (if now < (x + 62135596800) * Second then Some (claims_of cs) else None)"
    by (auto simp: ref_SignedString_def ref_ParseWithClaims_def claim_fields_def claims_of_def Atoi_Itoa)
qed

text \<open>
  Passwords are stored as they are, the hash of a token is the token, and the new UUIDs are
  longer than every hash in the table.
\<close>

definition ref_users :: "(identity_db world, User) table" where
  "ref_users = mem_table idb_users idb_users_update users_uniq
     (fill_rows user_ID (\<lambda>k r. r\<lparr>user_ID := k\<rparr>) 0 (\<lambda>l. Suc (sum_list l))) user_stamp"

definition ref_sessions :: "(identity_db world, AuthSession) table" where
  "ref_sessions = mem_table idb_sessions idb_sessions_update sessions_uniq
     (fill_rows sess_ID (\<lambda>k r. r\<lparr>sess_ID := k\<rparr>) uuid_Nil fresh_key) session_stamp"

definition ref_tokens :: "(identity_db world, RefreshToken) table" where
  "ref_tokens = mem_table idb_tokens idb_tokens_update tokens_uniq
     (fill_rows tok_ID (\<lambda>k r. r\<lparr>tok_ID := k\<rparr>) uuid_Nil fresh_key) token_stamp"

definition ref_uuid_New :: "(identity_db world, uuid) state" where
  "ref_uuid_New = State (\<lambda>w. (fresh_key (map tok_TokenHash (idb_tokens (wv w))), w))"

definition hex_value :: "char \<Rightarrow> nat" where
  "hex_value c = (let n = of_char c in if n < 58 then n - 48 else n - 87)"

fun unhex :: "string \<Rightarrow> string" where
  "unhex (a # b # s) = char_of (16 * hex_value a + hex_value b) # unhex s"
| "unhex s = []"

lemma hex_value_digit [simp]: "n < 16 \<Longrightarrow> hex_value (hex_digit n) = n"
  by (simp add: hex_value_def hex_digit_def Let_def)

lemma unhex_hex [simp]: "unhex (hex_EncodeToString s) = s"
  by (induction s) (simp_all add: hex_EncodeToString_def less_mult_imp_div_less)

lemma hex_digit_ascii: "n < 16 \<Longrightarrow> of_char (hex_digit n) < (128 :: nat)"
  by (simp add: hex_digit_def)

lemma ascii_hex: "ascii (hex_EncodeToString s)"
  by (induction s)
    (simp_all add: ascii_def hex_EncodeToString_def hex_digit_ascii less_mult_imp_div_less)

definition ref_auth_env :: "identity_db world auth_env" where
  "ref_auth_env =
     \<lparr>env_users = ref_users, env_sessions = ref_sessions, env_tokens = ref_tokens,
      env_redis = mem_redis idb_redis idb_redis_update, env_Now = mem_Now, env_uuid_New = ref_uuid_New,
      env_uuid_String = (\<lambda>i. CHR ''u'' # hex_EncodeToString i),
      env_uuid_Parse = (\<lambda>s. case s of [] \<Rightarrow> None | c # r \<Rightarrow> Some (unhex r)),
      env_CompareHashAndPassword = (\<lambda>h p. h = p), env_Sum256 = (\<lambda>s. s),
      env_SignedString = ref_SignedString, env_ParseWithClaims = ref_ParseWithClaims,
      env_jwtSecret = ''secret'', env_rand_Read = (\<lambda>n. ret (Some (replicate n (CHR ''r''))))\<rparr>"

lemma suc_sum_notin: "Suc (sum_list l) \<notin> set l"
  using member_le_sum_list not_less_eq_eq by blast

interpretation ref_users: sql_table_up ref_users wclock wv idb_users idb_users_update
  users_uniq user_filled user_stamp
  unfolding ref_users_def
proof (rule mem_table_up)
  fix old rs
  show "list_all2 user_filled rs (fill_rows user_ID (\<lambda>k r. r\<lparr>user_ID := k\<rparr>) 0 (\<lambda>l. Suc (sum_list l)) old rs)"
  proof (rule fill_rows_all2)
    fix k and r :: User
    assume "user_ID r \<noteq> 0 \<Longrightarrow> k = user_ID r"
    then show "user_filled r (r\<lparr>user_ID := k\<rparr>)" by (cases r) (auto simp: user_filled_def)
  qed
next
  fix old rs rs'
  assume f: "list_all2 user_filled rs rs'" and u: "users_uniq (old @ rs')"
  let ?fill = "fill_rows user_ID (\<lambda>k r. r\<lparr>user_ID := k\<rparr>) 0 (\<lambda>l. Suc (sum_list l)) old rs"
  have "list_all2 (\<lambda>r r'. user_ID r \<noteq> 0 \<longrightarrow> user_ID r' = user_ID r) rs rs'"
    using f by (rule list_all2_mono) (auto simp: user_filled_def)
  then have ids: "distinct (map user_ID (old @ ?fill))"
    using u by (intro fill_rows_distinct [of _ _ _ _ _ rs']) (auto simp: users_uniq_def suc_sum_notin)
  have "map user_Email rs' = map user_Email rs"
    using f by (induction rule: list_all2_induct) (auto simp: user_filled_def)
  moreover have "map user_Email ?fill = map user_Email rs" by (rule fill_rows_other) simp
  ultimately have "distinct (map user_Email (old @ ?fill))"
    using u by (simp only: users_uniq_def map_append)
  with ids show "users_uniq (old @ ?fill)" by (simp add: users_uniq_def)
qed

interpretation ref_sessions: sql_table_up ref_sessions wclock wv idb_sessions idb_sessions_update
  sessions_uniq session_filled session_stamp
  unfolding ref_sessions_def
proof (rule mem_table_up)
  fix old rs
  show "list_all2 session_filled rs (fill_rows sess_ID (\<lambda>k r. r\<lparr>sess_ID := k\<rparr>) uuid_Nil fresh_key old rs)"
  proof (rule fill_rows_all2)
    fix k and r :: AuthSession
    assume "sess_ID r \<noteq> uuid_Nil \<Longrightarrow> k = sess_ID r"
    then show "session_filled r (r\<lparr>sess_ID := k\<rparr>)" by (cases r) (auto simp: session_filled_def)
  qed
next
  fix old rs rs'
  assume f: "list_all2 session_filled rs rs'" and u: "sessions_uniq (old @ rs')"
  have "list_all2 (\<lambda>r r'. sess_ID r \<noteq> uuid_Nil \<longrightarrow> sess_ID r' = sess_ID r) rs rs'"
    using f by (rule list_all2_mono) (auto simp: session_filled_def)
  then show "sessions_uniq (old @ fill_rows sess_ID (\<lambda>k r. r\<lparr>sess_ID := k\<rparr>) uuid_Nil fresh_key old rs)"
    using u unfolding sessions_uniq_def
    by (intro fill_rows_distinct [of _ _ _ _ _ rs']) (auto simp: fresh_key_notin)
qed

interpretation ref_tokens: sql_table_up ref_tokens wclock wv idb_tokens idb_tokens_update
  tokens_uniq token_filled token_stamp
  unfolding ref_tokens_def
proof (rule mem_table_up)
  fix old rs
  show "list_all2 token_filled rs (fill_rows tok_ID (\<lambda>k r. r\<lparr>tok_ID := k\<rparr>) uuid_Nil fresh_key old rs)"
  proof (rule fill_rows_all2)
    fix k and r :: RefreshToken
    assume "tok_ID r \<noteq> uuid_Nil \<Longrightarrow> k = tok_ID r"
    then show "token_filled r (r\<lparr>tok_ID := k\<rparr>)" by (cases r) (auto simp: token_filled_def)
  qed
next
  fix old rs rs'
  assume f: "list_all2 token_filled rs rs'" and u: "tokens_uniq (old @ rs')"
  let ?fill = "fill_rows tok_ID (\<lambda>k r. r\<lparr>tok_ID := k\<rparr>) uuid_Nil fresh_key old rs"
  have "list_all2 (\<lambda>r r'. tok_ID r \<noteq> uuid_Nil \<longrightarrow> tok_ID r' = tok_ID r) rs rs'"
    using f by (rule list_all2_mono) (auto simp: token_filled_def)
  then have ids: "distinct (map tok_ID (old @ ?fill))"
    using u by (intro fill_rows_distinct [of _ _ _ _ _ rs']) (auto simp: tokens_uniq_def fresh_key_notin)
  have "map tok_TokenHash rs' = map tok_TokenHash rs"
    using f by (induction rule: list_all2_induct) (auto simp: token_filled_def)
  moreover have "map tok_TokenHash ?fill = map tok_TokenHash rs" by (rule fill_rows_other) simp
  ultimately have "distinct (map tok_TokenHash (old @ ?fill))"
    using u by (simp only: tokens_uniq_def map_append)
  with ids show "tokens_uniq (old @ ?fill)" by (simp add: tokens_uniq_def)
qed

lemma long_not_fresh:
  assumes "length (fresh_key l) \<le> length k"
  shows "k \<notin> set l"
proof
  assume "k \<in> set l"
  then have "length k \<le> sum_list (map length l)" by (simp add: member_le_sum_list)
  with assms show False by (simp add: fresh_key_def)
qed

interpretation ref_redis: redis_server_up "mem_redis idb_redis idb_redis_update" wclock wv idb_redis idb_redis_update
  by (rule mem_redis_up)

lemma ref_auth_env_sel [simp]:
  "env_users ref_auth_env = ref_users" "env_sessions ref_auth_env = ref_sessions"
  "env_tokens ref_auth_env = ref_tokens" "env_redis ref_auth_env = mem_redis idb_redis idb_redis_update"
  "env_Now ref_auth_env = mem_Now" "env_uuid_New ref_auth_env = ref_uuid_New"
  "env_SignedString ref_auth_env = ref_SignedString" "env_ParseWithClaims ref_auth_env = ref_ParseWithClaims"
  "env_uuid_String ref_auth_env i = CHR ''u'' # hex_EncodeToString i"
  "env_CompareHashAndPassword ref_auth_env h p \<longleftrightarrow> h = p" "env_Sum256 ref_auth_env s = s"
  "env_jwtSecret ref_auth_env = ''secret''"
  by (simp_all add: ref_auth_env_def)

lemma ref_services_up: "identity_services_up ref_auth_env wclock wv"
proof -
  have "identity_services_axioms ref_auth_env wclock wv"
    by unfold_locales (simp_all add: ref_auth_env_def ref_uuid_New_def after_def)
  then have "identity_services ref_auth_env wclock wv"
    unfolding identity_services_def ref_auth_env_sel
    using mem_clock.clock_source_axioms ref_users.sql_table_axioms ref_sessions.sql_table_axioms
      ref_tokens.sql_table_axioms ref_redis.redis_server_axioms by blast
  moreover have "identity_services_up_axioms ref_auth_env wv"
  proof
    fix w :: "identity_db world"
    let ?l = "map tok_TokenHash (idb_tokens (wv w))"
    have "HashToken ref_auth_env (env_uuid_String ref_auth_env (result (env_uuid_New ref_auth_env) w)) =
        hex_EncodeToString (CHR ''u'' # hex_EncodeToString (fresh_key ?l))"
      by (simp add: HashToken_def ref_uuid_New_def result_def)
    moreover have "hex_EncodeToString (CHR ''u'' # hex_EncodeToString (fresh_key ?l)) \<notin> set ?l"
      by (rule long_not_fresh) simp
    ultimately show "HashToken ref_auth_env (env_uuid_String ref_auth_env (result (env_uuid_New ref_auth_env) w))
        \<notin> tok_TokenHash ` set (idb_tokens (wv w))" by simp
  qed
  ultimately show ?thesis
    unfolding identity_services_up_def ref_auth_env_sel
    using ref_users.sql_table_up_axioms ref_sessions.sql_table_up_axioms
      ref_tokens.sql_table_up_axioms ref_redis.redis_server_up_axioms by blast
qed

interpretation ref: identity_platform ref_auth_env wclock wv
proof -
  have "identity_platform_axioms ref_auth_env wv"
    by unfold_locales (simp_all add: ascii_hex [unfolded ascii_def] ascii_def ref_auth_env_def)
  then show "identity_platform ref_auth_env wclock wv"
    unfolding identity_platform_def ref_auth_env_sel
    using ref_services_up ref_jwt.jwt_library_axioms by blast
qed

lemmas ref_services = ref.identity_services_axioms

lemma steady_ref [simp]:
  "steady (Login ref_auth_env email pw ip agent)" "steady (LogoutAll ref_auth_env uid)"
  "steady (Logout ref_auth_env sid)" "steady (Refresh ref_auth_env token)"
proof -
  have [simp]: "steady ref_uuid_New" by (simp add: steady_def ref_uuid_New_def after_def)
  note defs = session_RevokeAllByUserID_def session_RevokeByID_def session_ListActiveByUserID_def
    session_FindActiveByID_def session_Create_def token_RevokeByUserID_def token_RevokeByID_def
    token_RevokeBySessionID_def token_MarkReplacement_def token_Create_def token_FindByTokenHash_def
    user_FindByEmail_def user_FindByID_def MarkRevoked_def GenerateAccessToken_def GenerateRefreshToken_def
    ref_users_def ref_sessions_def ref_tokens_def Let_def
  show "steady (Login ref_auth_env email pw ip agent)"
    unfolding Login_def by (auto simp: defs split: sum.split option.split)
  show "steady (Logout ref_auth_env sid)"
    unfolding Logout_def by (auto simp: defs split: sum.split option.split)
  show "steady (LogoutAll ref_auth_env uid)" for uid
    unfolding LogoutAll_def by (auto simp: defs split: sum.split option.split)
  then show "steady (Refresh ref_auth_env token)"
    unfolding Refresh_def Refresh_rotate_def by (auto simp: defs split: sum.split option.split)
qed

end
