(* ===== verification/Identity_Properties.thy ===== *)
theory Identity_Properties
  imports Identity_World
begin

text \<open>
  The properties of \<open>sms-identity\<close>, over the model's own definitions, each with a witness in the
  reference environment.
\<close>

section \<open>Sequences of requests\<close>

datatype auth_request =
    ReqLogin string string string string
  | ReqRefresh string
  | ReqLogout string
  | ReqLogoutAll nat

definition serve :: "'w auth_env \<Rightarrow> auth_request \<Rightarrow> ('w, unit) state" where
  "serve E r =
     (case r of
        ReqLogin email password ip agent \<Rightarrow> do { Login E email password ip agent; ret () }
      | ReqRefresh token \<Rightarrow> do { Refresh E token; ret () }
      | ReqLogout sid \<Rightarrow> do { Logout E sid; ret () }
      | ReqLogoutAll uid \<Rightarrow> do { LogoutAll E uid; ret () })"

context identity_services
begin

lemma serve_steps: "auth_step\<^sup>*\<^sup>* (view w) (view (after (serve E r) w))"
  by (simp add: serve_def Login_step Refresh_step Logout_step LogoutAll_step split: auth_request.split)

lemma requests_steps: "auth_step\<^sup>*\<^sup>* (view w) (view (after (for_each rs (serve E)) w))"
  by (rule for_each_steps) (rule serve_steps)

end

lemma services_up_base: "identity_services_up E clock view \<Longrightarrow> identity_services E clock view"
  by (simp add: identity_services_up_def)

section \<open>A world for the witnesses\<close>

text \<open>
  One user with one session that ends in an hour, with one refresh token in use and one that
  was rotated away.
\<close>

definition demo_now :: time where "demo_now = 63900000000 * Second"

definition demo_user :: User where
  "demo_user = \<lparr>user_ID = 7, user_CreatedAt = 1, user_UpdatedAt = 1, user_DeletedAt = None,
     user_Email = ''root@sms'', user_Password = ''pw'', user_RoleCode = ''ADMIN''\<rparr>"

definition demo_session :: AuthSession where
  "demo_session = \<lparr>sess_ID = ''s1'', sess_UserID = 7, sess_ExpiresAt = demo_now + Hour,
     sess_LastUsedAt = None, sess_RevokedAt = None, sess_IPAddress = [], sess_UserAgent = [],
     sess_CreatedAt = 1, sess_UpdatedAt = 1\<rparr>"

definition demo_token :: RefreshToken where
  "demo_token = \<lparr>tok_ID = ''t2'', tok_SessionID = ''s1'', tok_UserID = 7,
     tok_TokenHash = hex_EncodeToString ''new'', tok_ExpiresAt = demo_now + Hour, tok_RevokedAt = None,
     tok_ReplacedBy = None, tok_CreatedAt = 1, tok_UpdatedAt = 1\<rparr>"

definition demo_old_token :: RefreshToken where
  "demo_old_token = \<lparr>tok_ID = ''t1'', tok_SessionID = ''s1'', tok_UserID = 7,
     tok_TokenHash = hex_EncodeToString ''old'', tok_ExpiresAt = demo_now + Hour, tok_RevokedAt = Some 5,
     tok_ReplacedBy = Some ''t2'', tok_CreatedAt = 1, tok_UpdatedAt = 1\<rparr>"

definition demo_world :: "identity_db world" where
  "demo_world = \<lparr>wv = \<lparr>idb_users = [demo_user], idb_sessions = [demo_session],
     idb_tokens = [demo_old_token, demo_token], idb_redis = empty_redis\<rparr>, wclock = demo_now\<rparr>"

lemma demo_sel [simp]:
  "idb_users (wv demo_world) = [demo_user]" "idb_sessions (wv demo_world) = [demo_session]"
  "idb_tokens (wv demo_world) = [demo_old_token, demo_token]" "wclock demo_world = demo_now"
  by (simp_all add: demo_world_def)

lemma demo_inv: "auth_inv (wv demo_world)"
  by (simp add: auth_inv_def users_uniq_def sessions_uniq_def tokens_uniq_def belongs_def
      demo_session_def demo_token_def demo_old_token_def)

section \<open>Properties\<close>

text \<open>
  C4: whatever requests are served, in whatever order and whatever calls to PostgreSQL or Redis
  fail on the way, the database keeps its invariant: unique keys, every refresh token belongs to
  a session of the same user and does not outlive it, a replaced token is revoked.
\<close>

theorem auth_requests_keep_invariant:
  assumes "identity_services E clock view" and "auth_inv (view w)"
  shows "auth_inv (view (after (for_each rs (serve E)) w))"
  using identity_services.requests_steps [OF assms(1)] assms(2) by (rule auth_steps_inv)

theorem auth_requests_keep_invariant_witness:
  "auth_inv (wv (after (for_each [ReqRefresh ''old'', ReqLogin ''root@sms'' ''pw'' [] []] (serve ref_auth_env)) demo_world))"
  using auth_requests_keep_invariant [OF ref_services demo_inv] .

text \<open>
  C17: revocation is final. A session, or a refresh token, that is revoked is still there and
  revoked after any further requests, with any failures.
\<close>

theorem revocation_is_final:
  assumes "identity_services E clock view"
  shows "(dead_session (view w) i \<longrightarrow> dead_session (view (after (for_each rs (serve E)) w)) i) \<and>
    (dead_token (view w) h \<longrightarrow> dead_token (view (after (for_each rs (serve E)) w)) h)"
  using auth_steps_dead [OF identity_services.requests_steps [OF assms]] by blast

theorem revocation_is_final_witness:
  "dead_token (wv (after (for_each [ReqLogin ''root@sms'' ''pw'' [] []] (serve ref_auth_env)) demo_world))
     (hex_EncodeToString ''old'')"
proof -
  have "dead_token (wv demo_world) (hex_EncodeToString ''old'')"
    by (simp add: dead_token_def demo_old_token_def)
  then show ?thesis using revocation_is_final [OF ref_services] by blast
qed

text \<open>
  A login with the right password stores one new session that ends seven days from now and
  one new refresh token of it, touches nothing else, and returns the raw refresh token and an
  access token with the user, the role and the session, which expires fifteen minutes later.
\<close>

lemma Login_creates_session:
  assumes "identity_services_up E clock view" and "auth_inv (view w)"
    and "u \<in> set (idb_users (view w))" "user_Email u = email" "user_DeletedAt u = None"
    and "env_CompareHashAndPassword E (user_Password u) password"
  shows "\<exists>s raw now t1 t2. clock w \<le> now \<and> now \<le> t1 \<and> t1 \<le> t2 \<and>
    t2 \<le> clock (after (Login E email password ip agent) w) \<and>
    logged_in E u ip agent raw now (view w) (view (after (Login E email password ip agent) w)) s \<and>
    result (Login E email password ip agent) w =
      (case env_SignedString E (access_claims E (user_ID u) (user_RoleCode u) (sess_ID s)
              (Unix (t1 + 15 * Minute)) (Unix t2)) (env_jwtSecret E) of
         None \<Rightarrow> Inl (ErrSigning ''failed to sign access token: '')
       | Some a \<Rightarrow> Inr \<lparr>lr_AccessToken = a, lr_RefreshToken = raw, lr_ExpiresIn = 15 * 60, lr_User = u\<rparr>)"
  using identity_services_up.Login_accepts [OF assms] by metis

lemma Login_creates_session_witness:
  "\<exists>s raw now. logged_in ref_auth_env demo_user ''ip'' ''ua'' raw now (wv demo_world)
     (wv (after (Login ref_auth_env ''root@sms'' ''pw'' ''ip'' ''ua'') demo_world)) s"
proof -
  have "demo_user \<in> set (idb_users (wv demo_world))" "user_Email demo_user = ''root@sms''"
    "user_DeletedAt demo_user = None" "env_CompareHashAndPassword ref_auth_env (user_Password demo_user) ''pw''"
    by (simp_all add: demo_user_def)
  from Login_creates_session [OF ref_services_up demo_inv this] show ?thesis by blast
qed

text \<open>
  A login for an unknown or deleted user, or with a wrong password, fails with the same
  error in all these cases and changes nothing.
\<close>

lemma Login_rejects_bad_credentials:
  assumes "identity_services_up E clock view" and "auth_inv (view w)"
    and "\<And>u. u \<in> set (idb_users (view w)) \<Longrightarrow> user_Email u = email \<Longrightarrow> user_DeletedAt u = None \<Longrightarrow>
      \<not> env_CompareHashAndPassword E (user_Password u) password"
  shows "result (Login E email password ip agent) w = Inl ErrInvalidCredentials \<and>
    view (after (Login E email password ip agent) w) = view w"
  using identity_services_up.Login_rejects [OF assms] by blast

lemma Login_rejects_bad_credentials_witness:
  "result (Login ref_auth_env ''root@sms'' ''wrong'' [] []) demo_world = Inl ErrInvalidCredentials"
proof -
  have "\<not> env_CompareHashAndPassword ref_auth_env (user_Password u) ''wrong''"
    if "u \<in> set (idb_users (wv demo_world))" for u
    using that by (simp add: demo_user_def)
  then show ?thesis using Login_rejects_bad_credentials [OF ref_services_up demo_inv] by blast
qed

text \<open>
  C23: refreshing with a token in use, of a live session, revokes this token, makes it point to
  one new token of the same session and user, which does not outlive the session, and changes
  nothing else.
\<close>

theorem Refresh_rotates:
  assumes "identity_services_up E clock view" and inv: "auth_inv (view w)"
    and t: "t \<in> set (idb_tokens (view w))" "tok_RevokedAt t = None" "tok_TokenHash t = HashToken E token" "token \<noteq> []"
    and s: "s \<in> set (idb_sessions (view w))" "sess_ID s = tok_SessionID t" "sess_RevokedAt s = None"
    and u: "u \<in> set (idb_users (view w))" "user_ID u = sess_UserID s" "user_DeletedAt u = None"
    and alive: "clock (after (Refresh E token) w) < tok_ExpiresAt t"
  shows "\<exists>t' raw now t1 t2. clock w \<le> now \<and> now \<le> t1 \<and> t1 \<le> t2 \<and> t2 \<le> clock (after (Refresh E token) w) \<and>
    rotated E t s raw now (view w) (view (after (Refresh E token) w)) t' \<and>
    result (Refresh E token) w =
      (case env_SignedString E (access_claims E (user_ID u) (user_RoleCode u) (sess_ID s)
              (Unix (t1 + 15 * Minute)) (Unix t2)) (env_jwtSecret E) of
         None \<Rightarrow> Inl (ErrSigning ''failed to generate new access token: '')
       | Some a \<Rightarrow> Inr \<lparr>rr_AccessToken = a, rr_RefreshToken = raw, rr_ExpiresIn = 15 * 60\<rparr>)"
proof -
  obtain w1 where w1: "after (Refresh E token) w = after (Refresh_rotate E t s u) w1"
    "result (Refresh E token) w = result (Refresh_rotate E t s u) w1" "view w1 = view w" "clock w \<le> clock w1"
    using identity_services_up.Refresh_accepts [OF assms] .
  have h: "auth_inv (view w1)" "t \<in> set (idb_tokens (view w1))" "s \<in> set (idb_sessions (view w1))"
    using inv t(1) s(1) w1(3) by simp_all
  obtain t' raw now t1 t2 where r: "clock w1 \<le> now" "now \<le> t1" "t1 \<le> t2"
    "t2 \<le> clock (after (Refresh_rotate E t s u) w1)"
    "rotated E t s raw now (view w1) (view (after (Refresh_rotate E t s u) w1)) t'"
    "result (Refresh_rotate E t s u) w1 =
      (case env_SignedString E (access_claims E (user_ID u) (user_RoleCode u) (sess_ID s)
              (Unix (t1 + 15 * Minute)) (Unix t2)) (env_jwtSecret E) of
         None \<Rightarrow> Inl (ErrSigning ''failed to generate new access token: '')
       | Some a \<Rightarrow> Inr \<lparr>rr_AccessToken = a, rr_RefreshToken = raw, rr_ExpiresIn = 15 * 60\<rparr>)"
    using identity_services_up.Refresh_rotate_up [OF assms(1) h u(2)] .
  then show ?thesis
    using w1 by (intro exI [of _ t'] exI [of _ raw] exI [of _ now] exI [of _ t1] exI [of _ t2]) simp
qed

theorem Refresh_rotates_witness:
  "\<exists>t' raw now. rotated ref_auth_env demo_token demo_session raw now (wv demo_world)
     (wv (after (Refresh ref_auth_env ''new'') demo_world)) t'"
proof -
  have "demo_token \<in> set (idb_tokens (wv demo_world))" "tok_RevokedAt demo_token = None"
    "tok_TokenHash demo_token = HashToken ref_auth_env ''new''" "''new'' \<noteq> []"
    "demo_session \<in> set (idb_sessions (wv demo_world))" "sess_ID demo_session = tok_SessionID demo_token"
    "sess_RevokedAt demo_session = None" "demo_user \<in> set (idb_users (wv demo_world))"
    "user_ID demo_user = sess_UserID demo_session" "user_DeletedAt demo_user = None"
    "wclock (after (Refresh ref_auth_env ''new'') demo_world) < tok_ExpiresAt demo_token"
    by (simp_all add: demo_token_def demo_session_def demo_user_def HashToken_def duration_defs steadyD)
  from Refresh_rotates [OF ref_services_up demo_inv this] show ?thesis by blast
qed

text \<open>
  C5: a refresh token that was already revoked is a sign of theft: presenting it fails, and ends
  every session and revokes every refresh token of its user, marks in Redis the sessions that
  still had half a second to live, and leaves all other users alone.
\<close>

theorem Refresh_detects_reuse:
  assumes "identity_services_up E clock view" and inv: "auth_inv (view w)"
    and t: "t \<in> set (idb_tokens (view w))" "tok_RevokedAt t \<noteq> None" "tok_TokenHash t = HashToken E token" "token \<noteq> []"
  shows "result (Refresh E token) w = Inl ErrInvalidRefreshToken \<and>
    user_revoked (tok_UserID t) (view (after (Refresh E token) w)) \<and>
    same_other_users (tok_UserID t) (view w) (view (after (Refresh E token) w)) \<and>
    (\<forall>s \<in> set (idb_sessions (view w)). sess_UserID s = tok_UserID t \<and> sess_RevokedAt s = None \<and>
      Second \<le> 2 * (sess_ExpiresAt s - clock (after (Refresh E token) w)) \<longrightarrow>
      marked (view (after (Refresh E token) w)) (env_uuid_String E (sess_ID s)) (sess_ExpiresAt s - Second div 2))"
proof -
  obtain w1 where "after (Refresh E token) w = after (LogoutAll E (tok_UserID t)) w1"
    "result (Refresh E token) w = Inl ErrInvalidRefreshToken" "view w1 = view w" "clock w \<le> clock w1"
    using identity_services_up.Refresh_reuse [OF assms] .
  with identity_services_up.LogoutAll_up [OF assms(1), of w1 "tok_UserID t"] inv show ?thesis by simp
qed

theorem Refresh_detects_reuse_witness:
  "result (Refresh ref_auth_env ''old'') demo_world = Inl ErrInvalidRefreshToken \<and>
   user_revoked 7 (wv (after (Refresh ref_auth_env ''old'') demo_world))"
proof -
  have "demo_old_token \<in> set (idb_tokens (wv demo_world))" "tok_RevokedAt demo_old_token \<noteq> None"
    "tok_TokenHash demo_old_token = HashToken ref_auth_env ''old''" "''old'' \<noteq> []" "tok_UserID demo_old_token = 7"
    by (simp_all add: demo_old_token_def HashToken_def)
  with Refresh_detects_reuse [OF ref_services_up demo_inv this(1-4)] show ?thesis by simp
qed

text \<open>
  Replaying a refresh token. After a successful rotation the same token is presented again:
  the second call fails and revokes everything of the user, the token of the rotation included.
\<close>

lemma Refresh_replay:
  assumes "identity_services_up E clock view" and inv: "auth_inv (view w)"
    and t: "t \<in> set (idb_tokens (view w))" "tok_RevokedAt t = None" "tok_TokenHash t = HashToken E token" "token \<noteq> []"
    and s: "s \<in> set (idb_sessions (view w))" "sess_ID s = tok_SessionID t" "sess_RevokedAt s = None"
    and u: "u \<in> set (idb_users (view w))" "user_ID u = sess_UserID s" "user_DeletedAt u = None"
    and alive: "clock (after (Refresh E token) w) < tok_ExpiresAt t"
    and w1: "w1 = after (Refresh E token) w"
  shows "result (Refresh E token) w1 = Inl ErrInvalidRefreshToken \<and>
    user_revoked (tok_UserID t) (view (after (Refresh E token) w1))"
proof -
  obtain v where v: "w1 = after (Refresh_rotate E t s u) v" "view v = view w"
    using identity_services_up.Refresh_accepts [OF assms(1-13)] w1 by metis
  have h: "auth_inv (view v)" "t \<in> set (idb_tokens (view v))" "s \<in> set (idb_sessions (view v))"
    using inv t(1) s(1) v(2) by simp_all
  obtain t' raw now where r: "rotated E t s raw now (view v) (view w1) t'"
    using identity_services_up.Refresh_rotate_up [OF assms(1) h u(2)] v(1) by metis
  then obtain a b where ab: "idb_tokens (view w1) =
      upd_rows (\<lambda>r. tok_ID r = tok_ID t) (revoke_token a (Some (tok_ID t')) b) (idb_tokens (view w)) @ [t']"
    using v(2) by (auto simp: rotated_def)
  let ?t = "revoke_token a (Some (tok_ID t')) b t"
  have old: "?t \<in> set (idb_tokens (view w1))" using t(1) by (auto simp: ab set_upd_rows)
  have inv1: "auth_inv (view w1)"
    using auth_steps_inv [OF identity_services.Refresh_step [OF services_up_base [OF assms(1)]] inv] w1 by simp
  obtain w2 where w2: "after (Refresh E token) w1 = after (LogoutAll E (tok_UserID ?t)) w2"
    "result (Refresh E token) w1 = Inl ErrInvalidRefreshToken" "view w2 = view w1" "clock w1 \<le> clock w2"
    by (rule identity_services_up.Refresh_reuse [OF assms(1) inv1 old]) (use t in auto)
  have "user_revoked (tok_UserID t) (view (after (LogoutAll E (tok_UserID t)) w2))"
    using identity_services_up.LogoutAll_up [OF assms(1), of w2 "tok_UserID t"] inv1 w2(3) by simp
  with w2(1,2) show ?thesis by simp
qed

lemma Refresh_replay_witness:
  "result (Refresh ref_auth_env ''new'') (after (Refresh ref_auth_env ''new'') demo_world) = Inl ErrInvalidRefreshToken"
proof -
  have "demo_token \<in> set (idb_tokens (wv demo_world))" "tok_RevokedAt demo_token = None"
    "tok_TokenHash demo_token = HashToken ref_auth_env ''new''" "''new'' \<noteq> []"
    "demo_session \<in> set (idb_sessions (wv demo_world))" "sess_ID demo_session = tok_SessionID demo_token"
    "sess_RevokedAt demo_session = None" "demo_user \<in> set (idb_users (wv demo_world))"
    "user_ID demo_user = sess_UserID demo_session" "user_DeletedAt demo_user = None"
    "wclock (after (Refresh ref_auth_env ''new'') demo_world) < tok_ExpiresAt demo_token"
    by (simp_all add: demo_token_def demo_session_def demo_user_def HashToken_def duration_defs steadyD)
  from Refresh_replay [OF ref_services_up demo_inv this refl] show ?thesis by blast
qed

text \<open>
  Logging out of a live session revokes the session and its refresh tokens, marks it in
  Redis until half a second before its end or longer, and changes no other session or token.
\<close>

lemma Logout_ends_session:
  assumes "identity_services_up E clock view" and "auth_inv (view w)"
    and "s \<in> set (idb_sessions (view w))" "sess_RevokedAt s = None"
    and "w' = after (Logout E (env_uuid_String E (sess_ID s))) w"
    and "Second \<le> 2 * (sess_ExpiresAt s - clock w')"
  shows "result (Logout E (env_uuid_String E (sess_ID s))) w = Inr () \<and>
    dead_session (view w') (sess_ID s) \<and>
    (\<forall>t \<in> set (idb_tokens (view w')). tok_SessionID t = sess_ID s \<longrightarrow> tok_RevokedAt t \<noteq> None) \<and>
    marked (view w') (env_uuid_String E (sess_ID s)) (sess_ExpiresAt s - Second div 2) \<and>
    filter (\<lambda>r. sess_ID r \<noteq> sess_ID s) (idb_sessions (view w')) =
      filter (\<lambda>r. sess_ID r \<noteq> sess_ID s) (idb_sessions (view w)) \<and>
    filter (\<lambda>r. tok_SessionID r \<noteq> sess_ID s) (idb_tokens (view w')) =
      filter (\<lambda>r. tok_SessionID r \<noteq> sess_ID s) (idb_tokens (view w))"
  using identity_services_up.Logout_up [OF assms] by blast

lemma demo_logout:
  assumes "w' = after (Logout ref_auth_env (env_uuid_String ref_auth_env ''s1'')) demo_world"
  shows "demo_session \<in> set (idb_sessions (wv demo_world))" "sess_RevokedAt demo_session = None"
    "w' = after (Logout ref_auth_env (env_uuid_String ref_auth_env (sess_ID demo_session))) demo_world"
    "Second \<le> 2 * (sess_ExpiresAt demo_session - wclock w')"
  using assms by (simp_all add: demo_session_def duration_defs steadyD)

lemma Logout_ends_session_witness:
  "dead_session (wv (after (Logout ref_auth_env (env_uuid_String ref_auth_env ''s1'')) demo_world)) ''s1''"
  using Logout_ends_session [OF ref_services_up demo_inv demo_logout [OF refl]]
  by (simp add: demo_session_def)

section \<open>Access tokens\<close>

text \<open>What the authenticator decides, when Redis answers: the token and the mark, nothing else.\<close>

lemma live_mono: "live t' x \<Longrightarrow> t \<le> t' \<Longrightarrow> live t x"
  by (auto simp: live_def split: option.splits)

context identity_services_up
begin

lemma Authenticate_up:
  "result (Authenticate E (Some (env_redis E)) token) w =
     (case env_ParseWithClaims E token (env_jwtSecret E) [''HS256''] (clock w) of
        None \<Rightarrow> Inl ErrInvalidToken
      | Some c \<Rightarrow>
          if clm_SessionID c \<noteq> [] \<and>
             live (clock (after (env_Now E) w)) (rd_strings (idb_redis (view w)) (revoked_key (clm_SessionID c)))
          then Inl ErrSessionRevoked else Inr (principal_of c))"
  by (simp add: Authenticate_def clk.now_reads rds.Exists_up revoked_key_def split: option.split)

end

text \<open>
  C24: the access token of a login authenticates its user. Until a second before its fifteen
  minutes are over, unless its session is marked as revoked, the authenticator accepts it and
  returns the user, the role and the session of the login; fifteen minutes after the login it
  is refused.
\<close>

theorem Login_token_authenticates:
  assumes "identity_platform E clock view" and inv: "auth_inv (view w)"
    and u: "u \<in> set (idb_users (view w))" "user_Email u = email" "user_DeletedAt u = None"
    and pw: "env_CompareHashAndPassword E (user_Password u) password" and role: "ascii (user_RoleCode u)"
    and epoch: "62135596800 * Second \<le> clock w" "clock (after (Login E email password ip agent) w) < 2 ^ 52 * Second"
    and r: "result (Login E email password ip agent) w = Inr r"
  shows "\<exists>s \<in> set (idb_sessions (view (after (Login E email password ip agent) w))).
    (\<forall>w'. clock w' + Second \<le> clock w + 15 * Minute \<and>
        \<not> live (clock w') (rd_strings (idb_redis (view w')) (revoked_key (env_uuid_String E (sess_ID s)))) \<longrightarrow>
      result (Authenticate E (Some (env_redis E)) (lr_AccessToken r)) w' =
        Inr \<lparr>pr_UserID = Itoa (int (user_ID u)), pr_Username = [], pr_Email = [], pr_RoleID = [],
             pr_RoleCode = user_RoleCode u, pr_SessionID = env_uuid_String E (sess_ID s)\<rparr>) \<and>
    (\<forall>w'. clock (after (Login E email password ip agent) w) + 15 * Minute \<le> clock w' \<longrightarrow>
      result (Authenticate E (Some (env_redis E)) (lr_AccessToken r)) w' = Inl ErrInvalidToken)"
proof -
  note up = identity_platform.axioms(1) [OF assms(1)]
  obtain s raw now t1 t2 where L: "clock w \<le> now" "now \<le> t1" "t1 \<le> t2"
    "t2 \<le> clock (after (Login E email password ip agent) w)"
    "logged_in E u ip agent raw now (view w) (view (after (Login E email password ip agent) w)) s"
    "result (Login E email password ip agent) w =
      (case env_SignedString E (access_claims E (user_ID u) (user_RoleCode u) (sess_ID s)
              (Unix (t1 + 15 * Minute)) (Unix t2)) (env_jwtSecret E) of
         None \<Rightarrow> Inl (ErrSigning ''failed to sign access token: '')
       | Some a \<Rightarrow> Inr \<lparr>lr_AccessToken = a, lr_RefreshToken = raw, lr_ExpiresIn = 15 * 60, lr_User = u\<rparr>)"
    using identity_services_up.Login_accepts [OF up inv u pw] .
  define cs where "cs = access_claims E (user_ID u) (user_RoleCode u) (sess_ID s) (Unix (t1 + 15 * Minute)) (Unix t2)"
  have sign: "env_SignedString E cs (env_jwtSecret E) = Some (lr_AccessToken r)"
    using L(6) r by (auto simp: cs_def split: option.splits)
  have parse: "env_ParseWithClaims E (lr_AccessToken r) (env_jwtSecret E) [''HS256''] t =
      (if t < (Unix (t1 + 15 * Minute) + 62135596800) * Second then Some (claims_of cs) else None)" for t
  proof (rule jwt_library.jwt_roundtrip [OF identity_platform.axioms(2) [OF assms(1)] sign])
    show "map_of cs ''exp'' = Some (ClaimNumber (Unix (t1 + 15 * Minute)))"
      by (simp add: cs_def access_claims_def)
    show "0 \<le> Unix (t1 + 15 * Minute)"
      using epoch(1) L(1,2) by (simp add: Unix_def duration_defs)
    show "Unix (t1 + 15 * Minute) < 2 ^ 53"
      using epoch(2) L(3,4) by (simp add: Unix_def duration_defs)
    show "ascii str" if "(k, ClaimString str) \<in> set cs" for k str
      using that role identity_platform.uuid_ascii [OF assms(1)] ascii_Itoa
      by (auto simp: cs_def access_claims_def)
  qed
  have c: "claims_of cs = \<lparr>clm_UserID = Itoa (int (user_ID u)), clm_SessionID = env_uuid_String E (sess_ID s),
      clm_Username = [], clm_Email = [], clm_RoleID = [], clm_RoleCode = user_RoleCode u\<rparr>"
    by (simp add: cs_def access_claims_def claims_of_def string_claim_def)
  have s: "s \<in> set (idb_sessions (view (after (Login E email password ip agent) w)))"
    using L(5) by (auto simp: logged_in_def)
  have early: "t < (Unix (t1 + 15 * Minute) + 62135596800) * Second" if "t + Second \<le> clock w + 15 * Minute" for t
    using that L(1,2) by (simp add: Unix_def duration_defs)
  have late: "\<not> t < (Unix (t1 + 15 * Minute) + 62135596800) * Second"
    if "clock (after (Login E email password ip agent) w) + 15 * Minute \<le> t" for t
    using that L(3,4) by (simp add: Unix_def duration_defs)
  show ?thesis
  proof (rule bexI [OF _ s], intro conjI allI impI)
    fix w'
    assume w': "clock w' + Second \<le> clock w + 15 * Minute \<and>
      \<not> live (clock w') (rd_strings (idb_redis (view w')) (revoked_key (env_uuid_String E (sess_ID s))))"
    then have "\<not> live (clock (after (env_Now E) w')) (rd_strings (idb_redis (view w')) (revoked_key (env_uuid_String E (sess_ID s))))"
      using live_mono identity_services.Now_clock [OF services_up_base [OF up]] by blast
    with w' early show "result (Authenticate E (Some (env_redis E)) (lr_AccessToken r)) w' =
        Inr \<lparr>pr_UserID = Itoa (int (user_ID u)), pr_Username = [], pr_Email = [], pr_RoleID = [],
             pr_RoleCode = user_RoleCode u, pr_SessionID = env_uuid_String E (sess_ID s)\<rparr>"
      by (simp add: identity_services_up.Authenticate_up [OF up] parse c principal_of_def)
  next
    fix w'
    assume "clock (after (Login E email password ip agent) w) + 15 * Minute \<le> clock w'"
    with late show "result (Authenticate E (Some (env_redis E)) (lr_AccessToken r)) w' = Inl ErrInvalidToken"
      by (simp add: identity_services_up.Authenticate_up [OF up] parse)
  qed
qed

lemma demo_login:
  obtains r where "result (Login ref_auth_env ''root@sms'' ''pw'' [] []) demo_world = Inr r"
proof -
  have "demo_user \<in> set (idb_users (wv demo_world))" "user_Email demo_user = ''root@sms''"
    "user_DeletedAt demo_user = None" "env_CompareHashAndPassword ref_auth_env (user_Password demo_user) ''pw''"
    by (simp_all add: demo_user_def)
  from identity_services_up.Login_accepts [OF ref_services_up demo_inv this, of "[]" "[]"] that
  show thesis by (auto simp: ref_SignedString_def)
qed

theorem Login_token_authenticates_witness:
  "\<exists>r. result (Login ref_auth_env ''root@sms'' ''pw'' [] []) demo_world = Inr r \<and>
     result (Authenticate ref_auth_env (Some (env_redis ref_auth_env)) (lr_AccessToken r))
       (demo_world\<lparr>wclock := demo_now + Hour\<rparr>) = Inl ErrInvalidToken"
proof -
  obtain r where r: "result (Login ref_auth_env ''root@sms'' ''pw'' [] []) demo_world = Inr r" by (rule demo_login)
  have h: "demo_user \<in> set (idb_users (wv demo_world))" "user_Email demo_user = ''root@sms''"
    "user_DeletedAt demo_user = None" "env_CompareHashAndPassword ref_auth_env (user_Password demo_user) ''pw''"
    "ascii (user_RoleCode demo_user)" "62135596800 * Second \<le> wclock demo_world"
    "wclock (after (Login ref_auth_env ''root@sms'' ''pw'' [] []) demo_world) < 2 ^ 52 * Second"
    by (simp_all add: demo_user_def ascii_def demo_now_def duration_defs steadyD)
  have "wclock (after (Login ref_auth_env ''root@sms'' ''pw'' [] []) demo_world) + 15 * Minute
      \<le> wclock (demo_world\<lparr>wclock := demo_now + Hour\<rparr>)"
    by (simp add: duration_defs steadyD)
  with Login_token_authenticates [OF ref.identity_platform_axioms demo_inv h r] r show ?thesis by blast
qed


definition demo_claims :: "(string \<times> claim) list" where
  "demo_claims = access_claims ref_auth_env 7 ''ADMIN'' ''s1'' (Unix (demo_now + 2 * Hour)) 0"

definition demo_access :: string where
  "demo_access = the (ref_SignedString demo_claims ''secret'')"

lemma demo_access_parses:
  assumes "t \<le> demo_now + Hour + 10 * Second"
  shows "env_ParseWithClaims ref_auth_env demo_access (env_jwtSecret ref_auth_env) [''HS256''] t = Some (claims_of demo_claims)"
proof -
  have sign: "ref_SignedString demo_claims ''secret'' = Some demo_access"
    by (simp add: demo_access_def ref_SignedString_def)
  have "ref_ParseWithClaims demo_access ''secret'' [''HS256''] t =
     (if t < (Unix (demo_now + 2 * Hour) + 62135596800) * Second then Some (claims_of demo_claims) else None)"
    by (rule ref_jwt.jwt_roundtrip [OF sign])
      (auto simp: demo_claims_def access_claims_def Unix_def demo_now_def duration_defs ascii_hex [unfolded ascii_def]
        ascii_def ascii_Itoa [unfolded ascii_def])
  with assms show ?thesis by (simp add: Unix_def demo_now_def duration_defs)
qed

lemma demo_access_session:
  "clm_SessionID (claims_of demo_claims) = env_uuid_String ref_auth_env (sess_ID demo_session)"
  "clm_SessionID (claims_of demo_claims) \<noteq> []"
  by (simp_all add: demo_claims_def claims_of_def access_claims_def string_claim_def demo_session_def)


text \<open>
  The mark of a revoked session ends with the session, but access tokens do not: one that
  was issued shortly before the end of the session is accepted again once the mark has expired,
  although the session was revoked. (\<open>d\<close> is the time that the call of \<open>Logout\<close> took.)
\<close>

lemma revoked_token_accepted_after_session_end:
  assumes up: "identity_services_up E clock view" and inv: "auth_inv (view w)"
    and s: "s \<in> set (idb_sessions (view w))" "sess_RevokedAt s = None"
    and w': "w' = after (Logout E (env_uuid_String E (sess_ID s))) w" "Second \<le> 2 * (sess_ExpiresAt s - clock w')"
    and same: "idb_redis (view v) = idb_redis (view w')"
    and d: "clock w' = clock w + d" and late: "sess_ExpiresAt s + d + Second \<le> clock v"
    and token: "env_ParseWithClaims E token (env_jwtSecret E) [''HS256''] (clock v) = Some c"
      "clm_SessionID c = env_uuid_String E (sess_ID s)"
  shows "dead_session (view w') (sess_ID s) \<and>
    result (Authenticate E (Some (env_redis E)) token) v = Inr (principal_of c)"
proof -
  have dead: "dead_session (view w') (sess_ID s)"
    using identity_services_up.Logout_up [OF up inv s w'] by blast
  obtain t where t: "rd_strings (idb_redis (view w')) (revoked_key (env_uuid_String E (sess_ID s))) =
      Some (''revoked'', Some t)" "t \<le> sess_ExpiresAt s + d + Second"
    using identity_services_up.Logout_mark_deadline [OF up inv s w'] d by auto
  then have "\<not> live (clock (after (env_Now E) v)) (rd_strings (idb_redis (view v)) (revoked_key (clm_SessionID c)))"
    using same late token(2) identity_services.Now_clock [OF services_up_base [OF up], of v] by (simp add: live_def)
  with token dead show ?thesis by (simp add: identity_services_up.Authenticate_up [OF up])
qed

lemma revoked_token_accepted_after_session_end_witness:
  "result (Authenticate ref_auth_env (Some (env_redis ref_auth_env)) demo_access)
     ((after (Logout ref_auth_env (env_uuid_String ref_auth_env ''s1'')) demo_world)
        \<lparr>wclock := demo_now + Hour + 2 * Second\<rparr>) = Inr (principal_of (claims_of demo_claims))"
proof -
  let ?w = "after (Logout ref_auth_env (env_uuid_String ref_auth_env ''s1'')) demo_world"
  let ?v = "?w\<lparr>wclock := demo_now + Hour + 2 * Second\<rparr>"
  have same: "idb_redis (wv ?v) = idb_redis (wv ?w)" by simp
  have d: "wclock ?w = wclock demo_world + 0" by (simp add: steadyD)
  have late: "sess_ExpiresAt demo_session + 0 + Second \<le> wclock ?v"
    by (simp add: demo_session_def duration_defs)
  have parse: "env_ParseWithClaims ref_auth_env demo_access (env_jwtSecret ref_auth_env) [''HS256''] (wclock ?v) =
      Some (claims_of demo_claims)"
    by (rule demo_access_parses) (simp add: duration_defs)
  show ?thesis
    using revoked_token_accepted_after_session_end [OF ref_services_up demo_inv demo_logout [OF refl]
        same d late parse demo_access_session(1)] by blast
qed

section \<open>The edge of the system\<close>



text \<open>
  The cookies of a login do not log in. The handlers call the cookie of the access token
  \<open>access_token\<close>, the guard looks for \<open>jwt_token\<close>: a browser that sends back exactly the cookies it
  was given, and no \<open>Authorization\<close> header, is refused whatever the tokens are.
\<close>

lemma login_cookies_do_not_authenticate:
  assumes "req_Header r ''Cookie'' = [browser_cookies (map snd (token_headers (Some csrf) access refresh n))]"
    and "req_Header r ''Authorization'' = []"
  shows "result (Verify E R r) w = http_Error ''Unauthorized: No token provided'' StatusUnauthorized"
proof -
  define a where "a = ''access_token='' @ sanitizeCookieValue access"
  define b where "b = '' refresh_token='' @ sanitizeCookieValue refresh"
  define line where "line = browser_cookies (map snd (token_headers (Some csrf) access refresh n))"
  have tok: "isToken ''access_token''" "isToken ''refresh_token''" "isToken ''csrf_token''"
    by (simp_all add: isToken_def token_chars_def)
  define mid where "mid = tl a @ CHR '';'' # b @ CHR '';'' # '' csrf_token''"
  have L: "line = CHR ''a'' # mid @ CHR ''='' # sanitizeCookieValue csrf"
    by (simp add: line_def token_headers_def authCookie_def browser_cookies_def Cookie_String_pair tok a_def b_def mid_def)
  obtain c' where "TrimString line = CHR ''a'' # mid @ CHR ''='' # c'" "set c' \<subseteq> set (sanitizeCookieValue csrf)"
    unfolding L by (rule TrimString_keep [OF http_space_letters])
  then have t: "TrimString line = a @ CHR '';'' # b @ CHR '';'' # '' csrf_token='' @ c'" and c': "CHR '';'' \<notin> set c'"
    using sanitize_no_semicolon by (auto simp: a_def mid_def)
  have "CHR '';'' \<notin> set a" "CHR '';'' \<notin> set b" "CHR '';'' \<notin> set ('' csrf_token='' @ c')"
    using c' sanitize_no_semicolon by (simp_all add: a_def b_def)
  then have parts: "Split (TrimString line) CHR '';'' = [a, b, '' csrf_token='' @ c']"
    unfolding t by (metis Split_app Split_no_sep)
  have "CHR ''j'' \<notin> set (name_part a)" "CHR ''j'' \<notin> set (name_part b)" "CHR ''j'' \<notin> set (name_part ('' csrf_token='' @ c'))"
    by (simp_all add: a_def b_def name_part_def)
  then have "cookie_of_part ''jwt_token'' p = None" if "p \<in> set [a, b, '' csrf_token='' @ c']" for p
    using that cookie_of_part_letters [of "''jwt_token''" p] by (cases "cookie_of_part ''jwt_token'' p") auto
  then have "Cookie r ''jwt_token'' = None"
    using assms(1) parts by (simp add: Cookie_def map_filter_simps flip: line_def)
  then show ?thesis using assms(2) by (simp add: Verify_def extractToken_def Header_Get_def)
qed

lemma login_cookies_do_not_authenticate_witness:
  "result (Verify ref_auth_env None \<lparr>req_Method = ''GET'', req_Header = (\<lambda>k. if k = ''Cookie''
      then [browser_cookies (map snd (token_headers (Some ''c'') demo_access ''r'' 900))] else [])\<rparr>) demo_world =
    http_Error ''Unauthorized: No token provided'' StatusUnauthorized"
  by (rule login_cookies_do_not_authenticate [where csrf = "''c''" and access = demo_access and refresh = "''r''" and n = 900])
    simp_all

text \<open>
  As the server of \<open>sms-identity\<close> is put together, \<open>Logout\<close> and \<open>LogoutAll\<close> revoke nothing. Its
  only interceptor is the CSRF check, so no call carries a principal; the handlers then skip
  the revocation, leave the world untouched and still report success.
\<close>

lemma logout_without_principal_is_a_no_op:
  assumes "ctx_Principal ctx = None"
  shows "after (identity_interceptor E method (AuthServer_Logout E) ctx ()) w = w \<and>
    after (identity_interceptor E method (AuthServer_LogoutAll E) ctx ()) w = w \<and>
    (ctx_Metadata ctx = None \<longrightarrow>
      result (identity_interceptor E method (AuthServer_Logout E) ctx ()) w =
        Inr \<lparr>mr_Message = ''Logout successful'', mr_Header = clear_headers\<rparr> \<and>
      result (identity_interceptor E method (AuthServer_LogoutAll E) ctx ()) w =
        Inr \<lparr>mr_Message = ''Logout all successful'', mr_Header = clear_headers\<rparr>)"
  using assms
  by (simp add: identity_interceptor_def CSRFInterceptor_def AuthServer_Logout_def AuthServer_LogoutAll_def
      GetPrincipal_def Let_def split: option.split)

lemma logout_without_principal_is_a_no_op_witness:
  "after (identity_interceptor ref_auth_env ''/portal.auth.v1.AuthService/Logout'' (AuthServer_Logout ref_auth_env)
     \<lparr>ctx_Principal = None, ctx_Metadata = None, ctx_Peer = None\<rparr> ()) demo_world = demo_world"
  using logout_without_principal_is_a_no_op [of "\<lparr>ctx_Principal = None, ctx_Metadata = None, ctx_Peer = None\<rparr>"
      ref_auth_env "''/portal.auth.v1.AuthService/Logout''" demo_world] by simp

definition guarded_call :: "(string \<Rightarrow> string list) \<Rightarrow> string \<Rightarrow> ('w, 'a, 'b) handler \<Rightarrow> ('w, 'a, 'b) handler" where
  "guarded_call md perm h ctx req =
     (let p = metadata_principal md in
      if pr_UserID p = [] then ret (Inl (Status Unauthenticated ''unauthorized''))
      else if pr_RoleCode p = ''ADMIN'' \<or> pr_RoleCode p = ''USER'' \<and> perm = PermServerRead
      then h (SetPrincipal ctx p) req
      else ret (Inl (Status PermissionDenied ''forbidden'')))"

lemma guarded_by:
  assumes "access_control HasPermission" and "ctx_Principal ctx = None" "ctx_Metadata ctx = Some md"
    and "methods m = Some perm" and "perm \<noteq> []"
  shows "chain2 auth_metadata_interceptor (permission_interceptor HasPermission methods) m h ctx req =
    guarded_call md perm h ctx req"
proof -
  note g = access_control.guarded [where methods = methods and m = m and perm = perm, OF assms(1,4,5)]
  show ?thesis
    using assms(2,3)
    by (cases "pr_UserID (metadata_principal md) = []")
      (simp_all add: chain2_def auth_metadata_interceptor_def guarded_call_def Let_def g SetPrincipal_def)
qed

lemma method_permissions_nonempty:
  "management_methodPermissions m = Some perm \<Longrightarrow> perm \<noteq> []"
  "reporting_methodPermissions m = Some perm \<Longrightarrow> perm \<noteq> []"
  by (auto simp: management_methodPermissions_def reporting_methodPermissions_def perm_defs split: if_splits)

text \<open>
  The interceptors of \<open>sms-management\<close> and \<open>sms-reporting\<close> let a call of a protected method
  through exactly if the gateway names a user whose role is \<open>ADMIN\<close>, or \<open>USER\<close> for the reading of
  servers; the handler then runs with this principal. Otherwise the call ends with
  \<open>Unauthenticated\<close> or \<open>PermissionDenied\<close> and nothing happens.
\<close>

lemma protected_methods_need_role:
  fixes h :: "('w, 'a, 'b) handler"
  assumes "ctx_Principal ctx = None" "ctx_Metadata ctx = Some md"
  shows "(management_methodPermissions m = Some perm \<longrightarrow>
      chain2 management_AuthMetadataInterceptor (management_PermissionInterceptor management_methodPermissions) m h ctx req =
      guarded_call md perm h ctx req) \<and>
    (reporting_methodPermissions m = Some perm \<longrightarrow>
      chain2 reporting_AuthMetadataInterceptor (reporting_PermissionInterceptor reporting_methodPermissions) m h ctx req =
      guarded_call md perm h ctx req)"
  unfolding management_AuthMetadataInterceptor_def reporting_AuthMetadataInterceptor_def
    management_PermissionInterceptor_def reporting_PermissionInterceptor_def
  by (intro conjI impI; rule guarded_by [OF _ assms])
    (simp_all add: management_access.access_control_axioms reporting_access.access_control_axioms method_permissions_nonempty)

lemma protected_methods_need_role_witness:
  "chain2 management_AuthMetadataInterceptor (management_PermissionInterceptor management_methodPermissions)
      ''/server_management.v1.ServerManagementService/DeleteServer'' (\<lambda>_ _. ret (Inr (1 :: nat)))
      \<lparr>ctx_Principal = None, ctx_Metadata = Some ((\<lambda>_. [])(''x-user-id'' := [''7''], ''x-user-role'' := [''USER''])), ctx_Peer = None\<rparr> (0 :: nat) =
    (ret (Inl (Status PermissionDenied ''forbidden'')) :: (nat, status + nat) state)"
proof -
  let ?md = "(\<lambda>_. [])(''x-user-id'' := [''7''], ''x-user-role'' := [''USER''])"
  let ?ctx = "\<lparr>ctx_Principal = None, ctx_Metadata = Some ?md, ctx_Peer = None\<rparr>"
  have m: "management_methodPermissions ''/server_management.v1.ServerManagementService/DeleteServer'' = Some PermServerDelete"
    by (simp add: management_methodPermissions_def)
  have "guarded_call ?md PermServerDelete (\<lambda>_ _. ret (Inr (1 :: nat))) ?ctx (0 :: nat) =
      (ret (Inl (Status PermissionDenied ''forbidden'')) :: (nat, status + nat) state)"
    by (simp add: guarded_call_def metadata_principal_def first_value_def perm_defs)
  moreover have "chain2 management_AuthMetadataInterceptor (management_PermissionInterceptor management_methodPermissions)
      ''/server_management.v1.ServerManagementService/DeleteServer'' (\<lambda>_ _. ret (Inr (1 :: nat))) ?ctx (0 :: nat) =
      (guarded_call ?md PermServerDelete (\<lambda>_ _. ret (Inr (1 :: nat))) ?ctx (0 :: nat) :: (nat, status + nat) state)"
    by (rule protected_methods_need_role [THEN conjunct1, THEN mp]) (simp_all add: m)
  ultimately show ?thesis by simp
qed

text \<open>
  Reading the bearer token. A token without white space that is sent as \<open>Bearer <token>\<close>
  comes back, and a token that is accepted is never empty and never has white space around it.
\<close>

lemma bearer_token_roundtrip:
  "(token \<noteq> [] \<and> TrimSpace (''Bearer '' @ token) = ''Bearer '' @ token \<and> TrimSpace token = token \<longrightarrow>
      extractBearerTokenFromMetadata (ctx\<lparr>ctx_Metadata := Some (md(''authorization'' := (''Bearer '' @ token) # vs))\<rparr>) = Inr token) \<and>
   (extractBearerTokenFromMetadata ctx = Inr t \<longrightarrow> t \<noteq> [] \<and> TrimSpace t = t)"
proof
  have "Split2 (''Bearer '' @ token) CHR '' '' = [''Bearer'', token]"
    using Split2_app [of "CHR '' ''" "''Bearer''" token] by simp
  then show "token \<noteq> [] \<and> TrimSpace (''Bearer '' @ token) = ''Bearer '' @ token \<and> TrimSpace token = token \<longrightarrow>
      extractBearerTokenFromMetadata (ctx\<lparr>ctx_Metadata := Some (md(''authorization'' := (''Bearer '' @ token) # vs))\<rparr>) = Inr token"
    by (auto simp: extractBearerTokenFromMetadata_def)
  show "extractBearerTokenFromMetadata ctx = Inr t \<longrightarrow> t \<noteq> [] \<and> TrimSpace t = t"
    by (auto simp: extractBearerTokenFromMetadata_def split: option.splits list.splits if_splits)
qed

lemma bearer_token_roundtrip_witness:
  "extractBearerTokenFromMetadata \<lparr>ctx_Principal = None, ctx_Metadata = Some ((\<lambda>_. [])(''authorization'' := [''Bearer abc''])), ctx_Peer = None\<rparr> = Inr ''abc''"
proof -
  have "TrimSpace ''Bearer abc'' = ''Bearer abc''" and "TrimSpace ''abc'' = ''abc''"
    by code_simp+
  then show ?thesis
    using bearer_token_roundtrip [where token = "''abc''" and vs = "[]" and md = "\<lambda>_. []"
        and ctx = "\<lparr>ctx_Principal = None, ctx_Metadata = None, ctx_Peer = None\<rparr>"] by simp
qed

end
