(* ===== verification/Gateway.thy ===== *)
theory Gateway
  imports Identity_Properties
begin

text \<open>
  The front of \<open>sms-management\<close> and \<open>sms-reporting\<close>: the HTTP multiplexer, the gRPC gateway with its
  header matcher, and how the principal that \<open>sms-identity\<close> authenticates gets through Traefik to the
  interceptors of these services.
\<close>

section \<open>Routes\<close>

datatype management_route = MToHealth | MToImport | MToExport | MToOpenAPI | MToGateway
datatype reporting_route = RToHealth | RToOpenAPI | RToGateway
datatype identity_route = IToHealth | IToVerify | IToOpenAPI | IToGateway

text \<open>The pattern that \<open>http.ServeMux\<close> chooses for a clean path: the exact ones, then the longest subtree.\<close>

definition management_mux :: "string \<Rightarrow> management_route" where
  "management_mux path =
     (if path = ''/health'' then MToHealth
      else if path = ''/api/v1/servers/import'' then MToImport
      else if path = ''/api/v1/servers/export'' then MToExport
      else if HasPrefix path ''/openapi/'' then MToOpenAPI else MToGateway)"

definition reporting_mux :: "string \<Rightarrow> reporting_route" where
  "reporting_mux path =
     (if path = ''/health'' then RToHealth else if HasPrefix path ''/openapi/'' then RToOpenAPI else RToGateway)"

definition identity_mux :: "string \<Rightarrow> identity_route" where
  "identity_mux path =
     (if path = ''/health'' then IToHealth else if path = ''/verify'' then IToVerify
      else if HasPrefix path ''/openapi/'' then IToOpenAPI else IToGateway)"

section \<open>Headers\<close>

text \<open>\<open>DefaultHeaderMatcher\<close> is \<open>runtime.DefaultHeaderMatcher\<close>; the keys are canonical.\<close>

definition management_incoming_header :: "(string \<Rightarrow> string option) \<Rightarrow> string \<Rightarrow> string option" where
  "management_incoming_header DefaultHeaderMatcher key =
     (if HasPrefix key ''X-User-'' then Some key else DefaultHeaderMatcher key)"

definition reporting_incoming_header :: "(string \<Rightarrow> string option) \<Rightarrow> string \<Rightarrow> string option" where
  "reporting_incoming_header DefaultHeaderMatcher key =
     (if HasPrefix key ''X-User-'' then Some key else DefaultHeaderMatcher key)"

text \<open>The names of the headers that the constants \<open>HeaderUserID\<close> and so on give to the metadata.\<close>

definition user_headers :: "string list" where
  "user_headers = [''x-user-id'', ''x-user-role'', ''x-user-email'', ''x-user-name'']"

text \<open>
  The metadata of the call that the gateway makes of a request. \<open>hs\<close> are the headers, in the order in
  which the gateway goes through the map; a header goes in under the name that the matcher gives it, in
  lower case.
\<close>

definition gateway_metadata :: "(string \<Rightarrow> string option) \<Rightarrow> (string \<times> string list) list \<Rightarrow> string \<Rightarrow> string list" where
  "gateway_metadata matcher hs k =
     concat (map (\<lambda>(key, vals). case matcher key of Some h \<Rightarrow> if ToLower h = k then vals else [] | None \<Rightarrow> []) hs)"

text \<open>\<open>authResponseHeaders\<close> of the Traefik middleware, in the deployment files.\<close>

definition authResponseHeaders :: "string list" where
  "authResponseHeaders = [''X-User-Id'', ''X-User-Role'', ''X-User-Email'', ''X-User-Name'']"

text \<open>
  What Traefik documents: these headers of the answer replace those of the request. The headers are
  those of one map, each key once.
\<close>

definition forwarded :: "http_response \<Rightarrow> (string \<times> string list) list \<Rightarrow> bool" where
  "forwarded resp hs \<longleftrightarrow> distinct (map fst hs) \<and>
     (\<forall>k \<in> set authResponseHeaders. map_of hs k = map_option (\<lambda>v. [v]) (map_of (resp_Header resp) k))"

text \<open>A header that is not one of the four but gets the name of one in the metadata.\<close>

definition aliased :: "(string \<Rightarrow> string option) \<Rightarrow> string \<Rightarrow> bool" where
  "aliased matcher key \<longleftrightarrow> key \<notin> set authResponseHeaders \<and>
     (case matcher key of Some h \<Rightarrow> ToLower h \<in> set user_headers | None \<Rightarrow> False)"

lemma gateway_metadata_unique:
  assumes "distinct (map fst hs)" and "map_of hs key = Some vals" and "matcher key = Some h" and "ToLower h = k"
    and "\<And>key' vals' h'. (key', vals') \<in> set hs \<Longrightarrow> key' \<noteq> key \<Longrightarrow> matcher key' = Some h' \<Longrightarrow> ToLower h' \<noteq> k"
  shows "gateway_metadata matcher hs k = vals"
  using assms(1,2,5)
proof (induction hs)
  case (Cons p hs)
  obtain key' vals' where p: "p = (key', vals')" by (cases p)
  show ?case
  proof (cases "key' = key")
    case True
    have "\<forall>q \<in> set hs. (case q of (key'', vals'') \<Rightarrow>
        case matcher key'' of Some h \<Rightarrow> if ToLower h = k then vals'' else [] | None \<Rightarrow> []) = []"
      using Cons.prems True p by (force split: option.split)
    then have "concat (map (\<lambda>(key, vals). case matcher key of Some h \<Rightarrow> if ToLower h = k then vals else [] | None \<Rightarrow> []) hs) = []"
      by simp
    with True Cons.prems(2) assms(3,4) p show ?thesis by (simp add: gateway_metadata_def)
  next
    case False
    with Cons p have "gateway_metadata matcher hs k = vals" by auto
    moreover have "(case matcher key' of Some h \<Rightarrow> if ToLower h = k then vals' else [] | None \<Rightarrow> []) = []"
      using Cons.prems(3) [of key' vals'] False p by (auto split: option.split)
    ultimately show ?thesis by (simp add: gateway_metadata_def p)
  qed
qed simp

text \<open>The four names, in the header and in the metadata.\<close>

lemma header_names:
  "ToLower ''X-User-Id'' = ''x-user-id''" "ToLower ''X-User-Role'' = ''x-user-role''"
  "ToLower ''X-User-Email'' = ''x-user-email''" "ToLower ''X-User-Name'' = ''x-user-name''"
  by code_simp+

text \<open>Without aliases, each of the four entries of the metadata is the header that Traefik has set.\<close>

lemma forwarded_metadata:
  assumes "forwarded resp hs" and "\<forall>(key, vals) \<in> set hs. \<not> aliased (management_incoming_header dm) key"
    and "key \<in> set authResponseHeaders" and "map_of (resp_Header resp) key = Some v"
  shows "gateway_metadata (management_incoming_header dm) hs (ToLower key) = [v]"
proof (rule gateway_metadata_unique)
  show "distinct (map fst hs)" "map_of hs key = Some [v]" using assms by (simp_all add: forwarded_def)
  show "management_incoming_header dm key = Some key"
    using assms(3) by (auto simp: management_incoming_header_def authResponseHeaders_def)
  show "ToLower key = ToLower key" ..
  fix key' vals' h' assume k: "(key', vals') \<in> set hs" "key' \<noteq> key" "management_incoming_header dm key' = Some h'"
  have lower: "ToLower key \<in> set user_headers" using assms(3) header_names by (auto simp: authResponseHeaders_def user_headers_def)
  show "ToLower h' \<noteq> ToLower key"
  proof (cases "key' \<in> set authResponseHeaders")
    case True
    then have "h' = key'" using k(3) by (auto simp: management_incoming_header_def authResponseHeaders_def)
    with True assms(3) k(2) header_names show ?thesis by (auto simp: authResponseHeaders_def)
  next
    case False
    have "\<not> aliased (management_incoming_header dm) key'" using assms(2) k(1) by blast
    with False k(3) have "ToLower h' \<notin> set user_headers" by (simp add: aliased_def)
    with lower show ?thesis by metis
  qed
qed

lemma incoming_headers_agree: "reporting_incoming_header = management_incoming_header"
  by (simp add: fun_eq_iff reporting_incoming_header_def management_incoming_header_def)

section \<open>From the token to the handler\<close>

text \<open>What the other services know of a principal: neither the identifier of the role nor the session.\<close>

definition seen_principal :: "Principal \<Rightarrow> Principal" where
  "seen_principal p = p\<lparr>pr_RoleID := [], pr_SessionID := []\<rparr>"

lemma Verify_ok_headers:
  assumes "resp_Status (result (Verify E R r) w) = StatusOK"
  obtains p where "result (Authenticate E R (extractToken r)) w = Inr p"
    and "resp_Header (result (Verify E R r) w) = [(''X-User-Id'', pr_UserID p), (''X-User-Role'', pr_RoleCode p),
        (''X-User-Email'', pr_Email p), (''X-User-Name'', pr_Username p)]"
proof (cases "extractToken r = []")
  case True
  with assms show thesis by (simp add: Verify_def http_Error_def http_status)
next
  case False
  with assms that show thesis
    by (cases "result (Authenticate E R (extractToken r)) w")
      (auto simp: Verify_def http_Error_def http_status split: option.splits if_splits)
qed


text \<open>A request with the access token of the session that is in the demonstration tables.\<close>

definition demo_request :: http_request where
  "demo_request = \<lparr>req_Method = ''GET'', req_Header = (\<lambda>k. if k = ''Authorization'' then [''Bearer '' @ demo_access] else [])\<rparr>"

definition demo_headers :: "(string \<times> string list) list" where
  "demo_headers = [(''Accept'', [''*/*'']), (''X-User-Id'', [''7'']), (''X-User-Role'', [''ADMIN'']),
     (''X-User-Email'', [[]]), (''X-User-Name'', [[]])]"

lemma demo_request_verified:
  "result (Authenticate ref_auth_env (Some (env_redis ref_auth_env)) (extractToken demo_request)) demo_world =
     Inr (principal_of (claims_of demo_claims))"
  "result (Verify ref_auth_env (Some (env_redis ref_auth_env)) demo_request) demo_world =
     \<lparr>resp_Status = StatusOK,
      resp_Header = [(''X-User-Id'', pr_UserID (principal_of (claims_of demo_claims))),
        (''X-User-Role'', pr_RoleCode (principal_of (claims_of demo_claims))),
        (''X-User-Email'', pr_Email (principal_of (claims_of demo_claims))),
        (''X-User-Name'', pr_Username (principal_of (claims_of demo_claims)))], resp_Body = []\<rparr>"
proof -
  have tok: "extractToken demo_request = demo_access"
    by (simp add: extractToken_def Header_Get_def demo_request_def HasPrefix_def TrimPrefix_def)
  have ne: "demo_access \<noteq> []"
    by (simp add: demo_access_def ref_SignedString_def enc_def)
  have parse: "env_ParseWithClaims ref_auth_env demo_access (env_jwtSecret ref_auth_env) [''HS256''] (wclock demo_world) =
      Some (claims_of demo_claims)"
    by (rule demo_access_parses) (simp add: duration_defs)
  show auth: "result (Authenticate ref_auth_env (Some (env_redis ref_auth_env)) (extractToken demo_request)) demo_world =
      Inr (principal_of (claims_of demo_claims))"
    using identity_services_up.Authenticate_up [OF ref_services_up, of demo_access demo_world] parse
    unfolding tok by (simp add: demo_world_def live_def empty_redis_def)
  have "Header_Get demo_request ''Authorization'' \<noteq> []" by (simp add: Header_Get_def demo_request_def)
  with auth ne tok show "result (Verify ref_auth_env (Some (env_redis ref_auth_env)) demo_request) demo_world =
     \<lparr>resp_Status = StatusOK,
      resp_Header = [(''X-User-Id'', pr_UserID (principal_of (claims_of demo_claims))),
        (''X-User-Role'', pr_RoleCode (principal_of (claims_of demo_claims))),
        (''X-User-Email'', pr_Email (principal_of (claims_of demo_claims))),
        (''X-User-Name'', pr_Username (principal_of (claims_of demo_claims)))], resp_Body = []\<rparr>"
    by (simp add: Verify_def)
qed

lemma Itoa_7: "Itoa 7 = ''7''"
  by code_simp

lemma demo_principal:
  "pr_UserID (principal_of (claims_of demo_claims)) = ''7''"
  "pr_RoleCode (principal_of (claims_of demo_claims)) = ''ADMIN''"
  "pr_Email (principal_of (claims_of demo_claims)) = []"
  "pr_Username (principal_of (claims_of demo_claims)) = []"
  by (simp_all add: principal_of_def claims_of_def demo_claims_def access_claims_def string_claim_def Itoa_7)


text \<open>
  What goes wrong without the third hypothesis. The default matcher of the gateway also lets a client name
  metadata of its own, with the prefix \<open>Grpc-Metadata-\<close>. When such a header comes before the one of Traefik in
  the iteration of the map, its value comes first in the metadata, and the interceptors take the first.
\<close>

definition documented_matcher :: "string \<Rightarrow> string option" where
  "documented_matcher key =
     (if HasPrefix key ''Grpc-Metadata-'' then Some (TrimPrefix key ''Grpc-Metadata-'') else None)"

lemma spoofed_role:
  fixes h :: "('v, 'a, 'b) handler"
  assumes "hs = [(''Grpc-Metadata-X-User-Role'', [''ADMIN'']), (''X-User-Id'', [''7'']), (''X-User-Role'', [''USER'']),
     (''X-User-Email'', [[]]), (''X-User-Name'', [[]])]"
    and "ctx_Metadata ctx = Some (gateway_metadata (management_incoming_header documented_matcher) hs)"
    and "ctx_Principal ctx = None" and "management_methodPermissions m = Some PermServerDelete"
  shows "\<exists>p. pr_RoleCode p = ''ADMIN'' \<and>
    chain2 management_AuthMetadataInterceptor (management_PermissionInterceptor management_methodPermissions) m h ctx req =
      h (SetPrincipal ctx p) req"
proof -
  let ?md = "gateway_metadata (management_incoming_header documented_matcher) hs"
  have role: "?md ''x-user-role'' = [''ADMIN'', ''USER'']" and uid: "?md ''x-user-id'' = [''7'']"
    unfolding assms(1) by code_simp+
  let ?p = "metadata_principal ?md"
  have p: "pr_RoleCode ?p = ''ADMIN''" "pr_UserID ?p = ''7''"
    by (simp_all add: metadata_principal_def first_value_def role uid)
  have "chain2 management_AuthMetadataInterceptor (management_PermissionInterceptor management_methodPermissions) m h ctx req =
      guarded_call ?md PermServerDelete h ctx req"
    unfolding management_AuthMetadataInterceptor_def management_PermissionInterceptor_def
    by (rule guarded_by [where methods = management_methodPermissions and m = m and md = ?md and perm = PermServerDelete,
          OF management_access.access_control_axioms assms(3,2,4) method_permissions_nonempty(1) [OF assms(4)]])
  then show ?thesis using p by (intro exI [of _ ?p]) (simp add: guarded_call_def)
qed

end
