(* ===== verification/Management_Handlers.thy ===== *)
theory Management_Handlers
  imports Management_Workers Grpc Http
begin

text \<open>
  The API of \<open>sms-management\<close>: the gRPC handlers behind their interceptors, and the REST handlers
  for import and export, which are mounted beside the gateway.
\<close>

section \<open>Errors\<close>

definition repo_error_text :: "repo_error \<Rightarrow> string" where
  "repo_error_text e = (case e of ErrNotFound \<Rightarrow> ''record not found'' | ErrDB d \<Rightarrow> db_error_text d)"

definition crypto_error_text :: "crypto_error \<Rightarrow> string" where
  "crypto_error_text e =
     (case e of
        ErrMasterKeyNotSet \<Rightarrow> ''MASTER_KEY is not set''
      | ErrInvalidKey \<Rightarrow> ''invalid master key length for AES-256''
      | ErrRand s \<Rightarrow> s
      | _ \<Rightarrow> ''encryption/decryption error'')"

definition service_error_text :: "service_error \<Rightarrow> string" where
  "service_error_text e =
     (case e of
        ErrServerNotFound \<Rightarrow> ''Server not found.''
      | ErrIPv4Exists \<Rightarrow> ''This IPv4 address already exists.''
      | ErrNameExists \<Rightarrow> ''This Server name already exists.''
      | ErrInvalidSSHPort \<Rightarrow> ''invalid SSH port''
      | ErrInvalidSSHUser \<Rightarrow> ''invalid SSH user''
      | ErrInvalidSSHKey \<Rightarrow> ''invalid SSH key (required when switching to SSH)''
      | ErrInvalidSSHKeyFormat \<Rightarrow> ''invalid SSH key format (must be a valid private key)''
      | ErrInvalidAgentEndpoint \<Rightarrow> ''invalid agent endpoint''
      | ErrInvalidAgentEndpointFormat \<Rightarrow> ''Agent endpoint must be a valid absolute URL.''
      | ErrInvalidStatusFilter \<Rightarrow> ''Invalid status filter.''
      | ErrFileTooLarge \<Rightarrow> ''File size exceeds 2MB limit.''
      | ErrInvalidFormat \<Rightarrow> ''Invalid file format. Only .xlsx is supported.''
      | ErrNoSheets \<Rightarrow> ''No sheets found in the Excel file.''
      | ErrEmptyFile \<Rightarrow> ''The Excel file is empty.''
      | ErrMissingCols \<Rightarrow>
          (let q = [CHR 0x27] in ''The Excel file is missing required columns: '' @ q @ ''Server Name'' @ q @ '' or '' @ q @ ''IPv4'' @ q @ ''.'')
      | ErrEncrypt c \<Rightarrow> ''failed to encrypt ssh key: '' @ crypto_error_text c
      | ErrRepo r \<Rightarrow> repo_error_text r
      | ErrWrapped msg r \<Rightarrow> msg @ repo_error_text r
      | ErrExcel msg \<Rightarrow> msg)"

definition mapError :: "service_error \<Rightarrow> status" where
  "mapError err =
     (if err = ErrServerNotFound then Status NotFound (service_error_text err)
      else if err = ErrIPv4Exists \<or> err = ErrNameExists then Status AlreadyExists (service_error_text err)
      else if err \<in> {ErrFileTooLarge, ErrInvalidFormat, ErrNoSheets, ErrEmptyFile, ErrMissingCols}
      then Status InvalidArgument (service_error_text err)
      else if err \<in> {ErrInvalidSSHPort, ErrInvalidSSHUser, ErrInvalidSSHKey, ErrInvalidSSHKeyFormat,
          ErrInvalidAgentEndpoint, ErrInvalidAgentEndpointFormat, ErrInvalidStatusFilter}
      then Status InvalidArgument (service_error_text err)
      else Status Internal (service_error_text err))"

section \<open>Messages\<close>

record pb_Server =
  pb_ServerId :: string
  pb_ServerName :: string
  pb_Ipv4 :: string
  pb_CurrentStatus :: string
  pb_CreatedAt :: string
  pb_UpdatedAt :: string
  pb_HealthCheckMethod :: string
  pb_SshPort :: int
  pb_SshUser :: string
  pb_SshKey :: string
  pb_AgentEndpoint :: string

definition mapServerToPB :: "Server \<Rightarrow> pb_Server" where
  "mapServerToPB server =
     \<lparr>pb_ServerId = srv_ServerID server, pb_ServerName = srv_ServerName server, pb_Ipv4 = srv_IPv4 server,
      pb_CurrentStatus = srv_CurrentStatus server, pb_CreatedAt = Format_RFC3339 (srv_CreatedAt server),
      pb_UpdatedAt = Format_RFC3339 (srv_UpdatedAt server), pb_HealthCheckMethod = srv_HealthCheckMethod server,
      pb_SshPort = wrap32 (srv_SSHPort server), pb_SshUser = srv_SSHUser server, pb_SshKey = [],
      pb_AgentEndpoint = srv_AgentEndpoint server\<rparr>"

text \<open>
  The fields of a request to create or update a server are those of \<open>ServerInput\<close>; of a request to
  view or export those below. A request that is nil is \<open>None\<close>.
\<close>

record list_request =
  lr_Page :: int
  lr_Limit :: int
  lr_FilterStatus :: string
  lr_FilterName :: string
  lr_SortBy :: string
  lr_SortDirection :: string
  lr_CreatedFrom :: string
  lr_CreatedTo :: string

definition invalid_argument :: "string \<Rightarrow> status" where
  "invalid_argument msg = Status InvalidArgument msg"

definition status_of_error :: "('w, service_error + 'a) state \<Rightarrow> ('w, status + 'a) state" where
  "status_of_error m = do { r \<leftarrow> m; ret (case r of Inl e \<Rightarrow> Inl (mapError e) | Inr a \<Rightarrow> Inr a) }"

definition default_method :: "ServerInput \<Rightarrow> ServerInput" where
  "default_method input = (if in_HealthCheckMethod input = [] then input\<lparr>in_HealthCheckMethod := MethodICMP\<rparr> else input)"

section \<open>The gRPC handlers\<close>

definition grpc_CreateServer :: "'w management_env \<Rightarrow> ('w, ServerInput option, pb_Server) handler" where
  "grpc_CreateServer E ctx req =
     (case req of
        None \<Rightarrow> ret (Inl (invalid_argument ''request is required''))
      | Some input \<Rightarrow>
          if in_ServerName input = [] then ret (Inl (invalid_argument ''Server name is required.''))
          else if 100 < length (in_ServerName input) then ret (Inl (invalid_argument ''Server name is too long.''))
          else if in_IPv4 input = [] then ret (Inl (invalid_argument ''IPv4 address is required.''))
          else if ParseIP (in_IPv4 input) = None then ret (Inl (invalid_argument ''Invalid IPv4 address.''))
          else and_then (status_of_error (CreateServer E (default_method input))) (\<lambda>server. ret (Inr (mapServerToPB server))))"

definition grpc_UpdateServer :: "'w management_env \<Rightarrow> ('w, (string \<times> ServerInput) option, pb_Server) handler" where
  "grpc_UpdateServer E ctx req =
     (case req of
        None \<Rightarrow> ret (Inl (invalid_argument ''request is required''))
      | Some (serverId, input) \<Rightarrow>
          and_then (status_of_error (UpdateServer E serverId (default_method input))) (\<lambda>server. ret (Inr (mapServerToPB server))))"

definition grpc_DeleteServer :: "'w management_env \<Rightarrow> ('w, string option, bool) handler" where
  "grpc_DeleteServer E ctx req =
     (case req of
        None \<Rightarrow> ret (Inl (invalid_argument ''request is required''))
      | Some serverId \<Rightarrow> and_then (status_of_error (DeleteServer E serverId)) (\<lambda>_. ret (Inr True)))"

text \<open>The range of dates of a search; the last day is included.\<close>

definition parseCreatedDateRange :: "string \<Rightarrow> string \<Rightarrow> string + time \<times> time" where
  "parseCreatedDateRange createdFrom createdTo =
     (case (if createdFrom = [] then Some 0 else Parse_date createdFrom) of
        None \<Rightarrow> Inl ''Created From must use YYYY-MM-DD format.''
      | Some from \<Rightarrow>
          (case (if createdTo = [] then Some 0 else map_option (\<lambda>to. to + Day) (Parse_date createdTo)) of
             None \<Rightarrow> Inl ''Created To must use YYYY-MM-DD format.''
           | Some to \<Rightarrow>
               if from \<noteq> 0 \<and> to \<noteq> 0 \<and> \<not> from < to
               then Inl ''Created From must be before or equal to Created To.''
               else Inr (from, to)))"

definition grpc_parseCreatedDateRange :: "string \<Rightarrow> string \<Rightarrow> status + time \<times> time" where
  "grpc_parseCreatedDateRange createdFrom createdTo =
     (case parseCreatedDateRange createdFrom createdTo of Inl msg \<Rightarrow> Inl (invalid_argument msg) | Inr r \<Rightarrow> Inr r)"

definition list_filter :: "list_request \<Rightarrow> time \<times> time \<Rightarrow> ServerListFilter" where
  "list_filter req dates =
     \<lparr>lf_Page = lr_Page req, lf_PageSize = lr_Limit req, lf_Status = lr_FilterStatus req, lf_Name = lr_FilterName req,
      lf_CreatedFrom = fst dates, lf_CreatedTo = snd dates, lf_SortBy = lr_SortBy req, lf_SortDirection = lr_SortDirection req\<rparr>"

definition grpc_ViewServers :: "'w management_env \<Rightarrow> ('w, list_request option, int \<times> pb_Server list) handler" where
  "grpc_ViewServers E ctx req =
     (case req of
        None \<Rightarrow> ret (Inl (invalid_argument ''request is required''))
      | Some req \<Rightarrow>
          and_then (ret (grpc_parseCreatedDateRange (lr_CreatedFrom req) (lr_CreatedTo req))) (\<lambda>dates.
          and_then (status_of_error (SearchServers E (list_filter req dates))) (\<lambda>(servers, totalCount).
          ret (Inr (totalCount, map mapServerToPB servers)))))"

definition grpc_ImportServers :: "'book excelize \<Rightarrow> 'w management_env \<Rightarrow> ('w, string option, ImportResult) handler" where
  "grpc_ImportServers X E ctx req =
     (case req of
        None \<Rightarrow> ret (Inl (invalid_argument ''request is required''))
      | Some fileContent \<Rightarrow> status_of_error (ImportServers X E fileContent))"

definition grpc_ExportServers :: "'book excelize \<Rightarrow> 'w management_env \<Rightarrow> ('w, list_request option, string \<times> string) handler" where
  "grpc_ExportServers X E ctx req =
     (case req of
        None \<Rightarrow> ret (Inl (invalid_argument ''request is required''))
      | Some req \<Rightarrow>
          and_then (ret (grpc_parseCreatedDateRange (lr_CreatedFrom req) (lr_CreatedTo req))) (\<lambda>dates.
          status_of_error (ExportServers X E (list_filter req dates))))"

text \<open>The interceptors of the server, as \<open>Run\<close> installs them: no other check stands before a handler.\<close>

definition management_chain :: "('w, 'a, 'b) interceptor" where
  "management_chain = chain2 management_AuthMetadataInterceptor (management_PermissionInterceptor management_methodPermissions)"

section \<open>The REST handlers\<close>

definition StatusMethodNotAllowed :: int where "StatusMethodNotAllowed = 405"
definition StatusRequestEntityTooLarge :: int where "StatusRequestEntityTooLarge = 413"
definition StatusInternalServerError :: int where "StatusInternalServerError = 500"

text \<open>\<open>json.NewEncoder\<close> ends a value with a newline.\<close>

definition writeJSON :: "int \<Rightarrow> json \<Rightarrow> http_response" where
  "writeJSON c v = \<lparr>resp_Status = c, resp_Header = [(''Content-Type'', ''application/json'')], resp_Body = Marshal v @ [CHR 0x0A]\<rparr>"

definition writeError :: "int \<Rightarrow> string \<Rightarrow> http_response" where
  "writeError c message = writeJSON c (JObj [(''code'', JInt c), (''message'', JStr message)])"

definition maxSize :: nat where "maxSize = 2 * 1024 * 1024"

text \<open>
  The body of a request, cut off after \<open>maxSize\<close> bytes with an error; \<open>None\<close> is a body that cannot
  be read. \<open>multipart.Reader\<close> is a parameter: the parts of a body as pairs of form name and content,
  up to the first that cannot be read.
\<close>

definition read_body :: "string option \<Rightarrow> string option" where
  "read_body b = (case b of None \<Rightarrow> None | Some raw \<Rightarrow> if length raw \<le> maxSize then Some raw else None)"

definition extractBoundary :: "string \<Rightarrow> string" where
  "extractBoundary contentType =
     (case find (\<lambda>part. HasPrefix part ''boundary='') (map TrimSpace (Split contentType (CHR '';''))) of
        None \<Rightarrow> []
      | Some part \<Rightarrow> drop (length ''boundary='') part)"

definition extractFileFromMultipart ::
  "(string \<Rightarrow> string \<Rightarrow> (string \<times> string) list) \<Rightarrow> string \<Rightarrow> string \<Rightarrow> string option" where
  "extractFileFromMultipart parts contentType raw =
     (let boundary = extractBoundary contentType in
      if boundary = [] \<or> length raw < 2 \<or> take 2 raw \<noteq> ''--'' then None
      else map_option snd (find (\<lambda>(name, _). name = ''file'') (parts boundary raw)))"

definition json_strings :: "string list \<Rightarrow> json" where
  "json_strings xs = (if xs = [] then JNull else JArr (map JStr xs))"

definition import_json :: "ImportResult \<Rightarrow> json" where
  "import_json res = JObj [(''failCount'', JInt (ir_FailCount res)), (''failedServers'', json_strings (ir_FailedServers res)),
     (''successCount'', JInt (ir_SuccessCount res)), (''successfulServers'', json_strings (ir_SuccessfulServers res))]"

definition HandleImport ::
  "(string \<Rightarrow> string \<Rightarrow> (string \<times> string) list) \<Rightarrow> 'book excelize \<Rightarrow> 'w management_env \<Rightarrow>
   http_request \<Rightarrow> string option \<Rightarrow> ('w, http_response) state" where
  "HandleImport parts X E r body =
     (if req_Method r \<noteq> ''POST'' then ret (writeError StatusMethodNotAllowed ''Method not allowed.'')
      else case read_body body of
        None \<Rightarrow> ret (writeError StatusBadRequest ''Failed to read request body.'')
      | Some raw \<Rightarrow> do {
          let fileBytes = (case extractFileFromMultipart parts (Header_Get r ''Content-Type'') raw of None \<Rightarrow> raw | Some f \<Rightarrow> f);
          result \<leftarrow> ImportServers X E fileBytes;
          ret (case result of
            Inl err \<Rightarrow>
              if err = ErrFileTooLarge then writeError StatusRequestEntityTooLarge (service_error_text err)
              else if err \<in> {ErrInvalidFormat, ErrEmptyFile, ErrNoSheets, ErrMissingCols}
              then writeError StatusBadRequest (service_error_text err)
              else writeError StatusInternalServerError (service_error_text err)
          | Inr res \<Rightarrow> writeJSON StatusOK (import_json res))
        })"

text \<open>The query of a URL: \<open>Get\<close> gives the first value of a key, or the empty string.\<close>

definition rest_filter :: "(string \<Rightarrow> string) \<Rightarrow> time \<times> time \<Rightarrow> ServerListFilter" where
  "rest_filter q dates =
     (let pg = fst (Atoi (q ''page'')); limit = fst (Atoi (q ''limit'')) in
      \<lparr>lf_Page = (if pg < 1 then 1 else pg), lf_PageSize = (if limit < 1 then 100 else limit),
       lf_Status = q ''filterStatus'', lf_Name = q ''filterName'', lf_CreatedFrom = fst dates, lf_CreatedTo = snd dates,
       lf_SortBy = q ''sortBy'', lf_SortDirection = q ''sortDirection''\<rparr>)"

definition HandleExport ::
  "'book excelize \<Rightarrow> 'w management_env \<Rightarrow> http_request \<Rightarrow> (string \<Rightarrow> string) \<Rightarrow> ('w, http_response) state" where
  "HandleExport X E r q =
     (if req_Method r \<noteq> ''GET'' then ret (writeError StatusMethodNotAllowed ''Method not allowed.'')
      else case parseCreatedDateRange (q ''createdFrom'') (q ''createdTo'') of
        Inl msg \<Rightarrow> ret (writeError StatusBadRequest msg)
      | Inr dates \<Rightarrow> do {
          result \<leftarrow> ExportServers X E (rest_filter q dates);
          ret (case result of
            Inl err \<Rightarrow> writeError StatusInternalServerError (service_error_text err)
          | Inr (fileBytes, filename) \<Rightarrow>
              \<lparr>resp_Status = StatusOK,
               resp_Header = [(''Content-Type'', ''application/vnd.openxmlformats-officedocument.spreadsheetml.sheet''),
                 (''Content-Disposition'', ''attachment; filename='' @ [quote] @ filename @ [quote])],
               resp_Body = fileBytes\<rparr>)
        })"

end
