(* ===== verification/Rest_Api.thy ===== *)
theory Rest_Api
  imports Gateway Management_Handlers Reporting
begin

text \<open>
  The REST interface of the three services with an API, as the generated code of the gateway puts it
  together: the table of routes, the function that makes a message of a request and calls the gRPC
  client, and the client, whose call ends in the interceptors and handlers of the service. The
  matching of paths and the decoding of bodies and queries are the library's, and parameters.
\<close>

section \<open>Requests\<close>

text \<open>
  What the marshaler makes of a body: a message, an incomplete one with the error \<open>io.EOF\<close>, as for an
  empty body, or another error. The form of a request holds its query.
\<close>

datatype 'a decoded = Decoded 'a | DecodedEOF 'a | DecodeError string

record gw_request =
  gw_Method :: string
  gw_Path :: string
  gw_Header :: "(string \<times> string list) list"
  gw_Body :: string

type_synonym form = "string \<Rightarrow> string list"

record management_codec =
  dec_CreateServerRequest :: "string \<Rightarrow> ServerInput decoded"
  dec_UpdateServerRequest :: "string \<Rightarrow> (string \<times> ServerInput) decoded"
  dec_ImportServersRequest :: "string \<Rightarrow> string decoded"
  ParseForm :: "gw_request \<Rightarrow> string + form"
  PopulateQueryParameters :: "form \<Rightarrow> string + list_request"

record identity_codec =
  dec_LoginRequest :: "string \<Rightarrow> (string \<times> string) decoded"
  dec_RefreshRequest :: "string \<Rightarrow> string decoded"
  dec_LogoutRequest :: "string \<Rightarrow> unit decoded"

type_synonym pathParams = "string \<Rightarrow> string option"

text \<open>The two parts that the generated functions share.\<close>

definition decode_body :: "'a decoded \<Rightarrow> ('a \<Rightarrow> ('w, status + 'b) state) \<Rightarrow> ('w, status + 'b) state" where
  "decode_body d call =
     (case d of
        DecodeError e \<Rightarrow> ret (Inl (Status InvalidArgument e))
      | Decoded protoReq \<Rightarrow> call protoReq
      | DecodedEOF protoReq \<Rightarrow> call protoReq)"

definition path_parameter :: "pathParams \<Rightarrow> string \<Rightarrow> (string \<Rightarrow> ('w, status + 'b) state) \<Rightarrow> ('w, status + 'b) state" where
  "path_parameter pathParams name call =
     (case pathParams name of
        None \<Rightarrow> ret (Inl (Status InvalidArgument (''missing parameter '' @ name)))
      | Some val \<Rightarrow> call val)"

text \<open>
  A route: method, template of the path and what is done. Which of the registered routes a request
  takes, if any, and the parameters in its path are the library's choice (it knows about forms that
  stand for a query, and about headers that override the method): the position in the table.
\<close>

type_synonym ('w, 'r) route = "string \<times> string \<times> (gw_request \<Rightarrow> pathParams \<Rightarrow> grpc_ctx \<Rightarrow> ('w, status + 'r) state)"
type_synonym router = "(string \<times> string) list \<Rightarrow> gw_request \<Rightarrow> (nat \<times> pathParams) option"

definition route_names :: "('w, 'r) route list \<Rightarrow> (string \<times> string) list" where
  "route_names routes = map (\<lambda>(meth, pattern, _). (meth, pattern)) routes"

text \<open>The call of the gateway, with the headers that become metadata; the peer is the gateway itself.\<close>

definition gateway_ctx :: "(string \<Rightarrow> string option) \<Rightarrow> string \<Rightarrow> gw_request \<Rightarrow> grpc_ctx" where
  "gateway_ctx matcher peer r =
     \<lparr>ctx_Principal = None, ctx_Metadata = Some (gateway_metadata matcher (gw_Header r)), ctx_Peer = Some peer\<rparr>"

definition gateway_serve ::
  "router \<Rightarrow> ('w, 'r) route list \<Rightarrow> gw_request \<Rightarrow> grpc_ctx \<Rightarrow> ('w, (status + 'r) option) state" where
  "gateway_serve Route routes r ctx =
     (case Route (route_names routes) r of
        None \<Rightarrow> ret None
      | Some (i, pathParams) \<Rightarrow>
          if i < length routes then do { resp \<leftarrow> snd (snd (routes ! i)) r pathParams ctx; ret (Some resp) }
          else ret None)"

section \<open>\<open>sms-management\<close>\<close>

text \<open>
  The client of the service: a call goes over the connection to the server that runs its interceptors
  with the full name of the method. Failures of the connection, to the process itself, are left out.
\<close>

definition client_CreateServer :: "'w management_env \<Rightarrow> ('w, ServerInput option, pb_Server) handler" where
  "client_CreateServer E = management_chain ''/server_management.v1.ServerManagementService/CreateServer'' (grpc_CreateServer E)"

definition client_UpdateServer :: "'w management_env \<Rightarrow> ('w, (string \<times> ServerInput) option, pb_Server) handler" where
  "client_UpdateServer E = management_chain ''/server_management.v1.ServerManagementService/UpdateServer'' (grpc_UpdateServer E)"

definition client_DeleteServer :: "'w management_env \<Rightarrow> ('w, string option, bool) handler" where
  "client_DeleteServer E = management_chain ''/server_management.v1.ServerManagementService/DeleteServer'' (grpc_DeleteServer E)"

definition client_ViewServers :: "'w management_env \<Rightarrow> ('w, list_request option, int \<times> pb_Server list) handler" where
  "client_ViewServers E = management_chain ''/server_management.v1.ServerManagementService/ViewServers'' (grpc_ViewServers E)"

definition client_ImportServers :: "'book excelize \<Rightarrow> 'w management_env \<Rightarrow> ('w, string option, ImportResult) handler" where
  "client_ImportServers X E = management_chain ''/server_management.v1.ServerManagementService/ImportServers'' (grpc_ImportServers X E)"

definition client_ExportServers :: "'book excelize \<Rightarrow> 'w management_env \<Rightarrow> ('w, list_request option, string \<times> string) handler" where
  "client_ExportServers X E = management_chain ''/server_management.v1.ServerManagementService/ExportServers'' (grpc_ExportServers X E)"

text \<open>From the request to the client.\<close>

definition request_CreateServer_0 ::
  "management_codec \<Rightarrow> ('w, ServerInput option, pb_Server) handler \<Rightarrow> gw_request \<Rightarrow> pathParams \<Rightarrow> grpc_ctx \<Rightarrow> ('w, status + pb_Server) state" where
  "request_CreateServer_0 C client req pathParams ctx =
     decode_body (dec_CreateServerRequest C (gw_Body req)) (\<lambda>protoReq. client ctx (Some protoReq))"

definition request_UpdateServer_0 ::
  "management_codec \<Rightarrow> ('w, (string \<times> ServerInput) option, pb_Server) handler \<Rightarrow> gw_request \<Rightarrow> pathParams \<Rightarrow> grpc_ctx \<Rightarrow> ('w, status + pb_Server) state" where
  "request_UpdateServer_0 C client req pathParams ctx =
     decode_body (dec_UpdateServerRequest C (gw_Body req)) (\<lambda>(_, input).
     path_parameter pathParams ''server_id'' (\<lambda>ServerId. client ctx (Some (ServerId, input))))"

definition request_DeleteServer_0 ::
  "('w, string option, bool) handler \<Rightarrow> gw_request \<Rightarrow> pathParams \<Rightarrow> grpc_ctx \<Rightarrow> ('w, status + bool) state" where
  "request_DeleteServer_0 client req pathParams ctx =
     path_parameter pathParams ''server_id'' (\<lambda>ServerId. client ctx (Some ServerId))"

definition query_request ::
  "management_codec \<Rightarrow> gw_request \<Rightarrow> (list_request \<Rightarrow> ('w, status + 'b) state) \<Rightarrow> ('w, status + 'b) state" where
  "query_request C req call =
     (case ParseForm C req of
        Inl e \<Rightarrow> ret (Inl (Status InvalidArgument e))
      | Inr f \<Rightarrow>
          (case PopulateQueryParameters C f of
             Inl e \<Rightarrow> ret (Inl (Status InvalidArgument e))
           | Inr protoReq \<Rightarrow> call protoReq))"

definition request_ViewServers_0 ::
  "management_codec \<Rightarrow> ('w, list_request option, int \<times> pb_Server list) handler \<Rightarrow> gw_request \<Rightarrow> pathParams \<Rightarrow> grpc_ctx \<Rightarrow>
   ('w, status + (int \<times> pb_Server list)) state" where
  "request_ViewServers_0 C client req pathParams ctx = query_request C req (\<lambda>protoReq. client ctx (Some protoReq))"

definition request_ImportServers_0 ::
  "management_codec \<Rightarrow> ('w, string option, ImportResult) handler \<Rightarrow> gw_request \<Rightarrow> pathParams \<Rightarrow> grpc_ctx \<Rightarrow> ('w, status + ImportResult) state" where
  "request_ImportServers_0 C client req pathParams ctx =
     decode_body (dec_ImportServersRequest C (gw_Body req)) (\<lambda>protoReq. client ctx (Some protoReq))"

definition request_ExportServers_0 ::
  "management_codec \<Rightarrow> ('w, list_request option, string \<times> string) handler \<Rightarrow> gw_request \<Rightarrow> pathParams \<Rightarrow> grpc_ctx \<Rightarrow>
   ('w, status + (string \<times> string)) state" where
  "request_ExportServers_0 C client req pathParams ctx = query_request C req (\<lambda>protoReq. client ctx (Some protoReq))"

text \<open>The message of an answer.\<close>

datatype management_reply =
    ServerReply pb_Server | DeleteReply bool | ViewReply int "pb_Server list"
  | ImportReply ImportResult | ExportReply string string

definition reply :: "('a \<Rightarrow> 'r) \<Rightarrow> ('w, status + 'a) state \<Rightarrow> ('w, status + 'r) state" where
  "reply f m = do { r \<leftarrow> m; ret (case r of Inl e \<Rightarrow> Inl e | Inr a \<Rightarrow> Inr (f a)) }"

definition RegisterServerManagementServiceHandlerClient ::
  "management_codec \<Rightarrow> 'book excelize \<Rightarrow> 'w management_env \<Rightarrow> ('w, management_reply) route list" where
  "RegisterServerManagementServiceHandlerClient C X E =
     [(''POST'', ''/api/v1/servers'', \<lambda>r ps ctx. reply ServerReply (request_CreateServer_0 C (client_CreateServer E) r ps ctx)),
      (''PUT'', ''/api/v1/servers/{server_id}'', \<lambda>r ps ctx. reply ServerReply (request_UpdateServer_0 C (client_UpdateServer E) r ps ctx)),
      (''DELETE'', ''/api/v1/servers/{server_id}'', \<lambda>r ps ctx. reply DeleteReply (request_DeleteServer_0 (client_DeleteServer E) r ps ctx)),
      (''GET'', ''/api/v1/servers'', \<lambda>r ps ctx. reply (\<lambda>(n, ss). ViewReply n ss) (request_ViewServers_0 C (client_ViewServers E) r ps ctx)),
      (''POST'', ''/api/v1/servers/import'', \<lambda>r ps ctx. reply ImportReply (request_ImportServers_0 C (client_ImportServers X E) r ps ctx)),
      (''GET'', ''/api/v1/servers/export'', \<lambda>r ps ctx. reply (\<lambda>(f, n). ExportReply f n) (request_ExportServers_0 C (client_ExportServers X E) r ps ctx))]"

text \<open>
  The HTTP server: the handlers for files beside the gateway are called with the request as it is.
  \<open>parts\<close> reads the parts of a multipart body, \<open>Query\<close> is the query of the URL.
\<close>

datatype 'r front_answer = Answer http_response | Called "(status + 'r) option" | StaticFile string

definition header_values :: "(string \<times> string list) list \<Rightarrow> string \<Rightarrow> string list" where
  "header_values hs k = (case map_of hs k of None \<Rightarrow> [] | Some vals \<Rightarrow> vals)"

definition http_of :: "gw_request \<Rightarrow> http_request" where
  "http_of r = \<lparr>req_Method = gw_Method r, req_Header = header_values (gw_Header r)\<rparr>"

definition health_response :: "string \<Rightarrow> http_response" where
  "health_response body = \<lparr>resp_Status = StatusOK, resp_Header = [], resp_Body = body\<rparr>"

definition management_front ::
  "(string \<Rightarrow> string \<Rightarrow> (string \<times> string) list) \<Rightarrow> (gw_request \<Rightarrow> string \<Rightarrow> string) \<Rightarrow> router \<Rightarrow>
   (string \<Rightarrow> string option) \<Rightarrow> string \<Rightarrow> management_codec \<Rightarrow> 'book excelize \<Rightarrow> 'w management_env \<Rightarrow> gw_request \<Rightarrow>
   ('w, management_reply front_answer) state" where
  "management_front parts Query Route DefaultHeaderMatcher peer C X E r =
     (case management_mux (gw_Path r) of
        MToHealth \<Rightarrow> ret (Answer (health_response ''OK''))
      | MToImport \<Rightarrow> do { a \<leftarrow> HandleImport parts X E (http_of r) (Some (gw_Body r)); ret (Answer a) }
      | MToExport \<Rightarrow> do { a \<leftarrow> HandleExport X E (http_of r) (Query r); ret (Answer a) }
      | MToOpenAPI \<Rightarrow> ret (StaticFile (TrimPrefix (gw_Path r) ''/openapi/''))
      | MToGateway \<Rightarrow> do {
          a \<leftarrow> gateway_serve Route (RegisterServerManagementServiceHandlerClient C X E) r
                 (gateway_ctx (management_incoming_header DefaultHeaderMatcher) peer r);
          ret (Called a)
        })"

section \<open>\<open>sms-reporting\<close>\<close>

definition client_RequestReport :: "'w reporting_env \<Rightarrow> ('w, string \<times> string \<times> string, string \<times> int \<times> string) handler" where
  "client_RequestReport E = reporting_chain ''/reporting.v1.ReportingService/RequestReport'' (grpc_RequestReport E)"

definition request_RequestReport_0 ::
  "(string \<Rightarrow> (string \<times> string \<times> string) decoded) \<Rightarrow> ('w, string \<times> string \<times> string, string \<times> int \<times> string) handler \<Rightarrow>
   gw_request \<Rightarrow> pathParams \<Rightarrow> grpc_ctx \<Rightarrow> ('w, status + (string \<times> int \<times> string)) state" where
  "request_RequestReport_0 decode client req pathParams ctx = decode_body (decode (gw_Body req)) (\<lambda>protoReq. client ctx protoReq)"

definition RegisterReportingServiceHandlerClient ::
  "(string \<Rightarrow> (string \<times> string \<times> string) decoded) \<Rightarrow> 'w reporting_env \<Rightarrow> ('w, string \<times> int \<times> string) route list" where
  "RegisterReportingServiceHandlerClient decode E =
     [(''POST'', ''/api/v1/servers/report'', request_RequestReport_0 decode (client_RequestReport E))]"

definition reporting_front ::
  "string \<Rightarrow> router \<Rightarrow> (string \<Rightarrow> string option) \<Rightarrow> string \<Rightarrow>
   (string \<Rightarrow> (string \<times> string \<times> string) decoded) \<Rightarrow> 'w reporting_env \<Rightarrow> gw_request \<Rightarrow>
   ('w, (string \<times> int \<times> string) front_answer) state" where
  "reporting_front hostname Route DefaultHeaderMatcher peer decode E r =
     (case reporting_mux (gw_Path r) of
        RToHealth \<Rightarrow> ret (Answer (health_response (''OK from '' @ hostname @ [CHR 0x0A])))
      | RToOpenAPI \<Rightarrow> ret (StaticFile (TrimPrefix (gw_Path r) ''/openapi/''))
      | RToGateway \<Rightarrow> do {
          a \<leftarrow> gateway_serve Route (RegisterReportingServiceHandlerClient decode E) r
                 (gateway_ctx (reporting_incoming_header DefaultHeaderMatcher) peer r);
          ret (Called a)
        })"

section \<open>\<open>sms-identity\<close>\<close>

text \<open>Its gateway uses the default matcher for the headers of a request.\<close>

definition client_Login :: "'w auth_env \<Rightarrow> ('w, string \<times> string, tokens_reply) handler" where
  "client_Login E = identity_interceptor E ''/portal.auth.v1.AuthService/Login'' (AuthServer_Login E)"

definition client_RefreshToken :: "'w auth_env \<Rightarrow> ('w, string, tokens_reply) handler" where
  "client_RefreshToken E = identity_interceptor E ''/portal.auth.v1.AuthService/RefreshToken'' (AuthServer_RefreshToken E)"

definition client_Logout :: "'w auth_env \<Rightarrow> ('w, unit, message_reply) handler" where
  "client_Logout E = identity_interceptor E ''/portal.auth.v1.AuthService/Logout'' (AuthServer_Logout E)"

definition client_LogoutAll :: "'w auth_env \<Rightarrow> ('w, unit, message_reply) handler" where
  "client_LogoutAll E = identity_interceptor E ''/portal.auth.v1.AuthService/LogoutAll'' (AuthServer_LogoutAll E)"

definition request_Login_0 ::
  "identity_codec \<Rightarrow> ('w, string \<times> string, tokens_reply) handler \<Rightarrow> gw_request \<Rightarrow> pathParams \<Rightarrow> grpc_ctx \<Rightarrow> ('w, status + tokens_reply) state" where
  "request_Login_0 C client req pathParams ctx = decode_body (dec_LoginRequest C (gw_Body req)) (client ctx)"

definition request_RefreshToken_0 ::
  "identity_codec \<Rightarrow> ('w, string, tokens_reply) handler \<Rightarrow> gw_request \<Rightarrow> pathParams \<Rightarrow> grpc_ctx \<Rightarrow> ('w, status + tokens_reply) state" where
  "request_RefreshToken_0 C client req pathParams ctx = decode_body (dec_RefreshRequest C (gw_Body req)) (client ctx)"

definition request_Logout_0 ::
  "identity_codec \<Rightarrow> ('w, unit, message_reply) handler \<Rightarrow> gw_request \<Rightarrow> pathParams \<Rightarrow> grpc_ctx \<Rightarrow> ('w, status + message_reply) state" where
  "request_Logout_0 C client req pathParams ctx = decode_body (dec_LogoutRequest C (gw_Body req)) (client ctx)"

definition request_LogoutAll_0 ::
  "identity_codec \<Rightarrow> ('w, unit, message_reply) handler \<Rightarrow> gw_request \<Rightarrow> pathParams \<Rightarrow> grpc_ctx \<Rightarrow> ('w, status + message_reply) state" where
  "request_LogoutAll_0 C client req pathParams ctx = decode_body (dec_LogoutRequest C (gw_Body req)) (client ctx)"

datatype identity_reply = TokensReply tokens_reply | MessageReply message_reply

definition RegisterAuthServiceHandlerClient :: "identity_codec \<Rightarrow> 'w auth_env \<Rightarrow> ('w, identity_reply) route list" where
  "RegisterAuthServiceHandlerClient C E =
     [(''POST'', ''/api/v1/auth/login'', \<lambda>r ps ctx. reply TokensReply (request_Login_0 C (client_Login E) r ps ctx)),
      (''POST'', ''/api/v1/auth/refresh'', \<lambda>r ps ctx. reply TokensReply (request_RefreshToken_0 C (client_RefreshToken E) r ps ctx)),
      (''POST'', ''/api/v1/auth/logout'', \<lambda>r ps ctx. reply MessageReply (request_Logout_0 C (client_Logout E) r ps ctx)),
      (''POST'', ''/api/v1/auth/logout-all'', \<lambda>r ps ctx. reply MessageReply (request_LogoutAll_0 C (client_LogoutAll E) r ps ctx))]"

text \<open>The headers of an answer, from those that the handler has set, and the body.\<close>

definition forward_headers :: "(string \<Rightarrow> string option) \<Rightarrow> (string \<times> string) list \<Rightarrow> (string \<times> string) list" where
  "forward_headers matcher md = List.map_filter (\<lambda>(k, v). map_option (\<lambda>h. (h, v)) (matcher k)) md"

definition forward_reply :: "(string \<Rightarrow> string option) \<Rightarrow> identity_reply \<Rightarrow> (string \<times> string) list" where
  "forward_reply matcher rep =
     forward_headers matcher (case rep of TokensReply t \<Rightarrow> tr_Header t | MessageReply m \<Rightarrow> mr_Header m)"

datatype identity_answer = IAnswer http_response | ICalled "(status + identity_reply \<times> (string \<times> string) list) option" | IFile string

definition identity_front ::
  "'w redis option \<Rightarrow> router \<Rightarrow> (string \<Rightarrow> string option) \<Rightarrow> string \<Rightarrow> identity_codec \<Rightarrow>
   'w auth_env \<Rightarrow> gw_request \<Rightarrow> ('w, identity_answer) state" where
  "identity_front R Route DefaultHeaderMatcher peer C E r =
     (case identity_mux (gw_Path r) of
        IToHealth \<Rightarrow> ret (IAnswer (health_response ''OK''))
      | IToVerify \<Rightarrow> do { a \<leftarrow> Verify E R (http_of r); ret (IAnswer a) }
      | IToOpenAPI \<Rightarrow> ret (IFile (TrimPrefix (gw_Path r) ''/openapi/''))
      | IToGateway \<Rightarrow> do {
          a \<leftarrow> gateway_serve Route (RegisterAuthServiceHandlerClient C E) r (gateway_ctx DefaultHeaderMatcher peer r);
          ret (ICalled (map_option (\<lambda>s. case s of Inl e \<Rightarrow> Inl e
            | Inr rep \<Rightarrow> Inr (rep, forward_reply (outgoing_header DefaultHeaderMatcher) rep)) a))
        })"

end
