(* ===== verification/Rest_Properties.thy ===== *)
theory Rest_Properties
  imports Rest_Api Management_Properties Reporting_Properties
begin

text \<open>
  What the REST interface grants: which role a request through the gateways needs, and what the
  answers of \<open>sms-identity\<close> do to the cookies of a browser.
\<close>

section \<open>Refused calls\<close>

definition refused :: "('w, status + 'b) state \<Rightarrow> bool" where
  "refused c \<longleftrightarrow> (\<forall>w. after c w = w \<and> (\<exists>s. result c w = Inl s))"

definition may :: "Principal \<Rightarrow> string \<Rightarrow> bool" where
  "may p perm \<longleftrightarrow> pr_UserID p \<noteq> [] \<and> (pr_RoleCode p = ''ADMIN'' \<or> pr_RoleCode p = ''USER'' \<and> perm = PermServerRead)"

named_theorems refusals

lemma refused_ret [refusals]: "refused (ret (Inl s))"
  by (simp add: refused_def)

lemma refused_reply [refusals]:
  assumes "refused c"
  shows "refused (reply f c)"
  unfolding refused_def
proof
  fix w
  from assms obtain s where "after c w = w" "result c w = Inl s" unfolding refused_def by blast
  then show "after (reply f c) w = w \<and> (\<exists>s. result (reply f c) w = Inl s)" by (simp add: reply_def)
qed

lemma refused_decode [refusals]: "(\<And>x. refused (call x)) \<Longrightarrow> refused (decode_body d call)"
  by (cases d) (auto simp: decode_body_def intro: refused_ret)

lemma refused_path [refusals]: "(\<And>x. refused (call x)) \<Longrightarrow> refused (path_parameter ps name call)"
  by (cases "ps name") (auto simp: path_parameter_def intro: refused_ret)

lemma refused_query [refusals]: "(\<And>x. refused (call x)) \<Longrightarrow> refused (query_request C r call)"
  by (auto simp: query_request_def intro: refused_ret split: sum.split)

lemma refused_guarded: "\<not> may (metadata_principal md) perm \<Longrightarrow> refused (guarded_call md perm h ctx req)"
  by (auto simp: guarded_call_def may_def Let_def intro: refused_ret)

lemma refused_management_chain:
  assumes "ctx_Principal ctx = None" "ctx_Metadata ctx = Some md" and m: "management_methodPermissions m = Some perm"
    and "\<not> may (metadata_principal md) perm"
  shows "refused (management_chain m h ctx req)"
proof -
  have "management_chain m h ctx req = guarded_call md perm h ctx req"
    unfolding management_chain_def management_AuthMetadataInterceptor_def management_PermissionInterceptor_def
    by (rule guarded_by [where methods = management_methodPermissions and m = m and md = md and perm = perm,
          OF management_access.access_control_axioms assms(1,2) m method_permissions_nonempty(1) [OF m]])
  then show ?thesis using refused_guarded [OF assms(4)] by simp
qed

lemma refused_reporting_chain:
  assumes "ctx_Principal ctx = None" "ctx_Metadata ctx = Some md" and m: "reporting_methodPermissions m = Some perm"
    and "\<not> may (metadata_principal md) perm"
  shows "refused (reporting_chain m h ctx req)"
proof -
  have "reporting_chain m h ctx req = guarded_call md perm h ctx req"
    unfolding reporting_chain_def reporting_AuthMetadataInterceptor_def reporting_PermissionInterceptor_def
    by (rule guarded_by [where methods = reporting_methodPermissions and m = m and md = md and perm = perm,
          OF reporting_access.access_control_axioms assms(1,2) m method_permissions_nonempty(2) [OF m]])
  then show ?thesis using refused_guarded [OF assms(4)] by simp
qed

lemma management_permissions:
  "management_methodPermissions ''/server_management.v1.ServerManagementService/CreateServer'' = Some PermServerCreate"
  "management_methodPermissions ''/server_management.v1.ServerManagementService/ViewServers'' = Some PermServerRead"
  "management_methodPermissions ''/server_management.v1.ServerManagementService/UpdateServer'' = Some PermServerUpdate"
  "management_methodPermissions ''/server_management.v1.ServerManagementService/DeleteServer'' = Some PermServerDelete"
  "management_methodPermissions ''/server_management.v1.ServerManagementService/ImportServers'' = Some PermServerImport"
  "management_methodPermissions ''/server_management.v1.ServerManagementService/ExportServers'' = Some PermServerExport"
  by (simp_all add: management_methodPermissions_def)

text \<open>Every route but the fourth is for administrators.\<close>

lemma management_route_refused:
  assumes "i < length (RegisterServerManagementServiceHandlerClient C X E)"
    and "ctx_Principal ctx = None" "ctx_Metadata ctx = Some md"
    and "\<not> may (metadata_principal md) (if i = 3 then PermServerRead else PermServerDelete)"
  shows "refused (snd (snd (RegisterServerManagementServiceHandlerClient C X E ! i)) r ps ctx)"
proof -
  have no: "\<not> may (metadata_principal md) perm" if "i \<noteq> 3 \<or> perm = PermServerRead"
    "i = 3 \<or> perm \<in> {PermServerCreate, PermServerUpdate, PermServerDelete, PermServerImport, PermServerExport}" for perm
    using assms(4) that by (auto simp: may_def perm_defs)
  note c = refused_management_chain [OF assms(2,3)]
  have "i = 0 \<or> i = 1 \<or> i = 2 \<or> i = 3 \<or> i = 4 \<or> i = 5"
    using assms(1) by (auto simp: RegisterServerManagementServiceHandlerClient_def)
  then show ?thesis
    by (elim disjE; simp add: RegisterServerManagementServiceHandlerClient_def request_CreateServer_0_def
          request_UpdateServer_0_def request_DeleteServer_0_def request_ViewServers_0_def request_ImportServers_0_def
          request_ExportServers_0_def split_def client_CreateServer_def client_UpdateServer_def client_DeleteServer_def
          client_ViewServers_def client_ImportServers_def client_ExportServers_def)
      (intro refusals c [OF management_permissions(1)] c [OF management_permissions(2)] c [OF management_permissions(3)]
          c [OF management_permissions(4)] c [OF management_permissions(5)] c [OF management_permissions(6)]; rule no; simp)+
qed


lemma reporting_route_refused:
  assumes "i < length (RegisterReportingServiceHandlerClient decode F)"
    and "ctx_Principal ctx = None" "ctx_Metadata ctx = Some md" and "\<not> may (metadata_principal md) PermReportRequest"
  shows "refused (snd (snd (RegisterReportingServiceHandlerClient decode F ! i)) r ps ctx)"
proof -
  have "reporting_methodPermissions ''/reporting.v1.ReportingService/RequestReport'' = Some PermReportRequest"
    by (simp add: reporting_methodPermissions_def)
  note c = refused_reporting_chain [OF assms(2,3) this assms(4)]
  have "i = 0" using assms(1) by (simp add: RegisterReportingServiceHandlerClient_def)
  then show ?thesis
    by (simp add: RegisterReportingServiceHandlerClient_def request_RequestReport_0_def client_RequestReport_def refusals c)
qed

lemma gateway_serve_refused:
  assumes "\<And>i ps. Route (route_names routes) r = Some (i, ps) \<Longrightarrow> i < length routes \<Longrightarrow>
    refused (snd (snd (routes ! i)) r ps ctx)"
  shows "after (gateway_serve Route routes r ctx) w = w \<and> (\<forall>x. result (gateway_serve Route routes r ctx) w \<noteq> Some (Inr x))"
proof (cases "Route (route_names routes) r")
  case None
  then show ?thesis by (simp add: gateway_serve_def)
next
  case (Some q)
  then obtain i ps where i: "Route (route_names routes) r = Some (i, ps)" by (cases q) auto
  show ?thesis
  proof (cases "i < length routes")
    case True
    then obtain s where "after (snd (snd (routes ! i)) r ps ctx) w = w" "result (snd (snd (routes ! i)) r ps ctx) w = Inl s"
      using assms [OF i True] unfolding refused_def by blast
    with True i show ?thesis by (simp add: gateway_serve_def)
  qed (simp add: gateway_serve_def i)
qed

section \<open>Roles\<close>

text \<open>
  C27: the gateway of \<open>sms-management\<close> and that of \<open>sms-reporting\<close> keep strangers out. Whatever
  route the library chooses for a request, whatever the decoders make of it and whatever state the service
  is in: if a call succeeds or changes anything, the headers of the request name a user, and either the role
  is \<open>ADMIN\<close>, or it is \<open>USER\<close> and the route is the one that lists servers.
\<close>

theorem rest_api_needs_role:
  fixes E :: "'w management_env" and F :: "'v reporting_env"
  assumes "management_mux (gw_Path r) = MToGateway" and "reporting_mux (gw_Path r) = RToGateway"
  shows "let p = metadata_principal (gateway_metadata (management_incoming_header dm) (gw_Header r));
      front = management_front parts Query Route dm peer C X E r;
      table = route_names (RegisterServerManagementServiceHandlerClient C X E);
      rfront = reporting_front hostname Route dm peer decode F r in
    (after front w \<noteq> w \<or> (\<exists>x. result front w = Called (Some (Inr x))) \<longrightarrow>
       pr_UserID p \<noteq> [] \<and> (pr_RoleCode p = ''ADMIN'' \<or> pr_RoleCode p = ''USER'' \<and>
         (\<exists>i ps. Route table r = Some (i, ps) \<and> table ! i = (''GET'', ''/api/v1/servers'')))) \<and>
    (after rfront v \<noteq> v \<or> (\<exists>x. result rfront v = Called (Some (Inr x))) \<longrightarrow>
       pr_UserID p \<noteq> [] \<and> pr_RoleCode p = ''ADMIN'')"
proof -
  let ?md = "gateway_metadata (management_incoming_header dm) (gw_Header r)"
  let ?ctx = "gateway_ctx (management_incoming_header dm) peer r"
  let ?R = "RegisterServerManagementServiceHandlerClient C X E"
  let ?S = "RegisterReportingServiceHandlerClient decode F"
  have ctx: "ctx_Principal ?ctx = None" "ctx_Metadata ?ctx = Some ?md" by (simp_all add: gateway_ctx_def)
  have four: "route_names ?R ! 3 = (''GET'', ''/api/v1/servers'')"
    by (simp add: route_names_def RegisterServerManagementServiceHandlerClient_def)
  let ?p = "metadata_principal ?md"
  let ?ok = "pr_UserID ?p \<noteq> [] \<and> (pr_RoleCode ?p = ''ADMIN'' \<or> pr_RoleCode ?p = ''USER'' \<and>
      (\<exists>i ps. Route (route_names ?R) r = Some (i, ps) \<and> route_names ?R ! i = (''GET'', ''/api/v1/servers'')))"
  have no: "refused (snd (snd (?R ! i)) r ps ?ctx)"
    if "\<not> ?ok" and i: "Route (route_names ?R) r = Some (i, ps)" "i < length ?R" for i ps
  proof (rule management_route_refused [OF i(2) ctx])
    show "\<not> may ?p (if i = 3 then PermServerRead else PermServerDelete)"
      using \<open>\<not> ?ok\<close> i(1) four by (auto simp: may_def perm_defs)
  qed
  have m: "after (management_front parts Query Route dm peer C X E r) w = w \<and>
      (\<forall>x. result (management_front parts Query Route dm peer C X E r) w \<noteq> Called (Some (Inr x)))" if "\<not> ?ok"
    using gateway_serve_refused [where Route = Route and routes = ?R and r = r and ctx = ?ctx and w = w, OF no [OF that]]
    by (simp add: management_front_def assms(1))
  let ?okr = "pr_UserID ?p \<noteq> [] \<and> pr_RoleCode ?p = ''ADMIN''"
  have nor: "refused (snd (snd (?S ! i)) r ps ?ctx)" if "\<not> ?okr" and i: "i < length ?S" for i ps
    by (rule reporting_route_refused [OF i ctx]) (use that(1) in \<open>auto simp: may_def perm_defs\<close>)
  have mr: "after (reporting_front hostname Route dm peer decode F r) v = v \<and>
      (\<forall>x. result (reporting_front hostname Route dm peer decode F r) v \<noteq> Called (Some (Inr x)))" if "\<not> ?okr"
    using gateway_serve_refused [where Route = Route and routes = ?S and r = r and ctx = ?ctx and w = v, OF nor [OF that]]
    by (simp add: reporting_front_def assms(2) incoming_headers_agree)
  show ?thesis unfolding Let_def using m mr by blast
qed

text \<open>A request of a user to delete a server, and the answers of the library to it.\<close>

definition user_delete :: gw_request where
  "user_delete = \<lparr>gw_Method = ''DELETE'', gw_Path = ''/api/v1/servers/s1'',
     gw_Header = [(''X-User-Id'', [''8'']), (''X-User-Role'', [''USER''])], gw_Body = []\<rparr>"

definition delete_router :: router where
  "delete_router table r = Some (2, [''server_id'' \<mapsto> ''s1''])"

lemma user_delete_principal:
  "pr_RoleCode (metadata_principal (gateway_metadata (management_incoming_header (\<lambda>_. None)) (gw_Header user_delete))) = ''USER''"
  by code_simp

text \<open>Decoders that accept nothing.\<close>

definition mute_codec :: management_codec where
  "mute_codec = \<lparr>dec_CreateServerRequest = \<lambda>_. DecodeError [], dec_UpdateServerRequest = \<lambda>_. DecodeError [],
     dec_ImportServersRequest = \<lambda>_. DecodeError [], ParseForm = \<lambda>_. Inl [], PopulateQueryParameters = \<lambda>_. Inl []\<rparr>"

theorem rest_api_needs_role_witness:
  "after (management_front (\<lambda>_ _. []) (\<lambda>_ _. []) delete_router (\<lambda>_. None) ''peer'' mute_codec example_book ref_management user_delete) example_management =
     example_management"
proof (rule ccontr)
  assume c: "after (management_front (\<lambda>_ _. []) (\<lambda>_ _. []) delete_router (\<lambda>_. None) ''peer'' mute_codec example_book ref_management user_delete)
      example_management \<noteq> example_management"
  have mux: "management_mux (gw_Path user_delete) = MToGateway" "reporting_mux (gw_Path user_delete) = RToGateway" by code_simp+
  let ?t = "route_names (RegisterServerManagementServiceHandlerClient mute_codec example_book ref_management)"
  let ?p = "metadata_principal (gateway_metadata (management_incoming_header (\<lambda>_. None)) (gw_Header user_delete))"
  have "pr_RoleCode ?p = ''ADMIN'' \<or>
      (\<exists>i ps. delete_router ?t user_delete = Some (i, ps) \<and> ?t ! i = (''GET'', ''/api/v1/servers''))"
    using conjunct1 [OF rest_api_needs_role [OF mux, where dm = "\<lambda>_. None" and parts = "\<lambda>_ _. []" and Query = "\<lambda>_ _. []"
          and Route = delete_router and peer = "''peer''" and C = mute_codec and X = example_book and E = ref_management and hostname = "[]"
          and decode = "\<lambda>_. DecodeError []" and F = ref_reporting, unfolded Let_def]] c by blast
  then show False
    by (auto simp: user_delete_principal delete_router_def route_names_def RegisterServerManagementServiceHandlerClient_def)
qed

text \<open>With the right role the call is the handler's, with the user as principal.\<close>

lemma admitted_management_chain:
  assumes "ctx_Principal ctx = None" "ctx_Metadata ctx = Some md" and m: "management_methodPermissions m = Some perm"
    and "may (metadata_principal md) perm"
  shows "management_chain m h ctx req = h (SetPrincipal ctx (metadata_principal md)) req"
proof -
  have "management_chain m h ctx req = guarded_call md perm h ctx req"
    unfolding management_chain_def management_AuthMetadataInterceptor_def management_PermissionInterceptor_def
    by (rule guarded_by [where methods = management_methodPermissions and m = m and md = md and perm = perm,
          OF management_access.access_control_axioms assms(1,2) m method_permissions_nonempty(1) [OF m]])
  then show ?thesis using assms(4) by (auto simp: guarded_call_def may_def Let_def)
qed

lemma rest_delete_runs:
  assumes "management_mux (gw_Path r) = MToGateway"
    and "Route (route_names (RegisterServerManagementServiceHandlerClient C X E)) r = Some (2, ps)" and "ps ''server_id'' = Some sid"
    and "md = gateway_metadata (management_incoming_header dm) (gw_Header r)"
    and "pr_UserID (metadata_principal md) \<noteq> []" "pr_RoleCode (metadata_principal md) = ''ADMIN''"
  shows "after (management_front parts Query Route dm peer C X E r) w = after (DeleteServer E sid) w \<and>
    result (management_front parts Query Route dm peer C X E r) w =
      Called (Some (case result (DeleteServer E sid) w of Inl e \<Rightarrow> Inl (mapError e) | Inr _ \<Rightarrow> Inr (DeleteReply True)))"
proof -
  let ?ctx = "gateway_ctx (management_incoming_header dm) peer r"
  have ctx: "ctx_Principal ?ctx = None" "ctx_Metadata ?ctx = Some md" by (simp_all add: gateway_ctx_def assms(4))
  have "may (metadata_principal md) PermServerDelete" using assms(5,6) by (simp add: may_def)
  note c = admitted_management_chain [OF ctx management_permissions(4) this]
  show ?thesis
    using assms(2,3)
    by (simp add: management_front_def assms(1) gateway_serve_def RegisterServerManagementServiceHandlerClient_def
        request_DeleteServer_0_def path_parameter_def client_DeleteServer_def c reply_def grpc_DeleteServer_def
        status_of_error_def split: sum.split)
qed

text \<open>
  Beside the gateway: the import of servers looks neither at the user nor at the role. Whoever gets
  a request to the service imports servers with it.
\<close>

lemma import_needs_no_role:
  assumes "gw_Path r = ''/api/v1/servers/import''" and "gw_Method r = ''POST''" and "length (gw_Body r) \<le> maxSize"
    and "extractFileFromMultipart parts (Header_Get (http_of r) ''Content-Type'') (gw_Body r) = None"
  shows "after (management_front parts Query Route dm peer C X E r) w = after (ImportServers X E (gw_Body r)) w"
proof -
  have "management_mux (gw_Path r) = MToImport" by (simp add: assms(1) management_mux_def)
  moreover have "req_Method (http_of r) = ''POST''" by (simp add: http_of_def assms(2))
  ultimately show ?thesis
    using assms(3,4) by (simp add: management_front_def HandleImport_def read_body_def)
qed

section \<open>The answers of \<open>sms-identity\<close>\<close>

text \<open>
  What the gateway library documents of \<open>DefaultHeaderMatcher\<close>: after the name has been put into its
  canonical form, the permanent headers that IANA lists get a prefix, the prefix \<open>Grpc-Metadata-\<close> is
  taken off, and other headers are left out. None of the names below is on the list.
\<close>

definition canonical_char :: "bool \<Rightarrow> char \<Rightarrow> char" where
  "canonical_char up c = (if up then upper_byte c else lower_byte c)"

fun canonical :: "bool \<Rightarrow> string \<Rightarrow> string" where
  "canonical up [] = []"
| "canonical up (c # s) = canonical_char up c # canonical (c = CHR ''-'') s"

definition CanonicalMIMEHeaderKey :: "string \<Rightarrow> string" where
  "CanonicalMIMEHeaderKey s = (if isToken s then canonical True s else s)"

locale header_matcher =
  fixes DefaultHeaderMatcher :: "string \<Rightarrow> string option" and permanent :: "string \<Rightarrow> bool"
  assumes permanent_header: "permanent (CanonicalMIMEHeaderKey key) \<Longrightarrow>
      DefaultHeaderMatcher key = Some (''grpcgateway-'' @ CanonicalMIMEHeaderKey key)"
    and metadata_header: "\<not> permanent (CanonicalMIMEHeaderKey key) \<Longrightarrow>
      HasPrefix (CanonicalMIMEHeaderKey key) ''Grpc-Metadata-'' \<Longrightarrow>
      DefaultHeaderMatcher key = Some (TrimPrefix (CanonicalMIMEHeaderKey key) ''Grpc-Metadata-'')"
    and other_header: "\<not> permanent (CanonicalMIMEHeaderKey key) \<Longrightarrow>
      \<not> HasPrefix (CanonicalMIMEHeaderKey key) ''Grpc-Metadata-'' \<Longrightarrow> DefaultHeaderMatcher key = None"
    and not_permanent: "\<not> permanent ''Clear-Cookie''" "permanent key \<Longrightarrow> \<not> HasPrefix key ''Grpc-Metadata-''"
begin

lemma clear_cookie_dropped: "DefaultHeaderMatcher ''clear-cookie'' = None"
proof -
  have "CanonicalMIMEHeaderKey ''clear-cookie'' = ''Clear-Cookie''" "\<not> HasPrefix ''Clear-Cookie'' ''Grpc-Metadata-''" by code_simp+
  then show ?thesis using not_permanent(1) other_header [of "''clear-cookie''"] by simp
qed

text \<open>A logout sends no cookie, a login sends three.\<close>

lemma clear_headers_dropped: "forward_headers (outgoing_header DefaultHeaderMatcher) clear_headers = []"
proof -
  have "\<not> HasPrefix ''clear-cookie'' ''set-cookie-''" by code_simp
  then have "outgoing_header DefaultHeaderMatcher ''clear-cookie'' = None"
    by (simp add: outgoing_header_def clear_cookie_dropped)
  then show ?thesis by (simp add: forward_headers_def clear_headers_def List.map_filter_def)
qed

lemma token_headers_forwarded:
  "forward_headers (outgoing_header DefaultHeaderMatcher) (token_headers (Some csrf) access refresh n) =
     [(''Set-Cookie'', authCookie ''access_token'' access n True),
      (''Set-Cookie'', authCookie ''refresh_token'' refresh 604800 True),
      (''Set-Cookie'', authCookie ''csrf_token'' csrf 86400 False)]"
proof -
  have "HasPrefix ''set-cookie-access-token'' ''set-cookie-''" "HasPrefix ''set-cookie-refresh-token'' ''set-cookie-''"
    "HasPrefix ''set-cookie-csrf-token'' ''set-cookie-''" by code_simp+
  then show ?thesis by (simp add: forward_headers_def token_headers_def outgoing_header_def map_filter_simps)
qed

text \<open>Neither half of the CSRF check ever arrives, unless the client names the metadata itself.\<close>

lemma no_csrf_metadata:
  assumes "\<forall>(key, vals) \<in> set hs. \<not> HasPrefix (CanonicalMIMEHeaderKey key) ''Grpc-Metadata-''" and "\<not> HasPrefix k ''grpcgateway-''"
  shows "gateway_metadata DefaultHeaderMatcher hs k = []"
proof -
  have "(case DefaultHeaderMatcher key of Some h \<Rightarrow> if ToLower h = k then vals else [] | None \<Rightarrow> []) = []"
    if "(key, vals) \<in> set hs" for key vals
  proof (cases "permanent (CanonicalMIMEHeaderKey key)")
    case True
    have "HasPrefix (ToLower (''grpcgateway-'' @ s)) ''grpcgateway-''" for s
      by (simp add: HasPrefix_def lower_byte_def)
    with True assms(2) show ?thesis by (auto simp: permanent_header)
  next
    case False
    with assms(1) that show ?thesis by (auto simp: other_header)
  qed
  then show ?thesis by (auto simp: gateway_metadata_def)
qed

end


text \<open>What the documentation says, for a list of permanent headers.\<close>

definition ref_permanent :: "string \<Rightarrow> bool" where
  "ref_permanent key \<longleftrightarrow> key \<in> {''Accept'', ''Authorization'', ''Cookie'', ''Host'', ''Origin'', ''User-Agent''}"

definition ref_matcher :: "string \<Rightarrow> string option" where
  "ref_matcher key =
     (let k = CanonicalMIMEHeaderKey key in
      if ref_permanent k then Some (''grpcgateway-'' @ k)
      else if HasPrefix k ''Grpc-Metadata-'' then Some (TrimPrefix k ''Grpc-Metadata-'') else None)"

interpretation ref_headers: header_matcher ref_matcher ref_permanent
  by unfold_locales (auto simp: ref_matcher_def ref_permanent_def Let_def HasPrefix_def)

lemma logout_calls:
  assumes "ctx_Principal ctx = None"
  shows "after (client_Logout E ctx ()) w = w" "after (client_LogoutAll E ctx ()) w = w"
    and "result (client_Logout E ctx ()) w = Inr rep \<Longrightarrow> mr_Header rep = clear_headers"
    and "result (client_LogoutAll E ctx ()) w = Inr rep \<Longrightarrow> mr_Header rep = clear_headers"
    and "ctx_Metadata ctx = Some md \<Longrightarrow> md ''cookie-csrf-token'' = [] \<Longrightarrow> md ''x-csrf-token'' = [] \<Longrightarrow>
      result (client_Logout E ctx ()) w = Inr \<lparr>mr_Message = ''Logout successful'', mr_Header = clear_headers\<rparr>"
    and "ctx_Metadata ctx = Some md \<Longrightarrow> md ''cookie-csrf-token'' = [] \<Longrightarrow> md ''x-csrf-token'' = [] \<Longrightarrow>
      result (client_LogoutAll E ctx ()) w = Inr \<lparr>mr_Message = ''Logout all successful'', mr_Header = clear_headers\<rparr>"
proof -
  note d = client_Logout_def client_LogoutAll_def identity_interceptor_def CSRFInterceptor_def AuthServer_Logout_def
    AuthServer_LogoutAll_def GetPrincipal_def Let_def assms
  show "after (client_Logout E ctx ()) w = w" "after (client_LogoutAll E ctx ()) w = w"
    by (simp_all add: d split: option.split)
  show "result (client_Logout E ctx ()) w = Inr rep \<Longrightarrow> mr_Header rep = clear_headers"
    "result (client_LogoutAll E ctx ()) w = Inr rep \<Longrightarrow> mr_Header rep = clear_headers"
    by (auto simp: d split: option.splits if_splits)
  assume "ctx_Metadata ctx = Some md" "md ''cookie-csrf-token'' = []" "md ''x-csrf-token'' = []"
  moreover have "TrimSpace [] = []" by code_simp
  ultimately show "result (client_Logout E ctx ()) w = Inr \<lparr>mr_Message = ''Logout successful'', mr_Header = clear_headers\<rparr>"
    "result (client_LogoutAll E ctx ()) w = Inr \<lparr>mr_Message = ''Logout all successful'', mr_Header = clear_headers\<rparr>"
    by (simp_all add: d first_value_def)
qed

text \<open>The routes for logout, of one request.\<close>

lemma logout_route:
  assumes "Route (route_names (RegisterAuthServiceHandlerClient C E)) r = Some (i, ps)" and "i \<in> {2, 3}"
  shows "gateway_serve Route (RegisterAuthServiceHandlerClient C E) r ctx =
    do { resp \<leftarrow> reply MessageReply (decode_body (dec_LogoutRequest C (gw_Body r))
           ((if i = 2 then client_Logout E else client_LogoutAll E) ctx)); ret (Some resp) }"
  using assms(2)
proof (elim insertE emptyE)
  assume "i = 2"
  with assms(1) show ?thesis
    by (simp add: gateway_serve_def RegisterAuthServiceHandlerClient_def request_Logout_0_def)
next
  assume "i = 3"
  with assms(1) show ?thesis
    by (simp add: gateway_serve_def RegisterAuthServiceHandlerClient_def request_LogoutAll_0_def)
qed

text \<open>
  C29: a logout over REST ends nothing. The server has no interceptor that authenticates, so the handlers
  see no principal, whatever token the request carries: the world stays as it is. The answer is a success
  all the same, as long as the client does not name metadata itself, for which the CSRF check might
  refuse it; and it clears no cookie, because the gateway drops the headers \<open>clear-cookie\<close>.
\<close>

theorem rest_logout_ends_nothing:
  assumes "header_matcher dm permanent" and "identity_mux (gw_Path r) = IToGateway"
    and "Route (route_names (RegisterAuthServiceHandlerClient C E)) r = Some (i, ps)" and "i \<in> {2, 3}"
  shows "after (identity_front R Route dm peer C E r) w = w \<and>
    (\<forall>rep hs. result (identity_front R Route dm peer C E r) w = ICalled (Some (Inr (rep, hs))) \<longrightarrow> hs = []) \<and>
    ((\<forall>(key, vals) \<in> set (gw_Header r). \<not> HasPrefix (CanonicalMIMEHeaderKey key) ''Grpc-Metadata-'') \<and>
     (\<forall>e. dec_LogoutRequest C (gw_Body r) \<noteq> DecodeError e) \<longrightarrow>
       result (identity_front R Route dm peer C E r) w =
         ICalled (Some (Inr (MessageReply \<lparr>mr_Message = (if i = 2 then ''Logout successful'' else ''Logout all successful''),
           mr_Header = clear_headers\<rparr>, []))))"
proof -
  let ?ctx = "gateway_ctx dm peer r"
  have ctx: "ctx_Principal ?ctx = None" "ctx_Metadata ?ctx = Some (gateway_metadata dm (gw_Header r))"
    by (simp_all add: gateway_ctx_def)
  let ?call = "(if i = 2 then client_Logout E else client_LogoutAll E) ?ctx"
  let ?m = "(if i = 2 then ''Logout successful'' else ''Logout all successful'')"
  note calls = logout_calls [OF ctx(1)]
  have a: "after (?call ()) w = w" and h: "result (?call ()) w = Inr rep \<Longrightarrow> mr_Header rep = clear_headers" for rep
    using calls(1-4) by (auto split: if_splits)
  note drop = header_matcher.clear_headers_dropped [OF assms(1)]
  have front: "identity_front R Route dm peer C E r = do {
      a \<leftarrow> gateway_serve Route (RegisterAuthServiceHandlerClient C E) r ?ctx;
      ret (ICalled (map_option (\<lambda>s. case s of Inl e \<Rightarrow> Inl e
        | Inr rep \<Rightarrow> Inr (rep, forward_reply (outgoing_header dm) rep)) a)) }"
    by (simp add: identity_front_def assms(2))
  note serve = logout_route [where Route = Route and ctx = ?ctx, OF assms(3,4)]
  show ?thesis
  proof (intro conjI allI impI)
    show "after (identity_front R Route dm peer C E r) w = w"
      unfolding front serve by (cases "dec_LogoutRequest C (gw_Body r)") (simp_all add: reply_def decode_body_def a)
  next
    fix rep hs assume "result (identity_front R Route dm peer C E r) w = ICalled (Some (Inr (rep, hs)))"
    then show "hs = []" unfolding front serve
      by (cases "dec_LogoutRequest C (gw_Body r)")
        (auto simp: reply_def decode_body_def forward_reply_def h drop simp del: if_split split: sum.splits)
  next
    assume q: "(\<forall>(key, vals) \<in> set (gw_Header r). \<not> HasPrefix (CanonicalMIMEHeaderKey key) ''Grpc-Metadata-'') \<and>
      (\<forall>e. dec_LogoutRequest C (gw_Body r) \<noteq> DecodeError e)"
    have "\<not> HasPrefix ''cookie-csrf-token'' ''grpcgateway-''" "\<not> HasPrefix ''x-csrf-token'' ''grpcgateway-''" by code_simp+
    then have "gateway_metadata dm (gw_Header r) ''cookie-csrf-token'' = []" "gateway_metadata dm (gw_Header r) ''x-csrf-token'' = []"
      using header_matcher.no_csrf_metadata [OF assms(1) conjunct1 [OF q]] by blast+
    then have "result (?call ()) w = Inr \<lparr>mr_Message = ?m, mr_Header = clear_headers\<rparr>"
      using calls(5) [OF ctx(2), where E = E and w = w] calls(6) [OF ctx(2), where E = E and w = w] by simp
    with q show "result (identity_front R Route dm peer C E r) w =
        ICalled (Some (Inr (MessageReply \<lparr>mr_Message = ?m, mr_Header = clear_headers\<rparr>, [])))"
      unfolding front serve
      by (cases "dec_LogoutRequest C (gw_Body r)")
        (simp_all add: reply_def decode_body_def forward_reply_def drop del: if_split)
  qed
qed

text \<open>The CSRF check of the server lets every request over REST pass that does not name metadata itself.\<close>

lemma no_csrf_metadata_reaches_login:
  fixes h :: "('w, 'a, 'b) handler"
  assumes "header_matcher dm permanent"
    and "\<forall>(key, vals) \<in> set (gw_Header r). \<not> HasPrefix (CanonicalMIMEHeaderKey key) ''Grpc-Metadata-''"
  shows "identity_interceptor E m h (gateway_ctx dm peer r) req = h (gateway_ctx dm peer r) req"
proof -
  have "\<not> HasPrefix ''cookie-csrf-token'' ''grpcgateway-''" "\<not> HasPrefix ''x-csrf-token'' ''grpcgateway-''" "TrimSpace [] = []"
    by code_simp+
  moreover from this have "gateway_metadata dm (gw_Header r) ''cookie-csrf-token'' = []"
    "gateway_metadata dm (gw_Header r) ''x-csrf-token'' = []"
    using header_matcher.no_csrf_metadata [OF assms] by blast+
  ultimately show ?thesis
    by (simp add: identity_interceptor_def CSRFInterceptor_def gateway_ctx_def first_value_def)
qed

text \<open>A logout with the access token of the live session of the demonstration tables.\<close>

definition empty_codec :: identity_codec where
  "empty_codec = \<lparr>dec_LoginRequest = \<lambda>_. DecodeError [], dec_RefreshRequest = \<lambda>_. DecodeError [],
     dec_LogoutRequest = \<lambda>_. DecodedEOF ()\<rparr>"

definition logout_request :: gw_request where
  "logout_request = \<lparr>gw_Method = ''POST'', gw_Path = ''/api/v1/auth/logout'',
     gw_Header = [(''Authorization'', [''Bearer '' @ demo_access])], gw_Body = []\<rparr>"

theorem rest_logout_ends_nothing_witness:
  "after (identity_front None (\<lambda>_ _. Some (2, \<lambda>_. None)) ref_matcher ''peer'' empty_codec ref_auth_env logout_request) demo_world =
     demo_world \<and>
   result (identity_front None (\<lambda>_ _. Some (2, \<lambda>_. None)) ref_matcher ''peer'' empty_codec ref_auth_env logout_request) demo_world =
     ICalled (Some (Inr (MessageReply \<lparr>mr_Message = ''Logout successful'', mr_Header = clear_headers\<rparr>, [])))"
proof -
  have mux: "identity_mux (gw_Path logout_request) = IToGateway"
    by (simp add: logout_request_def identity_mux_def HasPrefix_def)
  have key: "\<not> HasPrefix (CanonicalMIMEHeaderKey ''Authorization'') ''Grpc-Metadata-''" by code_simp
  show ?thesis
    using rest_logout_ends_nothing [OF ref_headers.header_matcher_axioms mux, where Route = "\<lambda>_ _. Some (2, \<lambda>_. None)"
        and i = 2 and ps = "\<lambda>_. None" and C = empty_codec and E = ref_auth_env and R = None and peer = "''peer''" and w = demo_world]
      key by (simp add: empty_codec_def logout_request_def)
qed

end
