(* ===== verification/Startup.thy ===== *)
theory Startup
  imports Config Identity_Security Observation_Logger Reporting_Pool
begin

text \<open>
  How the six services start: what their constructors open, migrate, seed and ping, in which order,
  which of the failures end the start, and which clients the parts of a service are given. What the
  outside answers is a parameter; a start is the list of the actions on the outside and its outcome.
\<close>

section \<open>The outside\<close>

record log_file =
  lf_Filename :: string
  lf_MaxSize :: int
  lf_MaxBackups :: int
  lf_MaxAge :: int
  lf_Compress :: bool

datatype start_action =
    InitLog log_file | OpenDB string | SetPool int int duration duration | ExecSQL string | Migrate "string list"
  | SeedAccounts string string string string | PingServer string | ConnectSearch "string list" | PingSMTP string string

text \<open>Every answer is the error, if there is one; \<open>se_ParseURL\<close> gives the address.\<close>

record start_env =
  se_os :: os_state
  se_MkdirAll :: "string option"
  se_Open :: "string \<Rightarrow> string option"
  se_DB :: "string option"
  se_Exec :: "string \<Rightarrow> string option"
  se_AutoMigrate :: "string list \<Rightarrow> string option"
  se_Ping :: "string \<Rightarrow> string option"
  se_NewTypedClient :: "string list \<Rightarrow> string option"
  se_Info :: "string option"
  se_ParseURL :: "string \<Rightarrow> string + string"
  se_SMTP :: "string \<Rightarrow> string \<Rightarrow> string option"

datatype start_error =
    ErrLogs string | ErrConnectDB string | ErrCreateSchema string | ErrMigrate string | ErrRedisConfig config_error | ErrRedisRequired
  | ErrRedisPing string | ErrRedisURI string | ErrCreateSearch string | ErrConnectSearch string

type_synonym 'a start = "start_action list \<times> (start_error + 'a)"

definition start_bind :: "'a start \<Rightarrow> ('a \<Rightarrow> 'b start) \<Rightarrow> 'b start" where
  "start_bind m k =
     (case m of
        (t, Inl e) \<Rightarrow> (t, Inl e)
      | (t, Inr a) \<Rightarrow> (t @ fst (k a), snd (k a)))"

definition started :: "'a \<Rightarrow> 'a start" where
  "started a = ([], Inr a)"

definition act :: "start_action \<Rightarrow> unit start" where
  "act a = ([a], Inr ())"

definition attempt_act :: "start_action \<Rightarrow> (string \<Rightarrow> start_error) \<Rightarrow> string option \<Rightarrow> unit start" where
  "attempt_act a err answer = ([a], case answer of None \<Rightarrow> Inr () | Some e \<Rightarrow> Inl (err e))"

section \<open>Logger\<close>

definition InitLogger :: "LoggerConfig \<Rightarrow> string \<Rightarrow> log_file" where
  "InitLogger cfg appName =
     \<lparr>lf_Filename = (if appName = [] then ''logs/app.log'' else ''logs/'' @ appName @ ''.log''),
      lf_MaxSize = (if lcfg_LogMaxSize cfg \<le> 0 then 10 else lcfg_LogMaxSize cfg),
      lf_MaxBackups = (if lcfg_LogMaxBackups cfg < 0 then 3 else lcfg_LogMaxBackups cfg),
      lf_MaxAge = (if lcfg_LogMaxAge cfg \<le> 0 then 28 else lcfg_LogMaxAge cfg),
      lf_Compress = lcfg_LogCompress cfg\<rparr>"

text \<open>Without the directory for the logs the process ends.\<close>

definition init_log :: "start_env \<Rightarrow> log_file \<Rightarrow> unit start" where
  "init_log S f = attempt_act (InitLog f) ErrLogs (se_MkdirAll S)"

section \<open>Connections\<close>

text \<open>
  The connection is opened once in a process: \<open>once\<close> is what an earlier call has left, whether there is
  an instance and the error. \<open>GetInstance\<close> is the same in the three services with a database.
\<close>

definition GetInstance :: "start_env \<Rightarrow> string \<Rightarrow> (bool \<times> string option) option \<Rightarrow> start_action list \<times> (bool \<times> string option)" where
  "GetInstance S dsn once =
     (case once of
        Some r \<Rightarrow> ([], r)
      | None \<Rightarrow>
          (case se_Open S dsn of
             Some e \<Rightarrow> ([OpenDB dsn], (False, Some e))
           | None \<Rightarrow>
               (case se_DB S of
                  Some e \<Rightarrow> ([OpenDB dsn], (True, Some e))
                | None \<Rightarrow> ([OpenDB dsn, SetPool 25 25 (5 * Minute) (3 * Minute)], (True, None)))))"

definition connect_db :: "start_env \<Rightarrow> string \<Rightarrow> unit start" where
  "connect_db S dsn =
     (case GetInstance S dsn None of
        (t, _, Some e) \<Rightarrow> (t, Inl (ErrConnectDB e))
      | (t, _, None) \<Rightarrow> (t, Inr ()))"

definition identity_AutoMigrate :: "start_env \<Rightarrow> unit start" where
  "identity_AutoMigrate S =
     start_bind (let q = ''CREATE SCHEMA IF NOT EXISTS auth_schema'' in attempt_act (ExecSQL q) ErrCreateSchema (se_Exec S q)) (\<lambda>_.
     let ts = [''User'', ''AuthSession'', ''RefreshToken''] in attempt_act (Migrate ts) ErrMigrate (se_AutoMigrate S ts))"

definition management_AutoMigrate :: "start_env \<Rightarrow> unit start" where
  "management_AutoMigrate S =
     start_bind (let q = ''CREATE SCHEMA IF NOT EXISTS management_schema'' in attempt_act (ExecSQL q) ErrCreateSchema (se_Exec S q)) (\<lambda>_.
     let ts = [''Server'', ''OutboxEvent''] in attempt_act (Migrate ts) ErrMigrate (se_AutoMigrate S ts))"

text \<open>A client of Redis is what it was configured with; \<open>None\<close> is the nil pointer.\<close>

definition NewRedisClient :: "RedisConfig option \<Rightarrow> RedisConfig option" where
  "NewRedisClient cfg = (case cfg of None \<Rightarrow> None | Some c \<Rightarrow> if rcfg_Enabled c then Some c else None)"

definition NewElasticsearchClient :: "start_env \<Rightarrow> string list \<Rightarrow> unit start" where
  "NewElasticsearchClient S addresses =
     (case se_NewTypedClient S addresses of
        Some e \<Rightarrow> ([], Inl (ErrCreateSearch e))
      | None \<Rightarrow> attempt_act (ConnectSearch addresses) ErrConnectSearch (se_Info S))"

text \<open>
  A variable of an interface type is nil, or it holds a value of a type, here a pointer, which may be
  nil itself. A pointer that is passed where an interface is expected is held, nil or not.
\<close>

datatype 'c go_interface = NilInterface | Holding "'c option"

section \<open>Constructors\<close>

record identity_App =
  ida_Config :: identity_Config
  ida_revocationStore :: "RedisConfig go_interface"
  ida_authenticator :: "RedisConfig go_interface"

definition ping_client :: "start_env \<Rightarrow> RedisConfig option \<Rightarrow> unit start" where
  "ping_client S client = (case client of None \<Rightarrow> started () | Some c \<Rightarrow> act (PingServer (rcfg_Addr c)))"

definition redis_settings :: "config_error + RedisConfig \<Rightarrow> RedisConfig option" where
  "redis_settings r = (case r of Inl e \<Rightarrow> None | Inr c \<Rightarrow> Some c)"

text \<open>
  \<open>Load\<close> never fails. Errors of the settings and of the ping of Redis are only logged, and so are those
  of the seeding of accounts.
\<close>

definition identity_New :: "start_env \<Rightarrow> identity_App start" where
  "identity_New S =
     (let cfg = identity_Load (se_os S) in
      start_bind (init_log S (InitLogger (cfg_Logger cfg) (cfg_Env cfg))) (\<lambda>_.
      start_bind (connect_db S (cfg_DBUrl cfg)) (\<lambda>_.
      start_bind (identity_AutoMigrate S) (\<lambda>_.
      start_bind (act (SeedAccounts (cfg_AdminEmail cfg) (cfg_AdminPassword cfg) (cfg_UserEmail cfg) (cfg_UserPassword cfg))) (\<lambda>_.
      let redisClient = NewRedisClient (redis_settings (identity_LoadRedisConfig (se_os S))) in
      start_bind (ping_client S redisClient) (\<lambda>_.
      started \<lparr>ida_Config = cfg, ida_revocationStore = Holding redisClient, ida_authenticator = Holding redisClient\<rparr>))))))"

record management_App =
  mga_Config :: management_Config
  mga_publisher :: "RedisConfig go_interface"
  mga_subscriber :: "RedisConfig go_interface"
  mga_streamName :: string
  mga_batchSize :: int
  mga_interval :: duration
  mga_MethodPermissions :: "string \<Rightarrow> string option"

definition management_New :: "start_env \<Rightarrow> management_App start" where
  "management_New S =
     (let cfg = management_Load (se_os S); outbox = cfg_Outbox cfg in
      start_bind (init_log S (InitLogger (cfg_Logger cfg) (cfg_Env cfg))) (\<lambda>_.
      start_bind (connect_db S (cfg_DBUrl cfg)) (\<lambda>_.
      start_bind (management_AutoMigrate S) (\<lambda>_.
      let redisClient = NewRedisClient (redis_settings (management_LoadRedisConfig (se_os S))) in
      start_bind (ping_client S redisClient) (\<lambda>_.
      started \<lparr>mga_Config = cfg, mga_publisher = Holding redisClient, mga_subscriber = Holding redisClient,
        mga_streamName = ocfg_StreamName outbox, mga_batchSize = ocfg_BatchSize outbox,
        mga_interval = wrap64 (ocfg_IntervalMs outbox * Millisecond),
        mga_MethodPermissions = management_methodPermissions\<rparr>)))))"

text \<open>The publisher of \<open>sms-reporting\<close> is an interface that stays nil without Redis.\<close>

record reporting_App =
  rpa_Config :: reporting_Config
  rpa_publisher :: "RedisConfig go_interface option"
  rpa_subscriber :: "RedisConfig go_interface"
  rpa_workers :: "nat \<times> nat"
  rpa_index :: string
  rpa_scheduler :: "RedisConfig go_interface"
  rpa_cronSpec :: string
  rpa_adminEmail :: string
  rpa_methodPermissions :: "string \<Rightarrow> string option"

definition reporting_NewApp :: "start_env \<Rightarrow> reporting_App start" where
  "reporting_NewApp S =
     (let cfg = reporting_Load (se_os S); rep = scfg_Reporting cfg in
      start_bind (init_log S (InitLogger (scfg_Logger cfg) ''reporting'')) (\<lambda>_.
      start_bind (connect_db S (scfg_DBUrl cfg)) (\<lambda>_.
      start_bind (let q = ''CREATE SCHEMA IF NOT EXISTS reporting_schema;'' in attempt_act (ExecSQL q) ErrCreateSchema (se_Exec S q)) (\<lambda>_.
      start_bind (let ts = [''ReportRequest'', ''ReportingServer''] in attempt_act (Migrate ts) ErrMigrate (se_AutoMigrate S ts)) (\<lambda>_.
      case reporting_LoadRedisConfig (se_os S) of
        Inl e \<Rightarrow> ([], Inl (ErrRedisConfig e))
      | Inr redisCfg \<Rightarrow>
          let redisClient = NewRedisClient (Some redisCfg) in
          start_bind (ping_client S redisClient) (\<lambda>_.
          let esCfg = reporting_LoadElasticsearchConfig (se_os S) in
          start_bind (NewElasticsearchClient S [ecfg_URL esCfg]) (\<lambda>_.
          started \<lparr>rpa_Config = cfg,
            rpa_publisher = (case redisClient of None \<Rightarrow> None | Some c \<Rightarrow> Some (Holding (Some c))),
            rpa_subscriber = Holding redisClient,
            rpa_workers = NewReportingWorker (pcfg_WorkerCount rep) (pcfg_JobQueueSize rep),
            rpa_index = ecfg_ServerIndex esCfg,
            rpa_scheduler = Holding redisClient,
            rpa_cronSpec = (if pcfg_CronSpec rep = [] then ''0 0 * * *'' else pcfg_CronSpec rep),
            rpa_adminEmail = scheduler_email (pcfg_AdminEmail rep),
            rpa_methodPermissions = reporting_methodPermissions\<rparr>)))))))"

text \<open>
  \<open>sms-monitoring\<close> needs Redis and Elasticsearch. The pool of connections is made large enough for the
  workers, which block in it. The logger of observations is \<open>None\<close> if its goroutine panics.
\<close>

record monitoring_App =
  moa_cfg :: monitoring_Config
  moa_Redis :: RedisConfig
  moa_index :: string
  moa_esLogger :: ObservationLoggerConfig
  moa_concurrency :: int
  moa_timeout :: duration

definition pool_settings :: "monitoring_Config \<Rightarrow> RedisConfig \<Rightarrow> RedisConfig" where
  "pool_settings cfg redisCfg =
     (if rcfg_PoolSize redisCfg < wrap64 (mcfg_WorkerConcurrency cfg + 50)
      then redisCfg\<lparr>rcfg_PoolSize := wrap64 (mcfg_WorkerConcurrency cfg + 50)\<rparr> else redisCfg)"

definition monitoring_NewApp :: "start_env \<Rightarrow> monitoring_App start" where
  "monitoring_NewApp S =
     (let cfg = monitoring_Load (se_os S) in
      start_bind (init_log S (InitLogger (mcfg_Logger cfg) ''monitoring-worker'')) (\<lambda>_.
      let redisCfg = map_option (pool_settings cfg) (redis_settings (monitoring_LoadRedisConfig (se_os S))) in
      case NewRedisClient redisCfg of
        None \<Rightarrow> ([], Inl ErrRedisRequired)
      | Some redisClient \<Rightarrow>
          start_bind (attempt_act (PingServer (rcfg_Addr redisClient)) ErrRedisPing (se_Ping S (rcfg_Addr redisClient))) (\<lambda>_.
          let esCfg = monitoring_LoadElasticsearchConfig (se_os S) in
          start_bind (NewElasticsearchClient S [ecfg_URL esCfg]) (\<lambda>_.
          started \<lparr>moa_cfg = cfg, moa_Redis = redisClient, moa_index = ecfg_ServerIndex esCfg,
            moa_esLogger = LoadObservationLoggerConfig (se_os S),
            moa_concurrency = mcfg_WorkerConcurrency cfg, moa_timeout = mcfg_WorkerPingTimeout cfg\<rparr>))))"

text \<open>The logger of \<open>sms-notification\<close> takes the name of its file only. A failed ping of the mail server is logged.\<close>

definition notification_InitLogger :: "string \<Rightarrow> string \<Rightarrow> string \<Rightarrow> log_file" where
  "notification_InitLogger logLevel logFormat logFile =
     \<lparr>lf_Filename = logFile, lf_MaxSize = 10, lf_MaxBackups = 3, lf_MaxAge = 28, lf_Compress = True\<rparr>"

record smtp_settings =
  sms_Host :: string
  sms_Port :: string
  sms_UseAuth :: bool
  sms_UseTLS :: bool
  sms_Username :: string
  sms_Password :: string
  sms_From :: string
  sms_FromName :: string

record notification_App =
  noa_cfg :: notification_Config
  noa_redisAddr :: string
  noa_mailer :: smtp_settings

definition notification_NewApp :: "start_env \<Rightarrow> notification_App start" where
  "notification_NewApp S =
     (let cfg = LoadConfig (se_os S) in
      start_bind (init_log S (notification_InitLogger (ncfg_LogLevel cfg) (ncfg_LogFormat cfg) ''logs/notification.log'')) (\<lambda>_.
      if \<not> ncfg_RedisEnabled cfg then ([], Inl ErrRedisRequired)
      else
        start_bind (attempt_act (PingServer (ncfg_RedisAddr cfg)) ErrRedisPing (se_Ping S (ncfg_RedisAddr cfg))) (\<lambda>_.
        start_bind (act (PingSMTP (ncfg_SMTPHost cfg) (ncfg_SMTPPort cfg))) (\<lambda>_.
        started \<lparr>noa_cfg = cfg, noa_redisAddr = ncfg_RedisAddr cfg,
          noa_mailer = \<lparr>sms_Host = ncfg_SMTPHost cfg, sms_Port = ncfg_SMTPPort cfg, sms_UseAuth = ncfg_SMTPUseAuth cfg,
            sms_UseTLS = ncfg_SMTPUseTLS cfg, sms_Username = ncfg_SMTPUsername cfg, sms_Password = ncfg_SMTPPassword cfg,
            sms_From = ncfg_SMTPFrom cfg, sms_FromName = ncfg_SMTPFromName cfg\<rparr>\<rparr>))))"

record agent_App =
  aga_cfg :: agent_Config
  aga_redisAddr :: string

definition agent_NewApp :: "start_env \<Rightarrow> agent_App start" where
  "agent_NewApp S =
     (let cfg = agent_Load (se_os S) in
      case se_ParseURL S (acfg_RedisURI cfg) of
        Inl e \<Rightarrow> ([], Inl (ErrRedisURI e))
      | Inr addr \<Rightarrow>
          start_bind (attempt_act (PingServer addr) ErrRedisPing (se_Ping S addr)) (\<lambda>_.
          started \<lparr>aga_cfg = cfg, aga_redisAddr = addr\<rparr>))"

section \<open>Clients behind an interface\<close>

text \<open>
  A call through an interface: through nil, and on a nil pointer of the library's client, it panics.
  \<open>dial\<close> is the library: the client with the settings.
\<close>

datatype 'a outcome = Returned 'a | Panicked

definition call_client :: "(RedisConfig \<Rightarrow> 'w redis) \<Rightarrow> RedisConfig go_interface \<Rightarrow> ('w redis \<Rightarrow> ('w, 'a) state) \<Rightarrow> ('w, 'a outcome) state" where
  "call_client dial rdb f =
     (case rdb of
        Holding (Some c) \<Rightarrow> do { a \<leftarrow> f (dial c); ret (Returned a) }
      | _ \<Rightarrow> ret Panicked)"

text \<open>\<open>PingRedis\<close> and \<open>AcquireLock\<close> ask the interface whether it is nil.\<close>

definition PingRedis :: "(RedisConfig \<Rightarrow> 'w redis) \<Rightarrow> ('w redis \<Rightarrow> ('w, redis_error option) state) \<Rightarrow> RedisConfig go_interface \<Rightarrow>
  ('w, redis_error option outcome) state" where
  "PingRedis dial Ping rdb = (if rdb = NilInterface then ret (Returned None) else call_client dial rdb Ping)"

definition management_AcquireLock :: "(RedisConfig \<Rightarrow> 'w redis) \<Rightarrow> RedisConfig go_interface \<Rightarrow> string \<Rightarrow> duration \<Rightarrow>
  ('w, (redis_error + bool) outcome) state" where
  "management_AcquireLock dial rdb key expiration =
     (if rdb = NilInterface then ret (Returned (Inr False))
      else call_client dial rdb (\<lambda>R. cmd_SetNX R key ''locked'' expiration))"

definition scheduler_AcquireLock :: "(RedisConfig \<Rightarrow> 'w redis) \<Rightarrow> RedisConfig go_interface \<Rightarrow> string \<Rightarrow> duration \<Rightarrow>
  ('w, (redis_error + bool) outcome) state" where
  "scheduler_AcquireLock dial rdb key expiration =
     (if rdb = NilInterface then ret (Returned (Inr True))
      else call_client dial rdb (\<lambda>R. cmd_SetNX R key ''locked'' expiration))"

text \<open>\<open>Authenticate\<close> with the client that the constructor gave it.\<close>

definition wired_Authenticate :: "'w auth_env \<Rightarrow> (RedisConfig \<Rightarrow> 'w redis) \<Rightarrow> RedisConfig go_interface \<Rightarrow> string \<Rightarrow>
  ('w, (authn_error + Principal) outcome) state" where
  "wired_Authenticate E dial redisClient tokenString = do {
     now \<leftarrow> env_Now E;
     case env_ParseWithClaims E tokenString (env_jwtSecret E) [''HS256''] now of
       None \<Rightarrow> ret (Returned (Inl ErrInvalidToken))
     | Some parsedClaims \<Rightarrow>
         if redisClient \<noteq> NilInterface \<and> clm_SessionID parsedClaims \<noteq> [] then do {
           isRevoked \<leftarrow> call_client dial redisClient (\<lambda>R. cmd_Exists R (''revoked_session:'' @ clm_SessionID parsedClaims));
           ret (case isRevoked of
             Panicked \<Rightarrow> Panicked
           | Returned (Inr n) \<Rightarrow> Returned (if 0 < n then Inl ErrSessionRevoked else Inr (principal_of parsedClaims))
           | Returned (Inl e) \<Rightarrow> Returned (Inr (principal_of parsedClaims)))
         } else ret (Returned (Inr (principal_of parsedClaims)))
   }"

section \<open>Outcomes of a start\<close>

named_theorems start_simps

lemma start_bind_Inr [start_simps]: "snd (start_bind m k) = Inr b \<longleftrightarrow> (\<exists>a. snd m = Inr a \<and> snd (k a) = Inr b)"
  by (auto simp: start_bind_def split: prod.splits sum.splits)

lemma snd_simple [start_simps]:
  "snd (started a) = Inr a" "snd (act x) = Inr ()"
  "snd (attempt_act x err answer) = Inr u \<longleftrightarrow> answer = None"
  by (auto simp: started_def act_def attempt_act_def split: option.split)

lemma connect_db_ok [start_simps]: "snd (connect_db S dsn) = Inr u \<longleftrightarrow> se_Open S dsn = None \<and> se_DB S = None"
  by (auto simp: connect_db_def GetInstance_def split: option.split)

lemma ping_client_ok [start_simps]: "snd (ping_client S c) = Inr u"
  by (cases c) (simp_all add: ping_client_def start_simps)

lemma search_ok [start_simps]:
  "snd (NewElasticsearchClient S as) = Inr u \<longleftrightarrow> se_NewTypedClient S as = None \<and> se_Info S = None"
  by (auto simp: NewElasticsearchClient_def attempt_act_def split: option.split)

lemma init_log_ok [start_simps]: "snd (init_log S f) = Inr u \<longleftrightarrow> se_MkdirAll S = None"
  by (simp add: init_log_def start_simps)

definition db_ready :: "start_env \<Rightarrow> string \<Rightarrow> string \<Rightarrow> string list \<Rightarrow> bool" where
  "db_ready S dsn schema tables \<longleftrightarrow>
     se_Open S dsn = None \<and> se_DB S = None \<and> se_Exec S schema = None \<and> se_AutoMigrate S tables = None"

definition search_ready :: "start_env \<Rightarrow> ElasticsearchConfig \<Rightarrow> bool" where
  "search_ready S cfg \<longleftrightarrow> se_NewTypedClient S [ecfg_URL cfg] = None \<and> se_Info S = None"

text \<open>Redis is configured and switched on.\<close>

definition redis_enabled :: "config_error + RedisConfig \<Rightarrow> RedisConfig \<Rightarrow> bool" where
  "redis_enabled r c \<longleftrightarrow> r = Inr c \<and> rcfg_Enabled c"

lemma identity_started:
  "snd (identity_New S) = Inr a \<longleftrightarrow>
     se_MkdirAll S = None \<and>
     db_ready S (cfg_DBUrl (identity_Load (se_os S))) ''CREATE SCHEMA IF NOT EXISTS auth_schema'' [''User'', ''AuthSession'', ''RefreshToken''] \<and>
     (let c = NewRedisClient (redis_settings (identity_LoadRedisConfig (se_os S))) in
      a = \<lparr>ida_Config = identity_Load (se_os S), ida_revocationStore = Holding c, ida_authenticator = Holding c\<rparr>)"
  by (auto simp: identity_New_def identity_AutoMigrate_def db_ready_def Let_def start_simps)

lemma management_started:
  "(\<exists>a. snd (management_New S) = Inr a) \<longleftrightarrow>
     se_MkdirAll S = None \<and>
     db_ready S (cfg_DBUrl (management_Load (se_os S))) ''CREATE SCHEMA IF NOT EXISTS management_schema'' [''Server'', ''OutboxEvent'']"
  by (auto simp: management_New_def management_AutoMigrate_def db_ready_def Let_def start_simps)

lemma reporting_started:
  "(\<exists>a. snd (reporting_NewApp S) = Inr a) \<longleftrightarrow>
     se_MkdirAll S = None \<and>
     db_ready S (scfg_DBUrl (reporting_Load (se_os S))) ''CREATE SCHEMA IF NOT EXISTS reporting_schema;'' [''ReportRequest'', ''ReportingServer''] \<and>
     (\<exists>c. reporting_LoadRedisConfig (se_os S) = Inr c) \<and> search_ready S (reporting_LoadElasticsearchConfig (se_os S))"
  by (cases "reporting_LoadRedisConfig (se_os S)")
    (auto simp: reporting_NewApp_def db_ready_def search_ready_def Let_def start_simps)

lemma reporting_scheduler_client:
  "snd (reporting_NewApp S) = Inr a \<Longrightarrow>
    rpa_scheduler a = Holding (NewRedisClient (redis_settings (reporting_LoadRedisConfig (se_os S)))) \<and>
    (rpa_publisher a = None \<longleftrightarrow> NewRedisClient (redis_settings (reporting_LoadRedisConfig (se_os S))) = None)"
  by (cases "reporting_LoadRedisConfig (se_os S)")
    (auto simp: reporting_NewApp_def redis_settings_def Let_def start_simps split: option.splits)

lemma NewRedisClient_Some: "NewRedisClient (redis_settings r) = Some c \<longleftrightarrow> redis_enabled r c"
  by (cases r) (auto simp: NewRedisClient_def redis_settings_def redis_enabled_def)

lemma monitoring_client:
  "NewRedisClient (map_option (pool_settings cfg) (redis_settings r)) = map_option (pool_settings cfg) (NewRedisClient (redis_settings r))"
  by (cases r) (auto simp: NewRedisClient_def redis_settings_def pool_settings_def)

lemma monitoring_started:
  "(\<exists>a. snd (monitoring_NewApp S) = Inr a) \<longleftrightarrow>
     se_MkdirAll S = None \<and>
     (\<exists>c. redis_enabled (monitoring_LoadRedisConfig (se_os S)) c \<and> se_Ping S (rcfg_Addr c) = None) \<and>
     search_ready S (monitoring_LoadElasticsearchConfig (se_os S))"
proof (cases "NewRedisClient (redis_settings (monitoring_LoadRedisConfig (se_os S)))")
  case None
  then have "\<not> redis_enabled (monitoring_LoadRedisConfig (se_os S)) c" for c
    using NewRedisClient_Some [of "monitoring_LoadRedisConfig (se_os S)" c] by simp
  with None show ?thesis by (simp add: monitoring_NewApp_def monitoring_client Let_def start_simps)
next
  case (Some c)
  moreover have "rcfg_Addr (pool_settings cfg c) = rcfg_Addr c" for cfg by (simp add: pool_settings_def)
  moreover have "redis_enabled (monitoring_LoadRedisConfig (se_os S)) c' \<longleftrightarrow> c' = c" for c'
    using Some NewRedisClient_Some [of "monitoring_LoadRedisConfig (se_os S)" c'] by auto
  ultimately show ?thesis
    by (auto simp: monitoring_NewApp_def monitoring_client search_ready_def Let_def start_simps)
qed

lemma notification_started:
  "(\<exists>a. snd (notification_NewApp S) = Inr a) \<longleftrightarrow>
     se_MkdirAll S = None \<and> ncfg_RedisEnabled (LoadConfig (se_os S)) \<and> se_Ping S (ncfg_RedisAddr (LoadConfig (se_os S))) = None"
  by (auto simp: notification_NewApp_def Let_def start_simps)

lemma agent_started:
  "(\<exists>a. snd (agent_NewApp S) = Inr a) \<longleftrightarrow>
     (\<exists>addr. se_ParseURL S (acfg_RedisURI (agent_Load (se_os S))) = Inr addr \<and> se_Ping S addr = None)"
  by (cases "se_ParseURL S (acfg_RedisURI (agent_Load (se_os S)))") (auto simp: agent_NewApp_def Let_def start_simps)

section \<open>A start without settings\<close>

text \<open>Nothing is configured, and everything outside answers.\<close>

definition bare_start :: start_env where
  "bare_start = \<lparr>se_os = env_of [], se_MkdirAll = None, se_Open = (\<lambda>_. None), se_DB = None, se_Exec = (\<lambda>_. None),
     se_AutoMigrate = (\<lambda>_. None), se_Ping = (\<lambda>_. None), se_NewTypedClient = (\<lambda>_. None), se_Info = None,
     se_ParseURL = Inr, se_SMTP = (\<lambda>_ _. None)\<rparr>"

lemma bare_redis:
  "\<not> redis_enabled (identity_LoadRedisConfig (se_os bare_start)) c" "\<not> redis_enabled (reporting_LoadRedisConfig (se_os bare_start)) c"
  "\<exists>c. reporting_LoadRedisConfig (se_os bare_start) = Inr c"
proof -
  have r: "case identity_LoadRedisConfig (se_os bare_start) of Inl _ \<Rightarrow> False | Inr c \<Rightarrow> \<not> rcfg_Enabled c"
    by code_simp
  then show "\<not> redis_enabled (identity_LoadRedisConfig (se_os bare_start)) c" "\<not> redis_enabled (reporting_LoadRedisConfig (se_os bare_start)) c"
    "\<exists>c. reporting_LoadRedisConfig (se_os bare_start) = Inr c"
    by (auto simp: redis_enabled_def reporting_LoadRedisConfig_def split: sum.splits)
qed

lemma bare_starts: "\<exists>a. snd (identity_New bare_start) = Inr a" "\<exists>b. snd (reporting_NewApp bare_start) = Inr b"
  using bare_redis(3) by (simp_all add: identity_started reporting_started bare_start_def db_ready_def search_ready_def Let_def)

end
