(* ===== verification/Lifecycle.thy ===== *)
theory Lifecycle
  imports Startup Identity_Properties
begin

text \<open>
  What the start of the services comes to: what each of them needs to start, and which clients of Redis
  their parts hold afterwards.
\<close>

section \<open>Starting\<close>

text \<open>
  What a service needs to start. The three services with a database start exactly if it can be opened
  and migrated; \<open>sms-reporting\<close> also needs settings of Redis that parse and an answer of Elasticsearch,
  \<open>sms-monitoring\<close> an enabled Redis and an Elasticsearch that answer, \<open>sms-notification\<close> an enabled Redis,
  \<open>sms-agent-handler\<close> a Redis. Redis need not answer, nor be configured, for the first three.
\<close>

lemma services_start_iff:
  "((\<exists>a. snd (identity_New S) = Inr a) \<longleftrightarrow>
     se_MkdirAll S = None \<and>
     db_ready S (cfg_DBUrl (identity_Load (se_os S))) ''CREATE SCHEMA IF NOT EXISTS auth_schema'' [''User'', ''AuthSession'', ''RefreshToken'']) \<and>
   ((\<exists>a. snd (management_New S) = Inr a) \<longleftrightarrow>
     se_MkdirAll S = None \<and>
     db_ready S (cfg_DBUrl (management_Load (se_os S))) ''CREATE SCHEMA IF NOT EXISTS management_schema'' [''Server'', ''OutboxEvent'']) \<and>
   ((\<exists>a. snd (reporting_NewApp S) = Inr a) \<longleftrightarrow>
     se_MkdirAll S = None \<and>
     db_ready S (scfg_DBUrl (reporting_Load (se_os S))) ''CREATE SCHEMA IF NOT EXISTS reporting_schema;'' [''ReportRequest'', ''ReportingServer''] \<and>
     (\<exists>c. reporting_LoadRedisConfig (se_os S) = Inr c) \<and> search_ready S (reporting_LoadElasticsearchConfig (se_os S))) \<and>
   ((\<exists>a. snd (monitoring_NewApp S) = Inr a) \<longleftrightarrow>
     se_MkdirAll S = None \<and>
     (\<exists>c. redis_enabled (monitoring_LoadRedisConfig (se_os S)) c \<and> se_Ping S (rcfg_Addr c) = None) \<and>
     search_ready S (monitoring_LoadElasticsearchConfig (se_os S))) \<and>
   ((\<exists>a. snd (notification_NewApp S) = Inr a) \<longleftrightarrow>
     se_MkdirAll S = None \<and> ncfg_RedisEnabled (LoadConfig (se_os S)) \<and> se_Ping S (ncfg_RedisAddr (LoadConfig (se_os S))) = None) \<and>
   ((\<exists>a. snd (agent_NewApp S) = Inr a) \<longleftrightarrow>
     (\<exists>addr. se_ParseURL S (acfg_RedisURI (agent_Load (se_os S))) = Inr addr \<and> se_Ping S addr = None))"
  by (simp add: identity_started management_started reporting_started monitoring_started notification_started agent_started Let_def)

text \<open>With an enabled Redis the authenticator is the one of the model of \<open>sms-identity\<close>.\<close>

lemma wired_Authenticate_on:
  "result (wired_Authenticate E dial (Holding (Some c)) token) w = Returned (result (Authenticate E (Some (dial c)) token) w)"
  "after (wired_Authenticate E dial (Holding (Some c)) token) w = after (Authenticate E (Some (dial c)) token) w"
  by (simp_all add: wired_Authenticate_def Authenticate_def call_client_def split: option.split sum.split)

lemma wired_Authenticate_off:
  "env_ParseWithClaims E token (env_jwtSecret E) [''HS256''] (result (env_Now E) w) = Some claims \<Longrightarrow> clm_SessionID claims \<noteq> [] \<Longrightarrow>
   result (wired_Authenticate E dial (Holding None) token) w = Panicked"
  by (simp add: wired_Authenticate_def call_client_def)

text \<open>The check for nil that the author had in mind would have accepted the token.\<close>

lemma wired_Authenticate_nil:
  "result (wired_Authenticate E dial NilInterface token) w = Returned (result (Authenticate E None token) w)"
  by (simp add: wired_Authenticate_def Authenticate_def split: option.split)

lemma scheduler_lock_off: "result (scheduler_AcquireLock dial (Holding None) key d) w = Panicked"
  by (simp add: scheduler_AcquireLock_def call_client_def)

lemma scheduler_lock_on:
  "result (scheduler_AcquireLock dial (Holding (Some c)) key d) w = Returned (result (reporting_AcquireLock (Some (dial c)) key d) w)"
  by (simp add: scheduler_AcquireLock_def call_client_def reporting_AcquireLock_def)

text \<open>
  C25: Redis is not optional. With Redis switched on, the service that has started authenticates as its
  model does. With Redis switched off, which is the default, \<open>sms-identity\<close> and \<open>sms-reporting\<close> start
  all the same, but the nil pointer hides in an interface that is not nil: every token of a session makes
  the authenticator panic, and so does the first run of the scheduler.
\<close>

theorem redis_is_not_optional:
  assumes "snd (identity_New S) = Inr a" and "snd (reporting_NewApp R) = Inr b"
  shows "(\<forall>c. redis_enabled (identity_LoadRedisConfig (se_os S)) c \<longrightarrow>
      result (wired_Authenticate E dial (ida_authenticator a) token) w = Returned (result (Authenticate E (Some (dial c)) token) w) \<and>
      after (wired_Authenticate E dial (ida_authenticator a) token) w = after (Authenticate E (Some (dial c)) token) w) \<and>
    ((\<forall>c. \<not> redis_enabled (identity_LoadRedisConfig (se_os S)) c) \<and>
     env_ParseWithClaims E token (env_jwtSecret E) [''HS256''] (result (env_Now E) w) = Some claims \<and> clm_SessionID claims \<noteq> [] \<longrightarrow>
      result (wired_Authenticate E dial (ida_authenticator a) token) w = Panicked) \<and>
    ((\<forall>c. \<not> redis_enabled (reporting_LoadRedisConfig (se_os R)) c) \<longrightarrow>
      result (scheduler_AcquireLock dial (rpa_scheduler b) schedulerLockKey (30 * Second)) w = Panicked)"
proof -
  have a: "ida_authenticator a = Holding (NewRedisClient (redis_settings (identity_LoadRedisConfig (se_os S))))"
    using assms(1) by (auto simp: identity_started Let_def)
  have b: "rpa_scheduler b = Holding (NewRedisClient (redis_settings (reporting_LoadRedisConfig (se_os R))))"
    using reporting_scheduler_client [OF assms(2)] by blast
  have none: "NewRedisClient (redis_settings r) = None" if "\<forall>c. \<not> redis_enabled r c" for r
    using that NewRedisClient_Some [of r] by (cases "NewRedisClient (redis_settings r)") auto
  show ?thesis
    using a b by (auto simp: NewRedisClient_Some [symmetric] none wired_Authenticate_on scheduler_lock_off
        intro: wired_Authenticate_off)
qed


theorem redis_is_not_optional_witness:
  "\<exists>a b. snd (identity_New bare_start) = Inr a \<and> snd (reporting_NewApp bare_start) = Inr b \<and>
     result (wired_Authenticate ref_auth_env (\<lambda>_. env_redis ref_auth_env) (ida_authenticator a) demo_access) demo_world = Panicked \<and>
     result (scheduler_AcquireLock (\<lambda>_. env_redis ref_auth_env) (rpa_scheduler b) schedulerLockKey (30 * Second)) demo_world = Panicked"
proof -
  obtain a b where up: "snd (identity_New bare_start) = Inr a" "snd (reporting_NewApp bare_start) = Inr b"
    using bare_starts by blast
  have parse: "env_ParseWithClaims ref_auth_env demo_access (env_jwtSecret ref_auth_env) [''HS256''] (result (env_Now ref_auth_env) demo_world) =
      Some (claims_of demo_claims)"
    by (rule demo_access_parses) (simp add: ref_auth_env_def mem_Now_def State_simps duration_defs)
  show ?thesis
    using redis_is_not_optional [OF up, of ref_auth_env "\<lambda>_. env_redis ref_auth_env" demo_access demo_world "claims_of demo_claims"]
      up parse demo_access_session(2) bare_redis(1,2) by blast
qed

end
