(* ===== verification/Reporting_Shutdown.thy ===== *)
theory Reporting_Shutdown
  imports Startup
begin

text \<open>
  How \<open>sms-reporting\<close> runs and shuts down: its gRPC server, its scheduler and its pool of workers are
  goroutines of one process, whose atomic actions are the steps of a relation, and \<open>Shutdown\<close> stops
  them one after the other. A panic in a handler or in a job of the scheduler ends the process, since
  neither grpc-go nor cron recovers from it.
\<close>

section \<open>State\<close>

text \<open>
  \<open>sr_calls\<close> are the requests of the gRPC handlers that are about to enqueue them, \<open>sr_jobs\<close> those of
  the jobs of the scheduler which hold the lock. The stages name the call that \<open>Shutdown\<close> is in.
\<close>

datatype stage = Serving | InGracefulStop | InWorkerStop | InWait | Down | Crashed

text \<open>The stages in the order in which they come.\<close>

instantiation stage :: linorder
begin

primrec stage_rank :: "stage \<Rightarrow> nat" where
  "stage_rank Serving = 0"
| "stage_rank InGracefulStop = 1"
| "stage_rank InWorkerStop = 2"
| "stage_rank InWait = 3"
| "stage_rank Down = 4"
| "stage_rank Crashed = 5"

definition less_eq_stage :: "stage \<Rightarrow> stage \<Rightarrow> bool" where
  "a \<le> b \<longleftrightarrow> stage_rank a \<le> stage_rank b"

definition less_stage :: "stage \<Rightarrow> stage \<Rightarrow> bool" where
  "a < b \<longleftrightarrow> stage_rank a < stage_rank b"

instance
proof
  fix a b :: stage
  show "a \<le> b \<Longrightarrow> b \<le> a \<Longrightarrow> a = b" by (cases a; cases b) (simp_all add: less_eq_stage_def)
qed (auto simp: less_eq_stage_def less_stage_def)

end

record service_run =
  sr_pool :: pool
  sr_grpc :: bool
  sr_calls :: "ReportRequest list"
  sr_cron :: bool
  sr_jobs :: "ReportRequest list"
  sr_stage :: stage

definition running :: "service_run \<Rightarrow> bool" where
  "running s \<longleftrightarrow> sr_stage s \<noteq> Down \<and> sr_stage s \<noteq> Crashed"

record run_env =
  re_Listen :: "string \<Rightarrow> string option"
  re_AddFunc :: "string \<Rightarrow> string option"
  re_Register :: "string \<Rightarrow> string option"

datatype run_error = ErrListen string | ErrScheduler string | ErrGateway string

section \<open>Operations\<close>

text \<open>The part of \<open>Run\<close> before the signal: what can end it, and the state of the process otherwise.\<close>

definition reporting_Run :: "run_env \<Rightarrow> reporting_App \<Rightarrow> run_error + service_run" where
  "reporting_Run E a =
     (let grpcAddr = '':'' @ scfg_GRPCPort (rpa_Config a) in
      case re_Listen E grpcAddr of
        Some e \<Rightarrow> Inl (ErrListen e)
      | None \<Rightarrow>
          (case re_AddFunc E (rpa_cronSpec a) of
             Some e \<Rightarrow> Inl (ErrScheduler e)
           | None \<Rightarrow>
               (case re_Register E grpcAddr of
                  Some e \<Rightarrow> Inl (ErrGateway e)
                | None \<Rightarrow> Inr \<lparr>sr_pool = idle_pool, sr_grpc = True, sr_calls = [], sr_cron = True, sr_jobs = [], sr_stage = Serving\<rparr>)))"

definition rpc_begin :: "ReportRequest \<Rightarrow> service_run \<Rightarrow> service_run option" where
  "rpc_begin req s = (if sr_grpc s then Some (s\<lparr>sr_calls := req # sr_calls s\<rparr>) else None)"

definition rpc_enqueue :: "nat \<Rightarrow> ReportRequest \<Rightarrow> service_run \<Rightarrow> service_run option" where
  "rpc_enqueue cap req s =
     (if req \<in> set (sr_calls s)
      then case EnqueueReport cap req (sr_pool s) of
        Sent p \<Rightarrow> Some (s\<lparr>sr_pool := p, sr_calls := remove1 req (sr_calls s)\<rparr>)
      | Blocked \<Rightarrow> None
      | Panics \<Rightarrow> Some (s\<lparr>sr_stage := Crashed\<rparr>)
      else None)"

text \<open>The scheduler starts its job as long as it is not stopped; \<open>Stop\<close> does not wait for a job that runs.\<close>

definition cron_fire :: "ReportRequest \<Rightarrow> service_run \<Rightarrow> service_run option" where
  "cron_fire req s = (if sr_cron s then Some (s\<lparr>sr_jobs := req # sr_jobs s\<rparr>) else None)"

definition cron_enqueue :: "nat \<Rightarrow> ReportRequest \<Rightarrow> service_run \<Rightarrow> service_run option" where
  "cron_enqueue cap req s =
     (if req \<in> set (sr_jobs s)
      then case EnqueueReport cap req (sr_pool s) of
        Sent p \<Rightarrow> Some (s\<lparr>sr_pool := p, sr_jobs := remove1 req (sr_jobs s)\<rparr>)
      | Blocked \<Rightarrow> None
      | Panics \<Rightarrow> Some (s\<lparr>sr_stage := Crashed\<rparr>)
      else None)"

definition job_turn :: "nat \<Rightarrow> service_run \<Rightarrow> service_run option" where
  "job_turn i s =
     (case receive i (sr_pool s) of
        Some p \<Rightarrow> Some (s\<lparr>sr_pool := p\<rparr>)
      | None \<Rightarrow>
          (case finish i (sr_pool s) of
             Some p \<Rightarrow> Some (s\<lparr>sr_pool := p\<rparr>)
           | None \<Rightarrow> map_option (\<lambda>p. s\<lparr>sr_pool := p\<rparr>) (leave i (sr_pool s))))"

text \<open>
  \<open>Shutdown\<close>, from the signal on: \<open>GracefulStop\<close> refuses new calls and returns when the handlers have;
  the HTTP server, whose handlers are clients of the gRPC server, is shut down; \<open>worker.Stop\<close> closes the
  queue and waits for the workers; \<open>scheduler.Stop\<close>; then \<open>Run\<close> returns.
\<close>

definition reporting_Shutdown :: "nat \<Rightarrow> service_run \<Rightarrow> service_run option" where
  "reporting_Shutdown n s =
     (case sr_stage s of
        Serving \<Rightarrow> Some (s\<lparr>sr_grpc := False, sr_stage := InGracefulStop\<rparr>)
      | InGracefulStop \<Rightarrow> if sr_calls s = [] then Some (s\<lparr>sr_stage := InWorkerStop\<rparr>) else None
      | InWorkerStop \<Rightarrow> map_option (\<lambda>p. s\<lparr>sr_pool := p, sr_stage := InWait\<rparr>) (close_jobs (sr_pool s))
      | InWait \<Rightarrow> if stop_returned n (sr_pool s) then Some (s\<lparr>sr_cron := False, sr_stage := Down\<rparr>) else None
      | Down \<Rightarrow> None
      | Crashed \<Rightarrow> None)"

inductive run_step :: "nat \<Rightarrow> nat \<Rightarrow> service_run \<Rightarrow> service_run \<Rightarrow> bool" for n cap where
  run_rpc: "running s \<Longrightarrow> rpc_begin req s = Some s' \<Longrightarrow> run_step n cap s s'"
| run_rpc_enqueue: "running s \<Longrightarrow> rpc_enqueue cap req s = Some s' \<Longrightarrow> run_step n cap s s'"
| run_fire: "running s \<Longrightarrow> cron_fire req s = Some s' \<Longrightarrow> run_step n cap s s'"
| run_cron_enqueue: "running s \<Longrightarrow> cron_enqueue cap req s = Some s' \<Longrightarrow> run_step n cap s s'"
| run_worker: "running s \<Longrightarrow> i < n \<Longrightarrow> job_turn i s = Some s' \<Longrightarrow> run_step n cap s s'"
| run_shutdown: "running s \<Longrightarrow> reporting_Shutdown n s = Some s' \<Longrightarrow> run_step n cap s s'"

inductive reachable_run :: "nat \<Rightarrow> nat \<Rightarrow> service_run \<Rightarrow> service_run \<Rightarrow> bool" for n cap s0 where
  run_start: "reachable_run n cap s0 s0"
| run_more: "reachable_run n cap s0 s \<Longrightarrow> run_step n cap s s' \<Longrightarrow> reachable_run n cap s0 s'"

section \<open>Invariant\<close>

text \<open>
  What each stage of the shutdown has made sure of. The scheduler is on in all of them but the last,
  which is why a crash needs one of its jobs.
\<close>

definition run_inv :: "nat \<Rightarrow> nat \<Rightarrow> service_run \<Rightarrow> bool" where
  "run_inv n cap s \<longleftrightarrow>
     pool_inv n cap (sr_pool s) \<and>
     (case sr_stage s of
        Serving \<Rightarrow> \<not> pl_closed (sr_pool s)
      | InGracefulStop \<Rightarrow> \<not> sr_grpc s \<and> \<not> pl_closed (sr_pool s)
      | InWorkerStop \<Rightarrow> \<not> sr_grpc s \<and> sr_calls s = [] \<and> \<not> pl_closed (sr_pool s)
      | InWait \<Rightarrow> \<not> sr_grpc s \<and> sr_calls s = [] \<and> pl_closed (sr_pool s)
      | Down \<Rightarrow> sr_calls s = [] \<and> \<not> sr_cron s \<and> stop_returned n (sr_pool s)
      | Crashed \<Rightarrow> sr_calls s = [] \<and> sr_jobs s \<noteq> [] \<and> pl_closed (sr_pool s))"

lemma run_inv_start: "reporting_Run E a = Inr s \<Longrightarrow> run_inv n cap s"
proof -
  have "\<not> pl_closed idle_pool" by (simp add: idle_pool_def)
  then show "reporting_Run E a = Inr s \<Longrightarrow> run_inv n cap s"
    by (auto simp: reporting_Run_def run_inv_def pool_inv_start Let_def split: option.splits)
qed

lemma EnqueueReport_closed: "EnqueueReport cap req p = Panics \<longleftrightarrow> pl_closed p"
  by (simp add: EnqueueReport_def)

lemma EnqueueReport_sent:
  assumes "EnqueueReport cap req p = Sent p'" and "pool_inv n cap p"
  shows "pool_inv n cap p' \<and> \<not> pl_closed p \<and> \<not> pl_closed p'"
  using assms pool_inv_step [OF step_enqueue [OF assms(1)] assms(2)] by (auto simp: EnqueueReport_def split: if_splits)

lemma job_turn_pool:
  assumes "job_turn i s = Some s'" and "i < n" and "pool_inv n cap (sr_pool s)"
  shows "\<exists>p. s' = s\<lparr>sr_pool := p\<rparr> \<and> pool_inv n cap p \<and> pl_closed p = pl_closed (sr_pool s)"
proof -
  obtain p where p: "s' = s\<lparr>sr_pool := p\<rparr>" "receive i (sr_pool s) = Some p \<or> finish i (sr_pool s) = Some p \<or> leave i (sr_pool s) = Some p"
    using assms(1) by (auto simp: job_turn_def split: option.splits)
  then have "pool_step n cap (sr_pool s) p" using assms(2) by (auto intro: step_receive step_finish step_leave)
  moreover have "pl_closed p = pl_closed (sr_pool s)"
    using p(2) by (auto simp: receive_def finish_def leave_def split: if_splits list.splits option.splits)
  ultimately show ?thesis using p(1) pool_inv_step assms(3) by blast
qed

lemma run_inv_step: "run_step n cap s s' \<Longrightarrow> run_inv n cap s \<Longrightarrow> run_inv n cap s'"
proof (induction rule: run_step.induct)
  case (run_rpc s req s')
  then show ?case by (auto simp: run_inv_def rpc_begin_def running_def split: if_splits stage.splits)
next
  case (run_rpc_enqueue s req s')
  then show ?case
    by (auto simp: run_inv_def rpc_enqueue_def running_def EnqueueReport_closed dest: EnqueueReport_sent split: if_splits stage.splits send.splits)
next
  case (run_fire s req s')
  then show ?case by (auto simp: run_inv_def cron_fire_def running_def split: if_splits stage.splits)
next
  case (run_cron_enqueue s req s')
  then show ?case
    by (auto simp: run_inv_def cron_enqueue_def running_def EnqueueReport_closed dest: EnqueueReport_sent split: if_splits stage.splits send.splits)
next
  case (run_worker s i s')
  then obtain p where "s' = s\<lparr>sr_pool := p\<rparr>" "pool_inv n cap p" "pl_closed p = pl_closed (sr_pool s)"
    using job_turn_pool [of i s s' n cap] by (auto simp: run_inv_def)
  with run_worker show ?case by (auto simp: run_inv_def running_def split: stage.splits)
next
  case (run_shutdown s s')
  moreover have "close_jobs p = Some p' \<Longrightarrow> pool_inv n cap p \<Longrightarrow> pool_inv n cap p' \<and> pl_closed p'" for p p'
    using pool_inv_step [OF step_close] by (auto simp: close_jobs_def split: if_splits)
  ultimately show ?case by (auto simp: run_inv_def reporting_Shutdown_def running_def split: stage.splits if_splits)
qed

text \<open>The shutdown does not go back.\<close>

lemma stage_rank_le: "stage_rank a \<le> 5"
  by (cases a) simp_all

lemma stage_advances: "run_step n cap s s' \<Longrightarrow> sr_stage s \<le> sr_stage s'"
proof (induction rule: run_step.induct)
  case (run_worker s i s')
  then show ?case by (auto simp: job_turn_def less_eq_stage_def split: option.splits)
qed (auto simp: rpc_begin_def rpc_enqueue_def cron_fire_def cron_enqueue_def reporting_Shutdown_def running_def less_eq_stage_def stage_rank_le
    split: if_splits send.splits stage.splits)

lemma reachable_run_inv: "reachable_run n cap s0 s \<Longrightarrow> run_inv n cap s0 \<Longrightarrow> run_inv n cap s"
  by (induction rule: reachable_run.induct) (auto intro: run_inv_step)

lemma drained: "pool_inv n cap p \<Longrightarrow> stop_returned n p \<Longrightarrow> 0 < n \<Longrightarrow> mset (pl_done p) = mset (pl_accepted p)"
  using in_work_exited [of n cap p] by (auto simp: pool_inv_def stop_returned_def)

section \<open>A crash\<close>

text \<open>A report is requested and waits, the service is told to stop, and the scheduler fires during the wait for the workers.\<close>

lemma shutdown_crash:
  assumes "reporting_Run E a = Inr s0" and "0 < cap"
  shows "\<exists>s. reachable_run n cap s0 s \<and> sr_stage s = Crashed \<and> pl_accepted (sr_pool s) = [req] \<and> pl_done (sr_pool s) = []"
proof -
  have s0: "s0 = \<lparr>sr_pool = idle_pool, sr_grpc = True, sr_calls = [], sr_cron = True, sr_jobs = [], sr_stage = Serving\<rparr>"
    using assms(1) by (auto simp: reporting_Run_def Let_def split: option.splits)
  let ?s1 = "s0\<lparr>sr_calls := [req]\<rparr>"
  let ?q = "idle_pool\<lparr>pl_queue := [req], pl_accepted := [req]\<rparr>"
  let ?s2 = "s0\<lparr>sr_pool := ?q\<rparr>"
  let ?s3 = "?s2\<lparr>sr_grpc := False, sr_stage := InGracefulStop\<rparr>"
  let ?s4 = "?s3\<lparr>sr_stage := InWorkerStop\<rparr>"
  let ?s5 = "?s4\<lparr>sr_pool := ?q\<lparr>pl_closed := True\<rparr>, sr_stage := InWait\<rparr>"
  let ?s6 = "?s5\<lparr>sr_jobs := [req]\<rparr>"
  note ops = s0 running_def idle_pool_def EnqueueReport_def
  have "run_step n cap s0 ?s1" by (rule run_rpc [of _ req]) (simp_all add: ops rpc_begin_def)
  moreover have "run_step n cap ?s1 ?s2" by (rule run_rpc_enqueue [of _ cap req]) (use assms(2) in \<open>simp_all add: ops rpc_enqueue_def\<close>)
  moreover have "run_step n cap ?s2 ?s3" by (rule run_shutdown) (simp_all add: ops reporting_Shutdown_def)
  moreover have "run_step n cap ?s3 ?s4" by (rule run_shutdown) (simp_all add: ops reporting_Shutdown_def)
  moreover have "run_step n cap ?s4 ?s5" by (rule run_shutdown) (simp_all add: ops reporting_Shutdown_def close_jobs_def)
  moreover have "run_step n cap ?s5 ?s6" by (rule run_fire [of _ req]) (simp_all add: ops cron_fire_def)
  moreover have "run_step n cap ?s6 (?s6\<lparr>sr_stage := Crashed\<rparr>)"
    by (rule run_cron_enqueue [of _ cap req]) (simp_all add: ops cron_enqueue_def)
  ultimately have crash: "reachable_run n cap s0 (?s6\<lparr>sr_stage := Crashed\<rparr>)"
    by (meson run_start run_more)
  show ?thesis by (rule exI, intro conjI, rule crash) (simp_all add: idle_pool_def)
qed

lemma reporting_workers:
  assumes "snd (reporting_NewApp S) = Inr a" and "rpa_workers a = (n, cap)"
  shows "0 < n \<and> 0 < cap"
proof (cases "reporting_LoadRedisConfig (se_os S)")
  case (Inr c)
  with assms show ?thesis
    by (auto simp: reporting_NewApp_def NewReportingWorker_def Let_def start_simps split: if_splits)
qed (use assms in \<open>auto simp: reporting_NewApp_def Let_def start_simps\<close>)



end
